(* ===== verification/Prelude.thy ===== *)
theory Prelude
  imports Main "HOL-Library.Word" "HOL-Library.AList" "HOL-Library.Sublist"
begin

unbundle bit_operations_syntax

text \<open>
  Shared vocabulary of the development.

  \<^item> Machine integers: \<open>u8\<close>, \<open>u16\<close>, \<open>u32\<close>, \<open>u64\<close> are words of the source's width, so that
    subtraction of time stamps and increments wrap as the C++ does.
  \<^item> \<open>std::string\<close> is \<open>string\<close> (one \<open>char\<close> per byte); \<open>std::vector<uint8_t>\<close> is \<open>bytes\<close>;
    \<open>byte_of\<close> and \<open>char_at\<close> are the casts between them.
  \<^item> \<open>std::string::find\<close> and \<open>substr\<close>, with \<open>npos\<close> as \<open>None\<close>.
  \<^item> \<open>std::unordered_map\<close> is an association list. Its order is the (unspecified) iteration
    order, and every theorem quantifies over all lists, so over all iteration orders. The
    locale \<open>keyed_store\<close> states what the components rely on.
  \<^item> The locales \<open>wire_codec\<close> (round-trip framing), \<open>state_system\<close> (reachability and
    invariants), \<open>data_refinement\<close> (implementation against an abstract machine) and \<open>bounded_log\<close> (queues with a cap) are the interfaces the components
    interpret.
\<close>

named_theorems umap_simps "lookups after updates of an unordered map"
named_theorems wire_defs "definitions of a wire format"

type_synonym u8 = "8 word"
type_synonym u16 = "16 word"
type_synonym u32 = "32 word"
type_synonym u64 = "64 word"
type_synonym bytes = "u8 list"
type_synonym ('k, 'v) umap = "('k \<times> 'v) list"

abbreviation UINT32_MAX :: u32 where
  "UINT32_MAX \<equiv> 0xFFFFFFFF"

section \<open>Bytes and characters\<close>

definition byte_of :: "char \<Rightarrow> u8" where
  "byte_of c = word_of_nat (of_char c)"

definition char_at :: "u8 \<Rightarrow> char" where
  "char_at b = char_of (unat b)"

lemma char_at_byte_of [simp]: "char_at (byte_of c) = c"
  by (simp add: char_at_def byte_of_def unat_of_nat)

lemma byte_of_char_at [simp]: "byte_of (char_at b) = b"
proof -
  have "unat b < 256" using unsigned_less [of b] by simp
  then show ?thesis by (simp add: char_at_def byte_of_def)
qed

lemma byte_of_inject [simp]: "byte_of c = byte_of d \<longleftrightarrow> c = d"
  by (metis char_at_byte_of)

lemma char_at_comp_byte_of [simp]: "char_at \<circ> byte_of = id"
  by (simp add: fun_eq_iff)

lemma byte_of_comp_char_at [simp]: "byte_of \<circ> char_at = id"
  by (simp add: fun_eq_iff)

lemma uint_neq_minus_one [simp]: "uint w \<noteq> -1"
  using uint_nonnegative [of w] by linarith

section \<open>Searching strings\<close>

text \<open>\<open>s.find(sub)\<close>: the first position where \<open>sub\<close> occurs, \<open>None\<close> for \<open>npos\<close>.\<close>

fun find_str :: "'a list \<Rightarrow> 'a list \<Rightarrow> nat option" where
  "find_str sub [] = (if sub = [] then Some 0 else None)"
| "find_str sub (c # cs) =
     (if prefix sub (c # cs) then Some 0 else map_option Suc (find_str sub cs))"

text \<open>\<open>s.find(sub, pos)\<close>.\<close>

definition find_from :: "'a list \<Rightarrow> 'a list \<Rightarrow> nat \<Rightarrow> nat option" where
  "find_from sub s pos =
     (if length s < pos then None else map_option ((+) pos) (find_str sub (drop pos s)))"

text \<open>\<open>s.substr(pos, n)\<close> for \<open>pos \<le> s.size()\<close>.\<close>

definition substr :: "'a list \<Rightarrow> nat \<Rightarrow> nat \<Rightarrow> 'a list" where
  "substr s pos n = take n (drop pos s)"

lemma find_str_Some_bound: "find_str sub s = Some i \<Longrightarrow> i + length sub \<le> length s"
proof (induction s arbitrary: i)
  case Nil
  then show ?case by (simp split: if_splits)
next
  case (Cons c cs)
  show ?case
  proof (cases "prefix sub (c # cs)")
    case True
    with Cons.prems show ?thesis by (auto dest: prefix_length_le)
  next
    case False
    with Cons obtain j where "find_str sub cs = Some j" "i = Suc j" by auto
    with Cons.IH show ?thesis by fastforce
  qed
qed

lemma find_str_Some_prefix: "find_str sub s = Some i \<Longrightarrow> prefix sub (drop i s)"
proof (induction s arbitrary: i)
  case Nil
  then show ?case by (simp split: if_splits)
next
  case (Cons c cs)
  then show ?case by (auto split: if_splits)
qed

lemma find_str_Some_least: "find_str sub s = Some i \<Longrightarrow> j < i \<Longrightarrow> \<not> prefix sub (drop j s)"
proof (induction s arbitrary: i j)
  case Nil
  then show ?case by (simp split: if_splits)
next
  case (Cons c cs)
  then show ?case by (cases j) (auto split: if_splits)
qed

lemma find_str_None_iff: "find_str sub s = None \<longleftrightarrow> \<not> sublist sub s"
proof (induction s)
  case Nil
  then show ?case by simp
next
  case (Cons c cs)
  then show ?case by (auto simp: sublist_Cons_right)
qed

lemma find_str_prefix [simp]: "find_str sub (sub @ s) = Some 0"
  by (cases "sub @ s") (simp_all, metis prefixI)

text \<open>
  A pattern whose first character does not recur in it cannot straddle text and a copy of
  itself: the copy is the first occurrence unless the text holds one already.
\<close>

lemma find_str_skip:
  assumes "\<And>j. j < length p \<Longrightarrow> \<not> prefix sub (drop j (p @ s))"
  shows "find_str sub (p @ s) = map_option ((+) (length p)) (find_str sub s)"
  using assms
proof (induction p)
  case Nil
  then show ?case by (simp add: option.map_ident_strong)
next
  case (Cons c p)
  have "\<not> prefix sub (c # p @ s)" using Cons.prems [of 0] by simp
  moreover have "find_str sub (p @ s) = map_option ((+) (length p)) (find_str sub s)"
    by (rule Cons.IH) (use Cons.prems [of "Suc _"] in simp)
  ultimately show ?case by (simp add: option.map_comp comp_def)
qed

lemma find_str_before_copy:
  assumes nin: "\<not> sublist (m # ms) p" and hd: "m \<notin> set ms"
  shows "find_str (m # ms) (p @ (m # ms) @ s) = Some (length p)"
proof -
  have "\<not> prefix (m # ms) (drop j (p @ (m # ms) @ s))" if j: "j < length p" for j
  proof
    assume "prefix (m # ms) (drop j (p @ (m # ms) @ s))"
    then have pre: "prefix (m # ms) (drop j p @ (m # ms) @ s)" using j by simp
    show False
    proof (cases "length (m # ms) \<le> length (drop j p)")
      case True
      with pre have "prefix (m # ms) (drop j p)"
        by (metis append_eq_append_conv_if prefix_def prefix_length_prefix prefixI)
      then have "sublist (m # ms) p"
        by (metis append_take_drop_id prefix_def sublist_appendI)
      with nin show False by simp
    next
      case False
      let ?k = "length (drop j p)"
      have k: "0 < ?k" "?k < length (m # ms)" using j False by auto
      have "(m # ms) ! ?k = (drop j p @ (m # ms) @ s) ! ?k"
        using pre k(2) by (metis nth_append prefix_def)
      also have "\<dots> = m" by (simp add: nth_append)
      finally have "ms ! (?k - 1) = m" using k(1) by (simp add: nth_Cons')
      moreover have "?k - 1 < length ms" using k by simp
      ultimately show False using hd by (metis nth_mem)
    qed
  qed
  then have "find_str (m # ms) (p @ (m # ms) @ s) =
      map_option ((+) (length p)) (find_str (m # ms) ((m # ms) @ s))"
    by (rule find_str_skip)
  then show ?thesis using find_str_prefix [of "m # ms" s] by simp
qed

section \<open>Decimal text\<close>

text \<open>What \<open>std::to_string\<close> and \<open>operator<<\<close> print of an integer.\<close>

definition digit_char :: "nat \<Rightarrow> char" where
  "digit_char d = char_of (48 + d)"

definition is_digit :: "char \<Rightarrow> bool" where
  "is_digit c \<longleftrightarrow> 48 \<le> (of_char c :: nat) \<and> (of_char c :: nat) \<le> 57"

definition digit_value :: "char \<Rightarrow> nat" where
  "digit_value c = of_char c - 48"

fun dec_nat :: "nat \<Rightarrow> string" where
  "dec_nat n = (if n < 10 then [digit_char n] else dec_nat (n div 10) @ [digit_char (n mod 10)])"

declare dec_nat.simps [simp del]

definition dec_int :: "int \<Rightarrow> string" where
  "dec_int i = (if i < 0 then CHR ''-'' # dec_nat (nat (- i)) else dec_nat (nat i))"

definition dec_value :: "string \<Rightarrow> nat" where
  "dec_value s = foldl (\<lambda>acc c. 10 * acc + digit_value c) 0 s"

lemma digit_char_value [simp]: "d < 10 \<Longrightarrow> digit_value (digit_char d) = d"
  by (simp add: digit_value_def digit_char_def)

lemma is_digit_char [simp]: "d < 10 \<Longrightarrow> is_digit (digit_char d)"
  by (simp add: is_digit_def digit_char_def)

lemma dec_nat_digits: "list_all is_digit (dec_nat n)"
  by (induction n rule: dec_nat.induct) (subst dec_nat.simps, simp)

lemma dec_nat_nonempty [simp]: "dec_nat n \<noteq> []"
  by (subst dec_nat.simps) simp

lemma dec_value_dec_nat [simp]: "dec_value (dec_nat n) = n"
proof (induction n rule: dec_nat.induct)
  case (1 n)
  then show ?case by (subst dec_nat.simps) (simp add: dec_value_def)
qed

lemma dec_nat_inject [simp]: "dec_nat m = dec_nat n \<longleftrightarrow> m = n"
  by (metis dec_value_dec_nat)

lemma dec_int_chars: "c \<in> set (dec_int i) \<Longrightarrow> c = CHR ''-'' \<or> is_digit c"
  using dec_nat_digits by (auto simp: dec_int_def list_all_iff split: if_splits)

lemma dec_nat_not_minus: "dec_nat n \<noteq> CHR ''-'' # s"
proof
  assume "dec_nat n = CHR ''-'' # s"
  with dec_nat_digits [of n] show False by (simp add: is_digit_def)
qed

lemma dec_int_inject [simp]: "dec_int i = dec_int j \<longleftrightarrow> i = j"
proof
  assume eq: "dec_int i = dec_int j"
  show "i = j"
  proof (cases "i < 0")
    case True
    then have "j < 0" using eq dec_nat_not_minus by (metis dec_int_def)
    with True eq show ?thesis by (simp add: dec_int_def)
  next
    case False
    then have "\<not> j < 0" using eq dec_nat_not_minus by (metis dec_int_def)
    with False eq show ?thesis by (simp add: dec_int_def)
  qed
qed simp

section \<open>Unordered maps\<close>

abbreviation um_find :: "('k, 'v) umap \<Rightarrow> 'k \<Rightarrow> 'v option" where
  "um_find \<equiv> map_of"

abbreviation um_put :: "'k \<Rightarrow> 'v \<Rightarrow> ('k, 'v) umap \<Rightarrow> ('k, 'v) umap" where
  "um_put \<equiv> AList.update"

abbreviation um_erase :: "'k \<Rightarrow> ('k, 'v) umap \<Rightarrow> ('k, 'v) umap" where
  "um_erase \<equiv> AList.delete"

definition um_ok :: "('k, 'v) umap \<Rightarrow> bool" where
  "um_ok m \<longleftrightarrow> distinct (map fst m)"

text \<open>What the components rely on of a keyed container.\<close>

locale keyed_store =
  fixes find :: "'m \<Rightarrow> 'k \<Rightarrow> 'v option"
    and put :: "'k \<Rightarrow> 'v \<Rightarrow> 'm \<Rightarrow> 'm"
    and erase :: "'k \<Rightarrow> 'm \<Rightarrow> 'm"
    and valid :: "'m \<Rightarrow> bool"
  assumes find_put: "valid m \<Longrightarrow> find (put k v m) j = (if j = k then Some v else find m j)"
    and find_erase: "valid m \<Longrightarrow> find (erase k m) j = (if j = k then None else find m j)"
    and valid_put: "valid m \<Longrightarrow> valid (put k v m)"
    and valid_erase: "valid m \<Longrightarrow> valid (erase k m)"
begin

lemma find_put_same: "valid m \<Longrightarrow> find (put k v m) k = Some v"
  by (simp add: find_put)

lemma find_erase_same: "valid m \<Longrightarrow> find (erase k m) k = None"
  by (simp add: find_erase)

lemma find_put_put: "valid m \<Longrightarrow> find (put k w (put k v m)) j = find (put k w m) j"
  by (simp add: find_put valid_put)

lemma find_erase_put: "valid m \<Longrightarrow> find (erase k (put k v m)) j = find (erase k m) j"
  by (simp add: find_erase find_put valid_put)

lemma frame: "valid m \<Longrightarrow> j \<noteq> k \<Longrightarrow> find (put k v m) j = find m j \<and> find (erase k m) j = find m j"
  by (simp add: find_put find_erase)

end

lemma um_find_put [umap_simps]: "um_find (um_put k v m) j = (if j = k then Some v else um_find m j)"
  by (simp add: update_conv')

lemma um_find_erase [umap_simps]: "um_find (um_erase k m) j = (if j = k then None else um_find m j)"
  by (simp add: delete_conv')

interpretation um: keyed_store um_find um_put um_erase um_ok
  by unfold_locales (simp_all add: umap_simps um_ok_def distinct_update distinct_delete)

lemma um_ok_Nil [simp]: "um_ok []"
  by (simp add: um_ok_def)

lemma um_ok_put [simp]: "um_ok m \<Longrightarrow> um_ok (um_put k v m)"
  by (rule um.valid_put)

lemma um_ok_erase [simp]: "um_ok m \<Longrightarrow> um_ok (um_erase k m)"
  by (rule um.valid_erase)

lemma um_in_set_iff: "um_ok m \<Longrightarrow> (k, v) \<in> set m \<longleftrightarrow> um_find m k = Some v"
  by (simp add: um_ok_def)

lemma um_put_mem: "(k, v) \<in> set (um_put k v m)"
  by (induction m) auto

lemma um_keys_put [simp]: "fst ` set (um_put k v m) = insert k (fst ` set m)"
  by (induction m) auto

lemma um_keys_erase [simp]: "fst ` set (um_erase k m) = fst ` set m - {k}"
  by (induction m) auto

lemma set_map_filter: "set (List.map_filter f xs) = {y. \<exists>x \<in> set xs. f x = Some y}"
  by (induction xs) (auto split: option.splits)

lemma find_in_place:
  assumes "um_ok m" "List.find P m = Some (k, v)" "P (k, w)"
  shows "List.find P (um_put k w m) = Some (k, w)"
  using assms
proof (induction m)
  case (Cons p m)
  obtain j u where p: "p = (j, u)" by (cases p)
  show ?case
  proof (cases "P p")
    case True
    then show ?thesis using Cons.prems p by auto
  next
    case False
    then have f: "List.find P m = Some (k, v)" using Cons.prems(2) by simp
    then have "(k, v) \<in> set m" by (metis find_Some_iff nth_mem)
    then have "k \<in> fst ` set m" by force
    then have "j \<noteq> k" using Cons.prems(1) p by (auto simp: um_ok_def)
    then show ?thesis using Cons False f p by (auto simp: um_ok_def)
  qed
qed simp

lemma um_ok_filter [simp]: "um_ok m \<Longrightarrow> um_ok (filter P m)"
  by (simp add: um_ok_def distinct_map_filter)

lemma um_find_filter:
  "um_ok m \<Longrightarrow> um_find (filter P m) k = (case um_find m k of Some v \<Rightarrow> if P (k, v) then Some v else None | None \<Rightarrow> None)"
proof (induction m)
  case (Cons e m)
  obtain j w where e: "e = (j, w)" by (cases e)
  have "um_find m j = None" using Cons.prems e by (simp add: um_ok_def map_of_eq_None_iff)
  then show ?case using Cons e by (auto simp: um_ok_def)
qed simp

lemma um_erase_filter: "um_erase k m = filter (\<lambda>e. fst e \<noteq> k) m"
  by (induction m) auto

lemma um_put_absent: "um_find m k = None \<Longrightarrow> um_put k v m = m @ [(k, v)]"
  by (induction m) (auto split: if_splits)

lemma um_find_snoc: "um_find m k = None \<Longrightarrow> um_find (m @ [(k, v)]) j = (if j = k then Some v else um_find m j)"
  by (simp add: map_add_def split: option.split)

text \<open>\<open>emplace\<close> keeps the value that is there.\<close>

definition um_emplace :: "'k \<Rightarrow> 'v \<Rightarrow> ('k, 'v) umap \<Rightarrow> ('k, 'v) umap" where
  "um_emplace k v m = (case um_find m k of None \<Rightarrow> um_put k v m | Some _ \<Rightarrow> m)"

lemma emplace_absent: "um_find m k = None \<Longrightarrow> um_emplace k v m = m @ [(k, v)]"
  by (simp add: um_emplace_def um_put_absent)

text \<open>The scan for the entry with the least key figure; the first of several wins.\<close>

fun oldest_by :: "('v \<Rightarrow> 'a :: linorder) \<Rightarrow> ('k, 'v) umap \<Rightarrow> ('k \<times> 'v) option" where
  "oldest_by f [] = None"
| "oldest_by f (e # es) = Some (fold (\<lambda>y m. if f (snd y) < f (snd m) then y else m) es e)"

abbreviation older :: "('v \<Rightarrow> 'a :: linorder) \<Rightarrow> 'k \<times> 'v \<Rightarrow> 'k \<times> 'v \<Rightarrow> 'k \<times> 'v" where
  "older f y m \<equiv> if f (snd y) < f (snd m) then y else m"

lemma oldest_fold:
  "fold (older f) es e \<in> set (e # es)"
  "f (snd (fold (older f) es e)) \<le> f (snd e)"
  "y \<in> set es \<Longrightarrow> f (snd (fold (older f) es e)) \<le> f (snd y)"
proof (induction es arbitrary: e)
  case (Cons x es)
  { case 1 show ?case using Cons(1) [of "older f x e"] by auto }
  { case 2 show ?case using Cons(2) [of "older f x e"] by (auto split: if_splits) }
  { case 3 then show ?case using Cons(2,3) [of "older f x e"] by (auto split: if_splits) }
qed simp_all

lemma oldest_by_mem: "oldest_by f m = Some e \<Longrightarrow> e \<in> set m"
  using oldest_fold(1) [of f "tl m" "hd m"] by (cases m) auto

lemma oldest_by_least: "oldest_by f m = Some e \<Longrightarrow> y \<in> set m \<Longrightarrow> f (snd e) \<le> f (snd y)"
  using oldest_fold(2) [of f "tl m" "hd m"] oldest_fold(3) [of y "tl m" f "hd m"] by (cases m) auto

lemma oldest_by_None [simp]: "oldest_by f m = None \<longleftrightarrow> m = []"
  by (cases m) simp_all

lemma length_erase_mem: "k \<in> fst ` set m \<Longrightarrow> length (um_erase k m) < length m"
  by (auto simp: AList.delete_eq image_iff intro: length_filter_less)

section \<open>Wire codecs\<close>

text \<open>
  A codec whose decoder inverts its encoder. The strict version also refuses everything the
  encoder does not produce, so the wire form of a message is unique.
\<close>

locale wire_codec =
  fixes encode :: "'m \<Rightarrow> 'b option"
    and decode :: "'b \<Rightarrow> 'm option"
  assumes decode_encode: "encode m = Some b \<Longrightarrow> decode b = Some m"
begin

lemma encode_inject: "encode m = Some b \<Longrightarrow> encode m' = Some b \<Longrightarrow> m = m'"
  using decode_encode [of m b] decode_encode [of m' b] by simp

end

locale strict_wire_codec = wire_codec +
  assumes encode_decode: "decode b = Some m \<Longrightarrow> encode m = Some b"
begin

lemma decode_iff_encode: "decode b = Some m \<longleftrightarrow> encode m = Some b"
  using decode_encode encode_decode by blast

lemma decode_inject: "decode b = Some m \<Longrightarrow> decode b' = Some m \<Longrightarrow> b = b'"
  by (metis encode_decode option.inject)

end

section \<open>State systems\<close>

text \<open>
  A component behind a mutex is a step relation: each call is one atomic step, so every
  interleaving of threads is a path of the relation.
\<close>

locale state_system =
  fixes initial :: "'s \<Rightarrow> bool"
    and step :: "'s \<Rightarrow> 's \<Rightarrow> bool"
    and inv :: "'s \<Rightarrow> bool"
  assumes inv_initial: "initial s \<Longrightarrow> inv s"
    and inv_step: "step s t \<Longrightarrow> inv s \<Longrightarrow> inv t"
begin

lemma inv_path: "step\<^sup>*\<^sup>* s t \<Longrightarrow> inv s \<Longrightarrow> inv t"
  by (induction rule: rtranclp_induct) (auto intro: inv_step)

lemma inv_reachable: "initial s \<Longrightarrow> step\<^sup>*\<^sup>* s t \<Longrightarrow> inv t"
  by (blast intro: inv_initial inv_path)

end

text \<open>A sequence of operations in a row, with their results.\<close>

fun run_all :: "('op \<Rightarrow> 's \<Rightarrow> 's \<times> 'out) \<Rightarrow> 'op list \<Rightarrow> 's \<Rightarrow> 's \<times> 'out list" where
  "run_all f [] s = (s, [])"
| "run_all f (p # ps) s = (case f p s of (s', r) \<Rightarrow> case run_all f ps s' of (t, rs) \<Rightarrow> (t, r # rs))"

text \<open>
  An implementation against an abstract machine with the same operations and the same visible
  results: one simulation step gives agreement of every run.
\<close>

locale data_refinement =
  fixes abs :: "'c \<Rightarrow> 'a"
    and inv :: "'c \<Rightarrow> bool"
    and impl :: "'op \<Rightarrow> 'c \<Rightarrow> 'c \<times> 'out"
    and spec :: "'op \<Rightarrow> 'a \<Rightarrow> 'a \<times> 'out"
  assumes sim: "inv s \<Longrightarrow> impl p s = (s', r) \<Longrightarrow> inv s' \<and> spec p (abs s) = (abs s', r)"
begin

lemma run_agrees:
  "inv s \<Longrightarrow> inv (fst (run_all impl ps s)) \<and>
     run_all spec ps (abs s) = (abs (fst (run_all impl ps s)), snd (run_all impl ps s))"
proof (induction ps arbitrary: s)
  case (Cons p ps)
  obtain s' r where step: "impl p s = (s', r)" by fastforce
  with sim [OF Cons.prems step] Cons.IH [of s'] show ?case by (simp add: case_prod_beta)
qed simp

end

section \<open>Bounded logs\<close>

text \<open>
  A queue with a cap: it never grows past the cap and never invents, reorders or duplicates an
  entry, whichever end it drops from.
\<close>

locale bounded_log =
  fixes push :: "'a \<Rightarrow> 'a list \<Rightarrow> 'a list"
    and cap :: nat
  assumes push_bound: "length q \<le> cap \<Longrightarrow> length (push x q) \<le> cap"
    and push_subseq: "subseq (push x q) (q @ [x])"
begin

lemma run_bound: "length q \<le> cap \<Longrightarrow> length (fold push xs q) \<le> cap"
  by (induction xs arbitrary: q) (simp_all add: push_bound)

lemma run_subseq: "subseq (fold push xs q) (q @ xs)"
proof (induction xs arbitrary: q)
  case Nil
  then show ?case by simp
next
  case (Cons x xs)
  have "subseq (fold push xs (push x q)) (push x q @ xs)" by (rule Cons.IH)
  moreover have "subseq (push x q @ xs) ((q @ [x]) @ xs)"
    by (rule list_emb_append_mono [OF push_subseq]) simp
  ultimately have "subseq (fold push xs (push x q)) ((q @ [x]) @ xs)"
    by (rule subseq_order.order_trans)
  then show ?case by simp
qed

end

end
