(* ===== verification/PendingDelivery.thy ===== *)
theory PendingDelivery
  imports Prelude
begin

text \<open>
  The delivery tracker of \<open>source/V2TIMManagerImpl.cpp\<close>: a text that went out as several Tox
  messages is a root, each Tox message number a fragment of it; toxcore's receipts tick the
  fragments off, and the last one announces the message as delivered.

  Each function holds \<open>pending_deliveries_mutex_\<close> and is one step. The steady clock is an
  argument, in nanoseconds. The result of \<open>HandleFriendReadReceipt\<close> is the root it completed: the
  rest of that function copies its two ids into a receipt and hands it to the message manager.
\<close>

record pending_root =
  pr_msg_id :: string
  pr_user_id :: string
  pr_friend :: u32
  remaining_fragments :: nat
  created_at :: int

record pending_deliveries =
  delivery_roots :: "(u64, pending_root) umap"
  delivery_fragments :: "(u64, u64) umap"
  next_root_id :: u64

definition no_deliveries :: pending_deliveries where
  "no_deliveries = \<lparr>delivery_roots = [], delivery_fragments = [], next_root_id = 1\<rparr>"

definition kPendingDeliveryTtl :: int where "kPendingDeliveryTtl = 10 * 60 * 1000000000"
definition kMaxPendingDeliveries :: nat where "kMaxPendingDeliveries = 4096"

definition PendingDeliveryKey :: "u32 \<Rightarrow> u32 \<Rightarrow> u64" where
  "PendingDeliveryKey friend_number tox_message_number =
     push_bit 32 (ucast friend_number) OR ucast tox_message_number"

definition RemovePendingDeliveryRootLocked :: "u64 \<Rightarrow> pending_deliveries \<Rightarrow> pending_deliveries" where
  "RemovePendingDeliveryRootLocked root_id s =
     s\<lparr>delivery_roots := um_erase root_id (delivery_roots s),
       delivery_fragments := filter (\<lambda>e. snd e \<noteq> root_id) (delivery_fragments s)\<rparr>"

definition PrunePendingDeliveriesLocked :: "int \<Rightarrow> pending_deliveries \<Rightarrow> pending_deliveries" where
  "PrunePendingDeliveriesLocked now s =
     fold (\<lambda>e. if now - created_at (snd e) \<ge> kPendingDeliveryTtl then RemovePendingDeliveryRootLocked (fst e) else id)
       (delivery_roots s) s"

function evict_loop :: "pending_deliveries \<Rightarrow> pending_deliveries" where
  "evict_loop s =
     (if length (delivery_roots s) \<ge> kMaxPendingDeliveries
      then case oldest_by created_at (delivery_roots s) of
             None \<Rightarrow> s
           | Some oldest \<Rightarrow> evict_loop (RemovePendingDeliveryRootLocked (fst oldest) s)
      else s)"
  by pat_completeness auto
termination
  by (relation "measure (\<lambda>s. length (delivery_roots s))")
    (auto simp: RemovePendingDeliveryRootLocked_def intro!: length_erase_mem dest!: oldest_by_mem)

declare evict_loop.simps [simp del]

definition drop_existing :: "u32 \<Rightarrow> u32 \<Rightarrow> pending_deliveries \<Rightarrow> pending_deliveries" where
  "drop_existing friend_number message_number s =
     (case um_find (delivery_fragments s) (PendingDeliveryKey friend_number message_number) of
        None \<Rightarrow> s
      | Some root \<Rightarrow> RemovePendingDeliveryRootLocked root s)"

definition TrackPendingDelivery ::
  "int \<Rightarrow> u32 \<Rightarrow> u32 list \<Rightarrow> string \<Rightarrow> string \<Rightarrow> pending_deliveries \<Rightarrow> pending_deliveries" where
  "TrackPendingDelivery now friend_number numbers msg_id user_id s =
     (if numbers = [] then s
      else
        let s1 = evict_loop (PrunePendingDeliveriesLocked now s);
            s2 = fold (drop_existing friend_number) numbers s1;
            root_id = next_root_id s2;
            root = \<lparr>pr_msg_id = msg_id, pr_user_id = user_id, pr_friend = friend_number,
                    remaining_fragments = length numbers, created_at = now\<rparr> in
        s2\<lparr>next_root_id := next_root_id s2 + 1,
           delivery_roots := um_emplace root_id root (delivery_roots s2),
           delivery_fragments :=
             fold (\<lambda>n. um_emplace (PendingDeliveryKey friend_number n) root_id) numbers (delivery_fragments s2)\<rparr>)"

definition HandleFriendReadReceipt ::
  "int \<Rightarrow> u32 \<Rightarrow> u32 \<Rightarrow> pending_deliveries \<Rightarrow> pending_deliveries \<times> pending_root option" where
  "HandleFriendReadReceipt now friend_number number s =
     (let s1 = PrunePendingDeliveriesLocked now s; key = PendingDeliveryKey friend_number number in
      case um_find (delivery_fragments s1) key of
        None \<Rightarrow> (s1, None)
      | Some root_id \<Rightarrow>
          let s2 = s1\<lparr>delivery_fragments := um_erase key (delivery_fragments s1)\<rparr> in
          (case um_find (delivery_roots s2) root_id of
             None \<Rightarrow> (s2, None)
           | Some root \<Rightarrow>
               let root1 = (if remaining_fragments root > 0
                            then root\<lparr>remaining_fragments := remaining_fragments root - 1\<rparr> else root);
                   s3 = s2\<lparr>delivery_roots := um_put root_id root1 (delivery_roots s2)\<rparr> in
               if remaining_fragments root1 = 0
               then (RemovePendingDeliveryRootLocked root_id s3, Some root1) else (s3, None)))"

definition ClearPendingDeliveries :: "pending_deliveries \<Rightarrow> pending_deliveries" where
  "ClearPendingDeliveries s = s\<lparr>delivery_roots := [], delivery_fragments := []\<rparr>"

definition ClearPendingDeliveriesForFriend :: "u32 \<Rightarrow> pending_deliveries \<Rightarrow> pending_deliveries" where
  "ClearPendingDeliveriesForFriend friend_number s =
     fold RemovePendingDeliveryRootLocked
       (map fst (filter (\<lambda>e. pr_friend (snd e) = friend_number) (delivery_roots s))) s"

section \<open>Keys\<close>

lemma key_parts:
  "ucast (PendingDeliveryKey f n) = n" "ucast (drop_bit 32 (PendingDeliveryKey f n)) = f"
  by (rule bit_word_eqI; auto simp: PendingDeliveryKey_def bit_simps dest: bit_imp_le_length)+

lemma key_inject: "PendingDeliveryKey f n = PendingDeliveryKey f' n' \<longleftrightarrow> f = f' \<and> n = n'"
  by (metis key_parts)

section \<open>Removing roots\<close>

lemma fold_remove:
  "fold RemovePendingDeliveryRootLocked ids s =
     s\<lparr>delivery_roots := filter (\<lambda>e. fst e \<notin> set ids) (delivery_roots s),
       delivery_fragments := filter (\<lambda>e. snd e \<notin> set ids) (delivery_fragments s)\<rparr>"
  by (induction ids arbitrary: s)
    (simp_all add: RemovePendingDeliveryRootLocked_def um_erase_filter conj_commute)

lemma prune_remove:
  "PrunePendingDeliveriesLocked now s =
     fold RemovePendingDeliveryRootLocked
       (map fst (filter (\<lambda>e. now - created_at (snd e) \<ge> kPendingDeliveryTtl) (delivery_roots s))) s"
  by (simp add: PrunePendingDeliveriesLocked_def fold_map fold_filter comp_def)

section \<open>The invariant\<close>

abbreviation open_fragments :: "u64 \<Rightarrow> (u64, u64) umap \<Rightarrow> nat" where
  "open_fragments r fr \<equiv> length (filter (\<lambda>e. snd e = r) fr)"

text \<open>
  Every fragment belongs to a root of the table and to its friend; a root waits for exactly the
  fragments that are in the table, at least one; ids are below the counter; the table is bounded.
\<close>

definition pd_inv :: "pending_deliveries \<Rightarrow> bool" where
  "pd_inv s \<longleftrightarrow> um_ok (delivery_roots s) \<and> um_ok (delivery_fragments s) \<and>
     (\<forall>k r. um_find (delivery_fragments s) k = Some r \<longrightarrow>
        (\<exists>root. um_find (delivery_roots s) r = Some root \<and> ucast (drop_bit 32 k) = pr_friend root)) \<and>
     (\<forall>r root. um_find (delivery_roots s) r = Some root \<longrightarrow>
        remaining_fragments root = open_fragments r (delivery_fragments s) \<and> remaining_fragments root > 0 \<and>
        r < next_root_id s) \<and>
     length (delivery_roots s) \<le> kMaxPendingDeliveries"

lemma pd_inv_initial: "pd_inv no_deliveries"
  by (simp add: pd_inv_def no_deliveries_def)

lemma pd_invI:
  assumes "um_ok (delivery_roots s)" "um_ok (delivery_fragments s)" "length (delivery_roots s) \<le> kMaxPendingDeliveries"
    and "\<And>k r. um_find (delivery_fragments s) k = Some r \<Longrightarrow>
      \<exists>root. um_find (delivery_roots s) r = Some root \<and> ucast (drop_bit 32 k) = pr_friend root"
    and "\<And>r root. um_find (delivery_roots s) r = Some root \<Longrightarrow>
      remaining_fragments root = open_fragments r (delivery_fragments s) \<and> remaining_fragments root > 0 \<and> r < next_root_id s"
  shows "pd_inv s"
  using assms unfolding pd_inv_def by blast+

lemma pd_invD:
  assumes "pd_inv s"
  shows "um_ok (delivery_roots s)" "um_ok (delivery_fragments s)" "length (delivery_roots s) \<le> kMaxPendingDeliveries"
    and "um_find (delivery_fragments s) k = Some r \<Longrightarrow>
      \<exists>root. um_find (delivery_roots s) r = Some root \<and> ucast (drop_bit 32 k) = pr_friend root"
    and "um_find (delivery_roots s) r = Some root \<Longrightarrow>
      remaining_fragments root = open_fragments r (delivery_fragments s) \<and> remaining_fragments root > 0 \<and> r < next_root_id s"
  using assms unfolding pd_inv_def by blast+

lemma pd_inv_fold_remove:
  assumes I: "pd_inv s" shows "pd_inv (fold RemovePendingDeliveryRootLocked ids s)"
proof -
  define t where "t = fold RemovePendingDeliveryRootLocked ids s"
  have t: "delivery_roots t = filter (\<lambda>e. fst e \<notin> set ids) (delivery_roots s)"
    "delivery_fragments t = filter (\<lambda>e. snd e \<notin> set ids) (delivery_fragments s)" "next_root_id t = next_root_id s"
    by (simp_all add: t_def fold_remove)
  note D = pd_invD [OF I]
  have c: "r \<notin> set ids \<Longrightarrow> open_fragments r (filter (\<lambda>e. snd e \<notin> set ids) fr) = open_fragments r fr" for r fr
    by (induction fr) auto
  have "pd_inv t"
  proof (rule pd_invI)
    show "um_ok (delivery_roots t)" "um_ok (delivery_fragments t)" using D(1,2) by (simp_all add: t)
    show "length (delivery_roots t) \<le> kMaxPendingDeliveries" unfolding t using D(3) le_trans [OF length_filter_le] by blast
    show "\<exists>root. um_find (delivery_roots t) r = Some root \<and> ucast (drop_bit 32 k) = pr_friend root"
      if "um_find (delivery_fragments t) k = Some r" for k r
      using that D(4) [of k r] D(1,2) by (auto simp: t um_find_filter split: option.splits if_splits)
    show "remaining_fragments root = open_fragments r (delivery_fragments t) \<and> remaining_fragments root > 0 \<and> r < next_root_id t"
      if "um_find (delivery_roots t) r = Some root" for r root
    proof -
      have f: "um_find (delivery_roots s) r = Some root" "r \<notin> set ids"
        using that D(1) by (auto simp: t um_find_filter split: option.splits if_splits)
      show ?thesis unfolding t c [OF f(2)] using D(5) [OF f(1)] by blast
    qed
  qed
  then show ?thesis by (simp add: t_def)
qed

lemma pd_inv_remove: "pd_inv s \<Longrightarrow> pd_inv (RemovePendingDeliveryRootLocked r s)"
  using pd_inv_fold_remove [of s "[r]"] by simp

lemma pd_inv_prune: "pd_inv s \<Longrightarrow> pd_inv (PrunePendingDeliveriesLocked now s)"
  by (simp add: prune_remove pd_inv_fold_remove)

lemma pd_inv_evict: "pd_inv s \<Longrightarrow> pd_inv (evict_loop s)"
proof (induction s rule: evict_loop.induct)
  case (1 s)
  then show ?case by (subst evict_loop.simps) (auto split: option.split simp: pd_inv_remove)
qed

lemma evict_room: "length (delivery_roots (evict_loop s)) < kMaxPendingDeliveries"
proof (induction s rule: evict_loop.induct)
  case (1 s)
  then show ?case
    by (subst evict_loop.simps) (auto split: option.split simp: kMaxPendingDeliveries_def)
qed

lemma pd_inv_drop: "pd_inv s \<Longrightarrow> pd_inv (drop_existing f n s)"
  by (simp add: drop_existing_def pd_inv_remove split: option.split)

lemma pd_inv_drops: "pd_inv s \<Longrightarrow> pd_inv (fold (drop_existing f) ns s)"
  by (induction ns arbitrary: s) (simp_all add: pd_inv_drop)

section \<open>Tracking\<close>

lemma drop_keeps_absent:
  "pd_inv s \<Longrightarrow> um_find (delivery_fragments s) k = None \<Longrightarrow> um_find (delivery_fragments (drop_existing f n s)) k = None"
  by (auto simp: drop_existing_def RemovePendingDeliveryRootLocked_def um_find_filter pd_invD split: option.split)

lemma drops_keep_absent:
  "pd_inv s \<Longrightarrow> um_find (delivery_fragments s) k = None \<Longrightarrow> um_find (delivery_fragments (fold (drop_existing f) ns s)) k = None"
  by (induction ns arbitrary: s) (simp_all add: pd_inv_drop drop_keeps_absent)

lemma drop_existing_absent:
  "pd_inv s \<Longrightarrow> um_find (delivery_fragments (drop_existing f n s)) (PendingDeliveryKey f n) = None"
  by (auto simp: drop_existing_def RemovePendingDeliveryRootLocked_def um_find_filter pd_invD split: option.split)

lemma drops_absent:
  "pd_inv s \<Longrightarrow> n \<in> set ns \<Longrightarrow> um_find (delivery_fragments (fold (drop_existing f) ns s)) (PendingDeliveryKey f n) = None"
  by (induction ns arbitrary: s) (auto simp: pd_inv_drop drop_existing_absent drops_keep_absent)

lemma emplace_all:
  assumes "distinct ns" "\<And>n. n \<in> set ns \<Longrightarrow> um_find fr (PendingDeliveryKey f n) = None"
  shows "fold (\<lambda>n. um_emplace (PendingDeliveryKey f n) r) ns fr = fr @ map (\<lambda>n. (PendingDeliveryKey f n, r)) ns"
  using assms
proof (induction ns arbitrary: fr)
  case (Cons n ns)
  have "um_find (fr @ [(PendingDeliveryKey f n, r)]) (PendingDeliveryKey f m) = None" if "m \<in> set ns" for m
    using Cons.prems that by (auto simp: um_find_snoc key_inject map_add_def)
  then show ?case using Cons by (simp add: emplace_absent)
qed simp

lemma roots_sub:
  "fst ` set (delivery_roots (drop_existing f n s)) \<subseteq> fst ` set (delivery_roots s)"
  "length (delivery_roots (drop_existing f n s)) \<le> length (delivery_roots s)"
  by (auto simp: drop_existing_def RemovePendingDeliveryRootLocked_def length_delete_le split: option.split)

lemma drops_frame:
  "next_root_id (fold (drop_existing f) ns s) = next_root_id s"
  "length (delivery_roots (fold (drop_existing f) ns s)) \<le> length (delivery_roots s)"
proof (induction ns arbitrary: s)
  case (Cons n ns)
  { case 1 show ?case using Cons(1) by (simp add: drop_existing_def RemovePendingDeliveryRootLocked_def split: option.split) }
  { case 2 show ?case using le_trans [OF Cons(2) roots_sub(2)] by simp }
qed simp_all

text \<open>What tracking makes of a state: the new root and its fragments are added to the rest.\<close>

lemma track_eq:
  assumes "pd_inv s" "distinct ns" "ns \<noteq> []"
  shows "\<exists>s2. s2 = fold (drop_existing f) ns (evict_loop (PrunePendingDeliveriesLocked now s)) \<and> pd_inv s2 \<and> next_root_id s2 = next_root_id (evict_loop (PrunePendingDeliveriesLocked now s)) \<and>
    length (delivery_roots s2) < kMaxPendingDeliveries \<and>
    (\<forall>n\<in>set ns. um_find (delivery_fragments s2) (PendingDeliveryKey f n) = None) \<and>
    TrackPendingDelivery now f ns m u s = s2\<lparr>next_root_id := next_root_id s2 + 1,
      delivery_roots := delivery_roots s2 @ [(next_root_id s2, \<lparr>pr_msg_id = m, pr_user_id = u, pr_friend = f,
        remaining_fragments = length ns, created_at = now\<rparr>)],
      delivery_fragments := delivery_fragments s2 @ map (\<lambda>n. (PendingDeliveryKey f n, next_root_id s2)) ns\<rparr>"
proof -
  define s1 where "s1 = evict_loop (PrunePendingDeliveriesLocked now s)"
  define s2 where "s2 = fold (drop_existing f) ns s1"
  have I1: "pd_inv s1" using assms(1) by (simp add: s1_def pd_inv_evict pd_inv_prune)
  then have I2: "pd_inv s2" by (simp add: s2_def pd_inv_drops)
  have room: "length (delivery_roots s2) < kMaxPendingDeliveries"
    using drops_frame(2) [of f ns s1] evict_room [of "PrunePendingDeliveriesLocked now s"] by (simp add: s2_def s1_def)
  have absent: "um_find (delivery_fragments s2) (PendingDeliveryKey f n) = None" if "n \<in> set ns" for n
    using drops_absent [OF I1 that] by (simp add: s2_def)
  have fresh: "um_find (delivery_roots s2) (next_root_id s2) = None"
    using pd_invD(5) [OF I2, of "next_root_id s2"] by (cases "um_find (delivery_roots s2) (next_root_id s2)") auto
  show ?thesis
    using I2 room absent fresh assms(3) drops_frame(1) [of f ns s1] emplace_all [OF assms(2), of "delivery_fragments s2" f]
    unfolding TrackPendingDelivery_def Let_def s1_def [symmetric] s2_def [symmetric] by (simp add: emplace_absent)
qed

lemma remove_next: "next_root_id (RemovePendingDeliveryRootLocked r s) = next_root_id s"
  by (simp add: RemovePendingDeliveryRootLocked_def)

lemma fold_remove_next: "next_root_id (fold RemovePendingDeliveryRootLocked ids s) = next_root_id s"
  by (simp add: fold_remove)

lemma prune_next: "next_root_id (PrunePendingDeliveriesLocked now s) = next_root_id s"
  by (simp add: prune_remove fold_remove_next)

lemma evict_next: "next_root_id (evict_loop s) = next_root_id s"
proof (induction s rule: evict_loop.induct)
  case (1 s)
  then show ?case by (subst evict_loop.simps) (auto split: option.split simp: remove_next)
qed

lemma pd_inv_track:
  assumes "pd_inv s" "distinct ns" "next_root_id s < next_root_id s + 1"
  shows "pd_inv (TrackPendingDelivery now f ns m u s)"
proof (cases "ns = []")
  case True
  then show ?thesis using assms(1) by (simp add: TrackPendingDelivery_def)
next
  case False
  let ?root = "\<lparr>pr_msg_id = m, pr_user_id = u, pr_friend = f, remaining_fragments = length ns, created_at = now\<rparr>"
  from track_eq [OF assms(1,2) False, where now = now and f = f and m = m and u = u] obtain s2 where I: "pd_inv s2"
    and nx: "next_root_id s2 = next_root_id s" and room: "length (delivery_roots s2) < kMaxPendingDeliveries"
    and absent: "\<And>n. n \<in> set ns \<Longrightarrow> um_find (delivery_fragments s2) (PendingDeliveryKey f n) = None"
    and eq: "TrackPendingDelivery now f ns m u s = s2\<lparr>next_root_id := next_root_id s2 + 1,
      delivery_roots := delivery_roots s2 @ [(next_root_id s2, ?root)],
      delivery_fragments := delivery_fragments s2 @ map (\<lambda>n. (PendingDeliveryKey f n, next_root_id s2)) ns\<rparr>"
    by (auto simp: evict_next prune_next)
  define t where "t = TrackPendingDelivery now f ns m u s"
  have t: "delivery_roots t = delivery_roots s2 @ [(next_root_id s2, ?root)]" "next_root_id t = next_root_id s2 + 1"
    "delivery_fragments t = delivery_fragments s2 @ map (\<lambda>n. (PendingDeliveryKey f n, next_root_id s2)) ns"
    by (simp_all add: t_def eq)
  note D = pd_invD [OF I]
  have fresh: "um_find (delivery_roots s2) (next_root_id s2) = None"
    using D(5) [of "next_root_id s2"] by (cases "um_find (delivery_roots s2) (next_root_id s2)") auto
  have frag: "(k, r) \<in> set (delivery_fragments s2) \<Longrightarrow>
      \<exists>root. um_find (delivery_roots s2) r = Some root \<and> ucast (drop_bit 32 k) = pr_friend root" for k r
    using D(4) D(2) by (simp add: um_in_set_iff)
  have none: "open_fragments (next_root_id s2) (delivery_fragments s2) = 0"
    using frag fresh by (fastforce simp: filter_empty_conv)
  have keys: "distinct (map (\<lambda>n. PendingDeliveryKey f n) ns)"
    using assms(2) by (simp add: distinct_map inj_on_def key_inject)
  have ok: "um_ok (delivery_fragments t)"
  proof -
    have "\<forall>n\<in>set ns. PendingDeliveryKey f n \<notin> fst ` set (delivery_fragments s2)"
      using absent by (simp add: map_of_eq_None_iff)
    then have "fst ` set (delivery_fragments s2) \<inter> PendingDeliveryKey f ` set ns = {}"
      unfolding disjoint_iff by (metis imageE)
    then show ?thesis using D(2) keys by (simp add: t um_ok_def comp_def image_image)
  qed
  have "pd_inv t"
  proof (rule pd_invI)
    show "um_ok (delivery_roots t)" using D(1) fresh by (auto simp: t um_ok_def map_of_eq_None_iff)
    show "um_ok (delivery_fragments t)" by (rule ok)
    show "length (delivery_roots t) \<le> kMaxPendingDeliveries" using room by (simp add: t)
    show "\<exists>root. um_find (delivery_roots t) r = Some root \<and> ucast (drop_bit 32 k) = pr_friend root"
      if "um_find (delivery_fragments t) k = Some r" for k r
    proof -
      have "(k, r) \<in> set (delivery_fragments t)" using that by (rule map_of_SomeD)
      then show ?thesis using frag [of k r] fresh by (auto simp: t map_add_def key_parts)
    qed
    show "remaining_fragments root = open_fragments r (delivery_fragments t) \<and> remaining_fragments root > 0 \<and> r < next_root_id t"
      if "um_find (delivery_roots t) r = Some root" for r root
    proof (cases "r = next_root_id s2")
      case True
      then show ?thesis using that fresh none False assms(3) nx
        by (auto simp: t map_add_def filter_map comp_def simp del: length_greater_0_conv)
    next
      case other: False
      then have f: "um_find (delivery_roots s2) r = Some root" using that by (auto simp: t map_add_def split: option.splits)
      have "open_fragments r (delivery_fragments t) = open_fragments r (delivery_fragments s2)"
        using other by (simp add: t filter_map comp_def)
      then show ?thesis using D(5) [OF f] assms(3) nx t(2) by (simp only: t(2)) (metis order_less_trans)
    qed
  qed
  then show ?thesis by (simp add: t_def)
qed

section \<open>Receipts\<close>

text \<open>A receipt for a fragment in the table: it is ticked off, and the last one closes its root.\<close>

definition tick :: "u64 \<Rightarrow> u64 \<Rightarrow> pending_root \<Rightarrow> pending_deliveries \<Rightarrow> pending_deliveries" where
  "tick key r root s =
     (if remaining_fragments root = 1
      then s\<lparr>delivery_roots := um_erase r (delivery_roots s), delivery_fragments := um_erase key (delivery_fragments s)\<rparr>
      else s\<lparr>delivery_roots := um_put r (root\<lparr>remaining_fragments := remaining_fragments root - 1\<rparr>) (delivery_roots s),
             delivery_fragments := um_erase key (delivery_fragments s)\<rparr>)"

lemma open_erase:
  "um_ok fr \<Longrightarrow> um_find fr k = Some r \<Longrightarrow>
     open_fragments q (um_erase k fr) = open_fragments q fr - (if q = r then 1 else 0) \<and> open_fragments r fr > 0"
proof (induction fr)
  case (Cons e fr)
  obtain j w where e: "e = (j, w)" by (cases e)
  show ?case
  proof (cases "j = k")
    case True
    then have "k \<notin> fst ` set fr" using Cons.prems(1) e by (simp add: um_ok_def)
    then have "um_erase k fr = fr" by (simp add: delete_idem)
    then show ?thesis using Cons.prems e True by auto
  next
    case False
    then have "open_fragments q (um_erase k fr) = open_fragments q fr - (if q = r then 1 else 0) \<and> open_fragments r fr > 0"
      using Cons e by (simp add: um_ok_def)
    then show ?thesis using e False by auto
  qed
qed simp

lemma erase_put: "um_erase k (um_put k v m) = um_erase k m"
  by (induction m) auto

lemma receipt_step:
  assumes "pd_inv s" and s1_def: "s1 = PrunePendingDeliveriesLocked now s"
  shows "HandleFriendReadReceipt now f n s =
    (case um_find (delivery_fragments s1) (PendingDeliveryKey f n) of
       None \<Rightarrow> (s1, None)
     | Some r \<Rightarrow> (case um_find (delivery_roots s1) r of
          None \<Rightarrow> (s1, None)
        | Some root \<Rightarrow> (tick (PendingDeliveryKey f n) r root s1,
            if remaining_fragments root = 1 then Some (root\<lparr>remaining_fragments := 0\<rparr>) else None)))"
proof (cases "um_find (delivery_fragments s1) (PendingDeliveryKey f n)")
  case None
  then show ?thesis by (simp add: HandleFriendReadReceipt_def Let_def s1_def)
next
  case (Some r)
  have I: "pd_inv s1" using assms(1) by (simp add: s1_def pd_inv_prune)
  note D = pd_invD [OF I]
  from D(4) [OF Some] obtain root where root: "um_find (delivery_roots s1) r = Some root" by auto
  let ?fr = "um_erase (PendingDeliveryKey f n) (delivery_fragments s1)"
  have pos: "remaining_fragments root > 0" using D(5) [OF root] by blast
  have one: "filter (\<lambda>e. snd e \<noteq> r) ?fr = ?fr" if "remaining_fragments root = 1"
  proof -
    have "open_fragments r ?fr = 0" using open_erase [OF D(2) Some, of r] D(5) [OF root] that by simp
    then show ?thesis by (auto simp: filter_empty_conv intro!: filter_True)
  qed
  show ?thesis
    using Some root pos one
    by (auto simp: HandleFriendReadReceipt_def Let_def s1_def [symmetric] tick_def RemovePendingDeliveryRootLocked_def erase_put)
qed

lemma pd_inv_tick:
  assumes I: "pd_inv s" and k: "um_find (delivery_fragments s) k = Some r" and root: "um_find (delivery_roots s) r = Some root"
  shows "pd_inv (tick k r root s)"
proof -
  note D = pd_invD [OF I]
  note o = open_erase [OF D(2) k]
  have last: "remaining_fragments root = 1 \<Longrightarrow> (j, r) \<in> set (delivery_fragments s) \<Longrightarrow> j = k" for j
  proof -
    assume "remaining_fragments root = 1" "(j, r) \<in> set (delivery_fragments s)"
    moreover have "open_fragments r (um_erase k (delivery_fragments s)) = 0"
      using o [of r] D(5) [OF root] calculation(1) by simp
    ultimately show "j = k" by (fastforce simp: filter_empty_conv um_erase_filter)
  qed
  show ?thesis
  proof (rule pd_invI)
    show "um_ok (delivery_roots (tick k r root s))" "um_ok (delivery_fragments (tick k r root s))"
      using D(1,2) by (simp_all add: tick_def)
    have "length (um_put r v m) = length m" if "um_find m r \<noteq> None" for v and m :: "(u64, pending_root) umap"
      using that by (induction m) auto
    then show "length (delivery_roots (tick k r root s)) \<le> kMaxPendingDeliveries"
      using D(3) root length_delete_le [of r "delivery_roots s"] by (auto simp: tick_def)
    show "\<exists>q. um_find (delivery_roots (tick k r root s)) p = Some q \<and> ucast (drop_bit 32 j) = pr_friend q"
      if j: "um_find (delivery_fragments (tick k r root s)) j = Some p" for j p
    proof -
      have "um_find (delivery_fragments s) j = Some p" "j \<noteq> k" using j by (auto simp: tick_def umap_simps split: if_splits)
      then show ?thesis using D(4) [of j p] last [of j] root by (auto simp: tick_def umap_simps dest: map_of_SomeD)
    qed
    show "remaining_fragments q = open_fragments p (delivery_fragments (tick k r root s)) \<and> remaining_fragments q > 0 \<and>
        p < next_root_id (tick k r root s)"
      if p: "um_find (delivery_roots (tick k r root s)) p = Some q" for p q
    proof (cases "p = r")
      case True
      then have "remaining_fragments root \<noteq> 1" "q = root\<lparr>remaining_fragments := remaining_fragments root - 1\<rparr>"
        using p by (auto simp: tick_def umap_simps split: if_splits)
      then show ?thesis using D(5) [OF root] o [of r] True by (simp add: tick_def del: length_greater_0_conv)
    next
      case False
      then have q: "um_find (delivery_roots s) p = Some q" using p by (auto simp: tick_def umap_simps split: if_splits)
      show ?thesis using D(5) [OF q] o [of p] False by (simp add: tick_def del: length_greater_0_conv)
    qed
  qed
qed

lemma pd_inv_receipt: "pd_inv s \<Longrightarrow> pd_inv (fst (HandleFriendReadReceipt now f n s))"
  by (simp add: receipt_step [OF _ refl] pd_inv_tick pd_inv_prune split: option.split)

section \<open>All interleavings\<close>

text \<open>Tox message numbers of one friend are distinct; the 64-bit root counter does not wrap.\<close>

inductive pd_step :: "pending_deliveries \<Rightarrow> pending_deliveries \<Rightarrow> bool" where
  Track: "distinct ns \<Longrightarrow> next_root_id s < next_root_id s + 1 \<Longrightarrow> pd_step s (TrackPendingDelivery now f ns m u s)"
| Receipt: "pd_step s (fst (HandleFriendReadReceipt now f n s))"
| Clear: "pd_step s (ClearPendingDeliveries s)"
| ClearFriend: "pd_step s (ClearPendingDeliveriesForFriend f s)"

lemma pd_inv_clear: "pd_inv s \<Longrightarrow> pd_inv (ClearPendingDeliveries s)"
  by (simp add: ClearPendingDeliveries_def pd_inv_def)

lemma pd_inv_clear_friend: "pd_inv s \<Longrightarrow> pd_inv (ClearPendingDeliveriesForFriend f s)"
  by (simp add: ClearPendingDeliveriesForFriend_def pd_inv_fold_remove)

interpretation pd: state_system "\<lambda>s. s = no_deliveries" pd_step pd_inv
proof
  fix s t assume "pd_step s t" "pd_inv s"
  then show "pd_inv t"
    by (induction rule: pd_step.induct) (simp_all add: pd_inv_track pd_inv_receipt pd_inv_clear pd_inv_clear_friend)
qed (simp add: pd_inv_initial)

section \<open>A message is announced once, when all its fragments are acknowledged\<close>

text \<open>A run of receipts, each with its time, friend and message number; what they complete.\<close>

fun run_receipts :: "(int \<times> u32 \<times> u32) list \<Rightarrow> pending_deliveries \<Rightarrow> pending_deliveries \<times> pending_root list" where
  "run_receipts [] s = (s, [])"
| "run_receipts ((now, f, n) # rs) s =
     (case HandleFriendReadReceipt now f n s of (s1, c) \<Rightarrow>
        case run_receipts rs s1 of (s2, cs) \<Rightarrow> (s2, (case c of None \<Rightarrow> cs | Some root \<Rightarrow> root # cs)))"

definition no_msg :: "string \<Rightarrow> pending_deliveries \<Rightarrow> bool" where
  "no_msg m s \<longleftrightarrow> (\<forall>r root. um_find (delivery_roots s) r = Some root \<longrightarrow> pr_msg_id root \<noteq> m)"

lemma prune_find:
  assumes "pd_inv s"
  shows "um_find (delivery_roots (PrunePendingDeliveriesLocked now s)) r =
      (case um_find (delivery_roots s) r of
         Some root \<Rightarrow> if now - created_at root \<ge> kPendingDeliveryTtl then None else Some root | None \<Rightarrow> None)"
    and "um_find (delivery_fragments (PrunePendingDeliveriesLocked now s)) k =
      (case um_find (delivery_fragments s) k of
         Some r \<Rightarrow> (case um_find (delivery_roots s) r of
                      Some root \<Rightarrow> if now - created_at root \<ge> kPendingDeliveryTtl then None else Some r | None \<Rightarrow> Some r)
       | None \<Rightarrow> None)"
proof -
  note D = pd_invD(1,2) [OF assms]
  have e: "q \<in> fst ` {e \<in> set (delivery_roots s). kPendingDeliveryTtl \<le> now - created_at (snd e)} \<longleftrightarrow>
      (\<exists>root. um_find (delivery_roots s) q = Some root \<and> kPendingDeliveryTtl \<le> now - created_at root)" for q
    using um_in_set_iff [OF D(1)] by force
  show "um_find (delivery_roots (PrunePendingDeliveriesLocked now s)) r =
      (case um_find (delivery_roots s) r of
         Some root \<Rightarrow> if now - created_at root \<ge> kPendingDeliveryTtl then None else Some root | None \<Rightarrow> None)"
    using D e [of r] by (simp add: prune_remove fold_remove um_find_filter split: option.split)
  show "um_find (delivery_fragments (PrunePendingDeliveriesLocked now s)) k =
      (case um_find (delivery_fragments s) k of
         Some r \<Rightarrow> (case um_find (delivery_roots s) r of
                      Some root \<Rightarrow> if now - created_at root \<ge> kPendingDeliveryTtl then None else Some r | None \<Rightarrow> Some r)
       | None \<Rightarrow> None)"
    using D e by (simp add: prune_remove fold_remove um_find_filter split: option.split)
qed

lemma no_msg_tick:
  assumes "no_msg m s" "um_find (delivery_roots s) r = Some root"
  shows "no_msg m (tick k r root s)" "pr_msg_id root \<noteq> m"
proof -
  have a: "um_find (delivery_roots s) q = Some x \<Longrightarrow> pr_msg_id x \<noteq> m" for q x using assms(1) by (simp add: no_msg_def)
  then show "pr_msg_id root \<noteq> m" using assms(2) by blast
  show "no_msg m (tick k r root s)" unfolding no_msg_def
  proof (intro allI impI)
    fix q x assume "um_find (delivery_roots (tick k r root s)) q = Some x"
    then show "pr_msg_id x \<noteq> m"
      using a [of q x] a [OF assms(2)] by (auto simp: tick_def umap_simps split: if_splits)
  qed
qed

lemma no_msg_silent:
  "pd_inv s \<Longrightarrow> no_msg m s \<Longrightarrow> filter (\<lambda>c. pr_msg_id c = m) (snd (run_receipts rs s)) = []"
proof (induction rs arbitrary: s)
  case (Cons e rs)
  obtain now f n where e: "e = (now, f, n)" by (cases e)
  let ?p = "PrunePendingDeliveriesLocked now s"
  have p: "pd_inv ?p" "no_msg m ?p"
    using Cons.prems by (auto simp: pd_inv_prune no_msg_def prune_find split: option.splits if_splits)
  obtain s1 c where h: "HandleFriendReadReceipt now f n s = (s1, c)" by (cases "HandleFriendReadReceipt now f n s")
  have "no_msg m s1 \<and> (\<forall>root. c = Some root \<longrightarrow> pr_msg_id root \<noteq> m)"
    using h p(2) receipt_step [OF Cons.prems(1) refl, of now f n]
    by (auto simp: no_msg_tick(1) dest: no_msg_tick(2) split: option.splits if_splits)
  moreover have "pd_inv s1" using pd_inv_receipt [OF Cons.prems(1), of now f n] h by simp
  ultimately show ?case using Cons.IH [of s1] by (simp add: e h case_prod_beta split: option.split)
qed simp

abbreviation keys_of :: "(int \<times> u32 \<times> u32) list \<Rightarrow> u64 set" where
  "keys_of rs \<equiv> (\<lambda>(now, f, n). PendingDeliveryKey f n) ` set rs"

abbreviation fragments_of :: "u64 \<Rightarrow> pending_deliveries \<Rightarrow> u64 set" where
  "fragments_of r s \<equiv> {k. um_find (delivery_fragments s) k = Some r}"

definition only :: "u64 \<Rightarrow> pending_root \<Rightarrow> pending_deliveries \<Rightarrow> bool" where
  "only r root s \<longleftrightarrow> um_find (delivery_roots s) r = Some root \<and>
     (\<forall>q x. um_find (delivery_roots s) q = Some x \<and> pr_msg_id x = pr_msg_id root \<longrightarrow> q = r)"

lemma only_prune:
  assumes "pd_inv s" "only r root s" "now - created_at root < kPendingDeliveryTtl"
  shows "only r root (PrunePendingDeliveriesLocked now s)"
    "fragments_of r (PrunePendingDeliveriesLocked now s) = fragments_of r s"
  using assms by (auto simp: only_def prune_find split: option.splits if_splits)

lemma only_tick_other:
  assumes "only r root s" "um_find (delivery_fragments s) k = Some q" "um_find (delivery_roots s) q = Some x" "q \<noteq> r"
  shows "only r root (tick k q x s)" "fragments_of r (tick k q x s) = fragments_of r s" "pr_msg_id x \<noteq> pr_msg_id root"
proof -
  have u: "um_find (delivery_roots s) p = Some y \<Longrightarrow> pr_msg_id y = pr_msg_id root \<Longrightarrow> p = r" for p y
    using assms(1) by (auto simp: only_def)
  have r: "um_find (delivery_roots s) r = Some root" using assms(1) by (simp add: only_def)
  show x: "pr_msg_id x \<noteq> pr_msg_id root" using u [OF assms(3)] assms(4) by blast
  have "p = r" if "um_find (delivery_roots (tick k q x s)) p = Some y" "pr_msg_id y = pr_msg_id root" for p y
    using that x u [of p y] by (auto simp: tick_def umap_simps split: if_splits)
  then show "only r root (tick k q x s)" using r assms(4) by (auto simp: only_def tick_def umap_simps)
  show "fragments_of r (tick k q x s) = fragments_of r s" using assms(2,4) by (auto simp: tick_def umap_simps split: if_splits)
qed

lemma only_tick_same:
  assumes "only r root s" "um_find (delivery_fragments s) k = Some r" "remaining_fragments root \<noteq> 1"
  shows "only r (root\<lparr>remaining_fragments := remaining_fragments root - 1\<rparr>) (tick k r root s)"
    "fragments_of r (tick k r root s) = fragments_of r s - {k}"
proof -
  have u: "um_find (delivery_roots s) p = Some y \<Longrightarrow> pr_msg_id y = pr_msg_id root \<Longrightarrow> p = r" for p y
    using assms(1) by (auto simp: only_def)
  show "only r (root\<lparr>remaining_fragments := remaining_fragments root - 1\<rparr>) (tick k r root s)"
    using assms(3) u by (auto simp: only_def tick_def umap_simps split: if_splits)
  show "fragments_of r (tick k r root s) = fragments_of r s - {k}"
    using assms(3) by (auto simp: tick_def umap_simps split: if_splits)
qed

lemma only_tick_last:
  assumes I: "pd_inv s" and o: "only r root s" and k: "um_find (delivery_fragments s) k = Some r" and one: "remaining_fragments root = 1"
  shows "no_msg (pr_msg_id root) (tick k r root s)" "fragments_of r s = {k}"
proof -
  have root: "um_find (delivery_roots s) r = Some root"
    and u: "um_find (delivery_roots s) p = Some y \<Longrightarrow> pr_msg_id y = pr_msg_id root \<Longrightarrow> p = r" for p y
    using o by (auto simp: only_def)
  show "no_msg (pr_msg_id root) (tick k r root s)"
    using one u by (auto simp: no_msg_def tick_def umap_simps split: if_splits)
  note D = pd_invD [OF I]
  have "open_fragments r (um_erase k (delivery_fragments s)) = 0"
    using open_erase [OF D(2) k, of r] D(5) [OF root] one by simp
  then show "fragments_of r s = {k}" using k by (fastforce simp: filter_empty_conv um_erase_filter dest: map_of_SomeD)
qed

lemma run_receipts_exact:
  "pd_inv s \<Longrightarrow> only r root s \<Longrightarrow> (\<And>now f n. (now, f, n) \<in> set rs \<Longrightarrow> now - created_at root < kPendingDeliveryTtl) \<Longrightarrow>
   filter (\<lambda>c. pr_msg_id c = pr_msg_id root) (snd (run_receipts rs s)) =
     (if fragments_of r s \<subseteq> keys_of rs then [root\<lparr>remaining_fragments := 0\<rparr>] else [])"
proof (induction rs arbitrary: s root)
  case Nil
  then have "um_find (delivery_roots s) r = Some root" by (simp add: only_def)
  with pd_invD(5) [OF Nil(1) this] have "open_fragments r (delivery_fragments s) > 0" by metis
  then have "\<exists>k. (k, r) \<in> set (delivery_fragments s)" by (fastforce simp: filter_empty_conv)
  then have "fragments_of r s \<noteq> {}" using pd_invD(2) [OF Nil(1)] by (auto simp: um_in_set_iff)
  then show ?case by simp
next
  case (Cons e rs)
  obtain now f n where e: "e = (now, f, n)" by (cases e)
  let ?p = "PrunePendingDeliveriesLocked now s" and ?K = "PendingDeliveryKey f n"
  have age: "now - created_at root < kPendingDeliveryTtl" using Cons.prems(3) e by auto
  have rest: "(now', f', n') \<in> set rs \<Longrightarrow> now' - created_at root < kPendingDeliveryTtl" for now' f' n'
    using Cons.prems(3) by auto
  have I: "pd_inv ?p" using Cons.prems(1) by (rule pd_inv_prune)
  note o = only_prune [OF Cons.prems(1,2) age]
  note h = receipt_step [OF Cons.prems(1) refl, of now f n]
  show ?case
  proof (cases "um_find (delivery_fragments ?p) ?K")
    case None
    then have "?K \<notin> fragments_of r s" unfolding o(2) [symmetric] by simp
    then show ?thesis using Cons.IH [OF I o(1) rest] None o(2) h
      by (auto simp: e case_prod_beta)
  next
    case (Some q)
    then obtain x where x: "um_find (delivery_roots ?p) q = Some x" using pd_invD(4) [OF I] by blast
    have I1: "pd_inv (tick ?K q x ?p)" by (rule pd_inv_tick [OF I Some x])
    show ?thesis
    proof (cases "q = r")
      case False
      note t = only_tick_other [OF o(1) Some x False]
      have "?K \<notin> fragments_of r s" unfolding o(2) [symmetric] using Some False by simp
      then show ?thesis using Cons.IH [OF I1 t(1) rest] Some x t(2,3) o(2) h
        by (auto simp: e case_prod_beta)
    next
      case True
      then have xr: "x = root" using x o(1) by (simp add: only_def)
      show ?thesis
      proof (cases "remaining_fragments root = 1")
        case one: True
        note t = only_tick_last [OF I o(1) Some [unfolded True] one]
        show ?thesis using no_msg_silent [OF I1 [unfolded True xr] t(1), of rs] Some x t(2) o(2) h True xr one
          by (simp add: e case_prod_beta)
      next
        case more: False
        note t = only_tick_same [OF o(1) Some [unfolded True] more]
        have rest': "(now', f', n') \<in> set rs \<Longrightarrow>
            now' - created_at (root\<lparr>remaining_fragments := remaining_fragments root - 1\<rparr>) < kPendingDeliveryTtl" for now' f' n'
          using rest by simp
        show ?thesis using Cons.IH [OF I1 [unfolded True xr] t(1) rest'] Some x t(2) o(2) h True xr more
          by (auto simp: e case_prod_beta)
      qed
    qed
  qed
qed

lemma key_acknowledged: "PendingDeliveryKey f n \<in> keys_of rs \<longleftrightarrow> (\<exists>t. (t, f, n) \<in> set rs)"
proof
  assume "PendingDeliveryKey f n \<in> keys_of rs"
  then show "\<exists>t. (t, f, n) \<in> set rs" by (auto simp: key_inject)
next
  assume "\<exists>t. (t, f, n) \<in> set rs"
  then show "PendingDeliveryKey f n \<in> keys_of rs" by force
qed

lemma no_msg_remove: "no_msg m s \<Longrightarrow> no_msg m (RemovePendingDeliveryRootLocked r s)"
  by (auto simp: no_msg_def RemovePendingDeliveryRootLocked_def umap_simps split: if_splits)

lemma no_msg_before:
  "no_msg m s \<Longrightarrow> no_msg m (fold (drop_existing f) ns (evict_loop (PrunePendingDeliveriesLocked now s)))"
proof -
  have r: "no_msg m s \<Longrightarrow> no_msg m (fold RemovePendingDeliveryRootLocked ids s)" for s ids
    by (induction ids arbitrary: s) (simp_all add: no_msg_remove)
  have e: "no_msg m s \<Longrightarrow> no_msg m (evict_loop s)" for s
  proof (induction s rule: evict_loop.induct)
    case (1 s)
    then show ?case by (subst evict_loop.simps) (auto split: option.split simp: no_msg_remove)
  qed
  have d: "no_msg m s \<Longrightarrow> no_msg m (fold (drop_existing f) ns s)" for s
    by (induction ns arbitrary: s) (simp_all add: drop_existing_def no_msg_remove split: option.split)
  show "no_msg m s \<Longrightarrow> ?thesis" by (intro d e) (simp add: prune_remove r)
qed

text \<open>
  The delivery table is sound in every reachable state, whatever the order of sends, receipts,
  disconnects and deleted friends: each fragment belongs to a root in the table and to its
  friend, each root waits for exactly the fragments that are in the table and for at least one,
  and the table never holds more than its cap.
\<close>

theorem delivery_table_sound:
  assumes "pd_step\<^sup>*\<^sup>* no_deliveries s"
  shows "pd_inv s"
  by (rule pd.inv_reachable [OF refl assms])

text \<open>
  C30. A message is announced as delivered exactly once, and exactly when all its fragments have
  been acknowledged: after a message was tracked, any sequence of receipts (of this and other
  messages, in any order, repeated or unknown) within the time limit completes it once if the
  friend's receipts cover all its fragments and not at all otherwise.
\<close>

theorem delivered_exactly_once:
  assumes "pd_step\<^sup>*\<^sup>* no_deliveries s" "distinct ns" "ns \<noteq> []" "no_msg m s" "next_root_id s < next_root_id s + 1"
    and "\<And>t g n. (t, g, n) \<in> set rs \<Longrightarrow> t - now < kPendingDeliveryTtl"
  shows "filter (\<lambda>c. pr_msg_id c = m) (snd (run_receipts rs (TrackPendingDelivery now f ns m u s))) =
    (if \<forall>n\<in>set ns. \<exists>t. (t, f, n) \<in> set rs
     then [\<lparr>pr_msg_id = m, pr_user_id = u, pr_friend = f, remaining_fragments = 0, created_at = now\<rparr>] else [])"
proof -
  let ?root = "\<lparr>pr_msg_id = m, pr_user_id = u, pr_friend = f, remaining_fragments = length ns, created_at = now\<rparr>"
  have I: "pd_inv s" by (rule pd.inv_reachable [OF refl assms(1)])
  define t where "t = TrackPendingDelivery now f ns m u s"
  define r where "r = next_root_id s"
  have It: "pd_inv t" unfolding t_def by (rule pd_inv_track [OF I assms(2,5)])
  from track_eq [OF I assms(2,3), where now = now and f = f and m = m and u = u] no_msg_before [OF assms(4), of f ns now]
  obtain s2 where I2: "pd_inv s2" and n2: "no_msg m s2" and r2: "next_root_id s2 = r"
    and absent: "\<And>n. n \<in> set ns \<Longrightarrow> um_find (delivery_fragments s2) (PendingDeliveryKey f n) = None"
    and roots: "delivery_roots t = delivery_roots s2 @ [(r, ?root)]"
    and frags: "delivery_fragments t = delivery_fragments s2 @ map (\<lambda>n. (PendingDeliveryKey f n, r)) ns"
    by (auto simp: t_def r_def evict_next prune_next)
  have fresh: "um_find (delivery_roots s2) r = None"
    using pd_invD(5) [OF I2, of r] r2 by (cases "um_find (delivery_roots s2) r") auto
  have o: "only r ?root t"
    using n2 fresh by (auto simp: only_def no_msg_def roots map_add_def split: option.splits if_splits)
  have "um_find (delivery_fragments s2) k \<noteq> Some r" for k using pd_invD(4) [OF I2, of k r] fresh by auto
  then have "(k, r) \<notin> set (delivery_fragments s2)" for k using pd_invD(2) [OF I2] by (simp add: um_in_set_iff)
  moreover have "fragments_of r t = {k. (k, r) \<in> set (delivery_fragments t)}"
    using pd_invD(2) [OF It] by (simp add: um_in_set_iff)
  ultimately have fr: "fragments_of r t = PendingDeliveryKey f ` set ns" by (auto simp: frags)
  have cover: "PendingDeliveryKey f ` set ns \<subseteq> keys_of rs \<longleftrightarrow> (\<forall>n\<in>set ns. \<exists>t. (t, f, n) \<in> set rs)"
    by (simp add: image_subset_iff key_acknowledged)
  have "filter (\<lambda>c. pr_msg_id c = pr_msg_id ?root) (snd (run_receipts rs t)) =
      (if fragments_of r t \<subseteq> keys_of rs then [?root\<lparr>remaining_fragments := 0\<rparr>] else [])"
    by (rule run_receipts_exact [OF It o]) (use assms(6) in auto)
  then show ?thesis unfolding fr cover t_def [symmetric] by simp
qed

theorem delivery_table_sound_witness: "pd_inv (TrackPendingDelivery 5 7 [1, 2] ''m'' ''u'' no_deliveries)"
  by (rule delivery_table_sound) (intro r_into_rtranclp Track; simp add: no_deliveries_def)

theorem delivered_exactly_once_witness:
  "filter (\<lambda>c. pr_msg_id c = ''m'')
     (snd (run_receipts [(6, 7, 2), (6, 7, 2), (9, 7, 1)] (TrackPendingDelivery 5 7 [1, 2] ''m'' ''u'' no_deliveries))) =
   [\<lparr>pr_msg_id = ''m'', pr_user_id = ''u'', pr_friend = 7, remaining_fragments = 0, created_at = 5\<rparr>]"
  using delivered_exactly_once [of no_deliveries "[1, 2]" "''m''" "[(6, 7, 2), (6, 7, 2), (9, 7, 1)]" 5 7 "''u''"]
  by (force simp: no_deliveries_def no_msg_def kPendingDeliveryTtl_def)

end
