(* ===== verification/ToxSession.thy ===== *)
theory ToxSession
  imports Prelude
begin

text \<open>
  The session of the toxcore wrapper (\<open>src/source/ToxManager.cpp\<close>): who may touch the
  \<open>Tox\<close> instance, who keeps it alive and when the profile may be read out of it.

  Threads are numbers. A thread that is inside a call of the wrapper has a program counter
  \<open>tpc\<close>; one step is one critical section of the source, so the steps of different threads
  interleave exactly where the source releases its locks:

  \<^item> the pin gate \<open>PinState\<close>: the live pins, the pins per thread, the quiescing saver and the
    closed flag; \<open>acquireTox\<close> (fast fail, admission, fetching the handle), the deleter of the
    pin token in its two halves, \<open>closeAdmission\<close>;
  \<^item> \<open>SaveQuiesce\<close> and \<open>getSaveData\<close>: one quiesce at a time, the drain, the iterate lock, the
    second drain, the size, the copy, and the two destructors in their order. Each timed wait
    ends by its predicate or, while the predicate is false, by its timeout;
  \<^item> \<open>iterate\<close>, \<open>shutdown\<close> and \<open>initialize\<close>, with \<open>iterate_mutex_\<close> (\<open>iter_lock\<close>) and the owner
    \<open>iterate_owner_\<close> (\<open>iterating\<close>).

  toxcore itself is open: an instance is a number, its savedata an arbitrary byte string that
  any call made under a pin, inside the iterate or under \<open>mutex_\<close> may replace. A pin is used
  and dropped by the thread that took it (the guards are locals of the calls).
\<close>

section \<open>State\<close>

type_synonym thread = nat
type_synonym instance_no = nat

text \<open>
  Where a thread stands. The saver's positions carry the rounds that are left after the
  current one; \<open>SaveLeave\<close> and \<open>SaveResume\<close> also carry what \<open>getSaveData\<close> returns, if it
  returns (\<open>None\<close>: the loop continues with the next round).
\<close>

datatype tpc =
    Running
  | AtGate
  | Admitted
  | Unpinning
  | SaveEnter nat
  | SaveDrain nat
  | SaveLock nat
  | SaveRewait nat
  | SaveSize nat
  | SaveCopy nat instance_no nat
  | SaveLeave nat "bytes option"
  | SaveResume nat "bytes option"

record tox_session =
  pin_count :: int
  pin_depth :: "thread \<rightharpoonup> int"
  quiescing :: bool
  quiescing_owner :: "thread option"
  admission_closed :: bool
  iter_lock :: "thread option"
  iterating :: "(thread \<times> instance_no) option"
  state_lock :: "thread option"
  shutting_down :: bool
  tox_ptr :: "instance_no option"
  handles :: "(thread \<times> instance_no) list"
  savedata :: "instance_no \<Rightarrow> bytes"
  next_tox :: instance_no
  tox_killed :: "instance_no list"
  tpc_of :: "thread \<Rightarrow> tpc"
  snapshots :: "(thread \<times> bytes) list"
  overrun :: bool

definition new_session :: tox_session where
  "new_session = \<lparr>pin_count = 0, pin_depth = Map.empty, quiescing = False, quiescing_owner = None,
     admission_closed = False, iter_lock = None, iterating = None, state_lock = None,
     shutting_down = False, tox_ptr = None, handles = [], savedata = (\<lambda>_. []), next_tox = 0,
     tox_killed = [], tpc_of = (\<lambda>_. Running), snapshots = [], overrun = False\<rparr>"

definition goto :: "thread \<Rightarrow> tpc \<Rightarrow> tox_session \<Rightarrow> tox_session" where
  "goto t p s = s\<lparr>tpc_of := (tpc_of s)(t := p)\<rparr>"

text \<open>An instance lives while the manager or a pin refers to it.\<close>

definition alive :: "tox_session \<Rightarrow> instance_no \<Rightarrow> bool" where
  "alive s i \<longleftrightarrow> tox_ptr s = Some i \<or> i \<in> snd ` set (handles s)"

text \<open>\<open>toxDeleter\<close> runs when the last reference to \<open>i\<close> is gone.\<close>

definition drop_ref :: "instance_no \<Rightarrow> tox_session \<Rightarrow> tox_session" where
  "drop_ref i s = (if alive s i then s else s\<lparr>tox_killed := tox_killed s @ [i]\<rparr>)"

definition isIterateOwner :: "thread \<Rightarrow> tox_session \<Rightarrow> bool" where
  "isIterateOwner t s \<longleftrightarrow> map_option fst (iterating s) = Some t"

section \<open>Pins\<close>

definition acquireTox_enter :: "thread \<Rightarrow> tox_session \<Rightarrow> tox_session option" where
  "acquireTox_enter t s =
     (if tpc_of s t \<noteq> Running then None
      else if shutting_down s then Some s
      else Some (goto t AtGate s))"

definition own_depth :: "thread \<Rightarrow> tox_session \<Rightarrow> int" where
  "own_depth t s = (case pin_depth s t of None \<Rightarrow> 0 | Some n \<Rightarrow> n)"

definition reentrant :: "thread \<Rightarrow> tox_session \<Rightarrow> bool" where
  "reentrant t s \<longleftrightarrow> own_depth t s > 0 \<or> quiescing_owner s = Some t \<or> isIterateOwner t s"

definition count_pin :: "thread \<Rightarrow> tox_session \<Rightarrow> tox_session" where
  "count_pin t s = s\<lparr>pin_count := pin_count s + 1, pin_depth := (pin_depth s)(t \<mapsto> own_depth t s + 1)\<rparr>"

definition acquireTox_gate :: "thread \<Rightarrow> tox_session \<Rightarrow> tox_session option" where
  "acquireTox_gate t s =
     (if tpc_of s t \<noteq> AtGate then None
      else if reentrant t s then Some (goto t Admitted (count_pin t s))
      else if admission_closed s then Some (goto t Running s)
      else if quiescing s then None
      else Some (goto t Admitted (count_pin t s)))"

text \<open>A failure after the admission leaves through the guard that gives the pin back.\<close>

definition acquireTox_fetch :: "thread \<Rightarrow> tox_session \<Rightarrow> tox_session option" where
  "acquireTox_fetch t s =
     (if tpc_of s t \<noteq> Admitted \<or> state_lock s \<noteq> None then None
      else if shutting_down s then Some (goto t Unpinning s)
      else case tox_ptr s of
        None \<Rightarrow> Some (goto t Unpinning s)
      | Some i \<Rightarrow> Some (goto t Running (s\<lparr>handles := (t, i) # handles s\<rparr>)))"

text \<open>The token's deleter: first the reference, then the count.\<close>

definition release_pin :: "thread \<Rightarrow> instance_no \<Rightarrow> tox_session \<Rightarrow> tox_session option" where
  "release_pin t i s =
     (if tpc_of s t \<noteq> Running \<or> (t, i) \<notin> set (handles s) then None
      else Some (goto t Unpinning (drop_ref i (s\<lparr>handles := remove1 (t, i) (handles s)\<rparr>))))"

definition uncount_pin :: "thread \<Rightarrow> tox_session \<Rightarrow> tox_session" where
  "uncount_pin t s = s\<lparr>pin_count := (if pin_count s > 0 then pin_count s - 1 else pin_count s),
     pin_depth := (case pin_depth s t of
         None \<Rightarrow> pin_depth s
       | Some n \<Rightarrow> if n - 1 \<le> 0 then (pin_depth s)(t := None) else (pin_depth s)(t \<mapsto> n - 1))\<rparr>"

definition unpin :: "thread \<Rightarrow> tox_session \<Rightarrow> tox_session option" where
  "unpin t s =
     (if tpc_of s t \<noteq> Unpinning then None else Some (goto t Running (uncount_pin t s)))"

definition closeAdmission :: "thread \<Rightarrow> tox_session \<Rightarrow> tox_session option" where
  "closeAdmission t s =
     (if tpc_of s t \<noteq> Running then None else Some (s\<lparr>admission_closed := True\<rparr>))"

section \<open>Saving\<close>

definition getSaveData_enter :: "thread \<Rightarrow> int \<Rightarrow> tox_session \<Rightarrow> tox_session option" where
  "getSaveData_enter t attempts s =
     (if tpc_of s t \<noteq> Running then None
      else Some (goto t (SaveEnter (nat (max 1 attempts) - 1)) s))"

text \<open>The end of a round without data: the next round, or the empty vector.\<close>

definition next_round :: "thread \<Rightarrow> nat \<Rightarrow> tox_session \<Rightarrow> tox_session" where
  "next_round t n s =
     (case n of
        0 \<Rightarrow> goto t Running (s\<lparr>snapshots := snapshots s @ [(t, [])]\<rparr>)
      | Suc m \<Rightarrow> goto t (SaveEnter m) s)"

definition drained :: "thread \<Rightarrow> tox_session \<Rightarrow> bool" where
  "drained t s \<longleftrightarrow> pin_count s \<le> own_depth t s"

definition end_quiesce :: "tox_session \<Rightarrow> tox_session" where
  "end_quiesce s = s\<lparr>quiescing := False, quiescing_owner := None\<rparr>"

text \<open>
  The saver's next step. The two waits of the constructor and the one of \<open>rewait\<close> go on when
  their predicate holds; otherwise the step is the timeout.
\<close>

definition SaveQuiesce_enter :: "thread \<Rightarrow> nat \<Rightarrow> tox_session \<Rightarrow> tox_session option" where
  "SaveQuiesce_enter t n s =
     (if quiescing s then Some (next_round t n s)
      else Some (goto t (SaveDrain n) (s\<lparr>quiescing := True, quiescing_owner := Some t\<rparr>)))"

definition SaveQuiesce_drain :: "thread \<Rightarrow> nat \<Rightarrow> tox_session \<Rightarrow> tox_session option" where
  "SaveQuiesce_drain t n s =
     (if drained t s then Some (goto t (SaveLock n) s) else Some (next_round t n (end_quiesce s)))"

definition lockIterate :: "thread \<Rightarrow> nat \<Rightarrow> tox_session \<Rightarrow> tox_session option" where
  "lockIterate t n s =
     (if isIterateOwner t s then Some (goto t (SaveRewait n) s)
      else if iter_lock s \<noteq> None then None
      else Some (goto t (SaveRewait n) (s\<lparr>iter_lock := Some t\<rparr>)))"

definition rewait :: "thread \<Rightarrow> nat \<Rightarrow> tox_session \<Rightarrow> tox_session option" where
  "rewait t n s =
     (if drained t s then Some (goto t (SaveSize n) s) else Some (goto t (SaveLeave n None) s))"

text \<open>\<open>readSaveDataQuiesced\<close>: \<open>mutex_\<close> is held from the size to the end of the copy.\<close>

definition read_size :: "thread \<Rightarrow> nat \<Rightarrow> tox_session \<Rightarrow> tox_session option" where
  "read_size t n s =
     (if state_lock s \<noteq> None then None
      else case tox_ptr s of
        None \<Rightarrow> Some (goto t (SaveLeave n (Some [])) s)
      | Some i \<Rightarrow> Some (goto t (SaveCopy n i (length (savedata s i))) (s\<lparr>state_lock := Some t\<rparr>)))"

text \<open>
  toxcore writes the savedata it has now, whatever the size of the buffer; the vector keeps
  the bytes that fit.
\<close>

definition buffer_after :: "nat \<Rightarrow> bytes \<Rightarrow> bytes" where
  "buffer_after sz d = take sz d @ replicate (sz - length d) 0"

definition read_copy :: "thread \<Rightarrow> nat \<Rightarrow> instance_no \<Rightarrow> nat \<Rightarrow> tox_session \<Rightarrow> tox_session option" where
  "read_copy t n i sz s =
     Some (goto t (SaveLeave n (Some (buffer_after sz (savedata s i))))
       (s\<lparr>state_lock := None, overrun := overrun s \<or> length (savedata s i) > sz\<rparr>))"

text \<open>The destructors: the iterate lock first (if it was taken), the quiesce second.\<close>

definition unlock_iterate :: "thread \<Rightarrow> nat \<Rightarrow> bytes option \<Rightarrow> tox_session \<Rightarrow> tox_session option" where
  "unlock_iterate t n r s =
     Some (goto t (SaveResume n r) (if isIterateOwner t s then s else s\<lparr>iter_lock := None\<rparr>))"

definition SaveQuiesce_exit :: "thread \<Rightarrow> nat \<Rightarrow> bytes option \<Rightarrow> tox_session \<Rightarrow> tox_session option" where
  "SaveQuiesce_exit t n r s =
     (case r of
        None \<Rightarrow> Some (next_round t n (end_quiesce s))
      | Some d \<Rightarrow> Some (goto t Running ((end_quiesce s)\<lparr>snapshots := snapshots s @ [(t, d)]\<rparr>)))"

definition getSaveData_step :: "thread \<Rightarrow> tox_session \<Rightarrow> tox_session option" where
  "getSaveData_step t s =
     (case tpc_of s t of
        SaveEnter n \<Rightarrow> SaveQuiesce_enter t n s
      | SaveDrain n \<Rightarrow> SaveQuiesce_drain t n s
      | SaveLock n \<Rightarrow> lockIterate t n s
      | SaveRewait n \<Rightarrow> rewait t n s
      | SaveSize n \<Rightarrow> read_size t n s
      | SaveCopy n i sz \<Rightarrow> read_copy t n i sz s
      | SaveLeave n r \<Rightarrow> unlock_iterate t n r s
      | SaveResume n r \<Rightarrow> SaveQuiesce_exit t n r s
      | _ \<Rightarrow> None)"

section \<open>Iterating, starting and stopping\<close>

definition iterate_enter :: "thread \<Rightarrow> tox_session \<Rightarrow> tox_session option" where
  "iterate_enter t s =
     (if tpc_of s t \<noteq> Running then None
      else if isIterateOwner t s then Some s
      else if iter_lock s \<noteq> None \<or> state_lock s \<noteq> None then None
      else if shutting_down s then Some s
      else case tox_ptr s of
        None \<Rightarrow> Some s
      | Some i \<Rightarrow> Some (s\<lparr>iter_lock := Some t, iterating := Some (t, i)\<rparr>))"

definition iterate_leave :: "thread \<Rightarrow> tox_session \<Rightarrow> tox_session option" where
  "iterate_leave t s =
     (if tpc_of s t \<noteq> Running \<or> \<not> isIterateOwner t s then None
      else Some (s\<lparr>iter_lock := None, iterating := None\<rparr>))"

text \<open>On the iterating thread the call is deferred (see \<open>IterateScope\<close>): nothing happens now.\<close>

definition shutdown_tox :: "thread \<Rightarrow> tox_session \<Rightarrow> tox_session option" where
  "shutdown_tox t s =
     (if tpc_of s t \<noteq> Running then None
      else if isIterateOwner t s then Some s
      else if iter_lock s \<noteq> None \<or> state_lock s \<noteq> None then None
      else if shutting_down s then Some s
      else case tox_ptr s of
        None \<Rightarrow> Some s
      | Some i \<Rightarrow> Some (drop_ref i (s\<lparr>shutting_down := True, tox_ptr := None\<rparr>)))"

text \<open>
  \<open>initialize\<close> throws on a live instance; \<open>made\<close> is the savedata of the instance \<open>tox_new\<close>
  returns, \<open>None\<close> when the options or the instance could not be made.
\<close>

definition initialize_tox :: "thread \<Rightarrow> bytes option \<Rightarrow> tox_session \<Rightarrow> tox_session option" where
  "initialize_tox t made s =
     (if tpc_of s t \<noteq> Running \<or> state_lock s \<noteq> None then None
      else if tox_ptr s \<noteq> None then Some s
      else case made of
        None \<Rightarrow> Some (s\<lparr>shutting_down := False\<rparr>)
      | Some d \<Rightarrow> Some (s\<lparr>shutting_down := False, tox_ptr := Some (next_tox s),
          savedata := (savedata s)(next_tox s := d), next_tox := Suc (next_tox s)\<rparr>))"

section \<open>Calls into toxcore\<close>

text \<open>
  The three ways to reach an instance: through a pin, from the iterate (\<open>tox_iterate\<close> itself
  and the callbacks it runs) and in a forwarding method under \<open>mutex_\<close>.
\<close>

definition pinned_call :: "thread \<Rightarrow> instance_no \<Rightarrow> bytes \<Rightarrow> tox_session \<Rightarrow> tox_session option" where
  "pinned_call t i d s =
     (if tpc_of s t \<noteq> Running \<or> (t, i) \<notin> set (handles s) then None
      else Some (s\<lparr>savedata := (savedata s)(i := d)\<rparr>))"

definition iterate_call :: "thread \<Rightarrow> bytes \<Rightarrow> tox_session \<Rightarrow> tox_session option" where
  "iterate_call t d s =
     (case iterating s of
        Some (u, i) \<Rightarrow> if u = t \<and> tpc_of s t = Running
          then Some (s\<lparr>savedata := (savedata s)(i := d)\<rparr>) else None
      | None \<Rightarrow> None)"

definition forwarded_call :: "thread \<Rightarrow> bytes \<Rightarrow> tox_session \<Rightarrow> tox_session option" where
  "forwarded_call t d s =
     (if tpc_of s t \<noteq> Running \<or> state_lock s \<noteq> None then None
      else case tox_ptr s of
        None \<Rightarrow> Some s
      | Some i \<Rightarrow> Some (s\<lparr>savedata := (savedata s)(i := d)\<rparr>))"

section \<open>The system\<close>

datatype session_act =
    AcquireTox | GateStep | FetchTox | DropPin instance_no | Unpin | CloseAdmission
  | GetSaveData int | SaveStep
  | IterateEnter | IterateLeave | Shutdown | Initialize "bytes option"
  | PinnedCall instance_no bytes | IterateCall bytes | ForwardedCall bytes

fun tox_step :: "thread \<Rightarrow> session_act \<Rightarrow> tox_session \<Rightarrow> tox_session option" where
  "tox_step t AcquireTox s = acquireTox_enter t s"
| "tox_step t GateStep s = acquireTox_gate t s"
| "tox_step t FetchTox s = acquireTox_fetch t s"
| "tox_step t (DropPin i) s = release_pin t i s"
| "tox_step t Unpin s = unpin t s"
| "tox_step t CloseAdmission s = closeAdmission t s"
| "tox_step t (GetSaveData k) s = getSaveData_enter t k s"
| "tox_step t SaveStep s = getSaveData_step t s"
| "tox_step t IterateEnter s = iterate_enter t s"
| "tox_step t IterateLeave s = iterate_leave t s"
| "tox_step t Shutdown s = shutdown_tox t s"
| "tox_step t (Initialize d) s = initialize_tox t d s"
| "tox_step t (PinnedCall i d) s = pinned_call t i d s"
| "tox_step t (IterateCall d) s = iterate_call t d s"
| "tox_step t (ForwardedCall d) s = forwarded_call t d s"

inductive tox_next :: "tox_session \<Rightarrow> tox_session \<Rightarrow> bool" where
  "tox_step t a s = Some s' \<Longrightarrow> tox_next s s'"

inductive_cases tox_nextE: "tox_next s s'"

text \<open>A schedule: the steps of the threads in the order they happen; \<open>None\<close> when one is not enabled.\<close>

fun run_schedule :: "(thread \<times> session_act) list \<Rightarrow> tox_session \<Rightarrow> tox_session option" where
  "run_schedule [] s = Some s"
| "run_schedule ((t, a) # rest) s =
     (case tox_step t a s of None \<Rightarrow> None | Some s' \<Rightarrow> run_schedule rest s')"

lemma run_schedule_path: "run_schedule as s = Some s' \<Longrightarrow> tox_next\<^sup>*\<^sup>* s s'"
proof (induction as s rule: run_schedule.induct)
  case (2 t a rest s)
  then obtain m where "tox_step t a s = Some m" "run_schedule rest m = Some s'"
    by (auto split: option.splits)
  with 2 show ?case by (meson converse_rtranclp_into_rtranclp tox_next.intros)
qed simp

end
