(* ===== verification/ToxSessionInvariant.thy ===== *)
theory ToxSessionInvariant
  imports ToxSession
begin

text \<open>
  The invariant of the session, in four parts that every step keeps: who holds which lock
  (\<open>locks_ok\<close>), the exact count of the pins (\<open>pins_ok\<close>), the life of the instances
  (\<open>lives_ok\<close>) and what holds while a saver reads (\<open>sealed_ok\<close>).
\<close>

lemmas gate_defs = acquireTox_enter_def acquireTox_gate_def acquireTox_fetch_def release_pin_def
  unpin_def closeAdmission_def

lemmas save_defs = getSaveData_enter_def getSaveData_step_def SaveQuiesce_enter_def
  SaveQuiesce_drain_def lockIterate_def rewait_def read_size_def read_copy_def unlock_iterate_def
  SaveQuiesce_exit_def next_round_def end_quiesce_def

lemmas life_defs = iterate_enter_def iterate_leave_def shutdown_tox_def initialize_tox_def
  pinned_call_def iterate_call_def forwarded_call_def

lemma goto_sel [simp]:
  "pin_count (goto t p s) = pin_count s" "pin_depth (goto t p s) = pin_depth s"
  "quiescing (goto t p s) = quiescing s" "quiescing_owner (goto t p s) = quiescing_owner s"
  "admission_closed (goto t p s) = admission_closed s" "iter_lock (goto t p s) = iter_lock s"
  "iterating (goto t p s) = iterating s" "state_lock (goto t p s) = state_lock s"
  "shutting_down (goto t p s) = shutting_down s" "tox_ptr (goto t p s) = tox_ptr s"
  "handles (goto t p s) = handles s" "savedata (goto t p s) = savedata s"
  "next_tox (goto t p s) = next_tox s" "tox_killed (goto t p s) = tox_killed s"
  "tpc_of (goto t p s) = (tpc_of s)(t := p)" "snapshots (goto t p s) = snapshots s"
  "overrun (goto t p s) = overrun s"
  by (simp_all add: goto_def)

lemma drop_ref_sel [simp]:
  "pin_count (drop_ref i s) = pin_count s" "pin_depth (drop_ref i s) = pin_depth s"
  "quiescing (drop_ref i s) = quiescing s" "quiescing_owner (drop_ref i s) = quiescing_owner s"
  "admission_closed (drop_ref i s) = admission_closed s" "iter_lock (drop_ref i s) = iter_lock s"
  "iterating (drop_ref i s) = iterating s" "state_lock (drop_ref i s) = state_lock s"
  "shutting_down (drop_ref i s) = shutting_down s" "tox_ptr (drop_ref i s) = tox_ptr s"
  "handles (drop_ref i s) = handles s" "savedata (drop_ref i s) = savedata s"
  "next_tox (drop_ref i s) = next_tox s" "tpc_of (drop_ref i s) = tpc_of s"
  "snapshots (drop_ref i s) = snapshots s" "overrun (drop_ref i s) = overrun s"
  by (simp_all add: drop_ref_def)

lemma count_pin_sel [simp]:
  "quiescing (count_pin t s) = quiescing s" "quiescing_owner (count_pin t s) = quiescing_owner s"
  "iter_lock (count_pin t s) = iter_lock s" "iterating (count_pin t s) = iterating s"
  "state_lock (count_pin t s) = state_lock s" "tox_ptr (count_pin t s) = tox_ptr s"
  "handles (count_pin t s) = handles s" "savedata (count_pin t s) = savedata s"
  "next_tox (count_pin t s) = next_tox s" "tox_killed (count_pin t s) = tox_killed s"
  "tpc_of (count_pin t s) = tpc_of s" "overrun (count_pin t s) = overrun s"
  "admission_closed (count_pin t s) = admission_closed s" "snapshots (count_pin t s) = snapshots s"
  by (simp_all add: count_pin_def)

lemma uncount_pin_sel [simp]:
  "quiescing (uncount_pin t s) = quiescing s" "quiescing_owner (uncount_pin t s) = quiescing_owner s"
  "iter_lock (uncount_pin t s) = iter_lock s" "iterating (uncount_pin t s) = iterating s"
  "state_lock (uncount_pin t s) = state_lock s" "tox_ptr (uncount_pin t s) = tox_ptr s"
  "handles (uncount_pin t s) = handles s" "savedata (uncount_pin t s) = savedata s"
  "next_tox (uncount_pin t s) = next_tox s" "tox_killed (uncount_pin t s) = tox_killed s"
  "tpc_of (uncount_pin t s) = tpc_of s" "overrun (uncount_pin t s) = overrun s"
  "admission_closed (uncount_pin t s) = admission_closed s"
  "snapshots (uncount_pin t s) = snapshots s"
  by (simp_all add: uncount_pin_def)

section \<open>Locks\<close>

fun in_quiesce :: "tpc \<Rightarrow> bool" where
  "in_quiesce (SaveDrain n) = True"
| "in_quiesce (SaveLock n) = True"
| "in_quiesce (SaveRewait n) = True"
| "in_quiesce (SaveSize n) = True"
| "in_quiesce (SaveCopy n i sz) = True"
| "in_quiesce (SaveLeave n r) = True"
| "in_quiesce (SaveResume n r) = True"
| "in_quiesce _ = False"

fun holds_iter :: "tpc \<Rightarrow> bool" where
  "holds_iter (SaveRewait n) = True"
| "holds_iter (SaveSize n) = True"
| "holds_iter (SaveCopy n i sz) = True"
| "holds_iter (SaveLeave n r) = True"
| "holds_iter _ = False"

fun copying :: "tpc \<Rightarrow> bool" where
  "copying (SaveCopy n i sz) = True"
| "copying _ = False"

definition thread_locks :: "tox_session \<Rightarrow> thread \<Rightarrow> tpc \<Rightarrow> bool" where
  "thread_locks s t p \<longleftrightarrow>
     (in_quiesce p \<longleftrightarrow> quiescing_owner s = Some t) \<and>
     (copying p \<longleftrightarrow> state_lock s = Some t) \<and>
     (holds_iter p \<longrightarrow> iter_lock s = Some t) \<and>
     (iter_lock s = Some t \<longrightarrow> holds_iter p \<or> isIterateOwner t s) \<and>
     (isIterateOwner t s \<longrightarrow> iter_lock s = Some t)"

definition locks_ok :: "tox_session \<Rightarrow> bool" where
  "locks_ok s \<longleftrightarrow> (quiescing s \<longleftrightarrow> quiescing_owner s \<noteq> None) \<and> (\<forall>t. thread_locks s t (tpc_of s t))"

lemma locks_ok_new: "locks_ok new_session"
  by (simp add: locks_ok_def thread_locks_def new_session_def isIterateOwner_def)

lemma locks_okD: "locks_ok s \<Longrightarrow> thread_locks s t (tpc_of s t)"
  by (simp add: locks_ok_def)

lemma locks_ok_quiescing: "locks_ok s \<Longrightarrow> quiescing s \<longleftrightarrow> quiescing_owner s \<noteq> None"
  by (simp add: locks_ok_def)

lemma holds_iter_in_quiesce: "holds_iter p \<Longrightarrow> in_quiesce p"
  by (cases p) simp_all

lemma copying_holds_iter: "copying p \<Longrightarrow> holds_iter p"
  by (cases p) simp_all

text \<open>
  A step of thread \<open>t\<close> keeps \<open>locks_ok\<close> when it is right for \<open>t\<close> and the other threads see
  no change of the locks they might hold.
\<close>

lemma locks_okI:
  assumes "locks_ok s"
    and "\<And>u. u \<noteq> t \<Longrightarrow> tpc_of s' u = tpc_of s u"
    and "quiescing s' \<longleftrightarrow> quiescing_owner s' \<noteq> None"
    and "thread_locks s' t (tpc_of s' t)"
    and "\<And>u. u \<noteq> t \<Longrightarrow> thread_locks s u (tpc_of s u) \<Longrightarrow> thread_locks s' u (tpc_of s u)"
  shows "locks_ok s'"
  unfolding locks_ok_def
proof (intro conjI allI)
  fix u
  show "thread_locks s' u (tpc_of s' u)"
    using assms(2,4,5) locks_okD [OF assms(1), of u] by (cases "u = t") auto
qed (rule assms(3))

text \<open>The steps that touch no lock and move \<open>t\<close> within the same kind of position.\<close>

lemma locks_ok_frame:
  assumes "locks_ok s"
    and "quiescing s' = quiescing s" "quiescing_owner s' = quiescing_owner s"
    and "iter_lock s' = iter_lock s" "iterating s' = iterating s" "state_lock s' = state_lock s"
    and "tpc_of s' = (tpc_of s)(t := p)"
    and "in_quiesce p = in_quiesce (tpc_of s t)" "copying p = copying (tpc_of s t)"
    and "holds_iter p = holds_iter (tpc_of s t)"
  shows "locks_ok s'"
  using assms locks_okD [OF assms(1)]
  by (intro locks_okI [OF assms(1), of t]) (auto simp: thread_locks_def isIterateOwner_def locks_ok_quiescing)

lemmas locks_ok_same = locks_ok_frame [where p = "tpc_of s t" and s = s and t = t for s t, simplified]

lemma locks_gate:
  assumes "locks_ok s"
  shows "acquireTox_enter t s = Some s' \<Longrightarrow> locks_ok s'"
    and "acquireTox_gate t s = Some s' \<Longrightarrow> locks_ok s'"
    and "acquireTox_fetch t s = Some s' \<Longrightarrow> locks_ok s'"
    and "release_pin t i s = Some s' \<Longrightarrow> locks_ok s'"
    and "unpin t s = Some s' \<Longrightarrow> locks_ok s'"
    and "closeAdmission t s = Some s' \<Longrightarrow> locks_ok s'"
  using assms
  by (auto simp: gate_defs split: if_splits option.splits
      intro: locks_ok_frame [OF assms, of _ t] locks_ok_same)

lemma locks_calls:
  assumes "locks_ok s"
  shows "shutdown_tox t s = Some s' \<Longrightarrow> locks_ok s'"
    and "initialize_tox t d s = Some s' \<Longrightarrow> locks_ok s'"
    and "pinned_call t i b s = Some s' \<Longrightarrow> locks_ok s'"
    and "iterate_call t b s = Some s' \<Longrightarrow> locks_ok s'"
    and "forwarded_call t b s = Some s' \<Longrightarrow> locks_ok s'"
  using assms
  by (auto simp: life_defs split: if_splits option.splits prod.splits intro: locks_ok_same)

lemma locks_iterate_enter:
  assumes "locks_ok s" and "iterate_enter t s = Some s'"
  shows "locks_ok s'"
proof (cases "s' = s")
  case False
  then obtain i where "tpc_of s t = Running" "iter_lock s = None" "\<not> isIterateOwner t s" and
    s': "s' = s\<lparr>iter_lock := Some t, iterating := Some (t, i)\<rparr>"
    using assms(2) by (auto simp: iterate_enter_def split: if_splits option.splits)
  then show ?thesis
    using locks_okD [OF assms(1), of t] assms(1)
    by (intro locks_okI [OF assms(1), of t])
      (auto simp: thread_locks_def isIterateOwner_def locks_ok_quiescing)
qed (use assms in simp)

lemma locks_iterate_leave:
  assumes "locks_ok s" and "iterate_leave t s = Some s'"
  shows "locks_ok s'"
  using assms locks_okD [OF assms(1), of t]
  by (intro locks_okI [OF assms(1), of t])
    (auto simp: iterate_leave_def thread_locks_def isIterateOwner_def locks_ok_quiescing split: if_splits)

lemma locks_save_enter:
  "locks_ok s \<Longrightarrow> getSaveData_enter t k s = Some s' \<Longrightarrow> locks_ok s'"
  by (auto simp: getSaveData_enter_def split: if_splits intro: locks_ok_frame [of s _ t])

lemma next_round_sel [simp]:
  "pin_count (next_round t n s) = pin_count s" "pin_depth (next_round t n s) = pin_depth s"
  "quiescing (next_round t n s) = quiescing s"
  "quiescing_owner (next_round t n s) = quiescing_owner s"
  "admission_closed (next_round t n s) = admission_closed s"
  "iter_lock (next_round t n s) = iter_lock s" "iterating (next_round t n s) = iterating s"
  "state_lock (next_round t n s) = state_lock s" "tox_ptr (next_round t n s) = tox_ptr s"
  "shutting_down (next_round t n s) = shutting_down s"
  "handles (next_round t n s) = handles s" "savedata (next_round t n s) = savedata s"
  "next_tox (next_round t n s) = next_tox s" "tox_killed (next_round t n s) = tox_killed s"
  "overrun (next_round t n s) = overrun s"
  "tpc_of (next_round t n s) = (tpc_of s)(t := (case n of 0 \<Rightarrow> Running | Suc m \<Rightarrow> SaveEnter m))"
  by (simp_all add: next_round_def split: nat.split)

lemma end_quiesce_sel [simp]:
  "pin_count (end_quiesce s) = pin_count s" "pin_depth (end_quiesce s) = pin_depth s"
  "\<not> quiescing (end_quiesce s)" "quiescing_owner (end_quiesce s) = None"
  "admission_closed (end_quiesce s) = admission_closed s"
  "iter_lock (end_quiesce s) = iter_lock s" "iterating (end_quiesce s) = iterating s"
  "state_lock (end_quiesce s) = state_lock s" "tox_ptr (end_quiesce s) = tox_ptr s"
  "shutting_down (end_quiesce s) = shutting_down s"
  "handles (end_quiesce s) = handles s" "savedata (end_quiesce s) = savedata s"
  "next_tox (end_quiesce s) = next_tox s" "tox_killed (end_quiesce s) = tox_killed s"
  "overrun (end_quiesce s) = overrun s" "tpc_of (end_quiesce s) = tpc_of s"
  by (simp_all add: end_quiesce_def)

lemma locks_save:
  assumes "locks_ok s" and "getSaveData_step t s = Some s'"
  shows "locks_ok s'"
proof -
  note step = assms(2) [unfolded getSaveData_step_def]
  note here = locks_okD [OF assms(1), of t]
  note goal = locks_okI [OF assms(1), of t s']
  show ?thesis
  proof (cases "tpc_of s t")
    case (SaveEnter n)
    with step here assms(1) show ?thesis
      by (intro goal) (auto simp: SaveQuiesce_enter_def thread_locks_def isIterateOwner_def
          locks_ok_quiescing split: if_splits nat.splits)
  next
    case (SaveDrain n)
    with step here assms(1) show ?thesis
      by (intro goal) (auto simp: SaveQuiesce_drain_def thread_locks_def isIterateOwner_def
          locks_ok_quiescing split: if_splits nat.splits)
  next
    case (SaveLock n)
    with step here assms(1) show ?thesis
      by (intro goal) (auto simp: lockIterate_def thread_locks_def isIterateOwner_def
          locks_ok_quiescing split: if_splits)
  next
    case (SaveRewait n)
    with step here assms(1) show ?thesis
      by (intro goal) (auto simp: rewait_def thread_locks_def isIterateOwner_def
          locks_ok_quiescing split: if_splits)
  next
    case (SaveSize n)
    with step here assms(1) show ?thesis
      by (intro goal) (auto simp: read_size_def thread_locks_def isIterateOwner_def
          locks_ok_quiescing split: if_splits option.splits)
  next
    case (SaveCopy n i sz)
    with step here assms(1) show ?thesis
      by (intro goal) (auto simp: read_copy_def thread_locks_def isIterateOwner_def
          locks_ok_quiescing)
  next
    case (SaveLeave n r)
    with step here assms(1) show ?thesis
      by (intro goal) (auto simp: unlock_iterate_def thread_locks_def isIterateOwner_def
          locks_ok_quiescing split: if_splits)
  next
    case (SaveResume n r)
    with step here assms(1) show ?thesis
      by (intro goal) (auto simp: SaveQuiesce_exit_def thread_locks_def isIterateOwner_def
          split: option.splits nat.splits)
  qed (use step in simp_all)
qed

lemma locks_ok_step:
  assumes "locks_ok s" and "tox_step t a s = Some s'"
  shows "locks_ok s'"
  using assms(2) by (cases a)
    (auto intro: locks_gate [OF assms(1)] locks_calls [OF assms(1)] locks_save [OF assms(1)]
      locks_save_enter [OF assms(1)] locks_iterate_enter [OF assms(1)]
      locks_iterate_leave [OF assms(1)])

section \<open>Pins\<close>

text \<open>
  The gate counts the handles and the pins that are being taken or given back: \<open>ps\<close> lists one
  thread per pin.
\<close>

definition in_hand :: "tpc \<Rightarrow> nat" where
  "in_hand p = (if p = Admitted \<or> p = Unpinning then 1 else 0)"

definition pins_are :: "thread list \<Rightarrow> tox_session \<Rightarrow> bool" where
  "pins_are ps s \<longleftrightarrow>
     pin_count s = int (length ps) \<and>
     (\<forall>t. pin_depth s t = (if count_list ps t = 0 then None else Some (int (count_list ps t)))) \<and>
     (\<forall>t. count_list ps t = count_list (map fst (handles s)) t + in_hand (tpc_of s t))"

definition pins_ok :: "tox_session \<Rightarrow> bool" where
  "pins_ok s \<longleftrightarrow> (\<exists>ps. pins_are ps s)"

lemma pins_ok_new: "pins_ok new_session"
  by (auto simp: pins_ok_def pins_are_def new_session_def in_hand_def intro!: exI [of _ "[]"])

lemma own_depth_pins: "pins_are ps s \<Longrightarrow> own_depth t s = int (count_list ps t)"
  by (simp add: own_depth_def pins_are_def)

lemma drained_pins: "pins_are ps s \<Longrightarrow> drained t s \<longleftrightarrow> set ps \<subseteq> {t}"
proof -
  assume a: "pins_are ps s"
  have "length ps \<le> count_list ps t \<longleftrightarrow> set ps \<subseteq> {t}"
  proof (induction ps)
    case (Cons u ps)
    have "count_list ps t \<le> length ps" by (rule count_le_length)
    with Cons show ?case by auto
  qed simp
  moreover have "pin_count s = int (length ps)" using a by (simp add: pins_are_def)
  ultimately show ?thesis by (simp add: drained_def own_depth_pins [OF a])
qed

lemma count_list_remove1: "x \<in> set xs \<Longrightarrow> count_list (remove1 x xs) y = (if x = y then count_list xs y - 1 else count_list xs y)"
  by (induction xs) auto

lemma count_list_fst_remove1:
  "(t, i) \<in> set hs \<Longrightarrow>
   count_list (map fst (remove1 (t, i) hs)) u = (if u = t then count_list (map fst hs) u - 1 else count_list (map fst hs) u)"
proof (induction hs)
  case (Cons h hs)
  show ?case
  proof (cases "h = (t, i)")
    case False
    with Cons have "(t, i) \<in> set hs" by simp
    then have "t \<in> fst ` set hs" by force
    then have "count_list (map fst hs) t \<noteq> 0" by (simp add: count_list_0_iff)
    with False Cons \<open>(t, i) \<in> set hs\<close> show ?thesis by auto
  qed simp
qed simp

lemma handle_counted: "(t, i) \<in> set hs \<Longrightarrow> 0 < count_list (map fst hs) t"
  using count_list_0_iff [of "map fst hs" t] by force

lemma pins_count_pin:
  assumes "pins_are ps s" and "in_hand (tpc_of s t) = 0"
  shows "pins_are (t # ps) (goto t Admitted (count_pin t s))"
  using assms own_depth_pins [OF assms(1), of t]
  by (auto simp: pins_are_def count_pin_def in_hand_def)

lemma pins_uncount_pin:
  assumes "pins_are ps s" and "tpc_of s t = Unpinning"
  shows "pins_are (remove1 t ps) (goto t Running (uncount_pin t s))"
proof -
  have "0 < count_list ps t" using assms by (simp add: pins_are_def in_hand_def)
  then have t: "t \<in> set ps" using count_list_0_iff [of ps t] by auto
  then have len: "0 < length ps" by (rule length_pos_if_in_set)
  then have "int (length ps - Suc 0) = int (length ps) - 1" by linarith
  have ne: "count_list ps t \<noteq> 0" using \<open>0 < count_list ps t\<close> by simp
  show ?thesis unfolding pins_are_def
  proof (intro conjI allI)
    show "pin_count (goto t Running (uncount_pin t s)) = int (length (remove1 t ps))"
      using assms len t \<open>int (length ps - Suc 0) = int (length ps) - 1\<close> by (simp add: pins_are_def uncount_pin_def length_remove1)
  next
    fix u
    have "pin_depth s t = Some (int (count_list ps t))" "pin_depth s u = (if count_list ps u = 0 then None else Some (int (count_list ps u)))"
      using assms(1) ne unfolding pins_are_def by metis+
    then show "pin_depth (goto t Running (uncount_pin t s)) u =
        (if count_list (remove1 t ps) u = 0 then None else Some (int (count_list (remove1 t ps) u)))"
      using t ne by (auto simp: uncount_pin_def count_list_remove1)
  next
    fix u
    have "count_list ps u = count_list (map fst (handles s)) u + in_hand (tpc_of s u)"
      using assms(1) unfolding pins_are_def by metis
    then show "count_list (remove1 t ps) u =
        count_list (map fst (handles (goto t Running (uncount_pin t s)))) u +
        in_hand (tpc_of (goto t Running (uncount_pin t s)) u)"
      using t assms(2) by (auto simp: count_list_remove1 in_hand_def)
  qed
qed

text \<open>Every other step keeps the pins: it changes neither the count nor the handles.\<close>

lemma pins_frame:
  assumes "pins_are ps s"
    and "pin_count s' = pin_count s" "pin_depth s' = pin_depth s" "handles s' = handles s"
    and "tpc_of s' = (tpc_of s)(t := p)" and "in_hand p = in_hand (tpc_of s t)"
  shows "pins_are ps s'"
  using assms by (auto simp: pins_are_def)

lemma pins_release:
  assumes "pins_are ps s" and "release_pin t i s = Some s'"
  shows "pins_are ps s'"
proof -
  have h: "tpc_of s t = Running" "(t, i) \<in> set (handles s)" and
    s': "s' = goto t Unpinning (drop_ref i (s\<lparr>handles := remove1 (t, i) (handles s)\<rparr>))"
    using assms(2) by (auto simp: release_pin_def split: if_splits)
  have "0 < count_list (map fst (handles s)) t" using h(2) by (rule handle_counted)
  then show ?thesis using assms(1) h
    by (auto simp: s' pins_are_def in_hand_def count_list_fst_remove1)
qed

text \<open>The calls outside the gate leave the pins and the positions alone.\<close>

definition same_pins :: "tox_session \<Rightarrow> tox_session \<Rightarrow> bool" where
  "same_pins s s' \<longleftrightarrow> pin_count s' = pin_count s \<and> pin_depth s' = pin_depth s \<and>
     handles s' = handles s \<and> tpc_of s' = tpc_of s"

lemma life_same_pins:
  "closeAdmission t s = Some s' \<Longrightarrow> same_pins s s'"
  "iterate_enter t s = Some s' \<Longrightarrow> same_pins s s'"
  "iterate_leave t s = Some s' \<Longrightarrow> same_pins s s'"
  "shutdown_tox t s = Some s' \<Longrightarrow> same_pins s s'"
  "initialize_tox t m s = Some s' \<Longrightarrow> same_pins s s'"
  "pinned_call t i d s = Some s' \<Longrightarrow> same_pins s s'"
  "iterate_call t d s = Some s' \<Longrightarrow> same_pins s s'"
  "forwarded_call t d s = Some s' \<Longrightarrow> same_pins s s'"
  by (auto simp: same_pins_def life_defs closeAdmission_def split: if_splits option.splits)

lemma pins_same: "pins_are ps s \<Longrightarrow> same_pins s s' \<Longrightarrow> pins_are ps s'"
  by (simp add: pins_are_def same_pins_def)

lemma pins_fetch:
  assumes "pins_are ps s" and "tpc_of s t = Admitted"
  shows "pins_are ps (goto t Running (s\<lparr>handles := (t, i) # handles s\<rparr>))"
proof -
  have "count_list ps u = count_list (map fst (handles s)) u + in_hand (tpc_of s u)" for u
    using assms(1) unfolding pins_are_def by metis
  then have "count_list ps u = count_list (map fst ((t, i) # handles s)) u +
      in_hand (((tpc_of s)(t := Running)) u)" for u
    using assms(2) by (simp add: in_hand_def)
  moreover have "pin_depth s u = (if count_list ps u = 0 then None else Some (int (count_list ps u)))" for u
    using assms(1) unfolding pins_are_def by metis
  moreover have "pin_count s = int (length ps)" using assms(1) by (simp add: pins_are_def)
  ultimately show ?thesis by (simp add: pins_are_def del: list.map)
qed

lemma pins_gate:
  assumes "pins_are ps s"
  shows "acquireTox_enter t s = Some s' \<Longrightarrow> pins_are ps s'"
    and "acquireTox_gate t s = Some s' \<Longrightarrow> pins_are ps s' \<or> pins_are (t # ps) s'"
    and "acquireTox_fetch t s = Some s' \<Longrightarrow> pins_are ps s'"
    and "unpin t s = Some s' \<Longrightarrow> pins_are (remove1 t ps) s'"
    and "getSaveData_enter t k s = Some s' \<Longrightarrow> pins_are ps s'"
proof -
  note keep = pins_frame [OF assms, of _ t]
  show "acquireTox_enter t s = Some s' \<Longrightarrow> pins_are ps s'"
    using assms by (auto simp: acquireTox_enter_def in_hand_def split: if_splits intro: keep)
  show "getSaveData_enter t k s = Some s' \<Longrightarrow> pins_are ps s'"
    by (auto simp: getSaveData_enter_def in_hand_def split: if_splits intro: keep)
  show "acquireTox_gate t s = Some s' \<Longrightarrow> pins_are ps s' \<or> pins_are (t # ps) s'"
    using pins_count_pin [OF assms, of t]
    by (auto simp: acquireTox_gate_def in_hand_def split: if_splits intro: keep)
  show "acquireTox_fetch t s = Some s' \<Longrightarrow> pins_are ps s'"
    using pins_fetch [OF assms, of t]
    by (auto simp: acquireTox_fetch_def in_hand_def split: if_splits option.splits intro: keep)
  show "unpin t s = Some s' \<Longrightarrow> pins_are (remove1 t ps) s'"
    using pins_uncount_pin [OF assms, of t] by (auto simp: unpin_def split: if_splits)
qed

text \<open>A saver's step moves the saver and nothing of the pins, the instances or their data.\<close>

lemma save_frame:
  assumes "getSaveData_step t s = Some s'"
  obtains p where "tpc_of s' = (tpc_of s)(t := p)" "in_hand p = 0" "in_hand (tpc_of s t) = 0"
    "pin_count s' = pin_count s" "pin_depth s' = pin_depth s" "handles s' = handles s"
    "tox_ptr s' = tox_ptr s" "tox_killed s' = tox_killed s" "next_tox s' = next_tox s"
    "iterating s' = iterating s" "savedata s' = savedata s"
proof (rule that [of "tpc_of s' t"])
  note defs = getSaveData_step_def SaveQuiesce_enter_def SaveQuiesce_drain_def lockIterate_def
      rewait_def read_size_def read_copy_def unlock_iterate_def SaveQuiesce_exit_def in_hand_def
  show "tpc_of s' = (tpc_of s)(t := tpc_of s' t)" "in_hand (tpc_of s' t) = 0"
    "in_hand (tpc_of s t) = 0" "pin_count s' = pin_count s" "pin_depth s' = pin_depth s"
    "handles s' = handles s" "tox_ptr s' = tox_ptr s" "tox_killed s' = tox_killed s"
    "next_tox s' = next_tox s" "iterating s' = iterating s" "savedata s' = savedata s"
    using assms by (cases "tpc_of s t"; auto simp: defs split: if_splits option.splits nat.splits)+
qed

lemma pins_save: "pins_are ps s \<Longrightarrow> getSaveData_step t s = Some s' \<Longrightarrow> pins_are ps s'"
  by (erule save_frame) (rule pins_frame [of ps s _ t], simp_all)

lemma pins_ok_step:
  assumes "pins_ok s" and "tox_step t a s = Some s'"
  shows "pins_ok s'"
proof -
  obtain ps where ps: "pins_are ps s" using assms(1) by (auto simp: pins_ok_def)
  show ?thesis
    using assms(2) unfolding pins_ok_def
    by (cases a) (auto dest: pins_gate [OF ps] pins_save [OF ps] pins_release [OF ps] life_same_pins
        intro: pins_same [OF ps])
qed

section \<open>Instances\<close>

text \<open>
  An instance is alive or has been killed, once; the iterate works on the instance the manager
  holds.
\<close>

definition lives_ok :: "tox_session \<Rightarrow> bool" where
  "lives_ok s \<longleftrightarrow>
     distinct (tox_killed s) \<and>
     (\<forall>i. alive s i \<longrightarrow> i \<notin> set (tox_killed s)) \<and>
     (\<forall>i. i < next_tox s \<longleftrightarrow> alive s i \<or> i \<in> set (tox_killed s)) \<and>
     (\<forall>t i. iterating s = Some (t, i) \<longrightarrow> tox_ptr s = Some i)"

lemma lives_ok_new: "lives_ok new_session"
  by (simp add: lives_ok_def new_session_def alive_def)

lemma lives_frame:
  assumes "lives_ok s" and "tox_ptr s' = tox_ptr s" "snd ` set (handles s') = snd ` set (handles s)"
    and "tox_killed s' = tox_killed s" "next_tox s' = next_tox s"
    and "iterating s' = iterating s"
  shows "lives_ok s'"
  using assms by (simp add: lives_ok_def alive_def)

lemma lives_same:
  assumes "lives_ok s" and "tox_ptr s' = tox_ptr s" "handles s' = handles s"
    and "tox_killed s' = tox_killed s" "next_tox s' = next_tox s" "iterating s' = iterating s"
  shows "lives_ok s'"
  by (intro lives_frame [OF assms(1)]) (simp_all add: assms)

lemma lives_savedata [simp]: "lives_ok (s\<lparr>savedata := d\<rparr>) = lives_ok s"
  by (simp add: lives_ok_def alive_def)

lemma alive_drop_ref [simp]: "alive (drop_ref i s) = alive s"
  by (auto simp: fun_eq_iff alive_def)

text \<open>Dropping one reference to a live instance, of the manager or of a pin.\<close>

lemma lives_drop_ref:
  assumes "lives_ok s" and "alive s i" and "next_tox s' = next_tox s"
    and "tox_killed s' = tox_killed s"
    and "\<And>j. j \<noteq> i \<Longrightarrow> alive s' j = alive s j"
    and "\<And>u j. iterating s' = Some (u, j) \<Longrightarrow> tox_ptr s' = Some j"
  shows "lives_ok (drop_ref i s')"
proof (cases "alive s' i")
  case True
  have "alive s' j = alive s j" for j using assms True by (cases "j = i") auto
  then have "alive s' = alive s" by (rule ext)
  with True assms show ?thesis by (simp add: drop_ref_def lives_ok_def)
next
  case False
  with assms have a: "alive s' j \<longleftrightarrow> alive s j \<and> j \<noteq> i" for j by metis
  then have "alive (s'\<lparr>tox_killed := tox_killed s' @ [i]\<rparr>) j \<longleftrightarrow> alive s j \<and> j \<noteq> i" for j
    by (simp add: alive_def)
  with False assms show ?thesis by (auto simp: drop_ref_def lives_ok_def)
qed

lemma lives_goto [simp]: "lives_ok (goto t p s) = lives_ok s"
  by (simp add: lives_ok_def alive_def)

lemma alive_upd [simp]:
  "alive (goto t p s) = alive s" "alive (s\<lparr>savedata := d\<rparr>) = alive s"
  "alive (s\<lparr>iter_lock := l\<rparr>) = alive s" "alive (s\<lparr>iterating := x\<rparr>) = alive s"
  "alive (s\<lparr>shutting_down := b\<rparr>) = alive s"
  by (auto simp: fun_eq_iff alive_def)

lemma lives_release:
  assumes "lives_ok s" and "release_pin t i s = Some s'"
  shows "lives_ok s'"
proof -
  have h: "(t, i) \<in> set (handles s)" and
    s': "s' = goto t Unpinning (drop_ref i (s\<lparr>handles := remove1 (t, i) (handles s)\<rparr>))"
    using assms(2) by (auto simp: release_pin_def split: if_splits)
  have "(u, j) \<in> set (remove1 (t, i) (handles s)) \<longleftrightarrow> (u, j) \<in> set (handles s)" if "j \<noteq> i" for u j
    using that by (metis in_set_remove1 prod.inject)
  then have "alive (s\<lparr>handles := remove1 (t, i) (handles s)\<rparr>) j = alive s j" if "j \<noteq> i" for j
    using that by (force simp: alive_def)
  moreover have "alive s i" using h by (force simp: alive_def)
  ultimately show ?thesis unfolding s' lives_goto
    using assms(1) by (intro lives_drop_ref [of s]) (auto simp: lives_ok_def)
qed

lemma lives_shutdown:
  assumes "lives_ok s" and "locks_ok s" and "shutdown_tox t s = Some s'"
  shows "lives_ok s'"
proof (cases "s' = s")
  case False
  then obtain i where i: "tox_ptr s = Some i" "iter_lock s = None" and
    s': "s' = drop_ref i (s\<lparr>shutting_down := True, tox_ptr := None\<rparr>)"
    using assms(3) by (auto simp: shutdown_tox_def split: if_splits option.splits)
  have "iterating s = None"
    using locks_okD [OF assms(2)] i(2)
    by (cases "iterating s") (auto simp: thread_locks_def isIterateOwner_def)
  with i show ?thesis unfolding s'
    by (intro lives_drop_ref [OF assms(1)]) (auto simp: alive_def)
qed (use assms in simp)

lemma lives_initialize:
  assumes "lives_ok s" and "initialize_tox t m s = Some s'"
  shows "lives_ok s'"
proof (cases "m = None \<or> tox_ptr s \<noteq> None")
  case True
  with assms show ?thesis
    by (auto simp: initialize_tox_def split: if_splits option.splits intro: lives_same [of s])
next
  case False
  have fresh: "\<not> alive s (next_tox s)" "next_tox s \<notin> set (tox_killed s)"
    using assms(1) by (auto simp: lives_ok_def)
  have "alive s' i \<longleftrightarrow> alive s i \<or> i = next_tox s" for i
    using False assms(2) by (auto simp: initialize_tox_def alive_def split: if_splits)
  moreover have "iterating s' = None" "tox_killed s' = tox_killed s" "next_tox s' = Suc (next_tox s)"
    using False assms by (auto simp: initialize_tox_def lives_ok_def split: if_splits)
  ultimately show ?thesis
    using assms(1) fresh by (auto simp: lives_ok_def less_Suc_eq)
qed

lemma lives_calls:
  assumes "lives_ok s"
  shows "pinned_call t i d s = Some s' \<Longrightarrow> lives_ok s'"
    and "iterate_call t d s = Some s' \<Longrightarrow> lives_ok s'"
    and "forwarded_call t d s = Some s' \<Longrightarrow> lives_ok s'"
    and "closeAdmission t s = Some s' \<Longrightarrow> lives_ok s'"
    and "getSaveData_enter t k s = Some s' \<Longrightarrow> lives_ok s'"
    and "acquireTox_enter t s = Some s' \<Longrightarrow> lives_ok s'"
    and "acquireTox_gate t s = Some s' \<Longrightarrow> lives_ok s'"
    and "unpin t s = Some s' \<Longrightarrow> lives_ok s'"
  using assms
  by (auto simp: life_defs gate_defs getSaveData_enter_def split: if_splits option.splits
      intro: lives_same [OF assms])

lemma lives_iterate:
  assumes "lives_ok s"
  shows "iterate_enter t s = Some s' \<Longrightarrow> lives_ok s'"
    and "iterate_leave t s = Some s' \<Longrightarrow> lives_ok s'"
proof -
  have "lives_ok (s\<lparr>iter_lock := l, iterating := None\<rparr>)" for l
    using assms by (simp add: lives_ok_def)
  moreover have "lives_ok (s\<lparr>iter_lock := l, iterating := Some (t, i)\<rparr>)" if "tox_ptr s = Some i" for l i
    using assms that by (simp add: lives_ok_def)
  ultimately show "iterate_enter t s = Some s' \<Longrightarrow> lives_ok s'" "iterate_leave t s = Some s' \<Longrightarrow> lives_ok s'"
    using assms by (auto simp: iterate_enter_def iterate_leave_def split: if_splits option.splits)
qed

lemma lives_fetch:
  assumes "lives_ok s" and "acquireTox_fetch t s = Some s'"
  shows "lives_ok s'"
proof -
  have "lives_ok (s\<lparr>handles := (t, i) # handles s\<rparr>)" if "tox_ptr s = Some i" for i
  proof -
    have "alive (s\<lparr>handles := (t, i) # handles s\<rparr>) = alive s"
      using that by (auto simp: fun_eq_iff alive_def)
    with assms(1) show ?thesis by (simp add: lives_ok_def)
  qed
  with assms show ?thesis by (auto simp: acquireTox_fetch_def split: if_splits option.splits)
qed

lemma lives_save: "lives_ok s \<Longrightarrow> getSaveData_step t s = Some s' \<Longrightarrow> lives_ok s'"
  by (erule save_frame) (rule lives_frame, simp_all)

lemma lives_ok_step:
  assumes "lives_ok s" and "locks_ok s" and "tox_step t a s = Some s'"
  shows "lives_ok s'"
  using assms(3)
  by (cases a) (auto dest: lives_calls [OF assms(1)] lives_iterate [OF assms(1)] lives_fetch [OF assms(1)] lives_save [OF assms(1)]
      lives_release [OF assms(1)] lives_initialize [OF assms(1)] lives_shutdown [OF assms(1,2)])

section \<open>Reading\<close>

text \<open>
  From the second drain to the end of the copy the saver is alone: no other thread has a pin,
  and at the copy the size that was read is still the size of the savedata.
\<close>

fun reading :: "tpc \<Rightarrow> bool" where
  "reading (SaveSize n) = True"
| "reading (SaveCopy n i sz) = True"
| "reading _ = False"

definition sealed_ok :: "tox_session \<Rightarrow> bool" where
  "sealed_ok s \<longleftrightarrow> \<not> overrun s \<and>
     (\<forall>t. reading (tpc_of s t) \<longrightarrow> (\<forall>u. u \<noteq> t \<longrightarrow> own_depth u s = 0)) \<and>
     (\<forall>t n i sz. tpc_of s t = SaveCopy n i sz \<longrightarrow> tox_ptr s = Some i \<and> length (savedata s i) = sz)"

lemma sealed_ok_new: "sealed_ok new_session"
  by (simp add: sealed_ok_def new_session_def)

lemma reading_holds_iter: "reading p \<Longrightarrow> holds_iter p"
  by (cases p) simp_all

text \<open>While a saver reads, no other thread is reentrant, so none passes the gate.\<close>

lemma reader_excludes:
  assumes "locks_ok s" and "sealed_ok s" and "reading (tpc_of s t)" and "u \<noteq> t"
  shows "\<not> reentrant u s" and "quiescing s" and "\<not> isIterateOwner u s"
proof -
  have t: "quiescing_owner s = Some t" "iter_lock s = Some t"
    using locks_okD [OF assms(1), of t] reading_holds_iter [OF assms(3)] holds_iter_in_quiesce
    by (auto simp: thread_locks_def)
  then show "quiescing s" using locks_ok_quiescing [OF assms(1)] by simp
  show i: "\<not> isIterateOwner u s"
    using locks_okD [OF assms(1), of u] t assms(4) by (auto simp: thread_locks_def)
  show "\<not> reentrant u s"
    using assms t i by (auto simp: reentrant_def sealed_ok_def)
qed

text \<open>
  What a step of thread \<open>t\<close> must show: no overrun, the reading positions of \<open>t\<close> itself, and
  for another thread that reads, that it is left alone.
\<close>

lemma sealed_okI:
  assumes "sealed_ok s"
    and "\<And>u. u \<noteq> t \<Longrightarrow> tpc_of s' u = tpc_of s u"
    and "\<not> overrun s'"
    and "reading (tpc_of s' t) \<Longrightarrow> \<forall>u. u \<noteq> t \<longrightarrow> own_depth u s' = 0"
    and "\<And>n i sz. tpc_of s' t = SaveCopy n i sz \<Longrightarrow> tox_ptr s' = Some i \<and> length (savedata s' i) = sz"
    and "\<And>u. u \<noteq> t \<Longrightarrow> reading (tpc_of s u) \<Longrightarrow> own_depth t s' = 0 \<and>
      (\<forall>v. v \<noteq> t \<longrightarrow> own_depth v s' = own_depth v s)"
    and "\<And>u n i sz. u \<noteq> t \<Longrightarrow> tpc_of s u = SaveCopy n i sz \<Longrightarrow>
      tox_ptr s' = tox_ptr s \<and> savedata s' i = savedata s i"
  shows "sealed_ok s'"
  unfolding sealed_ok_def
proof (intro conjI allI impI)
  fix u v assume "reading (tpc_of s' u)" "v \<noteq> u"
  then show "own_depth v s' = 0"
    using assms(1,2,4,6) unfolding sealed_ok_def by (cases "u = t"; cases "v = t") metis+
next
  fix u n i sz assume a: "tpc_of s' u = SaveCopy n i sz"
  then show "tox_ptr s' = Some i" "length (savedata s' i) = sz"
    using assms(1,2,5,7) unfolding sealed_ok_def by (cases "u = t"; metis)+
qed (rule assms(3))

lemma own_depth_cong [cong]: "pin_depth s = pin_depth s' \<Longrightarrow> own_depth t s = own_depth t s'"
  by (simp add: own_depth_def)

lemma sealed_other_pins:
  assumes "sealed_ok s" and "reading (tpc_of s u)" and "t \<noteq> u"
  shows "own_depth t s = 0"
  using assms by (simp add: sealed_ok_def)

text \<open>Steps of a thread that is not reading and touches neither pins nor instances.\<close>

lemma sealed_move:
  assumes "sealed_ok s" and "tpc_of s' = (tpc_of s)(t := p)" and "\<not> reading p"
    and "pin_depth s' = pin_depth s" "tox_ptr s' = tox_ptr s" "savedata s' = savedata s"
    and "overrun s' = overrun s"
  shows "sealed_ok s'"
  using assms by (intro sealed_okI [OF assms(1), of t])
    (auto simp: sealed_ok_def own_depth_def split: tpc.splits)

lemma copy_locks:
  assumes "locks_ok s" and "tpc_of s u = SaveCopy n i sz"
  shows "state_lock s = Some u"
  using locks_okD [OF assms(1), of u] assms(2) by (simp add: thread_locks_def)

lemma handle_depth:
  assumes "pins_ok s" and "(t, i) \<in> set (handles s)"
  shows "own_depth t s > 0"
proof -
  obtain ps where ps: "pins_are ps s" using assms(1) by (auto simp: pins_ok_def)
  have "count_list ps t = count_list (map fst (handles s)) t + in_hand (tpc_of s t)"
    using ps unfolding pins_are_def by metis
  with handle_counted [OF assms(2)] own_depth_pins [OF ps, of t] show ?thesis by simp
qed

lemma sealed_still:
  assumes "sealed_ok s" and "tpc_of s' = tpc_of s" and "pin_depth s' = pin_depth s"
    and "tox_ptr s' = tox_ptr s" "savedata s' = savedata s" "overrun s' = overrun s"
  shows "sealed_ok s'"
  using assms by (simp add: sealed_ok_def own_depth_def)

lemma sealed_gate:
  assumes "locks_ok s" and "sealed_ok s" and "acquireTox_gate t s = Some s'"
  shows "sealed_ok s'"
proof (cases "s' = goto t Running s")
  case True
  with assms(2) show ?thesis by (auto intro: sealed_move [of s _ t Running])
next
  case False
  then have s': "s' = goto t Admitted (count_pin t s)" and "reentrant t s \<or> \<not> quiescing s"
    using assms(3) by (auto simp: acquireTox_gate_def split: if_splits)
  then have "\<not> reading (tpc_of s u)" if "u \<noteq> t" for u
    using reader_excludes [OF assms(1,2), of u t] that by auto
  then have "\<not> reading (tpc_of s' u)" for u by (simp add: s')
  moreover have "\<not> overrun s'" using assms(2) by (simp add: s' sealed_ok_def)
  ultimately show ?thesis unfolding sealed_ok_def by (metis reading.simps(2))
qed

lemma sealed_pins:
  assumes "sealed_ok s"
  shows "acquireTox_enter t s = Some s' \<Longrightarrow> sealed_ok s'"
    and "acquireTox_fetch t s = Some s' \<Longrightarrow> sealed_ok s'"
    and "release_pin t i s = Some s' \<Longrightarrow> sealed_ok s'"
    and "getSaveData_enter t k s = Some s' \<Longrightarrow> sealed_ok s'"
    and "closeAdmission t s = Some s' \<Longrightarrow> sealed_ok s'"
    and "iterate_enter t s = Some s' \<Longrightarrow> sealed_ok s'"
    and "iterate_leave t s = Some s' \<Longrightarrow> sealed_ok s'"
  using assms
  by (auto simp: gate_defs life_defs getSaveData_enter_def split: if_splits option.splits
      intro: sealed_move [OF assms, of _ t] sealed_still [OF assms])

lemma sealed_unpin:
  assumes "sealed_ok s" and "unpin t s = Some s'"
  shows "sealed_ok s'"
proof -
  have s': "s' = goto t Running (uncount_pin t s)"
    using assms(2) by (auto simp: unpin_def split: if_splits)
  have "own_depth v s' = own_depth v s" if "v \<noteq> t" for v
    using that by (auto simp: s' own_depth_def uncount_pin_def split: option.splits)
  moreover have "own_depth t s' = 0" if "own_depth t s = 0"
    using that by (auto simp: s' own_depth_def uncount_pin_def split: option.splits)
  ultimately show ?thesis
    using sealed_other_pins [OF assms(1)] assms(1)
    by (intro sealed_okI [OF assms(1), of t]) (auto simp: s' sealed_ok_def)
qed

text \<open>A step that changes instances or data happens only while no thread copies.\<close>

lemma sealed_no_copy:
  assumes "sealed_ok s" and "\<And>u n i sz. tpc_of s u \<noteq> SaveCopy n i sz"
    and "tpc_of s' = tpc_of s" "pin_depth s' = pin_depth s" "overrun s' = overrun s"
  shows "sealed_ok s'"
  using assms by (simp add: sealed_ok_def own_depth_def)

lemma sealed_locked:
  assumes "locks_ok s" and "sealed_ok s"
  shows "shutdown_tox t s = Some s' \<Longrightarrow> sealed_ok s'"
    and "initialize_tox t m s = Some s' \<Longrightarrow> sealed_ok s'"
    and "forwarded_call t d s = Some s' \<Longrightarrow> sealed_ok s'"
proof -
  have free: "tpc_of s u \<noteq> SaveCopy n i sz" if "state_lock s = None" for u n i sz
    using copy_locks [OF assms(1), of u n i sz] that by auto
  show "shutdown_tox t s = Some s' \<Longrightarrow> sealed_ok s'" "initialize_tox t m s = Some s' \<Longrightarrow> sealed_ok s'"
    "forwarded_call t d s = Some s' \<Longrightarrow> sealed_ok s'"
    using assms(2) free
    by (auto simp: life_defs split: if_splits option.splits
        intro!: sealed_no_copy [OF assms(2)] sealed_still [OF assms(2)])
qed

lemma sealed_calls:
  assumes "locks_ok s" and "pins_ok s" and "sealed_ok s"
  shows "pinned_call t i d s = Some s' \<Longrightarrow> sealed_ok s'"
    and "iterate_call t d s = Some s' \<Longrightarrow> sealed_ok s'"
proof -
  assume a: "pinned_call t i d s = Some s'"
  have "tpc_of s u \<noteq> SaveCopy n j sz" for u n j sz
    using a handle_depth [OF assms(2), of t i] sealed_other_pins [OF assms(3), of u t]
    by (cases "u = t") (auto simp: pinned_call_def split: if_splits)
  with a show "sealed_ok s'"
    by (auto simp: pinned_call_def split: if_splits intro: sealed_no_copy [OF assms(3)])
next
  assume a: "iterate_call t d s = Some s'"
  then have t: "isIterateOwner t s" "tpc_of s t = Running"
    by (auto simp: iterate_call_def isIterateOwner_def split: option.splits if_splits)
  have "tpc_of s u \<noteq> SaveCopy n j sz" for u n j sz
    using t reader_excludes(3) [OF assms(1,3), of u t] by (cases "u = t") auto
  with a show "sealed_ok s'"
    by (auto simp: iterate_call_def split: if_splits option.splits intro!: sealed_no_copy [OF assms(3)])
qed

lemma drained_alone:
  assumes "pins_ok s" and "drained t s" and "u \<noteq> t"
  shows "own_depth u s = 0"
proof -
  obtain ps where ps: "pins_are ps s" using assms(1) by (auto simp: pins_ok_def)
  with assms have "u \<notin> set ps" using drained_pins [OF ps] by auto
  then show ?thesis using own_depth_pins [OF ps, of u] count_list_0_iff [of ps u] by simp
qed

lemma sealed_save:
  assumes "pins_ok s" and "sealed_ok s" and step: "getSaveData_step t s = Some s'"
  shows "sealed_ok s'"
proof -
  from step obtain p where p: "tpc_of s' = (tpc_of s)(t := p)" and same:
      "pin_depth s' = pin_depth s" "tox_ptr s' = tox_ptr s" "savedata s' = savedata s"
    by (rule save_frame)
  have depth: "own_depth u s' = own_depth u s" for u by (simp add: own_depth_def same)
  have pt: "p = tpc_of s' t" by (simp add: p)
  have "\<not> overrun s'"
    using step assms(2) by (cases "tpc_of s t"; auto simp: getSaveData_step_def SaveQuiesce_enter_def
        SaveQuiesce_drain_def lockIterate_def rewait_def read_size_def read_copy_def
        unlock_iterate_def SaveQuiesce_exit_def sealed_ok_def split: if_splits option.splits)
  moreover have "reading p \<Longrightarrow> \<forall>u. u \<noteq> t \<longrightarrow> own_depth u s = 0"
    using step sealed_other_pins [OF assms(2), of t] drained_alone [OF assms(1), of t]
    by (cases "tpc_of s t"; auto simp: getSaveData_step_def SaveQuiesce_enter_def SaveQuiesce_drain_def
        lockIterate_def rewait_def read_size_def read_copy_def unlock_iterate_def SaveQuiesce_exit_def
        pt split: if_splits option.splits nat.splits)
  moreover have "p = SaveCopy n i sz \<Longrightarrow> tox_ptr s = Some i \<and> length (savedata s i) = sz" for n i sz
    using step
    by (cases "tpc_of s t"; auto simp: getSaveData_step_def SaveQuiesce_enter_def SaveQuiesce_drain_def
        lockIterate_def rewait_def read_size_def read_copy_def unlock_iterate_def SaveQuiesce_exit_def
        pt split: if_splits option.splits nat.splits)
  ultimately show ?thesis
    using sealed_other_pins [OF assms(2)]
    by (intro sealed_okI [OF assms(2), of t]) (auto simp: p depth same)
qed

lemma sealed_ok_step:
  assumes "locks_ok s" and "pins_ok s" and "sealed_ok s" and "tox_step t a s = Some s'"
  shows "sealed_ok s'"
  using assms(4)
  by (cases a) (auto dest: sealed_pins [OF assms(3)] sealed_gate [OF assms(1,3)]
      sealed_unpin [OF assms(3)] sealed_locked [OF assms(1,3)] sealed_calls [OF assms(1,2,3)]
      sealed_save [OF assms(2,3)])

section \<open>The invariant\<close>

definition tox_inv :: "tox_session \<Rightarrow> bool" where
  "tox_inv s \<longleftrightarrow> locks_ok s \<and> pins_ok s \<and> lives_ok s \<and> sealed_ok s"

interpretation tox: state_system "\<lambda>s. s = new_session" tox_next tox_inv
proof unfold_locales
  show "s = new_session \<Longrightarrow> tox_inv s" for s
    by (simp add: tox_inv_def locks_ok_new pins_ok_new lives_ok_new sealed_ok_new)
  show "tox_next s s' \<Longrightarrow> tox_inv s \<Longrightarrow> tox_inv s'" for s s'
    by (auto simp: tox_inv_def elim!: tox_nextE
        intro: locks_ok_step pins_ok_step lives_ok_step sealed_ok_step)
qed

end
