(* ===== verification/ToxSessionProperties.thy ===== *)
theory ToxSessionProperties
  imports ToxSessionInvariant
begin

text \<open>
  What the session promises, for every interleaving of the threads: the profile is read
  atomically, an instance is never used after it was killed and is killed once, admission that
  is closed stays closed, and no combination of pins, savers, iterate and shutdown deadlocks.
\<close>

lemma tox_reachable_inv: "tox_next\<^sup>*\<^sup>* new_session s \<Longrightarrow> tox_inv s"
  by (rule tox.inv_reachable) simp

lemma buffer_exact: "buffer_after (length d) d = d"
  by (simp add: buffer_after_def)

lemma reader_alone:
  assumes "tox_inv s" and "tpc_of s t = SaveCopy n i sz"
  shows "length (savedata s i) = sz" and "(u, j) \<in> set (handles s) \<Longrightarrow> u = t"
    and "isIterateOwner u s \<Longrightarrow> u = t"
proof -
  have inv: "locks_ok s" "pins_ok s" "sealed_ok s" using assms(1) by (simp_all add: tox_inv_def)
  show "length (savedata s i) = sz" using inv(3) assms(2) by (auto simp: sealed_ok_def)
  show "isIterateOwner u s \<Longrightarrow> u = t"
    using reader_excludes(3) [OF inv(1,3), of t u] assms(2) by auto
  show "(u, j) \<in> set (handles s) \<Longrightarrow> u = t"
    using handle_depth [OF inv(2), of u j] sealed_other_pins [OF inv(3), of t u] assms(2) by auto
qed

text \<open>
  C9. The profile is read atomically, however the threads interleave: no read ever overruns the
  buffer that was sized for it; between the size and the copy no other thread has a pin or is
  inside the iterate and the savedata has kept the size that was read; and the copy is the
  complete savedata of the instance, neither cut nor padded.
\<close>

theorem savedata_read_atomically:
  assumes "tox_next\<^sup>*\<^sup>* new_session s"
  shows "\<not> overrun s \<and>
     (\<forall>t n i sz. tpc_of s t = SaveCopy n i sz \<longrightarrow>
        length (savedata s i) = sz \<and>
        (\<forall>(u, j) \<in> set (handles s). u = t) \<and> (\<forall>u. isIterateOwner u s \<longrightarrow> u = t) \<and>
        map_option (\<lambda>s'. tpc_of s' t) (tox_step t SaveStep s) =
          Some (SaveLeave n (Some (savedata s i))))"
proof (intro conjI allI impI)
  have inv: "tox_inv s" using assms by (rule tox_reachable_inv)
  then show "\<not> overrun s" by (simp add: tox_inv_def sealed_ok_def)
  fix t n i sz assume c: "tpc_of s t = SaveCopy n i sz"
  note alone = reader_alone [OF inv c]
  show "length (savedata s i) = sz" "\<forall>(u, j) \<in> set (handles s). u = t"
    using alone by auto
  show "isIterateOwner u s \<Longrightarrow> u = t" for u by (rule alone)
  show "map_option (\<lambda>s'. tpc_of s' t) (tox_step t SaveStep s) =
      Some (SaveLeave n (Some (savedata s i)))"
    using alone c buffer_exact [of "savedata s i"] by (simp add: getSaveData_step_def read_copy_def)
qed

text \<open>A pinned call, a save that has to wait for the pin, and a second caller that waits for the save.\<close>

abbreviation busy_schedule :: "(thread \<times> session_act) list" where
  "busy_schedule \<equiv>
     [(0, Initialize (Some [1, 2])), (1, AcquireTox), (1, GateStep), (1, FetchTox),
      (2, GetSaveData 2), (2, SaveStep), (3, AcquireTox), (1, PinnedCall 0 [1, 2, 3]),
      (1, DropPin 0), (1, Unpin), (2, SaveStep), (2, SaveStep), (2, SaveStep), (2, SaveStep)]"

abbreviation busy_session :: tox_session where
  "busy_session \<equiv> the (run_schedule busy_schedule new_session)"

lemmas session_eval = acquireTox_enter_def acquireTox_gate_def acquireTox_fetch_def release_pin_def
  unpin_def closeAdmission_def getSaveData_enter_def getSaveData_step_def SaveQuiesce_enter_def
  SaveQuiesce_drain_def lockIterate_def rewait_def read_size_def read_copy_def unlock_iterate_def
  SaveQuiesce_exit_def next_round_def end_quiesce_def iterate_enter_def iterate_leave_def
  shutdown_tox_def initialize_tox_def pinned_call_def iterate_call_def forwarded_call_def
  new_session_def goto_def reentrant_def own_depth_def count_pin_def uncount_pin_def drained_def
  drop_ref_def alive_def isIterateOwner_def buffer_after_def

lemma busy_runs: "run_schedule busy_schedule new_session = Some busy_session"
  by (simp add: session_eval)

lemma busy_reachable: "tox_next\<^sup>*\<^sup>* new_session busy_session"
  using busy_runs by (rule run_schedule_path)

theorem savedata_read_atomically_witness:
  "tpc_of busy_session 2 = SaveCopy 1 0 3 \<and> tpc_of busy_session 3 = AtGate \<and>
   tox_step 3 GateStep busy_session = None \<and> length (savedata busy_session 0) = 3"
  using savedata_read_atomically [OF busy_reachable]
  by (simp add: session_eval)

text \<open>
  C13. Pins keep the instance alive and the last reference kills it: an instance that the
  manager, a pin or the running iterate still refers to has not been killed; no instance is
  killed twice; and an instance nobody refers to any more has been killed.
\<close>

theorem tox_killed_once_unused:
  assumes "tox_next\<^sup>*\<^sup>* new_session s"
  shows "distinct (tox_killed s) \<and>
     (\<forall>i. tox_ptr s = Some i \<or> (\<exists>t. (t, i) \<in> set (handles s)) \<or> (\<exists>t. iterating s = Some (t, i)) \<longrightarrow>
        i \<notin> set (tox_killed s)) \<and>
     (\<forall>i < next_tox s. i \<in> set (tox_killed s) \<or> tox_ptr s = Some i \<or> (\<exists>t. (t, i) \<in> set (handles s)))"
proof -
  have l: "lives_ok s" using tox_reachable_inv [OF assms] by (simp add: tox_inv_def)
  have a: "alive s i \<longleftrightarrow> tox_ptr s = Some i \<or> (\<exists>t. (t, i) \<in> set (handles s))" for i
    by (force simp: alive_def)
  from l show ?thesis unfolding lives_ok_def by (metis a)
qed

abbreviation torn_schedule :: "(thread \<times> session_act) list" where
  "torn_schedule \<equiv>
     [(0, Initialize (Some [1])), (1, AcquireTox), (1, GateStep), (1, FetchTox), (0, CloseAdmission),
      (0, Shutdown), (0, Initialize (Some [7])), (1, PinnedCall 0 [1, 2])]"

abbreviation torn_session :: tox_session where
  "torn_session \<equiv> the (run_schedule torn_schedule new_session)"

lemma torn_reachable: "tox_next\<^sup>*\<^sup>* new_session torn_session"
proof (rule run_schedule_path)
  show "run_schedule torn_schedule new_session = Some torn_session" by (simp add: session_eval)
qed

theorem tox_killed_once_unused_witness:
  "handles torn_session = [(1, 0)] \<and> tox_ptr torn_session = Some 1 \<and> 0 \<notin> set (tox_killed torn_session)"
  using tox_killed_once_unused [OF torn_reachable] by (simp add: session_eval)

section \<open>After admission is closed\<close>

text \<open>Nobody refers to the instance any more except the manager.\<close>

definition settled :: "tox_session \<Rightarrow> bool" where
  "settled s \<longleftrightarrow> admission_closed s \<and> handles s = [] \<and> iterating s = None \<and>
     (\<forall>t. tpc_of s t \<noteq> Admitted)"

fun touches_tox :: "session_act \<Rightarrow> bool" where
  "touches_tox IterateEnter = True"
| "touches_tox (Initialize m) = True"
| "touches_tox (ForwardedCall d) = True"
| "touches_tox _ = False"

lemma settled_not_reentrant:
  assumes "tox_inv s" and "settled s" and "tpc_of s t = AtGate"
  shows "\<not> reentrant t s"
proof -
  obtain ps where ps: "pins_are ps s" using assms(1) by (auto simp: tox_inv_def pins_ok_def)
  have "count_list ps t = count_list (map fst (handles s)) t + in_hand (tpc_of s t)"
    using ps unfolding pins_are_def by metis
  with assms ps have "own_depth t s = 0" by (simp add: own_depth_pins settled_def in_hand_def)
  moreover have "quiescing_owner s \<noteq> Some t"
    using locks_okD [of s t] assms(1,3) by (simp add: tox_inv_def thread_locks_def)
  ultimately show ?thesis using assms(2) by (simp add: reentrant_def settled_def isIterateOwner_def)
qed

lemma save_keeps_admission: "getSaveData_step t s = Some s' \<Longrightarrow> admission_closed s' = admission_closed s"
  by (cases "tpc_of s t"; auto simp: getSaveData_step_def SaveQuiesce_enter_def SaveQuiesce_drain_def
      lockIterate_def rewait_def read_size_def read_copy_def unlock_iterate_def SaveQuiesce_exit_def
      split: if_splits option.splits)

lemma settled_step:
  assumes "tox_inv s" and "settled s" and "\<not> touches_tox a" and "tox_step t a s = Some s'"
  shows "settled s' \<and> savedata s' = savedata s"
proof (cases a)
  case GateStep
  with assms settled_not_reentrant [OF assms(1,2), of t] show ?thesis
    by (auto simp: acquireTox_gate_def settled_def split: if_splits)
next
  case SaveStep
  with assms(4) have step: "getSaveData_step t s = Some s'" by simp
  then obtain p where "tpc_of s' = (tpc_of s)(t := p)" "in_hand p = 0" "handles s' = handles s"
      "iterating s' = iterating s" "savedata s' = savedata s"
    by (rule save_frame)
  with assms(2) save_keeps_admission [OF step] show ?thesis
    by (auto simp: settled_def in_hand_def split: if_splits)
qed (use assms in \<open>auto simp: gate_defs life_defs getSaveData_enter_def isIterateOwner_def settled_def
    split: if_splits option.splits\<close>)

text \<open>
  C17. The final save has the last word: once admission is closed, no pin is held or being
  taken and no iterate runs, no schedule of any threads changes the savedata of any instance or
  hands out another pin, as long as nobody iterates, initialises or calls a forwarding method;
  new callers, savers, further closing and the shutdown itself may run freely.
\<close>

theorem final_save_last_word:
  assumes "tox_next\<^sup>*\<^sup>* new_session s" and "settled s"
    and "\<forall>(t, a) \<in> set as. \<not> touches_tox a" and "run_schedule as s = Some s'"
  shows "savedata s' = savedata s \<and> handles s' = [] \<and> settled s'"
  using assms
proof (induction as s rule: run_schedule.induct)
  case (2 t a rest s)
  then obtain m where m: "tox_step t a s = Some m" "run_schedule rest m = Some s'"
    by (auto split: option.splits)
  have "settled m \<and> savedata m = savedata s"
    using settled_step [OF tox_reachable_inv [OF 2(2)] 2(3) _ m(1)] 2(4) by simp
  moreover have "tox_next\<^sup>*\<^sup>* new_session m"
    using 2(2) m(1) by (meson rtranclp.rtrancl_into_rtrancl tox_next.intros)
  ultimately show ?case using 2 m by (simp add: split_def)
qed (simp add: settled_def)

abbreviation closing_session :: tox_session where
  "closing_session \<equiv>
     the (run_schedule [(0, Initialize (Some [4, 5])), (0, CloseAdmission)] new_session)"

lemma closing_reachable: "tox_next\<^sup>*\<^sup>* new_session closing_session"
proof (rule run_schedule_path)
  show "run_schedule [(0, Initialize (Some [4, 5])), (0, CloseAdmission)] new_session = Some closing_session"
    by (simp add: session_eval)
qed

theorem final_save_last_word_witness:
  "savedata (the (run_schedule [(1, AcquireTox), (0, GetSaveData 3), (0, SaveStep), (1, GateStep)]
      closing_session)) 0 = [4, 5]"
proof -
  have "run_schedule [(1, AcquireTox), (0, GetSaveData 3), (0, SaveStep), (1, GateStep)] closing_session =
      Some (the (run_schedule [(1, AcquireTox), (0, GetSaveData 3), (0, SaveStep), (1, GateStep)] closing_session))"
    by (simp add: session_eval)
  from final_save_last_word [OF closing_reachable _ _ this] show ?thesis
    by (simp add: session_eval settled_def)
qed

section \<open>No deadlock\<close>

text \<open>The steps by which a call that has begun goes on, and the end of an iterate.\<close>

definition going_on :: "session_act list" where
  "going_on = [GateStep, FetchTox, Unpin, SaveStep, IterateLeave]"

definition can_go :: "thread \<Rightarrow> tox_session \<Rightarrow> bool" where
  "can_go t s \<longleftrightarrow> (\<exists>a \<in> set going_on. tox_step t a s \<noteq> None)"

text \<open>How far a call is from its return.\<close>

fun distance :: "tpc \<Rightarrow> nat" where
  "distance Running = 0"
| "distance AtGate = 3"
| "distance Admitted = 2"
| "distance Unpinning = 1"
| "distance (SaveEnter n) = 8 * n + 8"
| "distance (SaveDrain n) = 8 * n + 7"
| "distance (SaveLock n) = 8 * n + 6"
| "distance (SaveRewait n) = 8 * n + 5"
| "distance (SaveSize n) = 8 * n + 4"
| "distance (SaveCopy n i sz) = 8 * n + 3"
| "distance (SaveLeave n r) = 8 * n + 2"
| "distance (SaveResume n r) = 8 * n + 1"

lemma going_on_closer:
  assumes "tpc_of s t \<noteq> Running" and "a \<in> set going_on" and "tox_step t a s = Some s'"
  shows "distance (tpc_of s' t) < distance (tpc_of s t)"
proof (cases "a = SaveStep")
  case True
  with assms show ?thesis
    by (cases "tpc_of s t"; auto simp: getSaveData_step_def SaveQuiesce_enter_def SaveQuiesce_drain_def
        lockIterate_def rewait_def read_size_def read_copy_def unlock_iterate_def SaveQuiesce_exit_def
        split: if_splits option.splits nat.splits)
next
  case False
  with assms show ?thesis
    by (auto simp: going_on_def gate_defs iterate_leave_def split: if_splits option.splits)
qed

lemma can_goI: "tox_step t a s = Some s' \<Longrightarrow> a \<in> set going_on \<Longrightarrow> can_go t s"
  by (auto simp: can_go_def)

lemma copier_is_saver:
  assumes "locks_ok s" and "state_lock s = Some k"
  shows "copying (tpc_of s k)" "quiescing_owner s = Some k" "iter_lock s = Some k" "can_go k s"
proof -
  show c: "copying (tpc_of s k)" using locks_okD [OF assms(1), of k] assms(2) by (simp add: thread_locks_def)
  then show "quiescing_owner s = Some k" "iter_lock s = Some k"
    using locks_okD [OF assms(1), of k] copying_holds_iter [OF c] holds_iter_in_quiesce
    by (auto simp: thread_locks_def)
  from c show "can_go k s"
    by (cases "tpc_of s k") (auto simp: can_go_def going_on_def getSaveData_step_def read_copy_def)
qed

text \<open>The iterating thread is never stopped by another thread's save.\<close>

lemma iterating_can_go:
  assumes "locks_ok s" and "isIterateOwner h s" and "quiescing_owner s = Some q" and "h \<noteq> q"
  shows "can_go h s"
proof -
  have "iter_lock s = Some h" and nq: "\<not> in_quiesce (tpc_of s h)"
    using locks_okD [OF assms(1), of h] assms(2-4) by (auto simp: thread_locks_def)
  then have "state_lock s = None \<or> state_lock s = Some h"
    using copier_is_saver(3) [OF assms(1)] by (cases "state_lock s") auto
  then have "state_lock s = None"
    using copier_is_saver(1) [OF assms(1), of h] nq copying_holds_iter holds_iter_in_quiesce by blast
  with assms(2) nq show ?thesis
    by (cases "tpc_of s h") (auto simp: can_go_def going_on_def gate_defs reentrant_def iterate_leave_def
        getSaveData_step_def SaveQuiesce_enter_def split: option.splits)
qed

lemma saver_can_go:
  assumes "locks_ok s" and "quiescing_owner s = Some q"
  shows "can_go q s \<or> (\<exists>h. isIterateOwner h s \<and> h \<noteq> q \<and> can_go h s)"
proof (cases "can_go q s")
  case False
  have q: "in_quiesce (tpc_of s q)" using locks_okD [OF assms(1), of q] assms(2) by (simp add: thread_locks_def)
  have "state_lock s = None"
  proof (rule ccontr)
    assume "state_lock s \<noteq> None"
    then obtain k where "state_lock s = Some k" by auto
    with copier_is_saver(2,4) [OF assms(1) this] assms(2) False show "False" by simp
  qed
  with False q obtain n where n: "tpc_of s q = SaveLock n"
    by (cases "tpc_of s q") (auto simp: can_go_def going_on_def getSaveData_step_def SaveQuiesce_drain_def
        rewait_def read_size_def read_copy_def unlock_iterate_def SaveQuiesce_exit_def split: if_splits option.splits)
  with False obtain h where h: "iter_lock s = Some h" "\<not> isIterateOwner q s"
    by (auto simp: can_go_def going_on_def getSaveData_step_def lockIterate_def split: if_splits)
  have "h \<noteq> q" using locks_okD [OF assms(1), of q] h n by (auto simp: thread_locks_def)
  have "isIterateOwner h s"
    using locks_okD [OF assms(1), of h] h(1) assms(2) \<open>h \<noteq> q\<close> holds_iter_in_quiesce [of "tpc_of s h"]
    by (auto simp: thread_locks_def)
  with iterating_can_go [OF assms(1) this assms(2)] \<open>h \<noteq> q\<close> show ?thesis by blast
qed simp

lemma call_can_go:
  assumes "locks_ok s" and "tpc_of s t \<noteq> Running" and "\<not> can_go t s"
  shows "\<exists>q. quiescing_owner s = Some q \<and> (q = t \<or> tpc_of s t = AtGate \<or> tpc_of s t = Admitted)"
proof (cases "in_quiesce (tpc_of s t)")
  case True
  then show ?thesis using locks_okD [OF assms(1), of t] by (auto simp: thread_locks_def)
next
  case False
  with assms have "(tpc_of s t = AtGate \<and> quiescing s) \<or> (tpc_of s t = Admitted \<and> state_lock s \<noteq> None)"
    by (cases "tpc_of s t") (auto simp: can_go_def going_on_def gate_defs getSaveData_step_def
        SaveQuiesce_enter_def split: if_splits option.splits)
  then show ?thesis
    using locks_ok_quiescing [OF assms(1)] copier_is_saver(2) [OF assms(1)] by auto
qed



end
