(* ===== verification/ProfileFile.thy ===== *)
theory ProfileFile
  imports Prelude
begin

text \<open>
  The profile on disk: saving, re-keying and loading it (\<open>src/source/ToxManager.cpp\<close>) and what
  \<open>InitSDK\<close> does with a profile it cannot load (\<open>src/source/V2TIMManagerImpl.cpp\<close>), on POSIX.

  \<^item> The file system is a map from paths to files; a file is its content, its mode and whether
    the content has been flushed. A save returns the file systems after each of its system
    calls, so that a crash between any two of them is one of the listed states.
  \<^item> What the system calls answer is a record of outcomes; the write loop consumes a list of
    answers and has no result when the list ends before the loop does.
  \<^item> toxcore and its encrypted container are not part of the repository: encryption,
    decryption, the test for the container and the loading of savedata are arguments
    (\<open>tox_library\<close>); \<open>library_ok\<close> states what the manual promises of them.
\<close>

section \<open>Files\<close>

record pfile =
  content :: bytes
  mode :: nat
  synced :: bool

type_synonym filesystem = "string \<rightharpoonup> pfile"

datatype write_answer = Wrote nat | Interrupted | WriteError

record save_os =
  drains :: bool
  opens :: bool
  created_mode :: nat
  chmods :: bool
  writes :: "write_answer list"
  fsyncs :: bool
  closes :: bool
  renames :: bool
  removes :: bool

record tox_library =
  extra_length :: nat
  pass_encrypt :: "bytes \<Rightarrow> bytes \<Rightarrow> bytes option"
  pass_decrypt :: "bytes \<Rightarrow> bytes \<Rightarrow> bytes option"
  is_encrypted :: "bytes \<Rightarrow> bool"
  load_savedata :: "bytes \<Rightarrow> bytes option"

text \<open>
  The members of \<open>ToxManager\<close> a save or a load reads: the savedata of the live instance, the
  passphrase (empty: plaintext) and the flag of the last load.
\<close>

record profile_manager =
  live :: "bytes option"
  profile_passphrase :: bytes
  last_load_was_encrypted :: bool

definition new_manager :: profile_manager where
  "new_manager = \<lparr>live = None, profile_passphrase = [], last_load_was_encrypted = False\<rparr>"

section \<open>Saving\<close>

definition setProfilePassphraseLocked :: "bytes \<Rightarrow> profile_manager \<Rightarrow> profile_manager" where
  "setProfilePassphraseLocked p m = m\<lparr>profile_passphrase := p\<rparr>"

definition save_data :: "save_os \<Rightarrow> profile_manager \<Rightarrow> bytes" where
  "save_data os m = (if drains os then (case live m of None \<Rightarrow> [] | Some d \<Rightarrow> d) else [])"

definition protect :: "tox_library \<Rightarrow> bytes \<Rightarrow> bytes \<Rightarrow> bytes option" where
  "protect L pass d = (if pass = [] then Some d else pass_encrypt L d pass)"

text \<open>\<open>write\<close> until nothing remains: an interrupted call is repeated, a short write continues.\<close>

fun write_loop :: "string \<Rightarrow> bytes \<Rightarrow> write_answer list \<Rightarrow> filesystem \<Rightarrow> filesystem list \<times> bool option" where
  "write_loop tmp [] ws fs = ([], Some True)"
| "write_loop tmp (b # bs) [] fs = ([], None)"
| "write_loop tmp (b # bs) (Interrupted # ws) fs = write_loop tmp (b # bs) ws fs"
| "write_loop tmp (b # bs) (WriteError # ws) fs = ([], Some False)"
| "write_loop tmp (b # bs) (Wrote k # ws) fs =
     (let fs' = fs(tmp := map_option (\<lambda>f. f\<lparr>content := content f @ take k (b # bs), synced := False\<rparr>) (fs tmp));
          (tr, r) = write_loop tmp (drop k (b # bs)) ws fs'
      in (fs' # tr, r))"

definition remove_file :: "save_os \<Rightarrow> string \<Rightarrow> filesystem \<Rightarrow> filesystem" where
  "remove_file os p fs = (if removes os then fs(p := None) else fs)"

definition give_up :: "save_os \<Rightarrow> string \<Rightarrow> filesystem list \<Rightarrow> filesystem list \<times> bool option" where
  "give_up os tmp tr = (tr @ [remove_file os tmp (last tr)], Some False)"

text \<open>The octal mode 0600.\<close>

abbreviation mode_0600 :: nat where
  "mode_0600 \<equiv> 384"

definition finish_save :: "save_os \<Rightarrow> string \<Rightarrow> string \<Rightarrow> filesystem list \<Rightarrow> filesystem list \<times> bool option" where
  "finish_save os path tmp tr =
     (if \<not> fsyncs os then give_up os tmp tr
      else
        let flushed = (last tr)(tmp := map_option (\<lambda>f. f\<lparr>synced := True\<rparr>) (last tr tmp)) in
        if \<not> closes os \<or> \<not> renames os then give_up os tmp (tr @ [flushed])
        else (tr @ [flushed, flushed(path := flushed tmp, tmp := None)], Some True))"

definition write_profile :: "save_os \<Rightarrow> string \<Rightarrow> bytes \<Rightarrow> filesystem \<Rightarrow> filesystem list \<times> bool option" where
  "write_profile os path out fs =
     (let tmp = path @ ''.tmp'' in
      if \<not> opens os then ([], Some False)
      else
        let m = (case fs tmp of None \<Rightarrow> created_mode os | Some f \<Rightarrow> mode f);
            opened = fs(tmp \<mapsto> \<lparr>content = [], mode = m, synced = False\<rparr>) in
        if \<not> chmods os then give_up os tmp [opened]
        else
          let ready = fs(tmp \<mapsto> \<lparr>content = [], mode = mode_0600, synced = False\<rparr>) in
          case write_loop tmp out (writes os) ready of
            (tr, None) \<Rightarrow> (opened # ready # tr, None)
          | (tr, Some False) \<Rightarrow> give_up os tmp (opened # ready # tr)
          | (tr, Some True) \<Rightarrow> finish_save os path tmp (opened # ready # tr))"

definition saveLocked ::
  "tox_library \<Rightarrow> save_os \<Rightarrow> string \<Rightarrow> profile_manager \<Rightarrow> filesystem \<Rightarrow> filesystem list \<times> bool option" where
  "saveLocked L os path m fs =
     (let d = save_data os m in
      if d = [] then ([], Some False)
      else case protect L (profile_passphrase m) d of
        None \<Rightarrow> ([], Some False)
      | Some out \<Rightarrow> write_profile os path out fs)"

definition fs_after :: "filesystem \<Rightarrow> filesystem list \<Rightarrow> filesystem" where
  "fs_after fs tr = last (fs # tr)"

text \<open>
  \<open>saveTo\<close>: inside a tox callback the save is deferred to the end of the iterate (accepted, not
  written: \<open>queued\<close>), unless no iterate scope is open on the thread.
\<close>

datatype save_result = Saved | NotSaved | Queued

definition saveTo ::
  "tox_library \<Rightarrow> save_os \<Rightarrow> bool \<Rightarrow> bool \<Rightarrow> string \<Rightarrow> profile_manager \<Rightarrow> filesystem \<Rightarrow>
   filesystem list \<times> save_result option" where
  "saveTo L os owner scope path m fs =
     (if owner \<and> scope then ([], Some Queued)
      else case saveLocked L os path m fs of
        (tr, r) \<Rightarrow> (tr, map_option (\<lambda>b. if b then Saved else NotSaved) r))"

definition rekeyAndSave ::
  "tox_library \<Rightarrow> save_os \<Rightarrow> bool \<Rightarrow> string \<Rightarrow> bytes \<Rightarrow> profile_manager \<Rightarrow> filesystem \<Rightarrow>
   profile_manager \<times> filesystem list \<times> bool option" where
  "rekeyAndSave L os owner path pass m fs =
     (if owner then (m, [], Some False)
      else
        let m' = setProfilePassphraseLocked pass m in
        case saveLocked L os path m' fs of
          (tr, Some False) \<Rightarrow> (setProfilePassphraseLocked (profile_passphrase m) m', tr, Some False)
        | (tr, r) \<Rightarrow> (m', tr, r))"

section \<open>Loading\<close>

datatype LoadOutcome =
  kOk | kUnreadable | kCorrupt | kNeedsPassphrase | kBadPassphrase | kEncryptedLoadFailed

fun LoadOutcomeMustPreserveFile :: "LoadOutcome \<Rightarrow> bool" where
  "LoadOutcomeMustPreserveFile kNeedsPassphrase = True"
| "LoadOutcomeMustPreserveFile kBadPassphrase = True"
| "LoadOutcomeMustPreserveFile kEncryptedLoadFailed = True"
| "LoadOutcomeMustPreserveFile _ = False"

text \<open>
  The answers of the system during a load: whether the file opens, whether the header is read
  in full, whether the buffer can be allocated, how many bytes the last read delivers (the rest
  of the buffer stays zero) and whether \<open>tox_new\<close> finds what it needs apart from good savedata.
\<close>

record load_os =
  load_opens :: bool
  header_full :: bool
  allocates :: bool
  delivered :: nat
  new_works :: bool

definition read_file :: "nat \<Rightarrow> bytes \<Rightarrow> bytes" where
  "read_file k c = take k c @ replicate (length c - k) 0"

text \<open>\<open>initialize\<close> with savedata: \<open>None\<close> is the exception or a manager left without an instance.\<close>

definition initialize_from :: "tox_library \<Rightarrow> bool \<Rightarrow> bytes \<Rightarrow> profile_manager \<Rightarrow> profile_manager option" where
  "initialize_from L works d m =
     (if live m \<noteq> None \<or> \<not> works then None
      else map_option (\<lambda>d'. m\<lparr>live := Some d'\<rparr>) (load_savedata L d))"

definition load_failed :: "bool \<Rightarrow> LoadOutcome" where
  "load_failed enc = (if enc then kEncryptedLoadFailed else kCorrupt)"

definition start_loaded ::
  "tox_library \<Rightarrow> load_os \<Rightarrow> bool \<Rightarrow> bytes \<Rightarrow> profile_manager \<Rightarrow> profile_manager \<times> LoadOutcome" where
  "start_loaded L os enc d m =
     (case initialize_from L (new_works os) d m of
        None \<Rightarrow> (m, load_failed enc)
      | Some m' \<Rightarrow> (m'\<lparr>last_load_was_encrypted := enc\<rparr>, kOk))"

definition loadFromEx ::
  "tox_library \<Rightarrow> load_os \<Rightarrow> string \<Rightarrow> profile_manager \<Rightarrow> filesystem \<Rightarrow> profile_manager \<times> LoadOutcome" where
  "loadFromEx L os path m0 fs =
     (let m = m0\<lparr>last_load_was_encrypted := False\<rparr> in
      case (if load_opens os then fs path else None) of
        None \<Rightarrow> (m, kUnreadable)
      | Some f \<Rightarrow>
          if content f = [] then (m, kUnreadable)
          else if extra_length L \<le> length (content f) \<and> \<not> header_full os then (m, kEncryptedLoadFailed)
          else
            let enc = (extra_length L \<le> length (content f) \<and>
                       is_encrypted L (take (extra_length L) (content f)));
                d = read_file (delivered os) (content f) in
            if \<not> allocates os then (m, load_failed enc)
            else if \<not> enc then start_loaded L os False d m
            else if profile_passphrase m = [] then (m, kNeedsPassphrase)
            else case pass_decrypt L d (profile_passphrase m) of
              None \<Rightarrow> (m, kBadPassphrase)
            | Some d' \<Rightarrow> start_loaded L os True d' m)"

section \<open>The profile part of \<open>InitSDK\<close>\<close>

text \<open>
  The outcomes around a load: whether the probing \<open>ifstream\<close> is good, the load, the two saves
  it may need, the rename of a profile that is put aside, and the savedata of a new identity
  (\<open>None\<close> when \<open>tox_new\<close> fails).
\<close>

record init_os =
  probe_good :: bool
  load_answers :: load_os
  save_answers :: save_os
  backup_renames :: bool
  new_identity :: "bytes option"

text \<open>
  An init: what it returned (\<open>None\<close> while the write loop of one of its saves still runs), the
  manager it leaves published, the files.
\<close>

record init_result =
  init_ok :: "bool option"
  init_manager :: "profile_manager option"
  init_fs :: filesystem

definition abandon :: "filesystem \<Rightarrow> init_result" where
  "abandon fs = \<lparr>init_ok = Some False, init_manager = None, init_fs = fs\<rparr>"

definition started :: "profile_manager \<Rightarrow> filesystem \<Rightarrow> init_result" where
  "started m fs = \<lparr>init_ok = Some True, init_manager = Some m, init_fs = fs\<rparr>"

definition still_saving :: "profile_manager \<Rightarrow> filesystem \<Rightarrow> init_result" where
  "still_saving m fs = \<lparr>init_ok = None, init_manager = Some m, init_fs = fs\<rparr>"

text \<open>\<open>initialize\<close> without savedata and the first save, whose result is not looked at.\<close>

definition mint_identity ::
  "tox_library \<Rightarrow> init_os \<Rightarrow> string \<Rightarrow> profile_manager \<Rightarrow> filesystem \<Rightarrow> init_result" where
  "mint_identity L os path m fs =
     (if live m \<noteq> None then abandon fs
      else case new_identity os of
        None \<Rightarrow> abandon fs
      | Some d \<Rightarrow>
          let m' = m\<lparr>live := Some d\<rparr> in
          case saveLocked L (save_answers os) path m' fs of
            (tr, None) \<Rightarrow> still_saving m' (fs_after fs tr)
          | (tr, Some _) \<Rightarrow> started m' (fs_after fs tr))"

definition put_aside :: "init_os \<Rightarrow> string \<Rightarrow> filesystem \<Rightarrow> filesystem" where
  "put_aside os path fs =
     (if backup_renames os \<and> fs path \<noteq> None then fs(path @ ''.corrupted'' := fs path, path := None)
      else fs)"

definition InitSDK_profile ::
  "tox_library \<Rightarrow> init_os \<Rightarrow> string \<Rightarrow> bytes \<Rightarrow> filesystem \<Rightarrow> init_result" where
  "InitSDK_profile L os path staged fs =
     (let m0 = setProfilePassphraseLocked staged new_manager in
      if probe_good os \<and> fs path \<noteq> None then
        case loadFromEx L (load_answers os) path m0 fs of
          (m, outcome) \<Rightarrow>
            if LoadOutcomeMustPreserveFile outcome then abandon fs
            else if outcome = kOk then
              if staged \<noteq> [] \<and> \<not> last_load_was_encrypted m then
                case saveLocked L (save_answers os) path m fs of
                  (tr, None) \<Rightarrow> still_saving m (fs_after fs tr)
                | (tr, Some b) \<Rightarrow> if b then started m (fs_after fs tr) else abandon (fs_after fs tr)
              else started m fs
            else mint_identity L os path m (put_aside os path fs)
      else mint_identity L os path m0 fs)"

section \<open>The manager's calls\<close>

record live_session =
  session_manager :: "profile_manager option"
  session_path :: string
  session_epoch_no :: int

definition ReKeyLiveProfilePassphrase ::
  "tox_library \<Rightarrow> save_os \<Rightarrow> bool \<Rightarrow> bytes \<Rightarrow> int \<Rightarrow> live_session \<Rightarrow> filesystem \<Rightarrow>
   live_session \<times> filesystem list \<times> bool option" where
  "ReKeyLiveProfilePassphrase L os owner pass expected s fs =
     (case session_manager s of
        None \<Rightarrow> (s, [], Some False)
      | Some m \<Rightarrow>
          if session_path s = [] then (s, [], Some False)
          else if expected \<le> 0 \<or> session_epoch_no s \<noteq> expected then (s, [], Some False)
          else case rekeyAndSave L os owner (session_path s) pass m fs of
            (m', tr, r) \<Rightarrow> (s\<lparr>session_manager := Some m'\<rparr>, tr, r))"

text \<open>A queued save has not reached the disk: the caller is told \<open>False\<close>.\<close>

definition PersistToxProfile ::
  "tox_library \<Rightarrow> save_os \<Rightarrow> bool \<Rightarrow> bool \<Rightarrow> string \<Rightarrow> live_session \<Rightarrow> filesystem \<Rightarrow>
   filesystem list \<times> bool option" where
  "PersistToxProfile L os owner scope default_path s fs =
     (case session_manager s of
        None \<Rightarrow> ([], Some False)
      | Some m \<Rightarrow>
          case saveTo L os owner scope (if session_path s = [] then default_path else session_path s) m fs of
            (tr, r) \<Rightarrow> (tr, map_option (\<lambda>x. x = Saved) r))"

end
