(* ===== verification/ProfileProperties.thy ===== *)
theory ProfileProperties
  imports ProfileFile
begin

text \<open>
  The promises about the profile on disk: a save replaces the file atomically and durably or
  leaves it alone, a passphrase keeps every plaintext byte off the disk, what was saved loads
  again, a failed re-key changes nothing, and a start never touches an encrypted profile.
\<close>

section \<open>What a save leaves behind at every moment\<close>

text \<open>Before the rename only the temporary file differs, and it holds a prefix of the output.\<close>

definition staged_only :: "string \<Rightarrow> bytes \<Rightarrow> filesystem \<Rightarrow> filesystem \<Rightarrow> bool" where
  "staged_only tmp out fs g \<longleftrightarrow> (\<forall>q. q \<noteq> tmp \<longrightarrow> g q = fs q) \<and>
     (g tmp = fs tmp \<or> g tmp = None \<or> (\<exists>f. g tmp = Some f \<and> prefix (content f) out))"

definition written_file :: "bytes \<Rightarrow> pfile" where
  "written_file out = \<lparr>content = out, mode = mode_0600, synced = True\<rparr>"

definition grown :: "string \<Rightarrow> bytes \<Rightarrow> filesystem \<Rightarrow> pfile \<Rightarrow> filesystem \<Rightarrow> bool" where
  "grown tmp bs fs f g \<longleftrightarrow> (\<forall>q. q \<noteq> tmp \<longrightarrow> g q = fs q) \<and>
     (\<exists>f'. g tmp = Some f' \<and> mode f' = mode f \<and> prefix (content f') (content f @ bs))"

lemma write_loop_trace:
  "write_loop tmp bs ws fs = (tr, r) \<Longrightarrow> fs tmp = Some f \<Longrightarrow>
   (\<forall>g \<in> set tr. grown tmp bs fs f g) \<and>
   (r = Some True \<longrightarrow> (\<exists>f'. last (fs # tr) tmp = Some f' \<and> mode f' = mode f \<and> content f' = content f @ bs))"
proof (induction tmp bs ws fs arbitrary: f tr r rule: write_loop.induct)
  case (5 tmp b bs k ws fs)
  let ?f = "f\<lparr>content := content f @ take k (b # bs), synced := False\<rparr>"
  obtain tr' where w: "write_loop tmp (drop k (b # bs)) ws (fs(tmp \<mapsto> ?f)) = (tr', r)"
      and tr: "tr = fs(tmp \<mapsto> ?f) # tr'"
    using 5(2,3) by (auto simp: Let_def split: prod.splits)
  have all: "content ?f @ drop k (b # bs) = content f @ (b # bs)" by simp
  have IH: "(\<forall>g \<in> set tr'. grown tmp (drop k (b # bs)) (fs(tmp \<mapsto> ?f)) ?f g) \<and>
      (r = Some True \<longrightarrow> (\<exists>f'. last (fs(tmp \<mapsto> ?f) # tr') tmp = Some f' \<and> mode f' = mode ?f \<and>
         content f' = content ?f @ drop k (b # bs)))"
    by (rule 5(1)) (use w 5(3) in \<open>simp_all add: fun_upd_def\<close>)
  have "grown tmp (b # bs) fs f g" if "grown tmp (drop k (b # bs)) (fs(tmp \<mapsto> ?f)) ?f g" for g
    using that all unfolding grown_def by auto
  moreover have "grown tmp (b # bs) fs f (fs(tmp \<mapsto> ?f))"
    unfolding grown_def by (auto intro: prefixI [of _ _ "drop k (b # bs)"])
  ultimately show ?case using IH all unfolding tr by auto
qed auto

lemma grown_staged: "grown tmp bs fs f g \<Longrightarrow> content f = [] \<Longrightarrow> (\<And>q. q \<noteq> tmp \<Longrightarrow> fs q = fs0 q) \<Longrightarrow>
    staged_only tmp bs fs0 g"
  by (auto simp: grown_def staged_only_def)

lemma tmp_differs [simp]: "path @ ''.tmp'' \<noteq> path" "path \<noteq> path @ ''.tmp''"
  by simp_all

lemma give_up_trace:
  assumes "\<forall>g \<in> set tr. staged_only tmp out fs g" and "tr \<noteq> []" and "give_up os tmp tr = (tr', r)"
  shows "r = Some False \<and> (\<forall>g \<in> set tr'. staged_only tmp out fs g)"
proof -
  have "staged_only tmp out fs (last tr)" using assms by simp
  then have "staged_only tmp out fs (remove_file os tmp (last tr))"
    by (auto simp: staged_only_def remove_file_def)
  with assms show ?thesis by (auto simp: give_up_def)
qed

text \<open>The outcome of a save: finished by the rename, or only the temporary file was touched.\<close>

definition save_outcome :: "string \<Rightarrow> bytes \<Rightarrow> filesystem \<Rightarrow> filesystem list \<Rightarrow> bool option \<Rightarrow> bool" where
  "save_outcome path out fs tr r \<longleftrightarrow>
     (if r = Some True
      then \<exists>tr0. tr = tr0 @ [fs(path \<mapsto> written_file out, path @ ''.tmp'' := None)] \<and>
        (\<forall>g \<in> set tr0. staged_only (path @ ''.tmp'') out fs g)
      else \<forall>g \<in> set tr. staged_only (path @ ''.tmp'') out fs g)"

lemma give_up_outcome:
  assumes "\<forall>g \<in> set tr. staged_only (path @ ''.tmp'') out fs g" and "tr \<noteq> []"
    and "give_up os (path @ ''.tmp'') tr = (tr', r)"
  shows "save_outcome path out fs tr' r"
  using give_up_trace [OF assms] by (simp add: save_outcome_def)

lemma finish_outcome:
  assumes tr: "\<forall>g \<in> set tr. staged_only (path @ ''.tmp'') out fs g" "tr \<noteq> []"
    and pf: "last tr (path @ ''.tmp'') = Some f" "content f = out" "mode f = mode_0600"
    and fin: "finish_save os path (path @ ''.tmp'') tr = (tr', r)"
  shows "save_outcome path out fs tr' r"
proof (cases "fsyncs os")
  case False
  with fin tr show ?thesis by (auto simp: finish_save_def intro: give_up_outcome)
next
  case True
  let ?tmp = "path @ ''.tmp''"
  define g where "g = (last tr)(?tmp \<mapsto> written_file out)"
  have pf': "f\<lparr>synced := True\<rparr> = written_file out"
    using pf(2,3) by (cases f) (simp add: written_file_def)
  have last: "staged_only ?tmp out fs (last tr)" using tr by simp
  then have g: "staged_only ?tmp out fs g"
    by (simp add: g_def staged_only_def written_file_def)
  have "finish_save os path ?tmp tr =
      (if closes os \<and> renames os then (tr @ [g, g(path := g ?tmp, ?tmp := None)], Some True)
       else give_up os ?tmp (tr @ [g]))"
    using True by (simp add: finish_save_def Let_def pf(1) pf' g_def)
  moreover have "g(path := g ?tmp, ?tmp := None) = fs(path \<mapsto> written_file out, ?tmp := None)"
    using last by (auto simp: g_def fun_eq_iff staged_only_def)
  ultimately show ?thesis
    using fin tr(1) g give_up_outcome [of "tr @ [g]" path out fs os tr' r]
    by (auto simp: save_outcome_def split: if_splits)
qed

lemma option_bool_exhaust: "\<lbrakk>x = None \<Longrightarrow> P; x = Some False \<Longrightarrow> P; x = Some True \<Longrightarrow> P\<rbrakk> \<Longrightarrow> P"
  by (metis (full_types) not_None_eq)

lemma write_profile_outcome:
  assumes "write_profile os path out fs = (tr, r)"
  shows "save_outcome path out fs tr r"
proof -
  let ?tmp = "path @ ''.tmp''"
  define m where "m = (case fs ?tmp of None \<Rightarrow> created_mode os | Some f \<Rightarrow> mode f)"
  define opened where "opened = fs(?tmp \<mapsto> \<lparr>content = [], mode = m, synced = False\<rparr>)"
  define ready where "ready = fs(?tmp \<mapsto> \<lparr>content = [], mode = mode_0600, synced = False\<rparr>)"
  have st: "staged_only ?tmp out fs opened" "staged_only ?tmp out fs ready"
    by (simp_all add: staged_only_def opened_def ready_def)
  obtain wtr wr where w: "write_loop ?tmp out (writes os) ready = (wtr, wr)" by fastforce
  note loop = write_loop_trace [OF w, of "\<lparr>content = [], mode = mode_0600, synced = False\<rparr>"]
  have wtr: "\<forall>g \<in> set (opened # ready # wtr). staged_only ?tmp out fs g"
    using st loop by (auto intro: grown_staged simp: ready_def)
  have res: "(if \<not> opens os then ([], Some False)
      else if \<not> chmods os then give_up os ?tmp [opened]
      else case wr of None \<Rightarrow> (opened # ready # wtr, None)
        | Some False \<Rightarrow> give_up os ?tmp (opened # ready # wtr)
        | Some True \<Rightarrow> finish_save os path ?tmp (opened # ready # wtr)) = (tr, r)"
    using assms w unfolding write_profile_def Let_def m_def [symmetric] opened_def [symmetric]
      ready_def [symmetric] by (cases wr) (auto split: bool.splits if_splits)
  consider "tr = []" "r = Some False" | "give_up os ?tmp [opened] = (tr, r)" | "tr = opened # ready # wtr" "r = None"
    | "give_up os ?tmp (opened # ready # wtr) = (tr, r)"
    | "finish_save os path ?tmp (opened # ready # wtr) = (tr, r)" "wr = Some True"
  proof (cases "opens os \<and> chmods os")
    case True
    with res that show ?thesis by (cases wr rule: option_bool_exhaust) simp_all
  next
    case False
    with res that show ?thesis by (cases "opens os") simp_all
  qed
  then show ?thesis
  proof cases
    case 5
    from loop 5(2) obtain f' where f': "last (opened # ready # wtr) ?tmp = Some f'" "mode f' = mode_0600"
        "content f' = out"
      by (auto simp: ready_def)
    show ?thesis by (rule finish_outcome [OF wtr _ f'(1,3,2) 5(1)]) simp
  next
    case 2
    with st(1) show ?thesis by (intro give_up_outcome [of "[opened]"]) simp_all
  next
    case 4
    with wtr show ?thesis by (intro give_up_outcome [of "opened # ready # wtr"]) simp_all
  qed (use wtr in \<open>simp_all add: save_outcome_def\<close>)
qed

section \<open>Saving\<close>

lemma saveLocked_cases:
  assumes "saveLocked L os path m fs = (tr, r)"
  obtains (refused) "tr = []" "r = Some False"
  | (wrote) d out where "live m = Some d" "d \<noteq> []" "protect L (profile_passphrase m) d = Some out"
      "save_outcome path out fs tr r"
proof (cases "save_data os m = []")
  case True
  with assms refused show ?thesis by (simp add: saveLocked_def)
next
  case False
  then obtain d where d: "live m = Some d" "save_data os m = d" "d \<noteq> []"
    by (auto simp: save_data_def split: if_splits option.splits)
  with assms refused wrote write_profile_outcome show ?thesis
    by (cases "protect L (profile_passphrase m) d") (auto simp: saveLocked_def)
qed

lemma outcome_at_path:
  assumes "save_outcome path out fs tr r"
  shows "g \<in> set tr \<Longrightarrow> g path = fs path \<or> g path = Some (written_file out)"
    and "r \<noteq> Some True \<Longrightarrow> g \<in> set tr \<Longrightarrow> g path = fs path"
    and "r = Some True \<Longrightarrow> fs_after fs tr = fs(path \<mapsto> written_file out, path @ ''.tmp'' := None)"
    and "g \<in> set tr \<Longrightarrow> q \<noteq> path \<Longrightarrow> q \<noteq> path @ ''.tmp'' \<Longrightarrow> g q = fs q"
  using assms by (auto simp: save_outcome_def staged_only_def fs_after_def split: if_splits)

lemma fs_after_unchanged: "(\<And>g. g \<in> set tr \<Longrightarrow> g path = fs path) \<Longrightarrow> fs_after fs tr path = fs path"
  by (simp add: fs_after_def)

text \<open>
  C10. A save replaces the profile atomically and durably, or not at all. Whatever the system
  calls answer and wherever the process dies, the profile is the old one or the complete new
  one, flushed and with mode 0600; no other file than the profile and its temporary file is
  touched; \<open>true\<close> means that the new profile is in place and the temporary file is gone, and
  without \<open>true\<close> the old profile was there throughout.
\<close>

theorem profile_saved_atomically:
  assumes "saveLocked L os path m fs = (tr, r)"
  shows "(\<forall>g \<in> set tr. g path = fs path \<or>
        (\<exists>d out. live m = Some d \<and> protect L (profile_passphrase m) d = Some out \<and>
           g path = Some \<lparr>content = out, mode = mode_0600, synced = True\<rparr>)) \<and>
     (\<forall>g \<in> set tr. \<forall>q. q \<noteq> path \<longrightarrow> q \<noteq> path @ ''.tmp'' \<longrightarrow> g q = fs q) \<and>
     (r = Some True \<longrightarrow>
        (\<exists>d out. live m = Some d \<and> protect L (profile_passphrase m) d = Some out \<and>
           fs_after fs tr = fs(path \<mapsto> \<lparr>content = out, mode = mode_0600, synced = True\<rparr>,
             path @ ''.tmp'' := None))) \<and>
     (r \<noteq> Some True \<longrightarrow> (\<forall>g \<in> set tr. g path = fs path))"
  using assms
proof (cases rule: saveLocked_cases)
  case (wrote d out)
  with outcome_at_path [OF wrote(4)] show ?thesis unfolding written_file_def by blast
qed simp_all

definition sample_library :: tox_library where
  "sample_library = \<lparr>extra_length = 2, pass_encrypt = (\<lambda>d p. Some (255 # 255 # p @ 0 # d)),
     pass_decrypt = (\<lambda>c p. if take 2 c = [255, 255] \<and> prefix (p @ [0]) (drop 2 c)
        then Some (drop (3 + length p) c) else None),
     is_encrypted = (\<lambda>h. h = [255, 255]),
     load_savedata = (\<lambda>d. if d \<noteq> [] \<and> hd d = 1 then Some d else None)\<rparr>"

abbreviation (input) steady_os :: "write_answer list \<Rightarrow> save_os" where
  "steady_os ws \<equiv> \<lparr>drains = True, opens = True, created_mode = 420, chmods = True, writes = ws,
     fsyncs = True, closes = True, renames = True, removes = True\<rparr>"

abbreviation (input) manager_with :: "bytes \<Rightarrow> bytes \<Rightarrow> profile_manager" where
  "manager_with d p \<equiv> \<lparr>live = Some d, profile_passphrase = p, last_load_was_encrypted = False\<rparr>"

lemmas profile_eval = saveLocked_def save_data_def protect_def write_profile_def finish_save_def
  give_up_def remove_file_def fs_after_def sample_library_def Let_def

theorem profile_saved_atomically_witness:
  "fs_after Map.empty (fst (saveLocked sample_library (steady_os [Interrupted, Wrote 2, Wrote 9]) ''p''
     (manager_with [1, 2, 3] []) Map.empty)) ''p'' =
     Some \<lparr>content = [1, 2, 3], mode = mode_0600, synced = True\<rparr>"
proof -
  obtain tr r where s: "saveLocked sample_library (steady_os [Interrupted, Wrote 2, Wrote 9]) ''p''
      (manager_with [1, 2, 3] []) Map.empty = (tr, r)" by fastforce
  have "r = Some True" using s by (simp add: profile_eval)
  with profile_saved_atomically [OF s] show ?thesis by (auto simp: s protect_def)
qed

text \<open>
  C14. With a passphrase set no plaintext reaches the disk, not even in the temporary file and
  not even for a moment: every file that any state of the save shows and that was not there
  before holds a prefix of the encrypted container.
\<close>

theorem passphrase_keeps_plaintext_off_disk:
  assumes "saveLocked L os path m fs = (tr, r)" and "profile_passphrase m \<noteq> []"
    and "g \<in> set tr" and "g q = Some f"
  shows "fs q = Some f \<or>
    (\<exists>d c. live m = Some d \<and> pass_encrypt L d (profile_passphrase m) = Some c \<and> prefix (content f) c)"
  using assms(1)
proof (cases rule: saveLocked_cases)
  case refused
  with assms(3) show ?thesis by simp
next
  case (wrote d out)
  have enc: "pass_encrypt L d (profile_passphrase m) = Some out"
    using wrote(3) assms(2) by (simp add: protect_def)
  have "fs q = Some f \<or> prefix (content f) out"
  proof (cases "staged_only (path @ ''.tmp'') out fs g")
    case True
    with assms(4) show ?thesis by (cases "q = path @ ''.tmp''") (auto simp: staged_only_def)
  next
    case False
    with assms(3) wrote(4) have "g = fs(path \<mapsto> written_file out, path @ ''.tmp'' := None)"
      by (auto simp: save_outcome_def split: if_splits)
    with assms(4) show ?thesis by (auto simp: written_file_def split: if_splits)
  qed
  with enc wrote(1) show ?thesis by blast
qed

theorem passphrase_keeps_plaintext_off_disk_witness:
  "\<exists>c. pass_encrypt sample_library [1, 2, 3] [7] = Some c \<and> prefix [255, 255, 7, 0] c"
proof -
  let ?g = "[''p.tmp'' \<mapsto> \<lparr>content = [255, 255, 7, 0], mode = mode_0600, synced = False\<rparr>]"
  obtain tr r where s: "saveLocked sample_library (steady_os [Wrote 4]) ''p''
      (manager_with [1, 2, 3] [7]) Map.empty = (tr, r)" by fastforce
  have "?g \<in> set tr" using s by (auto simp: profile_eval)
  from passphrase_keeps_plaintext_off_disk [OF s _ this, of "''p.tmp''"] show ?thesis by auto
qed

section \<open>Loading what was saved\<close>

text \<open>
  What toxcore documents of its container: it is longer than its header, recognised by it, and
  opens with the passphrase it was made with; savedata that loads is no container.
\<close>

definition library_ok :: "tox_library \<Rightarrow> bool" where
  "library_ok L \<longleftrightarrow> 0 < extra_length L \<and>
     (\<forall>d p c. pass_encrypt L d p = Some c \<longrightarrow> extra_length L \<le> length c \<and>
        is_encrypted L (take (extra_length L) c) \<and> pass_decrypt L c p = Some d) \<and>
     (\<forall>d. load_savedata L d \<noteq> None \<longrightarrow> extra_length L \<le> length d \<longrightarrow>
        \<not> is_encrypted L (take (extra_length L) d))"

definition healthy_load :: "load_os \<Rightarrow> bytes \<Rightarrow> bool" where
  "healthy_load os c \<longleftrightarrow> load_opens os \<and> header_full os \<and> allocates os \<and> length c \<le> delivered os \<and>
     new_works os"

lemma read_file_full [simp]: "length c \<le> k \<Longrightarrow> read_file k c = c"
  by (simp add: read_file_def)

lemma load_protected:
  assumes "library_ok L" and "protect L p d = Some out" and "d \<noteq> []" and "load_savedata L d = Some d"
    and "fs path = Some f" and "content f = out" and "healthy_load os out"
    and "live m = None" and "profile_passphrase m = p"
  shows "loadFromEx L os path m fs = (m\<lparr>live := Some d, last_load_was_encrypted := p \<noteq> []\<rparr>, kOk)"
proof (cases "p = []")
  case True
  with assms show ?thesis
    by (auto simp: loadFromEx_def protect_def healthy_load_def library_ok_def start_loaded_def
        initialize_from_def Let_def)
next
  case False
  with assms have c: "pass_encrypt L d p = Some out" by (simp add: protect_def)
  with assms(1) have "extra_length L \<le> length out" "is_encrypted L (take (extra_length L) out)"
      "pass_decrypt L out p = Some d"
    by (auto simp: library_ok_def)
  moreover from this(1) assms(1) have "out \<noteq> []" by (auto simp: library_ok_def)
  ultimately show ?thesis using False assms
    by (simp add: loadFromEx_def healthy_load_def start_loaded_def initialize_from_def Let_def)
qed

text \<open>
  C15. What was saved loads again: after a save that reported success, a manager with the same
  passphrase (or none, for a plaintext profile) loads exactly the savedata that was live, and
  knows whether the profile was encrypted.
\<close>

theorem saved_profile_loads:
  assumes "library_ok L" and "saveLocked L os path m fs = (tr, Some True)"
    and "live m = Some d" and "load_savedata L d = Some d"
    and "protect L (profile_passphrase m) d = Some out" and "healthy_load los out"
  shows "loadFromEx L los path (setProfilePassphraseLocked (profile_passphrase m) new_manager) (fs_after fs tr) =
    (\<lparr>live = Some d, profile_passphrase = profile_passphrase m,
      last_load_was_encrypted = (profile_passphrase m \<noteq> [])\<rparr>, kOk)"
  using assms(2)
proof (cases rule: saveLocked_cases)
  case (wrote d' out')
  then have same: "d' = d" "out' = out" using assms(3,5) by simp_all
  have "fs_after fs tr path = Some (written_file out)"
    using outcome_at_path(3) [OF wrote(4)] same by simp
  moreover have "d \<noteq> []" "content (written_file out) = out" using wrote(2) same by (simp_all add: written_file_def)
  ultimately have "loadFromEx L los path (new_manager\<lparr>profile_passphrase := profile_passphrase m\<rparr>) (fs_after fs tr) =
      (new_manager\<lparr>profile_passphrase := profile_passphrase m, live := Some d,
        last_load_was_encrypted := profile_passphrase m \<noteq> []\<rparr>, kOk)"
    using assms by (intro load_protected) (simp_all add: new_manager_def)
  then show ?thesis by (simp add: setProfilePassphraseLocked_def new_manager_def)
qed simp

lemma sample_library_ok: "library_ok sample_library"
proof -
  have "drop (3 + length p) (255 # 255 # p @ 0 # d) = d" for p d :: bytes
    by (simp add: eval_nat_numeral)
  moreover have "(255 :: u8) \<noteq> 1" by simp
  then have "take 2 d \<noteq> [255, 255]" if "hd d = 1" for d :: bytes
    using that by (cases d) auto
  ultimately show ?thesis by (auto simp: library_ok_def sample_library_def)
qed

abbreviation (input) healthy_os :: load_os where
  "healthy_os \<equiv> \<lparr>load_opens = True, header_full = True, allocates = True, delivered = 100, new_works = True\<rparr>"

theorem saved_profile_loads_witness:
  "snd (loadFromEx sample_library healthy_os ''p'' (setProfilePassphraseLocked [7] new_manager)
     (fs_after Map.empty (fst (saveLocked sample_library (steady_os [Wrote 9]) ''p''
        (manager_with [1, 2, 3] [7]) Map.empty)))) = kOk"
proof -
  obtain tr where s: "saveLocked sample_library (steady_os [Wrote 9]) ''p''
      (manager_with [1, 2, 3] [7]) Map.empty = (tr, Some True)" by (simp add: profile_eval)
  have p: "protect sample_library [7] [1, 2, 3] = Some [255, 255, 7, 0, 1, 2, 3]"
    by (simp add: protect_def sample_library_def)
  have l: "load_savedata sample_library [1, 2, 3] = Some [1, 2, 3]" by (simp add: sample_library_def)
  have h: "healthy_load healthy_os [255, 255, 7, 0, 1, 2, 3]" by (simp add: healthy_load_def)
  from saved_profile_loads [OF sample_library_ok s, of "[1, 2, 3]" _ healthy_os] p l h
  show ?thesis by (simp add: s)
qed

section \<open>Re-keying\<close>

lemma passphrase_restored [simp]: "m\<lparr>profile_passphrase := profile_passphrase m\<rparr> = m"
  by (cases m) simp

lemma manager_restored: "session_manager s = Some m \<Longrightarrow> s\<lparr>session_manager := Some m\<rparr> = s"
  by (cases s) simp

lemma rekeyAndSave_result:
  assumes "saveLocked L os path (m\<lparr>profile_passphrase := pass\<rparr>) fs = (tr, r)"
  shows "rekeyAndSave L os False path pass m fs =
    ((if r = Some False then m else m\<lparr>profile_passphrase := pass\<rparr>), tr, r)"
  using assms unfolding rekeyAndSave_def setProfilePassphraseLocked_def
  by (cases r rule: option_bool_exhaust) simp_all

text \<open>
  C16. A re-key of the live session is all or nothing. Refused or failed, it leaves the session
  with the passphrase it had and the profile as it was at every moment; it succeeds only for
  the session the caller means (the epoch), and then the session has the new passphrase and
  the profile is the live savedata under it.
\<close>

theorem rekey_all_or_nothing:
  assumes "ReKeyLiveProfilePassphrase L os owner pass expected s fs = (s', tr, r)"
  shows "(r = Some False \<longrightarrow> s' = s \<and> (\<forall>g \<in> set tr. g (session_path s) = fs (session_path s))) \<and>
     (r = Some True \<longrightarrow> session_epoch_no s = expected \<and> \<not> owner \<and>
        (\<exists>m d out. session_manager s = Some m \<and> live m = Some d \<and> protect L pass d = Some out \<and>
           session_manager s' = Some (m\<lparr>profile_passphrase := pass\<rparr>) \<and>
           fs_after fs tr (session_path s) = Some \<lparr>content = out, mode = mode_0600, synced = True\<rparr>))"
proof (cases "session_manager s = None \<or> session_path s = [] \<or> expected \<le> 0 \<or>
    session_epoch_no s \<noteq> expected \<or> owner")
  case True
  with assms show ?thesis
    by (auto simp: ReKeyLiveProfilePassphrase_def rekeyAndSave_def split: option.splits if_splits)
next
  case False
  then obtain m where m: "session_manager s = Some m" by auto
  obtain tr' r' where save: "saveLocked L os (session_path s) (m\<lparr>profile_passphrase := pass\<rparr>) fs = (tr', r')"
    by fastforce
  have res: "tr = tr'" "r = r'" "s' = s\<lparr>session_manager :=
      Some (if r' = Some False then m else m\<lparr>profile_passphrase := pass\<rparr>)\<rparr>"
    using assms False m rekeyAndSave_result [OF save]
    unfolding ReKeyLiveProfilePassphrase_def by auto
  from save show ?thesis
  proof (cases rule: saveLocked_cases)
    case refused
    with res m show ?thesis by (simp add: manager_restored)
  next
    case (wrote d out)
    note at = outcome_at_path [OF wrote(4)]
    have "r = Some False \<Longrightarrow> s' = s" using res m by (simp add: manager_restored)
    moreover have "r = Some False \<Longrightarrow> \<forall>g \<in> set tr. g (session_path s) = fs (session_path s)"
      using res at(2) by simp
    moreover have "r = Some True \<Longrightarrow> fs_after fs tr (session_path s) = Some (written_file out)"
      using res at(3) by simp
    moreover have "session_epoch_no s = expected" "\<not> owner" using False by simp_all
    moreover have "r = Some True \<Longrightarrow> session_manager s' = Some (m\<lparr>profile_passphrase := pass\<rparr>)"
      using res by simp
    moreover have "live m = Some d" "protect L pass d = Some out" using wrote by simp_all
    ultimately show ?thesis using m unfolding written_file_def by blast
  qed
qed

theorem rekey_all_or_nothing_witness:
  "let s = \<lparr>session_manager = Some (manager_with [1, 2] [7]), session_path = ''p'', session_epoch_no = 4\<rparr> in
   fst (ReKeyLiveProfilePassphrase sample_library ((steady_os [Wrote 1, WriteError])) False [9] 4 s Map.empty) = s"
proof -
  let ?s = "\<lparr>session_manager = Some (manager_with [1, 2] [7]), session_path = ''p'', session_epoch_no = 4\<rparr>"
  obtain s' tr r where k: "ReKeyLiveProfilePassphrase sample_library (steady_os [Wrote 1, WriteError])
      False [9] 4 ?s Map.empty = (s', tr, r)" using prod_cases3 by blast
  have "r = Some False"
    using k by (simp add: ReKeyLiveProfilePassphrase_def rekeyAndSave_def setProfilePassphraseLocked_def profile_eval)
  with rekey_all_or_nothing [OF k] k show ?thesis by simp
qed

section \<open>Starting\<close>

text \<open>The file is a container: long enough, and recognised by its header.\<close>

definition encrypted_file :: "tox_library \<Rightarrow> pfile \<Rightarrow> bool" where
  "encrypted_file L f \<longleftrightarrow> content f \<noteq> [] \<and> extra_length L \<le> length (content f) \<and>
     is_encrypted L (take (extra_length L) (content f))"

lemma load_encrypted:
  assumes "fs path = Some f" and "encrypted_file L f" and "load_opens os"
    and "loadFromEx L os path m fs = (m', out)"
  shows "LoadOutcomeMustPreserveFile out \<or>
    (out = kOk \<and> last_load_was_encrypted m' \<and> profile_passphrase m \<noteq> [] \<and>
     (\<exists>d. pass_decrypt L (read_file (delivered os) (content f)) (profile_passphrase m) = Some d \<and>
        live m' = load_savedata L d))"
  using assms
  by (auto simp: loadFromEx_def encrypted_file_def Let_def load_failed_def start_loaded_def
      initialize_from_def split: if_splits option.splits)

text \<open>
  C12. A start never touches an encrypted profile it can open for reading: whatever fails then,
  the header, the memory, the passphrase or toxcore itself, no file changes; and the start
  succeeds only on the account in that profile, opened with the staged passphrase.
\<close>

theorem init_preserves_encrypted_profile:
  assumes "fs path = Some f" and "encrypted_file L f"
    and "probe_good os" and "load_opens (load_answers os)"
    and "res = InitSDK_profile L os path staged fs"
  shows "init_fs res = fs \<and>
    (init_ok res = Some True \<and> staged \<noteq> [] \<and>
      (\<exists>m d. init_manager res = Some m \<and>
         pass_decrypt L (read_file (delivered (load_answers os)) (content f)) staged = Some d \<and>
         live m = load_savedata L d) \<or>
     init_ok res = Some False \<and> init_manager res = None)"
proof -
  obtain m out where l: "loadFromEx L (load_answers os) path
      (setProfilePassphraseLocked staged new_manager) fs = (m, out)" by fastforce
  have "profile_passphrase (setProfilePassphraseLocked staged new_manager) = staged"
    by (simp add: setProfilePassphraseLocked_def)
  note out = load_encrypted [OF assms(1,2,4) l, unfolded this]
  have "InitSDK_profile L os path staged fs =
      (if LoadOutcomeMustPreserveFile out then abandon fs else started m fs)"
    using assms(1,3) l out by (auto simp: InitSDK_profile_def Let_def)
  with out assms(5) show ?thesis by (auto simp: abandon_def started_def)
qed

abbreviation (input) start_os :: init_os where
  "start_os \<equiv> \<lparr>probe_good = True, load_answers = healthy_os, save_answers = steady_os [Wrote 9],
     backup_renames = True, new_identity = Some [1, 9]\<rparr>"

theorem init_preserves_encrypted_profile_witness:
  "init_fs (InitSDK_profile sample_library start_os ''p'' [8]
      [''p'' \<mapsto> written_file [255, 255, 7, 0, 1, 2]]) = [''p'' \<mapsto> written_file [255, 255, 7, 0, 1, 2]]"
proof -
  have e: "encrypted_file sample_library (written_file [255, 255, 7, 0, 1, 2])"
    by (simp add: encrypted_file_def sample_library_def written_file_def)
  have "probe_good start_os" "load_opens (load_answers start_os)" by simp_all
  from init_preserves_encrypted_profile
    [of "[''p'' \<mapsto> written_file [255, 255, 7, 0, 1, 2]]" "''p''", OF _ e this refl, of "[8]"]
  show ?thesis by (metis fun_upd_same)
qed

text \<open>
  A plaintext profile has no such protection: when \<open>tox_new\<close> fails for a reason that has
  nothing to do with the savedata (no free port, no memory), the load reports \<open>kCorrupt\<close>, the
  intact account is moved aside and a new identity takes its place, and the next time the new
  identity's file replaces the only copy of the account.
\<close>

lemma load_transient_failure:
  assumes "fs path = Some f" and "content f \<noteq> []" and "\<not> encrypted_file L f"
    and "load_opens os" "header_full os" "\<not> new_works os"
  shows "loadFromEx L os path m fs = (m\<lparr>last_load_was_encrypted := False\<rparr>, kCorrupt)"
  using assms
  by (cases "allocates os") (auto simp: loadFromEx_def encrypted_file_def Let_def load_failed_def
      start_loaded_def initialize_from_def)

lemma transient_failure_replaces_account:
  assumes "fs path = Some f" and "content f \<noteq> []" and "\<not> encrypted_file L f"
    and "probe_good os" and "load_opens (load_answers os)" "header_full (load_answers os)"
    and "\<not> new_works (load_answers os)"
    and "backup_renames os" and "new_identity os = None"
  shows "init_fs (InitSDK_profile L os path staged fs) = fs(path @ ''.corrupted'' := Some f, path := None)"
  using load_transient_failure [of fs path f, OF assms(1-3,5-7)] assms(1,4,8,9)
  by (simp add: InitSDK_profile_def setProfilePassphraseLocked_def new_manager_def
      mint_identity_def abandon_def put_aside_def)

text \<open>
  And a profile that exists but does not open at the probe counts as missing: the first save of
  the new identity replaces it, without a backup.
\<close>

lemma unopened_profile_overwritten:
  assumes "\<not> probe_good os" and "new_identity os = Some d" and "d \<noteq> []"
    and "saveLocked L (save_answers os) path
      (setProfilePassphraseLocked [] new_manager\<lparr>live := Some d\<rparr>) fs = (tr, Some True)"
  shows "init_fs (InitSDK_profile L os path [] fs) path = Some (written_file d) \<and>
    init_ok (InitSDK_profile L os path [] fs) = Some True"
proof -
  let ?m = "new_manager\<lparr>profile_passphrase := [], live := Some d\<rparr>"
  have s: "saveLocked L (save_answers os) path ?m fs = (tr, Some True)"
    using assms(4) by (simp add: setProfilePassphraseLocked_def new_manager_def)
  have "fs_after fs tr path = Some (written_file d)"
    using s
  proof (cases rule: saveLocked_cases)
    case (wrote d' out)
    with outcome_at_path(3) [OF wrote(4)] show ?thesis by (simp add: protect_def)
  qed simp
  moreover have "InitSDK_profile L os path [] fs = started ?m (fs_after fs tr)"
    using s assms(1,2)
    by (simp add: InitSDK_profile_def mint_identity_def setProfilePassphraseLocked_def new_manager_def)
  ultimately show ?thesis by (simp add: started_def)
qed

end
