(* ===== verification/IterateScope.thy ===== *)
theory IterateScope
  imports Prelude
begin

text \<open>
  \<open>IterateReentryScope\<close> (\<open>src/source/ToxManager.cpp\<close>): calls that must not run inside a tox
  callback (\<open>shutdown\<close>, \<open>UnInitSDK\<close>, a save) are put off until the outermost iterate of the thread
  has returned. The state is the thread's own: the nesting depth and the pointer to the vector
  of deferred calls.

  A deferred call may enter an iterate again, whose callbacks defer further calls; a \<open>call\<close> is
  therefore a tree. The destructor calls itself through the calls it runs, so its model counts
  fuel, and \<open>deferred_calls_run_once\<close> shows how much is enough. An exception of a call is
  caught and changes nothing here.
\<close>

datatype 'a call = Call 'a "'a call list"

record 'a iterate_scope =
  scope_depth :: int
  deferred :: "'a call list option"
  ran :: "('a \<times> int) list"

definition scope_enter :: "'a iterate_scope \<Rightarrow> 'a iterate_scope" where
  "scope_enter s = s\<lparr>scope_depth := scope_depth s + 1\<rparr>"

definition scope_active :: "'a iterate_scope \<Rightarrow> bool" where
  "scope_active s \<longleftrightarrow> scope_depth s > 0"

definition Defer :: "'a call \<Rightarrow> 'a iterate_scope \<Rightarrow> 'a iterate_scope \<times> bool" where
  "Defer c s =
     (if scope_depth s \<le> 0 then (s, False)
      else (s\<lparr>deferred := Some ((case deferred s of None \<Rightarrow> [] | Some cs \<Rightarrow> cs) @ [c])\<rparr>, True))"

definition defer_all :: "'a call list \<Rightarrow> 'a iterate_scope \<Rightarrow> 'a iterate_scope" where
  "defer_all cs s = fold (\<lambda>c. fst \<circ> Defer c) cs s"

text \<open>
  Running a deferred call records it with the depth it runs at; one that enters an iterate
  opens a scope, defers what the callbacks defer and leaves the scope.
\<close>

fun scope_leave :: "nat \<Rightarrow> 'a iterate_scope \<Rightarrow> 'a iterate_scope option"
  and drain_deferred :: "nat \<Rightarrow> 'a iterate_scope \<Rightarrow> 'a iterate_scope option"
  and run_deferred :: "nat \<Rightarrow> 'a call list \<Rightarrow> 'a iterate_scope \<Rightarrow> 'a iterate_scope option" where
  "scope_leave 0 s = None"
| "scope_leave (Suc n) s =
     (let s1 = s\<lparr>scope_depth := scope_depth s - 1\<rparr> in
      if scope_depth s1 \<noteq> 0 then Some s1 else drain_deferred n s1)"
| "drain_deferred 0 s = None"
| "drain_deferred (Suc n) s =
     (case deferred s of
        None \<Rightarrow> Some s
      | Some [] \<Rightarrow> Some (s\<lparr>deferred := None\<rparr>)
      | Some (c # cs) \<Rightarrow>
          (case run_deferred n (c # cs) (s\<lparr>deferred := Some []\<rparr>) of
             None \<Rightarrow> None
           | Some s' \<Rightarrow> drain_deferred n s'))"
| "run_deferred n [] s = Some s"
| "run_deferred 0 (c # cs) s = None"
| "run_deferred (Suc n) (Call a subs # cs) s =
     (let s1 = s\<lparr>ran := ran s @ [(a, scope_depth s)]\<rparr> in
      case (if subs = [] then Some s1 else scope_leave n (defer_all subs (scope_enter s1))) of
        None \<Rightarrow> None
      | Some s2 \<Rightarrow> run_deferred n cs s2)"

section \<open>Every deferred call runs once, after the iterate\<close>

text \<open>The calls in the order they run: each before the calls deferred from it.\<close>

fun call_order :: "'a call list \<Rightarrow> 'a list" where
  "call_order [] = []"
| "call_order (Call a subs # cs) = a # call_order subs @ call_order cs"

text \<open>Fuel that is enough: three levels for each call.\<close>

fun calls_fuel :: "'a call list \<Rightarrow> nat" where
  "calls_fuel [] = 2"
| "calls_fuel (Call a subs # cs) = 4 + calls_fuel subs + calls_fuel cs"

definition at_top :: "'a iterate_scope \<Rightarrow> bool" where
  "at_top s \<longleftrightarrow> scope_depth s = 0 \<and> (deferred s = None \<or> deferred s = Some [])"

lemma defer_all_open:
  "scope_depth s > 0 \<Longrightarrow> deferred s = None \<or> deferred s = Some [] \<Longrightarrow> cs \<noteq> [] \<Longrightarrow>
   defer_all cs s = s\<lparr>deferred := Some cs\<rparr>"
proof (induction cs rule: rev_induct)
  case (snoc c cs)
  then show ?case
    by (cases "cs = []") (auto simp: defer_all_def Defer_def)
qed simp

lemma run_deferred_order:
  "at_top s \<Longrightarrow> calls_fuel cs \<le> n \<Longrightarrow>
   \<exists>q. (q = None \<or> q = Some []) \<and> run_deferred n cs s =
     Some (s\<lparr>ran := ran s @ map (\<lambda>a. (a, 0)) (call_order cs), deferred := q\<rparr>)"
proof (induction cs arbitrary: n s rule: call_order.induct)
  case 1
  then show ?case by (intro exI [of _ "deferred s"]) (auto simp: at_top_def)
next
  case (2 a subs cs)
  from 2(4) obtain k where n: "n = Suc (Suc (Suc k))" and k: "calls_fuel subs + 1 \<le> k" "calls_fuel cs \<le> Suc (Suc k)"
    by (cases n; cases "n - 1"; cases "n - 2") auto
  let ?s = "s\<lparr>ran := ran s @ [(a, 0)]\<rparr>"
  have top: "at_top (?s\<lparr>deferred := q\<rparr>)" if "q = None \<or> q = Some []" for q
    using 2(3) that by (auto simp: at_top_def)
  obtain q s2 where s2: "(if subs = [] then Some ?s else scope_leave (Suc (Suc k)) (defer_all subs (scope_enter ?s))) = Some s2"
      "s2 = ?s\<lparr>ran := ran ?s @ map (\<lambda>a. (a, 0)) (call_order subs), deferred := q\<rparr>" "q = None \<or> q = Some []"
  proof (cases "subs = []")
    case True
    with 2(3) that [of ?s "deferred s"] show ?thesis by (auto simp: at_top_def)
  next
    case False
    obtain q' where q': "q' = None \<or> q' = Some []" "run_deferred k subs (?s\<lparr>deferred := Some []\<rparr>) =
        Some (?s\<lparr>ran := ran ?s @ map (\<lambda>a. (a, 0)) (call_order subs), deferred := q'\<rparr>)"
      using 2(1) [of "?s\<lparr>deferred := Some []\<rparr>" k] top [of "Some []"] k(1) by auto
    have "defer_all subs (scope_enter ?s) = ?s\<lparr>scope_depth := 1, deferred := Some subs\<rparr>"
      using defer_all_open [of "scope_enter ?s" subs] False 2(3) by (auto simp: scope_enter_def at_top_def)
    moreover have "?s\<lparr>scope_depth := 0\<rparr> = ?s" using 2(3) by (cases s) (simp add: at_top_def)
    moreover obtain c cs' where "subs = c # cs'" using False by (cases subs) auto
    moreover have "\<exists>j. k = Suc j" using k(1) by (cases k) auto
    ultimately have "scope_leave (Suc (Suc k)) (defer_all subs (scope_enter ?s)) =
        Some (?s\<lparr>ran := ran ?s @ map (\<lambda>a. (a, 0)) (call_order subs), deferred := None\<rparr>)"
      using q' by auto
    with False that show ?thesis by simp
  qed
  then obtain q2 where "q2 = None \<or> q2 = Some []" "run_deferred (Suc (Suc k)) cs s2 =
      Some (s2\<lparr>ran := ran s2 @ map (\<lambda>a. (a, 0)) (call_order cs), deferred := q2\<rparr>)"
    using 2(2) [of s2 "Suc (Suc k)"] top [of q] k(2) by (auto simp: at_top_def)
  with s2 2(3) show ?case by (auto simp: n at_top_def Let_def)
qed

text \<open>
  C18. Deferred calls run exactly once, and only after the iterate: leaving the outermost scope
  runs every deferred call in the order of deferral, each before the calls deferred from it,
  all at depth 0 where no iterate lock is held, and leaves nothing behind; leaving an inner
  scope runs none. The fuel named is enough.
\<close>

theorem deferred_calls_run_once:
  assumes "scope_depth s > 0" and "deferred s = Some cs" and "n \<ge> calls_fuel cs + 3"
  shows "scope_leave n s =
    (if scope_depth s = 1
     then Some \<lparr>scope_depth = 0, deferred = None, ran = ran s @ map (\<lambda>a. (a, 0)) (call_order cs)\<rparr>
     else Some (s\<lparr>scope_depth := scope_depth s - 1\<rparr>))"
proof -
  obtain k where n: "n = Suc (Suc (Suc k))" "calls_fuel cs \<le> Suc k"
    using assms(3) by (cases n; cases "n - 1"; cases "n - 2") auto
  let ?s = "s\<lparr>scope_depth := 0, deferred := Some []\<rparr>"
  obtain q where "q = None \<or> q = Some []" "run_deferred (Suc k) cs ?s =
      Some (?s\<lparr>ran := ran s @ map (\<lambda>a. (a, 0)) (call_order cs), deferred := q\<rparr>)"
    using run_deferred_order [of ?s cs "Suc k"] n(2) by (auto simp: at_top_def)
  with assms(1,2) show ?thesis
    by (cases cs) (auto simp: n(1) Let_def)
qed

theorem deferred_calls_run_once_witness:
  "scope_leave 30 \<lparr>scope_depth = 1, deferred = Some [Call ''save'' [Call ''shutdown'' []], Call ''uninit'' []], ran = []\<rparr> =
   Some \<lparr>scope_depth = 0, deferred = None, ran = [(''save'', 0), (''shutdown'', 0), (''uninit'', 0)]\<rparr>"
  using deferred_calls_run_once
    [of "\<lparr>scope_depth = 1, deferred = Some [Call ''save'' [Call ''shutdown'' []], Call ''uninit'' []], ran = []\<rparr>"
      "[Call ''save'' [Call ''shutdown'' []], Call ''uninit'' []]" 30]
  by simp

end
