(* ===== verification/HexCodec.thy ===== *)
theory HexCodec
  imports Prelude
begin

text \<open>
  Hexadecimal and byte-order helpers.

  \<^item> \<open>source/RendezvousGroupsCodec.cpp\<close>: \<open>Hex\<close>, \<open>Unhex\<close> (chat ids, keys, payloads).
  \<^item> \<open>source/ToxUtil.h\<close>: \<open>tox_hex_to_bytes\<close>, \<open>tox_bytes_to_hex\<close>, \<open>is_valid_tox_id\<close> and the
    address printers. The parser runs \<open>strtol\<close> in base 16 on two characters at a time;
    \<open>strtol2\<close> is what the C library does with such a string (leading blanks, a sign).
  \<^item> \<open>source/V2TIMUtils.cpp\<close>: \<open>hex_char_to_byte\<close>, \<open>tox_address_to_string\<close>,
    \<open>tox_address_string_to_bytes\<close>, \<open>hex_string_to_bin\<close>, \<open>tim2tox_htonl\<close>,
    \<open>GenerateUniqueID\<close> (its random bytes are an argument).
  An output buffer that is only meaningful on success is the value of an \<open>option\<close>.
\<close>

section \<open>Characters as numbers\<close>

definition code :: "char \<Rightarrow> int" where
  "code c = int (of_char c)"

definition in_range :: "char \<Rightarrow> char \<Rightarrow> char \<Rightarrow> bool" where
  "in_range lo hi c \<longleftrightarrow> code lo \<le> code c \<and> code c \<le> code hi"

section \<open>RendezvousGroups::Hex and Unhex\<close>

definition kDigits :: string where
  "kDigits = ''0123456789abcdef''"

fun Hex :: "bytes \<Rightarrow> string" where
  "Hex [] = []"
| "Hex (b # bs) = kDigits ! unat (drop_bit 4 b) # kDigits ! unat (b AND 0x0F) # Hex bs"

definition nibble :: "char \<Rightarrow> int" where
  "nibble c =
     (if in_range CHR ''0'' CHR ''9'' c then code c - code CHR ''0''
      else if in_range CHR ''a'' CHR ''f'' c then code c - code CHR ''a'' + 10
      else if in_range CHR ''A'' CHR ''F'' c then code c - code CHR ''A'' + 10
      else -1)"

fun unhex_loop :: "(char \<Rightarrow> int) \<Rightarrow> string \<Rightarrow> bytes option" where
  "unhex_loop nib (h # l # cs) =
     (let hi = nib h; lo = nib l in
      if hi < 0 \<or> lo < 0 then None
      else map_option ((#) (word_of_int ((push_bit 4 hi) OR lo))) (unhex_loop nib cs))"
| "unhex_loop nib _ = Some []"

definition Unhex :: "string \<Rightarrow> nat \<Rightarrow> bytes option" where
  "Unhex hex n = (if length hex \<noteq> n * 2 then None else unhex_loop nibble hex)"

section \<open>ToxUtil.h\<close>

definition is_space :: "char \<Rightarrow> bool" where
  "is_space c \<longleftrightarrow> c = CHR '' '' \<or> in_range CHR 0x09 CHR 0x0D c"

text \<open>
  \<open>strtol\<close> in base 16 on the string of two characters \<open>a\<close>, \<open>b\<close> (cut at a NUL): the value and
  whether the end pointer is at the terminator. Blanks and one sign may precede the digits;
  with no digit the end pointer is the start of the string.
\<close>

definition strtol_digit :: "char \<Rightarrow> char \<Rightarrow> int option" where
  "strtol_digit a b =
     (if a = CHR 0x00 then Some 0
      else if nibble a \<ge> 0 then
        (if b = CHR 0x00 then Some (nibble a)
         else if nibble b \<ge> 0 then Some (16 * nibble a + nibble b) else None)
      else if is_space a \<or> a = CHR ''+'' then
        (if nibble b \<ge> 0 then Some (nibble b) else None)
      else if a = CHR ''-'' then
        (if nibble b \<ge> 0 then Some (- nibble b) else None)
      else None)"

fun strtol_loop :: "string \<Rightarrow> bytes option" where
  "strtol_loop (a # b # cs) =
     (case strtol_digit a b of
        None \<Rightarrow> None
      | Some v \<Rightarrow> map_option ((#) (word_of_int v)) (strtol_loop cs))"
| "strtol_loop _ = Some []"

definition tox_hex_to_bytes :: "string \<Rightarrow> nat \<Rightarrow> bytes option" where
  "tox_hex_to_bytes hex bytes_size =
     (if length hex mod 2 \<noteq> 0 \<or> length hex div 2 > bytes_size then None else strtol_loop hex)"

definition hex_chars :: string where
  "hex_chars = ''0123456789ABCDEF''"

fun tox_bytes_to_hex :: "bytes \<Rightarrow> string" where
  "tox_bytes_to_hex [] = []"
| "tox_bytes_to_hex (b # bs) =
     hex_chars ! unat (drop_bit 4 b AND 0xF) # hex_chars ! unat (b AND 0xF) # tox_bytes_to_hex bs"

definition TOX_PUBLIC_KEY_SIZE :: nat where
  "TOX_PUBLIC_KEY_SIZE = 32"

text \<open>\<open>isxdigit\<close> in the C locale.\<close>

definition isxdigit :: "char \<Rightarrow> bool" where
  "isxdigit c \<longleftrightarrow> in_range CHR ''0'' CHR ''9'' c \<or> in_range CHR ''a'' CHR ''f'' c \<or>
     in_range CHR ''A'' CHR ''F'' c"

definition is_valid_tox_id :: "string \<Rightarrow> bool" where
  "is_valid_tox_id tid \<longleftrightarrow> length tid = TOX_PUBLIC_KEY_SIZE * 2 \<and> list_all isxdigit tid"

definition tox_public_key_to_string :: "bytes \<Rightarrow> string" where
  "tox_public_key_to_string pk = tox_bytes_to_hex (take TOX_PUBLIC_KEY_SIZE pk)"

section \<open>V2TIMUtils.cpp\<close>

definition hex_char_to_byte :: "char \<Rightarrow> u8" where
  "hex_char_to_byte c =
     (if in_range CHR ''0'' CHR ''9'' c then word_of_int (code c - code CHR ''0'')
      else if in_range CHR ''A'' CHR ''F'' c then word_of_int (code c - code CHR ''A'' + 10)
      else if in_range CHR ''a'' CHR ''f'' c then word_of_int (code c - code CHR ''a'' + 10)
      else 0xFF)"

fun address_loop :: "string \<Rightarrow> bytes option" where
  "address_loop (h # l # cs) =
     (let h_val = hex_char_to_byte h; l_val = hex_char_to_byte l in
      if h_val > 0x0F \<or> l_val > 0x0F then None
      else map_option ((#) ((push_bit 4 h_val) OR l_val)) (address_loop cs))"
| "address_loop _ = Some []"

text \<open>\<open>address\<close> is a C string: its \<open>strlen\<close> is the length of the text before the first NUL.\<close>

definition tox_address_string_to_bytes :: "string option \<Rightarrow> bytes option" where
  "tox_address_string_to_bytes address =
     (case address of
        None \<Rightarrow> None
      | Some a \<Rightarrow> if length a \<noteq> TOX_PUBLIC_KEY_SIZE * 2 then None else address_loop a)"

definition tox_address_to_string :: "bytes option \<Rightarrow> string option" where
  "tox_address_to_string public_key =
     map_option (\<lambda>pk. tox_bytes_to_hex (take TOX_PUBLIC_KEY_SIZE pk)) public_key"

definition hex_string_to_bin :: "string option \<Rightarrow> nat \<Rightarrow> bytes option" where
  "hex_string_to_bin hex bin_size =
     (case hex of
        None \<Rightarrow> None
      | Some h \<Rightarrow> if length h \<noteq> bin_size * 2 then None else strtol_loop h)"

definition tim2tox_htonl :: "u32 \<Rightarrow> u32" where
  "tim2tox_htonl host =
     ((push_bit 24 (host AND 0x000000FF)) OR
      (push_bit 8 (host AND 0x0000FF00)) OR
      (drop_bit 8 (host AND 0x00FF0000)) OR
      (drop_bit 24 (host AND 0xFF000000)))"

definition tim2tox_ntohl :: "u32 \<Rightarrow> u32" where
  "tim2tox_ntohl net = tim2tox_htonl net"

definition uuid_bytes :: "bytes \<Rightarrow> bytes" where
  "uuid_bytes rnd =
     (let bs = rnd[6 := (rnd ! 6 AND 0x0F) OR 0x40] in bs[8 := (bs ! 8 AND 0x3F) OR 0x80])"

fun uuid_print :: "nat \<Rightarrow> bytes \<Rightarrow> string" where
  "uuid_print i [] = []"
| "uuid_print i (b # bs) =
     Hex [b] @ (if i = 3 \<or> i = 5 \<or> i = 7 \<or> i = 9 then ''-'' else []) @ uuid_print (Suc i) bs"

text \<open>The sixteen random bytes are the argument.\<close>

definition GenerateUniqueID :: "bytes \<Rightarrow> string" where
  "GenerateUniqueID rnd = uuid_print 0 (uuid_bytes rnd)"

section \<open>Lemmas\<close>

lemma nibble_digits:
  "\<forall>n \<in> {0..<16}. nibble (kDigits ! n) = int n \<and> nibble (hex_chars ! n) = int n"
  by code_simp

lemma isxdigit_nibble: "isxdigit c \<longleftrightarrow> 0 \<le> nibble c"
  by (auto simp: isxdigit_def nibble_def in_range_def)

lemma nibble_less_16: "nibble c < 16"
proof -
  have "code CHR ''0'' = 48" "code CHR ''9'' = 57" "code CHR ''a'' = 97" "code CHR ''f'' = 102"
    "code CHR ''A'' = 65" "code CHR ''F'' = 70"
    by (simp_all add: code_def)
  then show ?thesis by (simp add: nibble_def in_range_def)
qed

lemma unat_hi_nibble: "unat (drop_bit 4 (b :: u8)) < 16"
  using unsigned_less [of b, where ?'a = nat] by (simp add: drop_bit_eq_div unat_div)

lemma unat_lo_nibble: "unat ((b :: u8) AND 0x0F) < 16"
proof -
  have "b AND 0x0F = take_bit 4 b" by (simp add: take_bit_eq_mask mask_eq_exp_minus_1)
  then show ?thesis by (simp add: unat_mod take_bit_eq_mod)
qed

lemma nibbles_join: "word_of_int ((push_bit 4 (uint (drop_bit 4 b))) OR uint (b AND 0x0F)) = (b :: u8)"
proof (rule bit_word_eqI)
  fix n assume "n < LENGTH(8)"
  have "b AND 0x0F = take_bit 4 b" by (simp add: take_bit_eq_mask mask_eq_exp_minus_1)
  then show "bit (word_of_int ((push_bit 4 (uint (drop_bit 4 b))) OR uint (b AND 0x0F)) :: u8) n = bit b n"
    using \<open>n < LENGTH(8)\<close> by (auto simp: bit_simps)
qed


lemma nibble_kDigits: "n < 16 \<Longrightarrow> nibble (kDigits ! n) = int n"
  and nibble_hex_chars: "n < 16 \<Longrightarrow> nibble (hex_chars ! n) = int n"
  using nibble_digits by simp_all

lemma length_Hex [simp]: "length (Hex bs) = 2 * length bs"
  by (induction bs) auto

lemma unhex_loop_Hex: "unhex_loop nibble (Hex bs) = Some bs"
  by (induction bs)
    (simp_all add: Let_def nibble_kDigits unat_hi_nibble unat_lo_nibble nibbles_join)

lemma Unhex_Hex: "Unhex (Hex bs) (length bs) = Some bs"
  by (simp add: Unhex_def unhex_loop_Hex)

lemma Hex_inject [simp]: "Hex bs = Hex cs \<longleftrightarrow> bs = cs"
  by (metis unhex_loop_Hex option.inject)

text \<open>Hex as a codec; \<open>Unhex\<close> also reads upper-case digits, so it is not strict.\<close>

interpretation hex: wire_codec "\<lambda>bs. if length bs = n then Some (Hex bs) else None" "\<lambda>s. Unhex s n" for n
  by unfold_locales (auto simp: Unhex_Hex split: if_splits)

lemma Hex_append: "Hex (bs @ cs) = Hex bs @ Hex cs"
  by (induction bs) auto

lemma set_Hex: "set (Hex bs) \<subseteq> set kDigits"
proof (induction bs)
  case (Cons b bs)
  have "length kDigits = 16" by (simp add: kDigits_def)
  then show ?case using Cons unat_hi_nibble [of b] unat_lo_nibble [of b] by (simp add: nth_mem)
qed simp

text \<open>The \<open>strtol\<close> parser agrees with \<open>Unhex\<close> on hexadecimal text.\<close>

lemma strtol_digit_hex: "isxdigit a \<Longrightarrow> isxdigit b \<Longrightarrow> strtol_digit a b = Some (16 * nibble a + nibble b)"
proof -
  have z: "nibble CHR 0x00 < 0" by code_simp
  assume "isxdigit a" "isxdigit b"
  then show ?thesis using z by (auto simp: strtol_digit_def isxdigit_nibble)
qed

lemma push_nibble:
  assumes "0 \<le> h" "0 \<le> l" "l < 16"
  shows "push_bit 4 h OR l = 16 * h + (l :: int)"
proof -
  have l: "take_bit 4 l = l" using assms by (simp add: take_bit_eq_mod)
  have "push_bit 4 h AND take_bit 4 l = 0" by (rule bit_eqI) (auto simp: bit_simps)
  then have "push_bit 4 h + l = push_bit 4 h OR l" by (simp add: l disjunctive_add_eq_or)
  then show ?thesis by (simp add: push_bit_eq_mult)
qed

lemma strtol_loop_hex: "list_all isxdigit s \<Longrightarrow> strtol_loop s = unhex_loop nibble s"
proof (induction s rule: strtol_loop.induct)
  case (1 a b cs)
  then have nn: "0 \<le> nibble a" "0 \<le> nibble b" and "strtol_digit a b = Some (16 * nibble a + nibble b)"
    by (simp_all add: isxdigit_nibble [symmetric] strtol_digit_hex)
  then show ?case
    using 1 push_nibble [OF nn nibble_less_16] by (simp add: Let_def)
qed auto

lemma unhex_loop_Some_hex:
  "even (length s) \<Longrightarrow> (unhex_loop nibble s \<noteq> None) = list_all isxdigit s"
proof (induction nibble s rule: unhex_loop.induct)
  case (1 h l cs)
  then show ?case by (auto simp: Let_def isxdigit_nibble)
qed auto

lemma drop_bit_AND: "drop_bit 4 (b :: u8) AND 0xF = drop_bit 4 b"
proof -
  have "drop_bit 4 b AND 0xF = take_bit 4 (drop_bit 4 b)"
    by (simp add: take_bit_eq_mask mask_eq_exp_minus_1)
  also have "\<dots> = drop_bit 4 b"
    by (rule bit_word_eqI) (auto simp: bit_simps dest: bit_imp_le_length)
  finally show ?thesis .
qed

lemma length_tox_bytes_to_hex [simp]: "length (tox_bytes_to_hex bs) = 2 * length bs"
  by (induction bs) auto

lemma unhex_loop_upper: "unhex_loop nibble (tox_bytes_to_hex bs) = Some bs"
  by (induction bs)
    (simp_all add: Let_def drop_bit_AND nibble_hex_chars unat_hi_nibble unat_lo_nibble nibbles_join)

lemma isxdigit_tox_bytes_to_hex: "list_all isxdigit (tox_bytes_to_hex bs)"
  using unhex_loop_Some_hex [of "tox_bytes_to_hex bs"] by (simp add: unhex_loop_upper)

lemma strtol_loop_upper: "strtol_loop (tox_bytes_to_hex bs) = Some bs"
  by (simp add: strtol_loop_hex isxdigit_tox_bytes_to_hex unhex_loop_upper)

text \<open>\<open>hex_char_to_byte\<close> is \<open>nibble\<close> with \<open>0xFF\<close> for the error value.\<close>

lemma hex_char_to_byte_nibble:
  "hex_char_to_byte c = (if nibble c < 0 then 0xFF else word_of_int (nibble c))"
  by (auto simp: hex_char_to_byte_def nibble_def in_range_def code_def)

lemma address_loop_unhex: "address_loop s = unhex_loop nibble s"
proof (induction s rule: address_loop.induct)
  case (1 h l cs)
  have v: "(hex_char_to_byte c > 0x0F) = (nibble c < 0)" for c
    using nibble_less_16 [of c]
    by (auto simp: hex_char_to_byte_nibble word_less_def uint_word_of_int not_less)
  have "push_bit 4 (word_of_int a :: u8) OR word_of_int b = word_of_int (push_bit 4 a OR b)" for a b
    by (rule bit_word_eqI) (auto simp: bit_simps)
  then show ?case using 1 v by (auto simp: Let_def hex_char_to_byte_nibble)
qed auto

section \<open>Byte order\<close>

text \<open>Byte \<open>i\<close> of a 32-bit value, counted from the least significant.\<close>

definition byte_of_word :: "u32 \<Rightarrow> nat \<Rightarrow> u8" where
  "byte_of_word w i = ucast (drop_bit (8 * i) w)"

lemma htonl_masks:
  "(0x000000FF :: u32) = mask 8" "(0x0000FF00 :: u32) = push_bit 8 (mask 8)"
  "(0x00FF0000 :: u32) = push_bit 16 (mask 8)" "(0xFF000000 :: u32) = push_bit 24 (mask 8)"
  by (simp_all add: mask_eq_exp_minus_1)

lemma bit_htonl:
  "bit (tim2tox_htonl w) n \<longleftrightarrow>
     n < 32 \<and> bit w (if n < 8 then n + 24 else if n < 16 then n + 8 else if n < 24 then n - 8 else n - 24)"
  unfolding tim2tox_htonl_def htonl_masks
  by (auto simp: bit_simps ac_simps dest: bit_imp_le_length)

lemma htonl_htonl: "tim2tox_htonl (tim2tox_htonl w) = w"
  by (rule bit_word_eqI) (auto simp: bit_htonl)

lemma htonl_swaps_bytes: "i < 4 \<Longrightarrow> byte_of_word (tim2tox_htonl w) i = byte_of_word w (3 - i)"
proof (rule bit_word_eqI)
  fix n assume "i < 4" and "n < LENGTH(8)"
  then have i: "i = 0 \<or> i = 1 \<or> i = 2 \<or> i = 3" and n: "n < 8" by auto
  then show "bit (byte_of_word (tim2tox_htonl w) i) n = bit (byte_of_word w (3 - i)) n"
    by (auto simp: byte_of_word_def bit_simps bit_htonl ac_simps)
qed

section \<open>Unique identifiers\<close>

lemma uuid_version_nibble: "drop_bit 4 (((b :: u8) AND 0x0F) OR 0x40) = 4"
proof -
  have m: "(0x0F :: u8) = mask 4" "(0x40 :: u8) = push_bit 6 1" "(4 :: u8) = push_bit 2 1"
    by (simp_all add: mask_eq_exp_minus_1)
  show ?thesis unfolding m by (rule bit_word_eqI) (auto simp: bit_simps bit_1_iff)
qed

lemma uuid_variant_nibble:
  "8 \<le> unat (drop_bit 4 (((b :: u8) AND 0x3F) OR 0x80))" "unat (drop_bit 4 (((b :: u8) AND 0x3F) OR 0x80)) < 12"
proof -
  have m: "(0x3F :: u8) = mask 6" "(0x80 :: u8) = push_bit 7 1" by (simp_all add: mask_eq_exp_minus_1)
  have "drop_bit 4 ((b AND 0x3F) OR 0x80) = take_bit 2 (drop_bit 4 b) OR push_bit 3 1"
    unfolding m by (rule bit_word_eqI) (auto simp: bit_simps bit_1_iff)
  moreover have "take_bit 2 (drop_bit 4 b) AND push_bit 3 1 = 0"
    by (rule bit_word_eqI) (auto simp: bit_simps bit_1_iff dest!: less_2_cases)
  ultimately have e: "drop_bit 4 ((b AND 0x3F) OR 0x80) = take_bit 2 (drop_bit 4 b) + 8"
    by (simp add: disjunctive_add_eq_or)
  have t: "unat (take_bit 2 (drop_bit 4 b)) < 4"
    by (simp add: unat_mod take_bit_eq_mod)
  have "unat (take_bit 2 (drop_bit 4 b) + 8) = unat (take_bit 2 (drop_bit 4 b)) + 8"
    by (rule unat_add_lem [THEN iffD1, of _ "8 :: u8", simplified]) (use t in simp)
  then show "8 \<le> unat (drop_bit 4 ((b AND 0x3F) OR 0x80))" "unat (drop_bit 4 ((b AND 0x3F) OR 0x80)) < 12"
    unfolding e using t by linarith+
qed

lemma length_16_cases:
  assumes "length (xs :: 'a list) = 16"
  obtains a b c d e f g h i j k l m n p q where "xs = [a, b, c, d, e, f, g, h, i, j, k, l, m, n, p, q]"
  using assms by (auto simp: numeral_eq_Suc length_Suc_conv)

lemma GenerateUniqueID_format:
  assumes "length rnd = 16"
  shows "length (GenerateUniqueID rnd) = 36"
    and "\<forall>i \<in> {8, 13, 18, 23}. GenerateUniqueID rnd ! i = CHR ''-''"
    and "GenerateUniqueID rnd ! 14 = CHR ''4''"
    and "GenerateUniqueID rnd ! 19 \<in> set ''89ab''"
proof -
  obtain a b c d e f g h i j k l m n p q where r: "rnd = [a, b, c, d, e, f, g, h, i, j, k, l, m, n, p, q]"
    using assms by (rule length_16_cases)
  have u: "GenerateUniqueID rnd = Hex [a, b, c, d] @ ''-'' @ Hex [e, f] @ ''-'' @ Hex [(g AND 0x0F) OR 0x40, h] @ ''-'' @
      Hex [(i AND 0x3F) OR 0x80, j] @ ''-'' @ Hex [k, l, m, n, p, q]"
    by (simp add: GenerateUniqueID_def uuid_bytes_def r Let_def)
  show "length (GenerateUniqueID rnd) = 36" by (simp add: u)
  show "\<forall>i \<in> {8, 13, 18, 23}. GenerateUniqueID rnd ! i = CHR ''-''" by (simp add: u nth_append)
  show "GenerateUniqueID rnd ! 14 = CHR ''4''"
    by (simp add: u nth_append uuid_version_nibble kDigits_def)
  define v where "v = unat (drop_bit 4 ((i AND 0x3F) OR 0x80))"
  have "v \<in> {8, 9, 10, 11}" using uuid_variant_nibble [of i] by (auto simp: v_def)
  then have "kDigits ! v \<in> set ''89ab''" by (auto simp: kDigits_def)
  moreover have "GenerateUniqueID rnd ! 19 = kDigits ! v" by (simp add: u nth_append v_def)
  ultimately show "GenerateUniqueID rnd ! 19 \<in> set ''89ab''" by simp
qed

lemma set_uuid_print: "set (uuid_print i bs) \<subseteq> insert CHR ''-'' (set kDigits)"
proof (induction i bs rule: uuid_print.induct)
  case (2 i b bs)
  then show ?case using set_Hex [of "[b]"] by (auto simp del: Hex.simps)
qed simp

end
