(* ===== verification/QToxFragmenter.thy ===== *)
theory QToxFragmenter
  imports Prelude
begin

text \<open>
  \<open>source/QToxMessageFragmenter.{h,cpp}\<close>: UTF-8 validation, the \<open>/me\<close> action prefix and the
  splitting of a long text into Tox messages.

  \<open>TOX_MAX_MESSAGE_LENGTH\<close> is toxcore's and is the parameter \<open>tox_max\<close>. The scanning loop of
  \<open>IsValidUtf8\<close> is a recursion on the text from its current position. Loop indices are natural
  numbers: no index passes the length of the text, so \<open>std::size_t\<close> does not wrap.

  The contract, \<open>fragmentation\<close>: the fragments concatenate to the text, none is empty, none is
  longer than the limit and each is valid UTF-8 on its own. \<open>FragmentMessage\<close> meets it and is
  total on valid input once a message can hold one UTF-8 character.
\<close>

definition kMessagePayloadLimit :: "nat \<Rightarrow> nat" where
  "kMessagePayloadLimit tox_max = tox_max - 50"

datatype tox_message_type = TOX_MESSAGE_TYPE_NORMAL | TOX_MESSAGE_TYPE_ACTION

record prepared_text =
  pt_type :: tox_message_type
  pt_body :: string

definition IsContinuation :: "u8 \<Rightarrow> bool" where
  "IsContinuation v \<longleftrightarrow> (v AND 0xC0) = 0x80"

definition HasContinuationBytes :: "string \<Rightarrow> nat \<Rightarrow> nat \<Rightarrow> bool" where
  "HasContinuationBytes text offset count =
     (if offset + count > length text then False
      else list_all (\<lambda>c. IsContinuation (byte_of c)) (take count (drop offset text)))"

function IsValidUtf8 :: "string \<Rightarrow> bool" where
  "IsValidUtf8 text =
     (if text = [] then True
      else
        let lead = byte_of (text ! 0) in
        if lead \<le> 0x7F then IsValidUtf8 (drop 1 text)
        else if lead \<ge> 0xC2 \<and> lead \<le> 0xDF then
          (if \<not> HasContinuationBytes text 1 1 then False else IsValidUtf8 (drop 2 text))
        else if lead \<ge> 0xE0 \<and> lead \<le> 0xEF then
          (if \<not> HasContinuationBytes text 1 2 then False
           else
             let second = byte_of (text ! 1) in
             if (lead = 0xE0 \<and> second < 0xA0) \<or> (lead = 0xED \<and> second > 0x9F) then False
             else IsValidUtf8 (drop 3 text))
        else if lead \<ge> 0xF0 \<and> lead \<le> 0xF4 then
          (if \<not> HasContinuationBytes text 1 3 then False
           else
             let second = byte_of (text ! 1) in
             if (lead = 0xF0 \<and> second < 0x90) \<or> (lead = 0xF4 \<and> second > 0x8F) then False
             else IsValidUtf8 (drop 4 text))
        else False)"
  by pat_completeness auto
termination
  by (relation "measure length") auto

definition IsAsciiCaseEqual :: "char \<Rightarrow> char \<Rightarrow> bool" where
  "IsAsciiCaseEqual v lowercase \<longleftrightarrow>
     v = lowercase \<or> int (of_char v) = int (of_char lowercase) - (int (of_char CHR ''a'') - int (of_char CHR ''A''))"

definition HasMePrefix :: "string \<Rightarrow> bool" where
  "HasMePrefix text \<longleftrightarrow>
     length text \<ge> 4 \<and> text ! 0 = CHR ''/'' \<and>
     IsAsciiCaseEqual (text ! 1) CHR ''m'' \<and> IsAsciiCaseEqual (text ! 2) CHR ''e'' \<and>
     text ! 3 = CHR '' ''"

fun find_back :: "(char \<Rightarrow> bool) \<Rightarrow> string \<Rightarrow> nat \<Rightarrow> nat \<Rightarrow> nat option" where
  "find_back stop text offset i =
     (if i > offset
      then if stop (text ! (i - 1)) then Some i else find_back stop text offset (i - 1)
      else None)"

fun back_off :: "string \<Rightarrow> nat \<Rightarrow> nat \<Rightarrow> nat" where
  "back_off text offset split =
     (if split > offset \<and> split < length text \<and> IsContinuation (byte_of (text ! split))
      then back_off text offset (split - 1) else split)"

declare IsValidUtf8.simps [simp del] find_back.simps [simp del] back_off.simps [simp del]

definition FindPreferredSplit :: "string \<Rightarrow> nat \<Rightarrow> nat \<Rightarrow> nat" where
  "FindPreferredSplit text offset budget_end =
     (case find_back (\<lambda>c. c = CHR 0x0A) text offset budget_end of
        Some i \<Rightarrow> i
      | None \<Rightarrow>
          (case find_back (\<lambda>c. c = CHR '' '' \<or> c = CHR 0x09) text offset budget_end of
             Some i \<Rightarrow> i
           | None \<Rightarrow> back_off text offset budget_end))"

definition IsValidInput :: "string \<Rightarrow> bool" where
  "IsValidInput text \<longleftrightarrow>
     text \<noteq> [] \<and> find_str [CHR 0x00] text = None \<and> IsValidUtf8 text"

definition PrepareTextMessage :: "string \<Rightarrow> bool \<Rightarrow> prepared_text option" where
  "PrepareTextMessage text force_action =
     (if \<not> IsValidInput text then None
      else
        let has_me_prefix = HasMePrefix text;
            body = (if has_me_prefix then drop 4 text else text) in
        if body = [] then None
        else Some \<lparr>pt_type = (if force_action \<or> has_me_prefix then TOX_MESSAGE_TYPE_ACTION
                              else TOX_MESSAGE_TYPE_NORMAL),
                   pt_body = body\<rparr>)"

function fragment_loop :: "nat \<Rightarrow> string \<Rightarrow> nat \<Rightarrow> string list \<Rightarrow> string list option" where
  "fragment_loop limit text offset fragments =
     (if length text - offset > limit
      then
        let budget_end = offset + limit;
            split = FindPreferredSplit text offset budget_end in
        if split \<le> offset then None
        else fragment_loop limit text split (fragments @ [substr text offset (split - offset)])
      else Some (if offset < length text then fragments @ [drop offset text] else fragments))"
  by pat_completeness auto
termination
  by (relation "measure (\<lambda>(limit, text, offset, fragments). length text - offset)") auto

declare fragment_loop.simps [simp del]

definition FragmentMessage :: "nat \<Rightarrow> string \<Rightarrow> string list option" where
  "FragmentMessage tox_max text =
     (if \<not> IsValidInput text then None
      else case fragment_loop (kMessagePayloadLimit tox_max) text 0 [] of
             None \<Rightarrow> None
           | Some fragments \<Rightarrow>
               if fragments = [] \<or> (\<exists>f \<in> set fragments. f = []) then None else Some fragments)"

section \<open>Lemmas on UTF-8\<close>

abbreviation cont :: "char \<Rightarrow> bool" where
  "cont c \<equiv> IsContinuation (byte_of c)"

text \<open>
  How many bytes the scanner takes for the first character, 0 for a malformed one: the width
  its lead byte announces, when the bytes that follow fit.
\<close>

definition lead_width :: "u8 \<Rightarrow> nat" where
  "lead_width lead =
     (if lead \<le> 0x7F then 1
      else if lead \<ge> 0xC2 \<and> lead \<le> 0xDF then 2
      else if lead \<ge> 0xE0 \<and> lead \<le> 0xEF then 3
      else if lead \<ge> 0xF0 \<and> lead \<le> 0xF4 then 4 else 0)"

definition second_ok :: "u8 \<Rightarrow> u8 \<Rightarrow> bool" where
  "second_ok lead second \<longleftrightarrow>
     \<not> (lead = 0xE0 \<and> second < 0xA0) \<and> \<not> (lead = 0xED \<and> second > 0x9F) \<and>
     \<not> (lead = 0xF0 \<and> second < 0x90) \<and> \<not> (lead = 0xF4 \<and> second > 0x8F)"

definition well_formed_char :: "string \<Rightarrow> nat \<Rightarrow> bool" where
  "well_formed_char s n \<longleftrightarrow>
     HasContinuationBytes s 1 (n - 1) \<and> (n > 1 \<longrightarrow> second_ok (byte_of (s ! 0)) (byte_of (s ! 1)))"

definition lead_step :: "string \<Rightarrow> nat" where
  "lead_step s =
     (if s \<noteq> [] \<and> well_formed_char s (lead_width (byte_of (s ! 0)))
      then lead_width (byte_of (s ! 0)) else 0)"

lemma HasContinuationBytes_length: "HasContinuationBytes s k n \<Longrightarrow> k + n \<le> length s"
  by (simp add: HasContinuationBytes_def split: if_splits)

lemma HasContinuationBytes_0: "s \<noteq> [] \<Longrightarrow> HasContinuationBytes s 1 0"
  by (cases s) (simp_all add: HasContinuationBytes_def)

lemma two_checks:
  "n \<noteq> 0 \<Longrightarrow> (if \<not> h then False else if b then False else v n) \<longleftrightarrow>
     (if h \<and> \<not> b then n else 0) \<noteq> 0 \<and> v (if h \<and> \<not> b then n else 0)" for n :: nat
  by simp

lemma width_facts: "(3 :: nat) - 1 = 2" "(4 :: nat) - 1 = 3" "(1 :: nat) < 3" "(1 :: nat) < 4"
  by simp_all

lemma IsValidUtf8_step:
  "IsValidUtf8 s \<longleftrightarrow> s = [] \<or> (lead_step s \<noteq> 0 \<and> IsValidUtf8 (drop (lead_step s) s))"
proof (cases "s = []")
  case True
  then show ?thesis by (simp add: IsValidUtf8.simps)
next
  case False
  let ?l = "byte_of (s ! 0)"
  let ?two = "0xC2 \<le> ?l \<and> ?l \<le> 0xDF" and ?three = "0xE0 \<le> ?l \<and> ?l \<le> 0xEF"
    and ?four = "0xF0 \<le> ?l \<and> ?l \<le> 0xF4"
  consider "?l \<le> 0x7F" | "\<not> ?l \<le> 0x7F" ?two | "\<not> ?l \<le> 0x7F" "\<not> ?two" ?three
    | "\<not> ?l \<le> 0x7F" "\<not> ?two" "\<not> ?three" ?four | "\<not> ?l \<le> 0x7F" "\<not> ?two" "\<not> ?three" "\<not> ?four"
    by blast
  then show ?thesis
  proof cases
    case 1
    then show ?thesis
      using False HasContinuationBytes_0 [OF False]
      by (subst IsValidUtf8.simps) (simp add: lead_step_def well_formed_char_def lead_width_def)
  next
    case 2
    moreover have "second_ok ?l b" for b using 2 by (auto simp: second_ok_def)
    ultimately show ?thesis using False
      by (subst IsValidUtf8.simps) (simp add: lead_step_def well_formed_char_def lead_width_def)
  next
    case 3
    then have "?l \<noteq> 0xF0" "?l \<noteq> 0xF4" by auto
    then have ok: "second_ok ?l b \<longleftrightarrow> \<not> (?l = 0xE0 \<and> b < 0xA0 \<or> ?l = 0xED \<and> b > 0x9F)" for b
      by (simp add: second_ok_def)
    have w: "lead_width ?l = 3" using 3 by (simp only: lead_width_def if_True if_False simp_thms)
    show ?thesis
      unfolding lead_step_def well_formed_char_def w ok IsValidUtf8.simps [of s] Let_def
      by (simp only: 3 False if_True if_False simp_thms width_facts)
        (rule two_checks [where v = "\<lambda>n. IsValidUtf8 (drop n s)"], simp)
  next
    case 4
    then have "?l \<noteq> 0xE0" "?l \<noteq> 0xED" by auto
    then have ok: "second_ok ?l b \<longleftrightarrow> \<not> (?l = 0xF0 \<and> b < 0x90 \<or> ?l = 0xF4 \<and> b > 0x8F)" for b
      by (simp add: second_ok_def)
    have w: "lead_width ?l = 4" using 4 by (simp only: lead_width_def if_True if_False simp_thms)
    show ?thesis
      unfolding lead_step_def well_formed_char_def w ok IsValidUtf8.simps [of s] Let_def
      by (simp only: 4 False if_True if_False simp_thms width_facts)
        (rule two_checks [where v = "\<lambda>n. IsValidUtf8 (drop n s)"], simp)
  next
    case 5
    have w: "lead_width ?l = 0" using 5 by (simp only: lead_width_def if_False)
    then have "lead_step s = 0" by (simp only: lead_step_def if_cancel)
    then show ?thesis
      unfolding IsValidUtf8.simps [of s] Let_def by (simp only: 5 False if_False simp_thms)
  qed
qed

lemma IsValidUtf8_Nil [simp]: "IsValidUtf8 []"
  by (simp add: IsValidUtf8.simps)

lemma lead_step_le_4: "lead_step s \<le> 4"
  by (simp add: lead_step_def lead_width_def)

lemma lead_step_le_length: "lead_step s \<le> length s"
  by (auto simp: lead_step_def well_formed_char_def dest: HasContinuationBytes_length)

text \<open>Continuation bytes are exactly \<open>0x80\<close> to \<open>0xBF\<close>.\<close>

lemma IsContinuation_range: "IsContinuation v \<longleftrightarrow> 0x80 \<le> v \<and> v \<le> 0xBF"
proof -
  have m: "(0xC0 :: u8) = push_bit 6 (mask 2)" by (simp add: mask_eq_exp_minus_1)
  have "v AND push_bit 6 (mask 2) = push_bit 6 (drop_bit 6 v)"
    by (rule bit_word_eqI) (auto simp: bit_simps dest: bit_imp_le_length)
  then have "IsContinuation v \<longleftrightarrow> push_bit 6 (drop_bit 6 v) = 0x80"
    by (simp add: IsContinuation_def m)
  also have "\<dots> \<longleftrightarrow> drop_bit 6 v = 2"
  proof
    assume "push_bit 6 (drop_bit 6 v) = (0x80 :: u8)"
    then have "drop_bit 6 (push_bit 6 (drop_bit 6 v)) = drop_bit 6 (0x80 :: u8)" by simp
    moreover have "drop_bit 6 (push_bit 6 (drop_bit 6 v)) = drop_bit 6 v"
      by (rule bit_word_eqI) (auto simp: bit_simps dest: bit_imp_le_length)
    ultimately show "drop_bit 6 v = 2" by simp
  qed simp
  also have "\<dots> \<longleftrightarrow> 0x80 \<le> v \<and> v \<le> 0xBF"
    by (simp add: drop_bit_eq_div word_eq_iff_unsigned [where ?'a = nat] unat_div word_le_nat_alt) linarith
  finally show ?thesis .
qed

lemma lead_not_continuation: "lead_step s \<noteq> 0 \<Longrightarrow> \<not> cont (s ! 0)"
  by (auto simp: lead_step_def lead_width_def IsContinuation_range word_le_nat_alt split: if_splits)

lemma HasContinuationBytes_nth:
  assumes "HasContinuationBytes s 1 n" "0 < i" "i \<le> n"
  shows "cont (s ! i)"
proof -
  have "i - 1 < length (take n (drop 1 s))" "1 + n \<le> length s"
    using assms by (auto simp: HasContinuationBytes_def split: if_splits)
  then have "cont (take n (drop 1 s) ! (i - 1))"
    using assms(1) by (simp add: HasContinuationBytes_def list_all_length split: if_splits)
  moreover have "take n (drop 1 s) ! (i - 1) = s ! i"
    using assms(2,3) \<open>1 + n \<le> length s\<close> by (simp add: add.commute)
  ultimately show ?thesis by simp
qed

lemma lead_step_trailing: "0 < i \<Longrightarrow> i < lead_step s \<Longrightarrow> cont (s ! i)"
  by (auto simp: lead_step_def well_formed_char_def split: if_splits intro: HasContinuationBytes_nth)

lemma HasContinuationBytes_take:
  "1 + n \<le> i \<Longrightarrow> HasContinuationBytes (take i s) 1 n = HasContinuationBytes s 1 n"
  by (auto simp: HasContinuationBytes_def drop_take min_def)

lemma lead_step_take:
  assumes "lead_step s \<le> i" "lead_step s \<noteq> 0"
  shows "lead_step (take i s) = lead_step s"
proof -
  let ?n = "lead_width (byte_of (s ! 0))"
  have n: "lead_step s = ?n" "s \<noteq> []" "well_formed_char s ?n"
    using assms(2) by (auto simp: lead_step_def split: if_splits)
  have "take i s \<noteq> []" "take i s ! 0 = s ! 0" "1 < ?n \<Longrightarrow> take i s ! 1 = s ! 1"
    using n assms by auto
  moreover have "HasContinuationBytes (take i s) 1 (?n - 1) = HasContinuationBytes s 1 (?n - 1)"
    using n assms by (intro HasContinuationBytes_take) simp
  ultimately show ?thesis
    using n by (simp add: lead_step_def well_formed_char_def)
qed

text \<open>A valid text may be cut wherever the next byte is not a continuation byte.\<close>

lemma IsValidUtf8_cut:
  assumes "IsValidUtf8 s" "i \<le> length s" "i < length s \<Longrightarrow> \<not> cont (s ! i)"
  shows "IsValidUtf8 (take i s) \<and> IsValidUtf8 (drop i s)"
  using assms
proof (induction "length s" arbitrary: s i rule: less_induct)
  case less
  show ?case
  proof (cases "i = 0")
    case True
    with less.prems show ?thesis by simp
  next
    case False
    let ?n = "lead_step s"
    have n: "?n \<noteq> 0" and rest: "IsValidUtf8 (drop ?n s)"
      using less.prems False by (auto simp: IsValidUtf8_step [of s])
    have ni: "?n \<le> i"
    proof (rule ccontr)
      assume "\<not> ?n \<le> i"
      then have "cont (s ! i)" "i < length s"
        using lead_step_trailing [of i s] lead_step_le_length [of s] False by auto
      with less.prems(3) show False by simp
    qed
    have "IsValidUtf8 (take (i - ?n) (drop ?n s)) \<and> IsValidUtf8 (drop (i - ?n) (drop ?n s))"
      using less.prems n ni rest by (intro less.hyps) auto
    then have "IsValidUtf8 (drop ?n (take i s))" "IsValidUtf8 (drop i s)"
      using ni by (simp_all add: drop_take)
    moreover have "lead_step (take i s) = ?n" by (rule lead_step_take [OF ni n])
    ultimately show ?thesis using n by (simp add: IsValidUtf8_step [of "take i s"])
  qed
qed

text \<open>A run of continuation bytes in a valid text is shorter than four.\<close>

lemma IsValidUtf8_no_leading_continuation: "IsValidUtf8 s \<Longrightarrow> s \<noteq> [] \<Longrightarrow> \<not> cont (s ! 0)"
  using IsValidUtf8_step [of s] lead_not_continuation [of s] by blast

lemma IsValidUtf8_after_ascii:
  assumes "IsValidUtf8 s" "i < length s" "\<not> cont (s ! i)" "byte_of (s ! i) \<le> 0x7F" "Suc i < length s"
  shows "\<not> cont (s ! Suc i)"
proof -
  have "IsValidUtf8 (drop i s)" using IsValidUtf8_cut [of s i] assms by simp
  moreover have "lead_step (drop i s) = 1"
    using assms(2,4) HasContinuationBytes_0 [of "drop i s"]
    by (simp add: lead_step_def lead_width_def well_formed_char_def)
  ultimately have "IsValidUtf8 (drop (Suc i) s)"
    using assms(2) by (simp add: IsValidUtf8_step [of "drop i s"])
  then show ?thesis
    using IsValidUtf8_no_leading_continuation [of "drop (Suc i) s"] assms(5) by simp
qed

lemma IsValidUtf8_boundary_ahead:
  assumes "IsValidUtf8 s" "4 \<le> length s"
  shows "\<exists>i \<in> {1..4}. i = length s \<or> \<not> cont (s ! i)"
proof -
  let ?n = "lead_step s"
  have n: "?n \<noteq> 0" and rest: "IsValidUtf8 (drop ?n s)"
    using assms by (auto simp: IsValidUtf8_step [of s])
  have "?n \<in> {1..4}" using n lead_step_le_4 [of s] by simp
  moreover have "?n = length s \<or> \<not> cont (s ! ?n)"
    using IsValidUtf8_no_leading_continuation [OF rest] lead_step_le_length [of s] by force
  ultimately show ?thesis by blast
qed

text \<open>Valid texts concatenate.\<close>

lemma lead_step_append: "lead_step a \<noteq> 0 \<Longrightarrow> lead_step (a @ b) = lead_step a"
proof -
  assume n: "lead_step a \<noteq> 0"
  then have a: "a \<noteq> []" "well_formed_char a (lead_width (byte_of (a ! 0)))" by (auto simp: lead_step_def split: if_splits)
  then have w: "HasContinuationBytes a 1 (lead_width (byte_of (a ! 0)) - 1)" by (simp add: well_formed_char_def)
  have "lead_width (byte_of (a ! 0)) > 1 \<Longrightarrow> 1 < length a" using HasContinuationBytes_length [OF w] by linarith
  then have "lead_width (byte_of (a ! 0)) > 1 \<Longrightarrow> (a @ b) ! 1 = a ! 1" by (simp add: nth_append)
  moreover have "HasContinuationBytes (a @ b) 1 (lead_width (byte_of (a ! 0)) - 1)"
    using w a(1) by (auto simp: HasContinuationBytes_def take_append drop_append split: if_splits)
  ultimately show ?thesis using a by (simp add: lead_step_def well_formed_char_def nth_append)
qed

lemma IsValidUtf8_append: "IsValidUtf8 a \<Longrightarrow> IsValidUtf8 (a @ b) = IsValidUtf8 b"
proof (induction a rule: measure_induct_rule [where f = length])
  case (less a)
  show ?case
  proof (cases "a = []")
    case False
    then have n: "lead_step a \<noteq> 0" "IsValidUtf8 (drop (lead_step a) a)" using less.prems IsValidUtf8_step [of a] by auto
    moreover from n False have "length (drop (lead_step a) a) < length a" by (cases a) auto
    moreover have "drop (lead_step a) (a @ b) = drop (lead_step a) a @ b" using lead_step_le_length [of a] by simp
    ultimately show ?thesis using less.IH [of "drop (lead_step a) a"] IsValidUtf8_step [of "a @ b"] lead_step_append [of a b] False by simp
  qed simp
qed

section \<open>The split point\<close>

text \<open>A cut of \<open>text\<close>: its end, or a position where a character starts.\<close>

definition boundary :: "string \<Rightarrow> nat \<Rightarrow> bool" where
  "boundary s i \<longleftrightarrow> i \<le> length s \<and> (i < length s \<longrightarrow> \<not> cont (s ! i))"

lemma find_back_Some:
  "find_back stop s offset i = Some j \<Longrightarrow> offset < j \<and> j \<le> i \<and> stop (s ! (j - 1))"
proof (induction i)
  case 0
  then show ?case by (simp add: find_back.simps)
next
  case (Suc i)
  then show ?case by (auto simp: find_back.simps [of stop s offset "Suc i"] split: if_splits)
qed

lemma back_off_range:
  "offset \<le> split \<Longrightarrow> offset \<le> back_off s offset split \<and> back_off s offset split \<le> split"
proof (induction split)
  case 0
  then show ?case by (simp add: back_off.simps)
next
  case (Suc split)
  then show ?case by (auto simp: back_off.simps [of s offset "Suc split"])
qed

lemma back_off_boundary:
  "offset < back_off s offset split \<Longrightarrow> split \<le> length s \<Longrightarrow> boundary s (back_off s offset split)"
proof (induction split)
  case 0
  then show ?case by (simp add: back_off.simps)
next
  case (Suc split)
  then show ?case
    by (auto simp: back_off.simps [of s offset "Suc split"] boundary_def split: if_splits)
qed

text \<open>Backing off stops at the first boundary below.\<close>

lemma back_off_reaches:
  "boundary s b \<Longrightarrow> offset < b \<Longrightarrow> b \<le> split \<Longrightarrow> b \<le> back_off s offset split"
proof (induction split)
  case 0
  then show ?case by simp
next
  case (Suc split)
  show ?case
  proof (cases "b = Suc split")
    case True
    with Suc.prems show ?thesis by (auto simp: back_off.simps [of s offset "Suc split"] boundary_def)
  next
    case False
    with Suc show ?thesis by (auto simp: back_off.simps [of s offset "Suc split"])
  qed
qed

text \<open>The byte before a split found by a separator is ASCII, so the split is a boundary.\<close>

lemma find_back_boundary:
  assumes "IsValidUtf8 s" and "i \<le> length s"
    and stop: "\<And>c. stop c \<Longrightarrow> byte_of c \<le> 0x7F"
    and found: "find_back stop s offset i = Some j"
  shows "boundary s j"
proof -
  have j: "offset < j" "j \<le> i" "byte_of (s ! (j - 1)) \<le> 0x7F"
    using find_back_Some [OF found] stop by auto
  then have "\<not> cont (s ! (j - 1))"
    by (auto simp: IsContinuation_range word_le_nat_alt)
  then have "Suc (j - 1) < length s \<longrightarrow> \<not> cont (s ! Suc (j - 1))"
    using IsValidUtf8_after_ascii [of s "j - 1"] assms j by auto
  then show ?thesis using j assms(2) by (simp add: boundary_def)
qed

lemma separator_ascii:
  "c = CHR 0x0A \<Longrightarrow> byte_of c \<le> 0x7F" "c = CHR '' '' \<or> c = CHR 0x09 \<Longrightarrow> byte_of c \<le> 0x7F"
  by (auto simp: byte_of_def)

text \<open>
  With room for one character, the preferred split makes progress, stays within the budget and
  is a boundary.
\<close>

lemma FindPreferredSplit_ok:
  assumes valid: "IsValidUtf8 s" and off: "boundary s offset"
    and room: "4 \<le> limit" "offset + limit \<le> length s"
  shows "offset < FindPreferredSplit s offset (offset + limit)"
    and "FindPreferredSplit s offset (offset + limit) \<le> offset + limit"
    and "boundary s (FindPreferredSplit s offset (offset + limit))"
proof -
  let ?e = "offset + limit"
  have tail: "IsValidUtf8 (drop offset s)"
    using IsValidUtf8_cut [OF valid] off by (simp add: boundary_def)
  obtain d where d: "1 \<le> d" "d \<le> 4" "d = length (drop offset s) \<or> \<not> cont (drop offset s ! d)"
    using IsValidUtf8_boundary_ahead [OF tail] room by fastforce
  then have "boundary s (offset + d)" using room by (auto simp: boundary_def)
  then have reach: "offset < back_off s offset ?e"
    using back_off_reaches [of s "offset + d" offset ?e] d room by linarith
  note nl = find_back_boundary [OF valid room(2) separator_ascii(1)]
  note sp = find_back_boundary [OF valid room(2) separator_ascii(2)]
  show "offset < FindPreferredSplit s offset ?e"
    using reach by (auto simp: FindPreferredSplit_def split: option.splits dest: find_back_Some)
  show "FindPreferredSplit s offset ?e \<le> ?e"
    using back_off_range [of offset ?e s]
    by (auto simp: FindPreferredSplit_def split: option.splits dest: find_back_Some)
  show "boundary s (FindPreferredSplit s offset ?e)"
    using back_off_boundary [OF reach room(2)] nl sp
    by (auto simp: FindPreferredSplit_def split: option.splits)
qed

section \<open>Fragmentation\<close>

definition fragmentation :: "nat \<Rightarrow> string \<Rightarrow> string list \<Rightarrow> bool" where
  "fragmentation limit s fragments \<longleftrightarrow>
     concat fragments = s \<and>
     list_all (\<lambda>f. f \<noteq> [] \<and> length f \<le> limit \<and> IsValidUtf8 f) fragments"

lemma fragmentation_snoc:
  assumes "fragmentation limit (take i s) fs" "i < j" "j \<le> length s" "j - i \<le> limit"
    and "IsValidUtf8 (substr s i (j - i))"
  shows "fragmentation limit (take j s) (fs @ [substr s i (j - i)])"
proof -
  have "take i s @ substr s i (j - i) = take j s"
    using assms(2) by (metis le_add_diff_inverse less_imp_le substr_def take_add)
  then show ?thesis using assms by (auto simp: fragmentation_def substr_def)
qed

lemma IsValidUtf8_substr:
  assumes "IsValidUtf8 s" "boundary s i" "boundary s j" "i \<le> j"
  shows "IsValidUtf8 (substr s i (j - i))"
proof -
  have "IsValidUtf8 (take j s)" using IsValidUtf8_cut [of s j] assms by (simp add: boundary_def)
  moreover have "i \<le> length (take j s)" "i < length (take j s) \<Longrightarrow> \<not> cont (take j s ! i)"
    using assms by (auto simp: boundary_def)
  ultimately have "IsValidUtf8 (drop i (take j s))" using IsValidUtf8_cut by blast
  then show ?thesis by (simp add: substr_def drop_take)
qed

lemma fragment_loop_ok:
  assumes "IsValidUtf8 s" "4 \<le> limit" "boundary s offset" "fragmentation limit (take offset s) fs"
  shows "\<exists>gs. fragment_loop limit s offset fs = Some gs \<and> fragmentation limit s gs"
  using assms
proof (induction limit s offset fs rule: fragment_loop.induct)
  case (1 limit s offset fs)
  show ?case
  proof (cases "length s - offset > limit")
    case False
    show ?thesis
    proof (cases "offset < length s")
      case True
      have "substr s offset (length s - offset) = drop offset s" by (simp add: substr_def)
      then have "fragmentation limit s (fs @ [drop offset s])"
        using fragmentation_snoc [of limit offset s fs "length s"] "1.prems" True False
          IsValidUtf8_cut [of s offset] by (simp add: boundary_def)
      then show ?thesis using True False by (simp add: fragment_loop.simps [of limit s offset])
    next
      case offset: False
      then show ?thesis using "1.prems"(4) False by (simp add: fragment_loop.simps [of limit s offset])
    qed
  next
    case True
    let ?j = "FindPreferredSplit s offset (offset + limit)"
    have j: "offset < ?j" "?j \<le> offset + limit" "boundary s ?j"
      using FindPreferredSplit_ok [of s offset limit] "1.prems" True by auto
    have "fragmentation limit (take ?j s) (fs @ [substr s offset (?j - offset)])"
      using j "1.prems" IsValidUtf8_substr [of s offset ?j]
      by (intro fragmentation_snoc) (auto simp: boundary_def)
    then show ?thesis
      using "1.IH" [of "offset + limit" ?j] True j "1.prems"
      by (simp add: fragment_loop.simps [of limit s offset] Let_def)
  qed
qed

lemma fragmentation_nonempty: "fragmentation limit s fs \<Longrightarrow> s \<noteq> [] \<Longrightarrow> fs \<noteq> [] \<and> [] \<notin> set fs"
  by (auto simp: fragmentation_def list_all_iff)

lemma FragmentMessage_fragmentation:
  assumes "54 \<le> tox_max"
  shows "if IsValidInput s
         then \<exists>fs. FragmentMessage tox_max s = Some fs \<and>
                   fragmentation (kMessagePayloadLimit tox_max) s fs
         else FragmentMessage tox_max s = None"
proof (cases "IsValidInput s")
  case True
  then have "IsValidUtf8 s" "s \<noteq> []" by (auto simp: IsValidInput_def)
  moreover from this have "boundary s 0"
    using IsValidUtf8_no_leading_continuation [of s] by (simp add: boundary_def)
  moreover have "fragmentation (kMessagePayloadLimit tox_max) (take 0 s) []"
    by (simp add: fragmentation_def)
  moreover have "4 \<le> kMessagePayloadLimit tox_max" using assms by (simp add: kMessagePayloadLimit_def)
  ultimately obtain fs where fs: "fragment_loop (kMessagePayloadLimit tox_max) s 0 [] = Some fs"
    "fragmentation (kMessagePayloadLimit tox_max) s fs"
    using fragment_loop_ok by blast
  then have "fs \<noteq> []" "[] \<notin> set fs" using fragmentation_nonempty \<open>s \<noteq> []\<close> by blast+
  with fs True show ?thesis by (simp add: FragmentMessage_def)
qed (simp add: FragmentMessage_def)

end
