(* ===== verification/FileNames.thy ===== *)
theory FileNames
  imports HexCodec QToxFragmenter
begin

text \<open>
  Names and ranges of received files (\<open>src/ffi/file_io_compat.cpp\<close>, and the sanitising loop of
  the file callback in \<open>src/ffi/tim2tox_ffi.cpp\<close>): truncation at a character boundary, the
  storage name under the receive directory, the sidecar marker of an unfinished receive, and
  the overflow-checked write range.
\<close>

definition kMaxFilenameBytes :: nat where
  "kMaxFilenameBytes = 255"

definition kReceiveReserveBytes :: u64 where
  "kReceiveReserveBytes = 16 * 1024 * 1024"

definition kReceiveMarkerSuffix :: string where
  "kReceiveMarkerSuffix = ''.t2t-receiving''"

section \<open>Truncation\<close>

text \<open>The loop that steps back over continuation bytes.\<close>

fun step_back :: "string \<Rightarrow> nat \<Rightarrow> nat" where
  "step_back v 0 = 0"
| "step_back v (Suc n) = (if cont (v ! Suc n) then step_back v n else Suc n)"

definition Utf8PrefixLength :: "string \<Rightarrow> nat \<Rightarrow> nat" where
  "Utf8PrefixLength v max_bytes =
     (if length v \<le> max_bytes then length v else step_back v max_bytes)"

text \<open>\<open>s.find_last_of\<close>.\<close>

fun find_last_of :: "(char \<Rightarrow> bool) \<Rightarrow> string \<Rightarrow> nat option" where
  "find_last_of p [] = None"
| "find_last_of p (c # cs) =
     (case find_last_of p cs of
        Some i \<Rightarrow> Some (Suc i)
      | None \<Rightarrow> if p c then Some 0 else None)"

definition TruncateUtf8Filename :: "string \<Rightarrow> nat \<Rightarrow> string" where
  "TruncateUtf8Filename filename max_bytes =
     (let budget = min max_bytes kMaxFilenameBytes in
      if length filename \<le> budget then filename
      else if budget = 0 then []
      else case find_last_of (\<lambda>c. c = CHR ''.'') filename of
        None \<Rightarrow> take (Utf8PrefixLength filename budget) filename
      | Some i \<Rightarrow>
          let extension = drop i filename; stem = take i filename in
          if length extension \<le> budget
          then take (Utf8PrefixLength stem (budget - length extension)) stem @ extension
          else take (Utf8PrefixLength filename budget) filename)"

definition ComposeStorageBasename :: "string \<Rightarrow> string \<Rightarrow> nat \<Rightarrow> string" where
  "ComposeStorageBasename pre filename max_bytes =
     (let budget = min max_bytes kMaxFilenameBytes in
      if length pre \<ge> budget then take budget pre
      else pre @ TruncateUtf8Filename filename (budget - length pre))"

section \<open>The name of a received file\<close>

text \<open>The loop over the peer's name: \<open>None\<close> for a control character, separators become \<open>_\<close>.\<close>

fun sanitize_name :: "string \<Rightarrow> string option" where
  "sanitize_name [] = Some []"
| "sanitize_name (c # cs) =
     (if byte_of c < 32 \<and> byte_of c \<noteq> 9 \<and> byte_of c \<noteq> 10 \<and> byte_of c \<noteq> 13 then None
      else map_option ((#) (if c = CHR ''/'' \<or> c = CHR 0x5C then CHR ''_'' else c)) (sanitize_name cs))"

definition numbers_part :: "u32 \<Rightarrow> u32 \<Rightarrow> string" where
  "numbers_part friend_number file_number = ''_'' @ dec_nat (unat friend_number) @ ''_'' @ dec_nat (unat file_number)"

definition received_name :: "u32 \<Rightarrow> u32 \<Rightarrow> u32 \<Rightarrow> string \<Rightarrow> string" where
  "received_name kind friend_number file_number raw =
     (case sanitize_name raw of
        Some (c # cs) \<Rightarrow> c # cs
      | _ \<Rightarrow> (if kind = 1 then ''avatar'' else ''file'') @ numbers_part friend_number file_number)"

definition storage_name :: "string \<Rightarrow> u32 \<Rightarrow> u32 \<Rightarrow> string \<Rightarrow> string" where
  "storage_name sender_hex friend_number file_number name =
     ComposeStorageBasename (sender_hex @ numbers_part friend_number file_number @ ''_'') name kMaxFilenameBytes"

section \<open>Markers\<close>

definition is_separator :: "char \<Rightarrow> bool" where
  "is_separator c \<longleftrightarrow> c = CHR ''/'' \<or> c = CHR 0x5C"

definition ReceiveMarkerPath :: "string \<Rightarrow> string" where
  "ReceiveMarkerPath data_path =
     (let base = (case find_last_of is_separator data_path of None \<Rightarrow> 0 | Some i \<Rightarrow> Suc i) in
      take base data_path @ ''.'' @ drop base data_path @ kReceiveMarkerSuffix)"

definition DataNameForMarker :: "string \<Rightarrow> string" where
  "DataNameForMarker name =
     (let n = length kReceiveMarkerSuffix in
      if length name \<le> n + 1 \<or> name ! 0 \<noteq> CHR ''.'' \<or> drop (length name - n) name \<noteq> kReceiveMarkerSuffix
      then []
      else substr name 1 (length name - n - 1))"

section \<open>Ranges\<close>

definition CheckedEndPosition :: "u64 \<Rightarrow> u64 \<Rightarrow> u64 option" where
  "CheckedEndPosition position written =
     (if written > - 1 - position then None else Some (position + written))"

definition CheckedWriteRange :: "u64 \<Rightarrow> u64 \<Rightarrow> u64 \<Rightarrow> u64 option" where
  "CheckedWriteRange position len expected_size =
     (case CheckedEndPosition position len of
        None \<Rightarrow> None
      | Some e \<Rightarrow> if e \<le> expected_size then Some e else None)"

definition HasRoomForReceive :: "u64 \<Rightarrow> u64 \<Rightarrow> u64 \<Rightarrow> bool" where
  "HasRoomForReceive available sz reserve =
     (if sz > - 1 - reserve then False else available \<ge> sz + reserve)"

section \<open>Lemmas\<close>

lemma CheckedEndPosition_exact:
  "CheckedEndPosition p n = (if unat p + unat n < 2 ^ 64 then Some (p + n) else None)"
proof -
  have "unat (- 1 - p) = 2 ^ 64 - 1 - unat p"
  proof -
    have "p \<le> - 1" by simp
    then have "unat (- 1 - p) = unat (- 1 :: u64) - unat p" by (rule unat_sub)
    then show ?thesis by (simp add: unsigned_minus_1_eq_mask mask_eq_exp_minus_1)
  qed
  moreover have "unat p < 2 ^ 64" using unsigned_less [of p] by simp
  ultimately have "(n > - 1 - p) \<longleftrightarrow> \<not> unat p + unat n < 2 ^ 64"
    by (simp add: word_less_nat_alt) linarith
  then show ?thesis by (simp add: CheckedEndPosition_def)
qed

lemma CheckedWriteRange_exact:
  "CheckedWriteRange p n sz =
     (if unat p + unat n \<le> unat sz then Some (p + n) else None)"
proof -
  have s: "unat sz < 2 ^ 64" using unsigned_less [of sz] by simp
  show ?thesis
  proof (cases "unat p + unat n < 2 ^ 64")
    case True
    then have "unat (p + n) = unat p + unat n" by (simp add: unat_word_ariths)
    with True show ?thesis
      by (simp add: CheckedWriteRange_def CheckedEndPosition_exact word_le_nat_alt)
  next
    case False
    with s show ?thesis by (simp add: CheckedWriteRange_def CheckedEndPosition_exact)
  qed
qed

lemma HasRoomForReceive_exact:
  "HasRoomForReceive available sz reserve \<longleftrightarrow> unat sz + unat reserve \<le> unat available"
proof -
  have "HasRoomForReceive available sz reserve \<longleftrightarrow> CheckedWriteRange reserve sz available \<noteq> None"
    by (auto simp: HasRoomForReceive_def CheckedWriteRange_def CheckedEndPosition_def add.commute)
  then show ?thesis by (simp add: CheckedWriteRange_exact add.commute)
qed

subsection \<open>Truncation keeps whole characters\<close>

lemma step_back_le: "step_back v n \<le> n"
  by (induction n) (auto simp: le_SucI)

lemma step_back_boundary: "n < length v \<Longrightarrow> IsValidUtf8 v \<Longrightarrow> boundary v (step_back v n)"
proof (induction n)
  case 0
  then show ?case using IsValidUtf8_no_leading_continuation [of v] by (auto simp: boundary_def)
qed (auto simp: boundary_def)

lemma Utf8PrefixLength_le: "Utf8PrefixLength v n \<le> n" "Utf8PrefixLength v n \<le> length v"
  using step_back_le [of v n] by (auto simp: Utf8PrefixLength_def)

lemma Utf8PrefixLength_valid:
  assumes "IsValidUtf8 v"
  shows "IsValidUtf8 (take (Utf8PrefixLength v n) v)"
proof (cases "length v \<le> n")
  case False
  then have "boundary v (step_back v n)" using step_back_boundary [of n v] assms by simp
  with False assms IsValidUtf8_cut [of v "step_back v n"] show ?thesis
    by (simp add: Utf8PrefixLength_def boundary_def)
qed (use assms in \<open>simp add: Utf8PrefixLength_def\<close>)

lemma find_last_of_Some: "find_last_of p s = Some i \<Longrightarrow> i < length s \<and> p (s ! i) \<and> (\<forall>c \<in> set (drop (Suc i) s). \<not> p c)"
proof (induction s arbitrary: i)
  case (Cons c s)
  have none: "find_last_of p s = None \<Longrightarrow> \<forall>c \<in> set s. \<not> p c"
    by (induction s) (auto split: option.splits if_splits)
  show ?case
  proof (cases "find_last_of p s")
    case None
    with Cons.prems none show ?thesis by (auto split: if_splits)
  next
    case (Some j)
    with Cons show ?thesis by auto
  qed
qed simp

lemma find_last_of_None: "find_last_of p s = None \<longleftrightarrow> (\<forall>c \<in> set s. \<not> p c)"
  by (induction s) (auto split: option.splits)

lemma find_last_of_append: "(\<forall>c \<in> set b. \<not> p c) \<Longrightarrow> find_last_of p (a @ b) = find_last_of p a"
proof (induction a)
  case Nil
  then show ?case by (simp add: find_last_of_None)
qed simp

lemma length_take_prefix: "length (take (Utf8PrefixLength v k) v) \<le> k"
  using Utf8PrefixLength_le [of v k] by simp

lemma Truncate_length: "length (TruncateUtf8Filename f n) \<le> min n kMaxFilenameBytes"
proof (cases "length f \<le> min n kMaxFilenameBytes")
  case True
  then show ?thesis by (simp add: TruncateUtf8Filename_def)
next
  case False
  let ?b = "min n kMaxFilenameBytes"
  have whole: "length (take (Utf8PrefixLength f ?b) f) \<le> ?b" by (rule length_take_prefix)
  have part: "length (take (Utf8PrefixLength (take i f) (?b - length (drop i f))) (take i f) @ drop i f) \<le> ?b"
    if "length (drop i f) \<le> ?b" for i
    using length_take_prefix [of "take i f" "?b - length (drop i f)"] that
    by (simp only: length_append)
  show ?thesis
  proof (cases "find_last_of (\<lambda>c. c = CHR ''.'') f")
    case None
    with False whole show ?thesis by (simp add: TruncateUtf8Filename_def Let_def)
  next
    case (Some i)
    with False whole part [of i] show ?thesis
      by (auto simp only: TruncateUtf8Filename_def Let_def option.case if_False split: if_splits)
  qed
qed

lemma Truncate_set: "set (TruncateUtf8Filename f n) \<subseteq> set f"
  unfolding TruncateUtf8Filename_def Let_def
  by (auto split: option.splits if_splits dest: in_set_takeD in_set_dropD)

lemma Truncate_valid:
  assumes "IsValidUtf8 f"
  shows "IsValidUtf8 (TruncateUtf8Filename f n)"
proof -
  have ext: "IsValidUtf8 (take i f) \<and> IsValidUtf8 (drop i f)"
    if "find_last_of (\<lambda>c. c = CHR ''.'') f = Some i" for i
  proof -
    from find_last_of_Some [OF that] have i: "i < length f" "f ! i = CHR ''.''" by auto
    then have "\<not> cont (f ! i)" by (simp add: IsContinuation_def byte_of_def)
    with i IsValidUtf8_cut [OF assms, of i] show ?thesis by simp
  qed
  have cut: "IsValidUtf8 (take (Utf8PrefixLength (take i f) k) (take i f) @ drop i f)"
    if "find_last_of (\<lambda>c. c = CHR ''.'') f = Some i" for i k
    using ext [OF that] IsValidUtf8_append [OF Utf8PrefixLength_valid, of "take i f"] by blast
  show ?thesis
    unfolding TruncateUtf8Filename_def Let_def
    using assms cut Utf8PrefixLength_valid [OF assms] by (auto split: option.splits)
qed

subsection \<open>Stored names stay in the directory\<close>

text \<open>
  A name without separators, of at most 255 bytes, that does not begin with a dot: it can only
  name an entry of the directory it is appended to, and never one of the markers.
\<close>

definition harmless :: "char \<Rightarrow> bool" where
  "harmless c \<longleftrightarrow> \<not> is_separator c \<and> (byte_of c < 32 \<longrightarrow> byte_of c \<in> {9, 10, 13})"

definition plain_basename :: "string \<Rightarrow> bool" where
  "plain_basename s \<longleftrightarrow> s \<noteq> [] \<and> length s \<le> kMaxFilenameBytes \<and> hd s \<noteq> CHR ''.'' \<and> list_all harmless s"

lemma unat_byte_of: "unat (byte_of c) = of_char c"
  by (simp add: byte_of_def unat_of_nat)

lemma harmlessI: "32 \<le> (of_char c :: nat) \<Longrightarrow> c \<noteq> CHR ''/'' \<Longrightarrow> c \<noteq> CHR 0x5C \<Longrightarrow> harmless c"
  by (auto simp: harmless_def is_separator_def word_less_nat_alt unat_byte_of)

lemma sanitize_harmless: "sanitize_name s = Some t \<Longrightarrow> list_all harmless t"
proof (induction s arbitrary: t)
  case (Cons x s)
  from Cons.prems obtain z where z: "sanitize_name s = Some z"
      "t = (if is_separator x then CHR ''_'' else x) # z" "byte_of x < 32 \<longrightarrow> byte_of x \<in> {9, 10, 13}"
    by (auto simp: is_separator_def split: if_splits)
  have "harmless CHR ''_''" by (rule harmlessI) simp_all
  with z Cons.IH [OF z(1)] show ?case by (auto simp: harmless_def)
qed simp

lemma digit_harmless: "is_digit c \<Longrightarrow> harmless c"
  by (rule harmlessI) (auto simp: is_digit_def)

lemma dec_nat_harmless: "list_all harmless (dec_nat n)"
  using dec_nat_digits [of n] by (simp add: list_all_iff digit_harmless)

lemma literal_harmless:
  "list_all harmless hex_chars" "list_all harmless ''avatar''" "list_all harmless ''file''"
  "list_all harmless ''unknown''" "harmless CHR ''_''"
  by (simp_all add: hex_chars_def harmlessI)

lemma hex_digits:
  assumes "c \<in> set (tox_bytes_to_hex bs)"
  shows "c \<in> set hex_chars"
proof -
  have "length hex_chars = 16" by (simp add: hex_chars_def)
  then have mem: "hex_chars ! unat (b AND 0xF) \<in> set hex_chars" for b :: u8
    using unat_lo_nibble [of b] nth_mem [of "unat (b AND 0xF)" hex_chars] by simp
  show ?thesis using assms by (induction bs rule: tox_bytes_to_hex.induct) (auto simp: mem)
qed

lemma numbers_harmless: "list_all harmless (numbers_part a b)"
  by (simp add: numbers_part_def dec_nat_harmless literal_harmless)

lemma received_name_harmless: "list_all harmless (received_name kind a b raw)"
  using numbers_harmless sanitize_harmless [of raw] literal_harmless
  by (auto simp: received_name_def split: option.splits list.splits)

lemma Compose_harmless:
  assumes "list_all harmless pre" and "list_all harmless f"
  shows "list_all harmless (ComposeStorageBasename pre f n)"
  using assms Truncate_set [of f]
  by (auto simp: ComposeStorageBasename_def Let_def list_all_iff dest: in_set_takeD)

lemma Compose_length: "length (ComposeStorageBasename pre f n) \<le> min n kMaxFilenameBytes"
  using Truncate_length [of f "min n kMaxFilenameBytes - length pre"]
  by (auto simp: ComposeStorageBasename_def Let_def)

lemma Compose_head: "pre \<noteq> [] \<Longrightarrow> 0 < min n kMaxFilenameBytes \<Longrightarrow>
    ComposeStorageBasename pre f n \<noteq> [] \<and> hd (ComposeStorageBasename pre f n) = hd pre"
  by (auto simp: ComposeStorageBasename_def Let_def hd_take)



text \<open>Truncation keeps the extension if it fits, and the marker names the data file it guards.\<close>

lemma marker_roundtrip:
  assumes "list_all harmless b" and "b \<noteq> []" and "list_all (\<lambda>c. \<not> is_separator c) kReceiveMarkerSuffix"
  shows "ReceiveMarkerPath (dir @ ''/'' @ b) = dir @ ''/'' @ (''.'' @ b @ kReceiveMarkerSuffix) \<and>
    DataNameForMarker (''.'' @ b @ kReceiveMarkerSuffix) = b"
proof -
  have "find_last_of is_separator (dir @ ''/'' @ b) = Some (length dir)"
  proof -
    have "\<forall>c \<in> set b. \<not> is_separator c" using assms(1) by (auto simp: list_all_iff harmless_def)
    then have "find_last_of is_separator (dir @ ''/'' @ b) = find_last_of is_separator (dir @ ''/'')"
      using find_last_of_append [of b is_separator "dir @ ''/''"] by simp
    also have "\<dots> = Some (length dir)"
      by (induction dir) (auto simp: is_separator_def)
    finally show ?thesis .
  qed
  then show ?thesis using assms(2)
    by (simp add: ReceiveMarkerPath_def DataNameForMarker_def Let_def substr_def)
qed

end
