(* ===== verification/FileTransfer.thy ===== *)
theory FileTransfer
  imports FileNames
begin

text \<open>
  File transfers of the FFI layer (\<open>src/ffi/tim2tox_ffi.cpp\<close>): the contexts of the files being
  sent and received, the callbacks toxcore runs for offers, chunks and controls, the calls by
  which the host accepts, pauses, cancels and sends, and the sweep of unfinished receives.

  Each function is one step on the state: the two context tables, the files on disk, the event
  lines for the host and the calls made to toxcore. The answers of the file system and of
  toxcore are arguments; an \<open>unlink\<close> of an existing file succeeds. The tables are nested by
  instance in the source and keyed by instance and transfer here. An open handle reads and
  writes the file its path names.
\<close>

section \<open>State\<close>

datatype file_control_kind = RESUME | PAUSE | CANCEL

abbreviation TOX_FILE_KIND_AVATAR :: u32 where
  "TOX_FILE_KIND_AVATAR \<equiv> 1"

definition kAvatarMaxBytes :: u64 where
  "kAvatarMaxBytes = 10 * 1024 * 1024"

text \<open>The source of a file being sent: the content behind the handle, or a block of memory.\<close>

record SendContext =
  sc_file :: "bytes option"
  sc_memory :: bytes
  sc_size :: u64

record RecvCtx =
  rc_open :: bool
  rc_size :: u64
  rc_received :: u64
  rc_path :: string
  rc_sender :: string
  rc_kind :: u32
  rc_io_failed :: bool

type_synonym transfer = "int \<times> u64"

record file_state =
  file_recv_dir :: string
  recv_files :: "(transfer, RecvCtx) umap"
  send_files :: "(transfer, SendContext) umap"
  disk :: "string \<rightharpoonup> bytes"
  event_lines :: "string list"
  controls_sent :: "(u32 \<times> u32 \<times> file_control_kind) list"
  chunks_sent :: "(u32 \<times> u32 \<times> u64 \<times> bytes) list"

definition FileTransferKey :: "u32 \<Rightarrow> u32 \<Rightarrow> u64" where
  "FileTransferKey friend_number file_number = push_bit 32 (ucast friend_number) OR ucast file_number"

definition enqueue_line :: "string \<Rightarrow> file_state \<Rightarrow> file_state" where
  "enqueue_line l s = s\<lparr>event_lines := event_lines s @ [l]\<rparr>"

definition RemoveUtf8 :: "string \<Rightarrow> file_state \<Rightarrow> file_state" where
  "RemoveUtf8 p s = s\<lparr>disk := (disk s)(p := None)\<rparr>"

definition remove_receive :: "string \<Rightarrow> file_state \<Rightarrow> file_state" where
  "remove_receive p s = RemoveUtf8 (ReceiveMarkerPath p) (RemoveUtf8 p s)"

definition HasExactFileSize :: "string \<Rightarrow> u64 \<Rightarrow> file_state \<Rightarrow> bool" where
  "HasExactFileSize p n s \<longleftrightarrow> (case disk s p of None \<Rightarrow> False | Some c \<Rightarrow> length c = unat n)"

section \<open>Sending\<close>

definition StoreSendContext :: "transfer \<Rightarrow> SendContext \<Rightarrow> file_state \<Rightarrow> file_state" where
  "StoreSendContext t c s = s\<lparr>send_files := um_put t c (send_files s)\<rparr>"

definition FindSendContext :: "transfer \<Rightarrow> file_state \<Rightarrow> SendContext option" where
  "FindSendContext t s = um_find (send_files s) t"

definition EraseSendContext :: "transfer \<Rightarrow> file_state \<Rightarrow> file_state" where
  "EraseSendContext t s = s\<lparr>send_files := um_erase t (send_files s)\<rparr>"

definition EraseSendContextsForInstance :: "int \<Rightarrow> file_state \<Rightarrow> file_state" where
  "EraseSendContextsForInstance i s = s\<lparr>send_files := filter (\<lambda>(t, c). fst t \<noteq> i) (send_files s)\<rparr>"

text \<open>
  \<open>SendContext::Read\<close>: nothing outside the announced size; a file may be shorter than announced,
  so fewer bytes than asked may come back. \<open>position > size || length > size - position\<close> is
  written with the numbers it compares.
\<close>

definition read_source :: "SendContext \<Rightarrow> u64 \<Rightarrow> nat \<Rightarrow> bytes" where
  "read_source c position n =
     (if position > sc_size c \<or> n > unat (sc_size c - position) then []
      else case sc_file c of
        Some content \<Rightarrow> take n (drop (unat position) content)
      | None \<Rightarrow>
          if length (sc_memory c) \<noteq> unat (sc_size c) then []
          else take n (drop (unat position) (sc_memory c)))"

definition send_control :: "u32 \<Rightarrow> u32 \<Rightarrow> file_control_kind \<Rightarrow> file_state \<Rightarrow> file_state" where
  "send_control f n k s = s\<lparr>controls_sent := controls_sent s @ [(f, n, k)]\<rparr>"

text \<open>The chunk request callback; \<open>peer\<close> is the peer's key in hexadecimal, if toxcore knows it.\<close>

definition on_chunk_request ::
  "int \<Rightarrow> u32 \<Rightarrow> u32 \<Rightarrow> u64 \<Rightarrow> nat \<Rightarrow> string option \<Rightarrow> file_state \<Rightarrow> file_state" where
  "on_chunk_request i f n position len peer s =
     (let t = (i, FileTransferKey f n) in
      if len = 0 then EraseSendContext t s
      else case FindSendContext t s of
        None \<Rightarrow> s
      | Some c \<Rightarrow>
          let buf = read_source c position len in
          if length buf \<noteq> len then EraseSendContext t (send_control f n CANCEL s)
          else
            let s1 = s\<lparr>chunks_sent := chunks_sent s @ [(f, n, position, buf)]\<rparr> in
            case peer of
              None \<Rightarrow> s1
            | Some uid \<Rightarrow> enqueue_line (''progress_send:'' @ uid @ '':'' @
                dec_nat (unat (position + of_nat len)) @ '':'' @ dec_nat (unat (sc_size c))) s1)"

text \<open>
  The answers while a transfer is being set up: the resolved friend (or the error code), the
  open, whether the session has ended before and during the send, and the file number toxcore
  gives.
\<close>

record send_env =
  peer_of :: "int + u32"
  handle_opens :: bool
  ended_before :: bool
  ended_after :: bool
  sent_number :: "u32 option"

definition start_send :: "send_env \<Rightarrow> int \<Rightarrow> u32 \<Rightarrow> SendContext \<Rightarrow> file_state \<Rightarrow> file_state \<times> int" where
  "start_send e i f c s =
     (if ended_before e then (s, -1)
      else case sent_number e of
        None \<Rightarrow> (s, -7)
      | Some n \<Rightarrow>
          if ended_after e then (s, -1)
          else (StoreSendContext (i, FileTransferKey f n) c s, 1))"

definition tim2tox_ffi_send_file :: "send_env \<Rightarrow> int \<Rightarrow> string \<Rightarrow> file_state \<Rightarrow> file_state \<times> int" where
  "tim2tox_ffi_send_file e i path s =
     (case peer_of e of
        Inl res \<Rightarrow> (s, res)
      | Inr f \<Rightarrow>
          (case disk s path of
             None \<Rightarrow> (s, -5)
           | Some content \<Rightarrow>
               if content = [] then (s, -5)
               else if \<not> handle_opens e then (s, -6)
               else start_send e i f
                 \<lparr>sc_file = Some content, sc_memory = [], sc_size = of_nat (length content)\<rparr> s))"

definition tim2tox_ffi_send_avatar :: "send_env \<Rightarrow> bool \<Rightarrow> int \<Rightarrow> bytes \<Rightarrow> file_state \<Rightarrow> file_state \<times> int" where
  "tim2tox_ffi_send_avatar e hash_ok i avatar s =
     (if length avatar > unat kAvatarMaxBytes then (s, -8)
      else if avatar = [] then (s, -1)
      else case peer_of e of
        Inl res \<Rightarrow> (s, res)
      | Inr f \<Rightarrow>
          if \<not> hash_ok then (s, -5)
          else start_send e i f \<lparr>sc_file = None, sc_memory = avatar, sc_size = of_nat (length avatar)\<rparr> s)"

section \<open>Giving up a receive\<close>

definition DiscardReceive :: "transfer \<Rightarrow> file_state \<Rightarrow> file_state \<times> RecvCtx option" where
  "DiscardReceive t s =
     (case um_find (recv_files s) t of
        None \<Rightarrow> (s, None)
      | Some c \<Rightarrow> (remove_receive (rc_path c) (s\<lparr>recv_files := um_erase t (recv_files s)\<rparr>), Some c))"

definition EnqueueReceiveFailed :: "int \<Rightarrow> string \<Rightarrow> u32 \<Rightarrow> string \<Rightarrow> file_state \<Rightarrow> file_state" where
  "EnqueueReceiveFailed i sender n reason =
     enqueue_line (''file_recv_failed:'' @ dec_int i @ '':'' @ sender @ '':'' @ dec_nat (unat n) @ '':'' @ reason)"

definition FailReceive :: "int \<Rightarrow> u32 \<Rightarrow> u32 \<Rightarrow> string \<Rightarrow> file_state \<Rightarrow> file_state" where
  "FailReceive i f n reason s =
     (case DiscardReceive (i, FileTransferKey f n) s of
        (s1, None) \<Rightarrow> s1
      | (s1, Some c) \<Rightarrow> EnqueueReceiveFailed i (rc_sender c) n reason (send_control f n CANCEL s1))"

definition EraseRecvContextsForInstance :: "int \<Rightarrow> file_state \<Rightarrow> file_state" where
  "EraseRecvContextsForInstance i s =
     (let gone = filter (\<lambda>(t, c). fst t = i) (recv_files s);
          s1 = fold (\<lambda>(t, c) s. if rc_received c < rc_size c then RemoveUtf8 (rc_path c) s else s) gone s in
      s1\<lparr>recv_files := filter (\<lambda>(t, c). fst t \<noteq> i) (recv_files s)\<rparr>)"

text \<open>\<open>entries\<close> are the regular files the directory iterator yields.\<close>

definition sweep_entry :: "string set \<Rightarrow> string \<Rightarrow> string \<Rightarrow> file_state \<Rightarrow> file_state" where
  "sweep_entry active dir name s =
     (let data = DataNameForMarker name in
      if data = [] \<or> dir @ ''/'' @ data \<in> active then s
      else RemoveUtf8 (dir @ ''/'' @ name) (RemoveUtf8 (dir @ ''/'' @ data) s))"

definition SweepUnfinishedReceives :: "string \<Rightarrow> string list \<Rightarrow> file_state \<Rightarrow> file_state" where
  "SweepUnfinishedReceives dir entries s =
     fold (sweep_entry (rc_path ` snd ` set (recv_files s)) dir) entries s"

definition tim2tox_ffi_set_file_recv_dir :: "string \<Rightarrow> bool \<Rightarrow> string list \<Rightarrow> file_state \<Rightarrow> file_state \<times> int" where
  "tim2tox_ffi_set_file_recv_dir dir made entries s =
     (let s1 = s\<lparr>file_recv_dir := dir\<rparr> in
      if \<not> made then (s1, 0) else (SweepUnfinishedReceives dir entries s1, 1))"

section \<open>Receiving\<close>

text \<open>
  The control callback: the peer resumes, pauses or cancels. \<open>peer\<close> as above; the callback that
  was registered before is called by the source afterwards.
\<close>

fun control_event :: "file_control_kind \<Rightarrow> string" where
  "control_event RESUME = ''file_resumed''"
| "control_event PAUSE = ''file_paused''"
| "control_event CANCEL = ''file_canceled''"

definition on_file_control :: "int \<Rightarrow> u32 \<Rightarrow> u32 \<Rightarrow> file_control_kind \<Rightarrow> string option \<Rightarrow> file_state \<Rightarrow> file_state" where
  "on_file_control i f n k peer s =
     (let sender = (case peer of None \<Rightarrow> ''unknown'' | Some h \<Rightarrow> h);
          s1 = enqueue_line (control_event k @ '':'' @ sender @ '':'' @ dec_nat (unat n)) s;
          t = (i, FileTransferKey f n) in
      if k = CANCEL then fst (DiscardReceive t (EraseSendContext t s1)) else s1)"

text \<open>
  The offer callback. \<open>avatar_id\<close> is the file id of an avatar in hexadecimal; without it an
  avatar offer is cancelled. An avatar of size zero is a deletion and gets no context.
\<close>

definition on_file_offer ::
  "int \<Rightarrow> u32 \<Rightarrow> u32 \<Rightarrow> u32 \<Rightarrow> u64 \<Rightarrow> string \<Rightarrow> string option \<Rightarrow> string option \<Rightarrow> file_state \<Rightarrow> file_state" where
  "on_file_offer i f n kind sz raw peer avatar_id s =
     (let sender = (case peer of None \<Rightarrow> ''unknown'' | Some h \<Rightarrow> h) in
      if kind = TOX_FILE_KIND_AVATAR \<and> avatar_id = None then send_control f n CANCEL s
      else
        let name = received_name kind f n raw;
            full = file_recv_dir s @ ''/'' @ storage_name sender f n name;
            s1 = (if kind = TOX_FILE_KIND_AVATAR \<and> sz = 0 then s
                  else s\<lparr>recv_files := um_put (i, FileTransferKey f n)
                    \<lparr>rc_open = False, rc_size = sz, rc_received = 0, rc_path = full, rc_sender = sender,
                     rc_kind = kind, rc_io_failed = False\<rparr> (recv_files s)\<rparr>);
            head = dec_int i @ '':'' @ sender @ '':'' @ dec_nat (unat n) @ '':'' @ dec_nat (unat sz) @ '':'' in
        enqueue_line
          (if kind = TOX_FILE_KIND_AVATAR then ''avatar_request:'' @ head @ the avatar_id
           else ''file_request:'' @ head @ dec_nat (unat kind) @ '':'' @ name) s1)"

text \<open>The answers when the host accepts: free space if known, the marker, the data file, toxcore.\<close>

record accept_env =
  free_bytes :: "u64 option"
  marker_written :: bool
  data_opens :: bool
  no_space :: bool
  control_accepted :: bool

definition refuse_code :: "accept_env \<Rightarrow> int" where
  "refuse_code e = (if no_space e then -7 else -5)"

text \<open>Opening the files of an accepted receive: a code below zero refuses.\<close>

definition open_receive :: "accept_env \<Rightarrow> transfer \<Rightarrow> RecvCtx \<Rightarrow> file_state \<Rightarrow> file_state \<times> int" where
  "open_receive e t c s =
     (let tracked = (rc_kind c \<noteq> TOX_FILE_KIND_AVATAR);
          marker = ReceiveMarkerPath (rc_path c) in
      if tracked \<and> rc_size c \<noteq> - 1 \<and>
         (case free_bytes e of None \<Rightarrow> False | Some a \<Rightarrow> \<not> HasRoomForReceive a (rc_size c) kReceiveReserveBytes)
      then (s, -7)
      else if tracked \<and> \<not> marker_written e then (RemoveUtf8 marker s, refuse_code e)
      else
        let s1 = (if tracked then s\<lparr>disk := (disk s)(marker \<mapsto> [])\<rparr> else s) in
        if \<not> data_opens e then (if tracked then RemoveUtf8 marker s1 else s1, refuse_code e)
        else (s1\<lparr>disk := (disk s1)(rc_path c \<mapsto> []),
               recv_files := um_put t (c\<lparr>rc_open := True\<rparr>) (recv_files s1)\<rparr>, 1))"

text \<open>The first half of a resume: the context, the avatar limit and, once, the files.\<close>

definition prepare_resume :: "accept_env \<Rightarrow> transfer \<Rightarrow> file_state \<Rightarrow> file_state \<times> int \<times> bool" where
  "prepare_resume e t s =
     (case um_find (recv_files s) t of
        None \<Rightarrow> (s, -3, False)
      | Some c \<Rightarrow>
          if rc_kind c = TOX_FILE_KIND_AVATAR \<and> rc_size c > kAvatarMaxBytes then (s, -6, False)
          else if rc_open c then (s, 1, False)
          else case open_receive e t c s of (s1, res) \<Rightarrow> (s1, res, res = 1))"

text \<open>toxcore refused: the handle opened just now is closed again and its files go.\<close>

definition undo_open :: "transfer \<Rightarrow> file_state \<Rightarrow> file_state" where
  "undo_open t s =
     (case um_find (recv_files s) t of
        None \<Rightarrow> s
      | Some c \<Rightarrow>
          let s1 = s\<lparr>recv_files := um_put t (c\<lparr>rc_open := False\<rparr>) (recv_files s)\<rparr>;
              s2 = (if HasExactFileSize (rc_path c) 0 s1 then RemoveUtf8 (rc_path c) s1 else s1) in
          RemoveUtf8 (ReceiveMarkerPath (rc_path c)) s2)"

fun control_of :: "int \<Rightarrow> file_control_kind option" where
  "control_of c = (if c = 0 then Some RESUME else if c = 1 then Some PAUSE else if c = 2 then Some CANCEL else None)"

definition tim2tox_ffi_file_control ::
  "accept_env \<Rightarrow> int + u32 \<Rightarrow> int \<Rightarrow> u32 \<Rightarrow> int \<Rightarrow> file_state \<Rightarrow> file_state \<times> int" where
  "tim2tox_ffi_file_control e friend i n control s =
     (case friend of
        Inl res \<Rightarrow> (s, res)
      | Inr f \<Rightarrow>
          (case control_of control of
             None \<Rightarrow> (s, -1)
           | Some k \<Rightarrow>
               let t = (i, FileTransferKey f n) in
               case (if k = RESUME then prepare_resume e t s else (s, 1, False)) of
                 (s1, res, opened) \<Rightarrow>
                   if res < 0 then (s1, res)
                   else
                     let s2 = send_control f n k s1 in
                     if \<not> control_accepted e then (if opened then undo_open t s2 else s2, -4)
                     else (if k = CANCEL then fst (DiscardReceive t s2) else s2, 1)))"

text \<open>
  The answers while a chunk is written or the file is closed: the bytes written, the flushes,
  the close, and whether a failure was for want of space.
\<close>

record chunk_env =
  written_bytes :: nat
  flush_ok :: bool
  close_ok :: bool
  full_disk :: bool

definition ClassifyWriteErrno :: "bool \<Rightarrow> string" where
  "ClassifyWriteErrno full = (if full then ''no_space'' else ''io'')"

definition write_at :: "nat \<Rightarrow> bytes \<Rightarrow> bytes \<Rightarrow> bytes" where
  "write_at p d c = take p c @ replicate (p - length c) 0 @ d @ drop (p + length d) c"

definition WriteAt64 :: "string \<Rightarrow> u64 \<Rightarrow> bytes \<Rightarrow> file_state \<Rightarrow> file_state" where
  "WriteAt64 path p d s = s\<lparr>disk := (disk s)(path := map_option (write_at (unat p) d) (disk s path))\<rparr>"

definition mark_io_failed :: "transfer \<Rightarrow> file_state \<Rightarrow> file_state" where
  "mark_io_failed t s =
     (case um_find (recv_files s) t of
        None \<Rightarrow> s
      | Some c \<Rightarrow> s\<lparr>recv_files := um_put t (c\<lparr>rc_io_failed := True\<rparr>) (recv_files s)\<rparr>)"

definition progress_line :: "int \<Rightarrow> RecvCtx \<Rightarrow> u64 \<Rightarrow> string" where
  "progress_line i c got = ''progress_recv:'' @ dec_int i @ '':'' @ rc_sender c @ '':'' @
     dec_nat (unat got) @ '':'' @ dec_nat (unat (rc_size c)) @ '':'' @ rc_path c"

definition done_line :: "int \<Rightarrow> RecvCtx \<Rightarrow> string" where
  "done_line i c = ''file_done:'' @ dec_int i @ '':'' @ rc_sender c @ '':'' @ dec_nat (unat (rc_kind c)) @
     '':'' @ rc_path c"

text \<open>The empty chunk that ends a transfer.\<close>

definition finish_receive :: "chunk_env \<Rightarrow> int \<Rightarrow> u32 \<Rightarrow> u32 \<Rightarrow> RecvCtx \<Rightarrow> file_state \<Rightarrow> file_state" where
  "finish_receive e i f n c s =
     (let s1 = s\<lparr>recv_files := um_erase (i, FileTransferKey f n) (recv_files s)\<rparr>;
          closed = (rc_open c \<longrightarrow> flush_ok e \<and> close_ok e) in
      if rc_io_failed c \<or> \<not> closed \<or> \<not> HasExactFileSize (rc_path c) (rc_size c) s1 then
        EnqueueReceiveFailed i (rc_sender c) n
          (if closed then ''io'' else ClassifyWriteErrno (full_disk e)) (remove_receive (rc_path c) s1)
      else if rc_size c = 0 then s1
      else enqueue_line (done_line i c) (enqueue_line (progress_line i c (rc_size c)) s1))"

definition on_chunk :: "chunk_env \<Rightarrow> int \<Rightarrow> u32 \<Rightarrow> u32 \<Rightarrow> u64 \<Rightarrow> bytes \<Rightarrow> file_state \<Rightarrow> file_state" where
  "on_chunk e i f n position d s =
     (let t = (i, FileTransferKey f n) in
      case um_find (recv_files s) t of
        None \<Rightarrow> s
      | Some c \<Rightarrow>
          if d = [] then finish_receive e i f n c s
          else if CheckedWriteRange position (of_nat (length d)) (rc_size c) = None then mark_io_failed t s
          else if \<not> rc_open c then s
          else
            let w = min (written_bytes e) (length d);
                s1 = WriteAt64 (rc_path c) position (take w d) s in
            if w \<noteq> length d \<or> \<not> flush_ok e then FailReceive i f n (ClassifyWriteErrno (full_disk e)) s1
            else case CheckedEndPosition position (of_nat w) of
              None \<Rightarrow> mark_io_failed t s1
            | Some got \<Rightarrow>
                enqueue_line (progress_line i c got)
                  (s1\<lparr>recv_files := um_put t (c\<lparr>rc_received := got\<rparr>) (recv_files s1)\<rparr>))"

end
