(* ===== verification/FileTransferProperties.thy ===== *)
theory FileTransferProperties
  imports FileTransfer
begin

text \<open>
  What the file transfers promise: a file arrives exactly as it was sent, however it is cut
  into chunks; a file is announced as done only when it is complete; a receive that ends any
  other way leaves neither data nor marker; no chunk writes outside the announced size or into
  another file; the sweep removes exactly the unfinished receives nobody is working on.
\<close>

section \<open>Disk and tables\<close>

lemma enqueue_sel [simp]:
  "disk (enqueue_line l s) = disk s" "recv_files (enqueue_line l s) = recv_files s"
  "event_lines (enqueue_line l s) = event_lines s @ [l]" "send_files (enqueue_line l s) = send_files s"
  by (simp_all add: enqueue_line_def)

lemma RemoveUtf8_sel [simp]:
  "disk (RemoveUtf8 p s) = (disk s)(p := None)" "recv_files (RemoveUtf8 p s) = recv_files s"
  "event_lines (RemoveUtf8 p s) = event_lines s" "send_files (RemoveUtf8 p s) = send_files s"
  by (simp_all add: RemoveUtf8_def)

lemma remove_receive_sel [simp]:
  "disk (remove_receive p s) = (disk s)(p := None, ReceiveMarkerPath p := None)"
  "recv_files (remove_receive p s) = recv_files s"
  "event_lines (remove_receive p s) = event_lines s"
  by (simp_all add: remove_receive_def)

lemma send_control_sel [simp]:
  "disk (send_control f n k s) = disk s" "recv_files (send_control f n k s) = recv_files s"
  "event_lines (send_control f n k s) = event_lines s"
  by (simp_all add: send_control_def)

lemma WriteAt64_sel [simp]:
  "disk (WriteAt64 p pos d s) = (disk s)(p := map_option (write_at (unat pos) d) (disk s p))"
  "recv_files (WriteAt64 p pos d s) = recv_files s" "event_lines (WriteAt64 p pos d s) = event_lines s"
  by (simp_all add: WriteAt64_def)

lemma mark_io_failed_sel [simp]:
  "disk (mark_io_failed t s) = disk s" "event_lines (mark_io_failed t s) = event_lines s"
  "um_find (recv_files (mark_io_failed t s)) t =
     map_option (\<lambda>c. c\<lparr>rc_io_failed := True\<rparr>) (um_find (recv_files s) t)"
  by (auto simp: mark_io_failed_def umap_simps split: option.split)

lemma FailReceive_known:
  assumes "um_find (recv_files s) (i, FileTransferKey f n) = Some c"
  shows "disk (FailReceive i f n r s) = (disk s)(rc_path c := None, ReceiveMarkerPath (rc_path c) := None)"
    and "recv_files (FailReceive i f n r s) = um_erase (i, FileTransferKey f n) (recv_files s)"
    and "event_lines (FailReceive i f n r s) = event_lines s @
      [''file_recv_failed:'' @ dec_int i @ '':'' @ rc_sender c @ '':'' @ dec_nat (unat n) @ '':'' @ r]"
  using assms by (simp_all add: FailReceive_def DiscardReceive_def EnqueueReceiveFailed_def)

section \<open>A transfer from end to end\<close>

definition src_content :: "SendContext \<Rightarrow> bytes" where
  "src_content c = (case sc_file c of Some x \<Rightarrow> x | None \<Rightarrow> sc_memory c)"

definition source_ok :: "SendContext \<Rightarrow> bool" where
  "source_ok c \<longleftrightarrow> length (src_content c) < 2 ^ 64 \<and> unat (sc_size c) = length (src_content c)"

lemma read_source_slice:
  assumes "source_ok c" and "unat p + n \<le> length (src_content c)"
  shows "read_source c p n = take n (drop (unat p) (src_content c))"
proof -
  have "p \<le> sc_size c" using assms by (simp add: source_ok_def word_le_nat_alt)
  moreover from this have "unat (sc_size c - p) = length (src_content c) - unat p"
    using assms by (simp add: source_ok_def unat_sub)
  ultimately have fits: "\<not> p > sc_size c" "\<not> n > unat (sc_size c - p)" using assms(2) by auto
  show ?thesis
  proof (cases "sc_file c")
    case None
    with assms(1) have "length (sc_memory c) = unat (sc_size c)" by (simp add: source_ok_def src_content_def)
    with None fits show ?thesis by (simp add: read_source_def src_content_def)
  next
    case (Some x)
    with fits show ?thesis by (simp add: read_source_def src_content_def)
  qed
qed

text \<open>The chunks of the sizes \<open>ls\<close>, each read from the source and handed to the receiver, then the end.\<close>

fun pump :: "chunk_env \<Rightarrow> int \<Rightarrow> u32 \<Rightarrow> u32 \<Rightarrow> SendContext \<Rightarrow> nat list \<Rightarrow> u64 \<Rightarrow> file_state \<Rightarrow> file_state" where
  "pump e i f n c [] p s = on_chunk e i f n p [] s"
| "pump e i f n c (l # ls) p s =
     pump e i f n c ls (p + of_nat l) (on_chunk e i f n p (read_source c p l) s)"

definition healthy_disk :: "chunk_env \<Rightarrow> nat \<Rightarrow> bool" where
  "healthy_disk e n \<longleftrightarrow> n \<le> written_bytes e \<and> flush_ok e \<and> close_ok e"

definition receiving :: "transfer \<Rightarrow> string \<Rightarrow> SendContext \<Rightarrow> nat \<Rightarrow> file_state \<Rightarrow> bool" where
  "receiving t path c k s \<longleftrightarrow> disk s path = Some (take k (src_content c)) \<and>
     (\<exists>r. um_find (recv_files s) t = Some r \<and> rc_open r \<and> rc_path r = path \<and> \<not> rc_io_failed r \<and>
        rc_size r = sc_size c)"

lemma write_at_end: "length c = p \<Longrightarrow> write_at p d c = c @ d"
  by (simp add: write_at_def)

lemma chunk_received:
  assumes "receiving (i, FileTransferKey f n) path c (unat p) s" and "source_ok c"
    and "0 < l" and "unat p + l \<le> length (src_content c)" and "healthy_disk e (length (src_content c))"
  shows "receiving (i, FileTransferKey f n) path c (unat p + l) (on_chunk e i f n p (read_source c p l) s)"
proof -
  let ?d = "take l (drop (unat p) (src_content c))"
  obtain r where r: "um_find (recv_files s) (i, FileTransferKey f n) = Some r" "rc_open r" "rc_path r = path"
      "\<not> rc_io_failed r" "rc_size r = sc_size c" and now: "disk s path = Some (take (unat p) (src_content c))"
    using assms(1) by (auto simp: receiving_def)
  have d: "read_source c p l = ?d" "?d \<noteq> []" "length ?d = l"
    using assms(3,4) read_source_slice [OF assms(2,4)] by auto
  have "l < 2 ^ 64" using assms(2,4) by (simp add: source_ok_def)
  then have l: "unat (of_nat l :: u64) = l" by (simp add: unat_of_nat)
  have range: "CheckedWriteRange p (of_nat l) (sc_size c) \<noteq> None" "CheckedEndPosition p (of_nat l) \<noteq> None"
    using assms(2,4) l by (auto simp: CheckedWriteRange_exact CheckedEndPosition_exact source_ok_def)
  have w: "min (written_bytes e) l = l" "flush_ok e"
    using assms(4,5) by (auto simp: healthy_disk_def)
  have app: "write_at (unat p) ?d (take (unat p) (src_content c)) = take (unat p + l) (src_content c)"
    using assms(4) by (simp add: write_at_end take_add)
  from range(2) obtain got where got: "CheckedEndPosition p (of_nat l) = Some got" by auto
  have res: "on_chunk e i f n p ?d s = enqueue_line (progress_line i r got)
      ((WriteAt64 path p ?d s)\<lparr>recv_files := um_put (i, FileTransferKey f n) (r\<lparr>rc_received := got\<rparr>) (recv_files s)\<rparr>)"
    using r d(2,3) range(1) w got by (auto simp: on_chunk_def Let_def)
  show ?thesis unfolding d(1) res receiving_def
    using r now app by (auto simp: umap_simps)
qed

lemma pump_received:
  assumes "receiving (i, FileTransferKey f n) path c (unat p) s" and "source_ok c"
    and "\<forall>l \<in> set ls. 0 < l" and "unat p + sum_list ls = length (src_content c)"
    and "healthy_disk e (length (src_content c))" and "src_content c \<noteq> []"
  shows "disk (pump e i f n c ls p s) path = Some (src_content c) \<and>
    um_find (recv_files (pump e i f n c ls p s)) (i, FileTransferKey f n) = None \<and>
    (\<exists>r. rc_path r = path \<and> last (event_lines (pump e i f n c ls p s)) = done_line i r)"
  using assms
proof (induction ls arbitrary: p s)
  case Nil
  then obtain r where r: "um_find (recv_files s) (i, FileTransferKey f n) = Some r" "rc_open r" "rc_path r = path"
      "\<not> rc_io_failed r" "rc_size r = sc_size c" "disk s path = Some (src_content c)"
    by (auto simp: receiving_def)
  have size: "unat (sc_size c) = length (src_content c)" "sc_size c \<noteq> 0"
    using Nil.prems by (auto simp: source_ok_def)
  have "finish_receive e i f n r s = enqueue_line (done_line i r) (enqueue_line (progress_line i r (rc_size r))
      (s\<lparr>recv_files := um_erase (i, FileTransferKey f n) (recv_files s)\<rparr>))"
    using r size Nil.prems by (simp add: finish_receive_def Let_def HasExactFileSize_def healthy_disk_def)
  with r show ?case by (auto simp: on_chunk_def Let_def umap_simps)
next
  case (Cons l ls)
  have le: "unat p + l \<le> length (src_content c)" "0 < l" using Cons.prems by auto
  then have "l < 2 ^ 64" "unat p + l < 2 ^ 64" using Cons.prems(2) by (auto simp: source_ok_def)
  then have "unat (p + of_nat l) = unat p + l" by (simp add: unat_word_ariths unat_of_nat)
  with chunk_received [OF Cons.prems(1,2) le(2,1) Cons.prems(5)] Cons show ?case by simp
qed

text \<open>
  C19. A file arrives exactly as it was sent. For any file or avatar in memory below the size
  limit of the protocol, cut into any chunks that cover it in order, the receiver that has
  accepted the offer ends with exactly the sender's bytes under the name it chose, its context
  closed and \<open>file_done\<close> as the last event.
\<close>

theorem file_arrives_as_sent:
  assumes "um_find (recv_files s) (i, FileTransferKey f n) = Some r"
    and "rc_open r" "\<not> rc_io_failed r" "rc_size r = sc_size c" and "disk s (rc_path r) = Some []"
    and "source_ok c" and "src_content c \<noteq> []"
    and "\<forall>l \<in> set ls. 0 < l" and "sum_list ls = length (src_content c)"
    and "healthy_disk e (length (src_content c))"
    and "s' = pump e i f n c ls 0 s"
  shows "disk s' (rc_path r) = Some (src_content c) \<and>
    um_find (recv_files s') (i, FileTransferKey f n) = None \<and>
    (\<exists>r'. rc_path r' = rc_path r \<and> last (event_lines s') = done_line i r')"
  using pump_received [of i f n "rc_path r" c 0 s ls e] assms by (auto simp: receiving_def)

abbreviation (input) offered_state :: file_state where
  "offered_state \<equiv> on_file_offer 0 4 7 0 5 ''a/b.txt'' None None
     \<lparr>file_recv_dir = ''/r'', recv_files = [], send_files = [], disk = Map.empty, event_lines = [],
      controls_sent = [], chunks_sent = []\<rparr>"

abbreviation (input) accepted_state :: file_state where
  "accepted_state \<equiv> fst (tim2tox_ffi_file_control
     \<lparr>free_bytes = None, marker_written = True, data_opens = True, no_space = False, control_accepted = True\<rparr>
     (Inr 4) 0 7 0 offered_state)"

abbreviation (input) sample_source :: SendContext where
  "sample_source \<equiv> \<lparr>sc_file = Some [10, 20, 30, 40, 50], sc_memory = [], sc_size = 5\<rparr>"

lemma accepted_eval:
  "\<exists>r. um_find (recv_files accepted_state) (0, FileTransferKey 4 7) = Some r \<and> rc_open r \<and> \<not> rc_io_failed r \<and>
    rc_size r = 5 \<and> disk accepted_state (rc_path r) = Some []"
proof -
  have "received_name 0 4 7 ''a/b.txt'' = ''a_b.txt''"
    by (simp add: received_name_def byte_of_def)
  moreover have "(1 :: u32) \<noteq> 0" by simp
  ultimately show ?thesis
    by (simp add: on_file_offer_def tim2tox_ffi_file_control_def prepare_resume_def open_receive_def
        send_control_def enqueue_line_def Let_def)
qed

theorem file_arrives_as_sent_witness:
  "\<exists>p. disk (pump \<lparr>written_bytes = 99, flush_ok = True, close_ok = True, full_disk = False\<rparr> 0 4 7
     sample_source [2, 1, 2] 0 accepted_state) p = Some [10, 20, 30, 40, 50]"
proof -
  let ?e = "\<lparr>written_bytes = 99, flush_ok = True, close_ok = True, full_disk = False\<rparr>"
  obtain r where r: "um_find (recv_files accepted_state) (0, FileTransferKey 4 7) = Some r" "rc_open r"
      "\<not> rc_io_failed r" "rc_size r = 5" "disk accepted_state (rc_path r) = Some []"
    using accepted_eval by blast
  have "source_ok sample_source" "src_content sample_source = [10, 20, 30, 40, 50]" "sc_size sample_source = 5"
    by (simp_all add: source_ok_def src_content_def)
  from file_arrives_as_sent [OF r(1-3), of sample_source "[2, 1, 2]" ?e, OF _ r(5) _ _ _ _ _ refl] this r(4)
  show ?thesis by (auto simp: healthy_disk_def)
qed

section \<open>How a receive ends\<close>

lemma HasExact_upd [simp]: "HasExactFileSize p k (s\<lparr>recv_files := x\<rparr>) = HasExactFileSize p k s"
  by (simp add: HasExactFileSize_def)

text \<open>What is true after the step that ended the receive \<open>c\<close>.\<close>

definition ended_complete :: "int \<Rightarrow> RecvCtx \<Rightarrow> file_state \<Rightarrow> file_state \<Rightarrow> bool" where
  "ended_complete i c s s' \<longleftrightarrow> \<not> rc_io_failed c \<and> HasExactFileSize (rc_path c) (rc_size c) s' \<and> disk s' = disk s \<and>
     event_lines s' = event_lines s @
       (if rc_size c = 0 then [] else [progress_line i c (rc_size c), done_line i c])"

definition ended_failed :: "int \<Rightarrow> u32 \<Rightarrow> RecvCtx \<Rightarrow> file_state \<Rightarrow> file_state \<Rightarrow> bool" where
  "ended_failed i n c s s' \<longleftrightarrow> disk s' (rc_path c) = None \<and> disk s' (ReceiveMarkerPath (rc_path c)) = None \<and>
     (\<exists>why. event_lines s' = event_lines s @
        [''file_recv_failed:'' @ dec_int i @ '':'' @ rc_sender c @ '':'' @ dec_nat (unat n) @ '':'' @ why])"

lemma finish_ends:
  assumes "s' = finish_receive e i f n c s"
  shows "ended_complete i c s s' \<or> ended_failed i n c s s'"
proof (cases "rc_io_failed c \<or> \<not> (rc_open c \<longrightarrow> flush_ok e \<and> close_ok e) \<or>
    \<not> HasExactFileSize (rc_path c) (rc_size c) s")
  case True
  then have "ended_failed i n c s s'"
    by (auto simp: assms finish_receive_def Let_def ended_failed_def EnqueueReceiveFailed_def)
  then show ?thesis ..
next
  case False
  then have "ended_complete i c s s'"
    by (auto simp: assms finish_receive_def Let_def ended_complete_def HasExactFileSize_def)
  then show ?thesis ..
qed

lemma chunk_keeps_or_ends:
  assumes "um_find (recv_files s) (i, FileTransferKey f n) = Some c" and "d \<noteq> []"
    and "s' = on_chunk e i f n p d s"
  shows "(\<exists>c'. um_find (recv_files s') (i, FileTransferKey f n) = Some c') \<or> ended_failed i n c s s'"
proof -
  let ?s1 = "WriteAt64 (rc_path c) p (take (min (written_bytes e) (length d)) d) s"
  have f1: "um_find (recv_files ?s1) (i, FileTransferKey f n) = Some c" using assms(1) by simp
  have "ended_failed i n c s (FailReceive i f n r ?s1)" for r
    using FailReceive_known [OF f1] by (simp add: ended_failed_def)
  with assms show ?thesis
    by (auto simp: on_chunk_def Let_def umap_simps split: option.splits)
qed

text \<open>
  C21. A receive is all or nothing. When the step of a chunk, a control of the peer or a
  cancellation by the host makes a receive disappear, then either no write had failed, the file
  has exactly the announced size and, unless that is zero, \<open>file_done\<close> was announced; or
  neither the data file nor its marker is on disk any more and, for a failed chunk, exactly one
  \<open>file_recv_failed\<close> was announced.
\<close>

theorem receive_all_or_nothing:
  assumes "um_find (recv_files s) (i, FileTransferKey f n) = Some c"
  shows "(s' = on_chunk e i f n p d s \<longrightarrow> um_find (recv_files s') (i, FileTransferKey f n) = None \<longrightarrow>
        ended_complete i c s s' \<or> ended_failed i n c s s') \<and>
     (s' = on_file_control i f n CANCEL peer s \<or>
      s' = fst (tim2tox_ffi_file_control a (Inr f) i n 2 s) \<and> control_accepted a \<longrightarrow>
        um_find (recv_files s') (i, FileTransferKey f n) = None \<and>
        disk s' (rc_path c) = None \<and> disk s' (ReceiveMarkerPath (rc_path c)) = None)"
proof (intro conjI impI)
  assume s': "s' = on_chunk e i f n p d s" "um_find (recv_files s') (i, FileTransferKey f n) = None"
  show "ended_complete i c s s' \<or> ended_failed i n c s s'"
  proof (cases "d = []")
    case True
    with s' assms have "s' = finish_receive e i f n c s" by (simp add: on_chunk_def)
    then show ?thesis by (rule finish_ends)
  next
    case False
    with chunk_keeps_or_ends [OF assms False s'(1)] s'(2) show ?thesis by auto
  qed
next
  assume "s' = on_file_control i f n CANCEL peer s \<or>
      s' = fst (tim2tox_ffi_file_control a (Inr f) i n 2 s) \<and> control_accepted a"
  then show "um_find (recv_files s') (i, FileTransferKey f n) = None"
      "disk s' (rc_path c) = None" "disk s' (ReceiveMarkerPath (rc_path c)) = None"
    using assms by (auto simp: on_file_control_def tim2tox_ffi_file_control_def DiscardReceive_def
        EraseSendContext_def Let_def umap_simps)
qed

abbreviation (input) sample_receive :: RecvCtx where
  "sample_receive \<equiv> \<lparr>rc_open = True, rc_size = 4, rc_received = 1, rc_path = ''/r/d'', rc_sender = ''A'',
     rc_kind = 0, rc_io_failed = False\<rparr>"

abbreviation (input) sample_state :: file_state where
  "sample_state \<equiv> \<lparr>file_recv_dir = ''/r'', recv_files = [((0, FileTransferKey 4 7), sample_receive)],
     send_files = [], disk = [''/r/d'' \<mapsto> [9], ''/r/other'' \<mapsto> [8]], event_lines = [], controls_sent = [],
     chunks_sent = []\<rparr>"

theorem receive_all_or_nothing_witness:
  "disk (on_file_control 0 4 7 CANCEL None sample_state) ''/r/d'' = None \<and> disk sample_state ''/r/d'' = Some [9]"
proof -
  have "um_find (recv_files sample_state) (0, FileTransferKey 4 7) = Some sample_receive" by simp
  from receive_all_or_nothing [OF this, of "on_file_control 0 4 7 CANCEL None sample_state" _ _ _ None]
  show ?thesis by simp
qed

section \<open>What a chunk may touch\<close>

lemma write_at_length: "length (write_at p d c) = max (length c) (p + length d)"
  by (simp add: write_at_def)

lemma write_at_keeps:
  assumes "j < length c" and "j < p \<or> p + length d \<le> j"
  shows "write_at p d c ! j = c ! j"
  using assms by (auto simp: write_at_def nth_append min_def)

text \<open>
  C20. A chunk writes only into its own receive, and only inside the announced size: whatever
  position and length a peer sends, even ones whose sum wraps around, no file but the data file
  and the marker of that receive changes; if the data file is still there, it is no longer than
  before or than the announced size, and every byte outside the chunk is as it was.
\<close>

theorem chunk_confined:
  assumes "um_find (recv_files s) (i, FileTransferKey f n) = Some c" and "length d < 2 ^ 64"
    and "s' = on_chunk e i f n p d s"
  shows "(\<forall>q. q \<noteq> rc_path c \<longrightarrow> q \<noteq> ReceiveMarkerPath (rc_path c) \<longrightarrow> disk s' q = disk s q) \<and>
     (\<forall>old new. disk s (rc_path c) = Some old \<longrightarrow> disk s' (rc_path c) = Some new \<longrightarrow>
        length new \<le> max (length old) (unat (rc_size c)) \<and>
        (\<forall>j < length old. j < unat p \<or> unat p + length d \<le> j \<longrightarrow> new ! j = old ! j))"
proof -
  let ?w = "min (written_bytes e) (length d)"
  have dl: "unat (of_nat (length d) :: u64) = length d" using assms(2) by (simp add: unat_of_nat)
  consider (kept) "\<forall>q. q \<noteq> ReceiveMarkerPath (rc_path c) \<and> q \<noteq> rc_path c \<or> disk s' (rc_path c) \<noteq> None \<and> q = rc_path c \<longrightarrow> disk s' q = disk s q"
    | (wrote) "disk s' = (disk s)(rc_path c := map_option (write_at (unat p) d) (disk s (rc_path c)))"
        "unat p + length d \<le> unat (rc_size c)"
  proof (cases "d = [] \<or> CheckedWriteRange p (of_nat (length d)) (rc_size c) = None \<or> \<not> rc_open c \<or>
      ?w \<noteq> length d \<or> \<not> flush_ok e")
    case True
    with assms(1,3) kept FailReceive_known(1) [of "WriteAt64 (rc_path c) p (take ?w d) s" i f n c] show ?thesis
      by (auto simp: on_chunk_def finish_receive_def EnqueueReceiveFailed_def Let_def split: if_splits)
  next
    case False
    then have "unat p + length d \<le> unat (rc_size c)"
      by (auto simp: CheckedWriteRange_exact dl split: if_splits)
    moreover have "disk s' = (disk s)(rc_path c := map_option (write_at (unat p) d) (disk s (rc_path c)))"
      using False assms(1,3) by (auto simp: on_chunk_def Let_def split: option.splits)
    ultimately show ?thesis using wrote by blast
  qed
  then show ?thesis
  proof cases
    case kept
    then show ?thesis by auto
  next
    case wrote
    then show ?thesis by (auto simp: write_at_length write_at_keeps)
  qed
qed

theorem chunk_confined_witness:
  "disk (on_chunk \<lparr>written_bytes = 9, flush_ok = True, close_ok = True, full_disk = False\<rparr> 0 4 7
     (- 1) [1, 2, 3] sample_state) ''/r/other'' = Some [8]"
proof -
  have c: "um_find (recv_files sample_state) (0, FileTransferKey 4 7) = Some sample_receive" by simp
  have "''/r/other'' \<noteq> rc_path sample_receive" "''/r/other'' \<noteq> ReceiveMarkerPath (rc_path sample_receive)"
    by (simp_all add: ReceiveMarkerPath_def is_separator_def kReceiveMarkerSuffix_def)
  with chunk_confined [OF c _ refl, of "[1, 2, 3]"] show ?thesis by simp
qed

section \<open>The sweep\<close>

definition swept :: "string \<Rightarrow> string set \<Rightarrow> string list \<Rightarrow> string \<Rightarrow> bool" where
  "swept dir active entries q \<longleftrightarrow> (\<exists>m \<in> set entries. DataNameForMarker m \<noteq> [] \<and>
     dir @ ''/'' @ DataNameForMarker m \<notin> active \<and>
     (q = dir @ ''/'' @ m \<or> q = dir @ ''/'' @ DataNameForMarker m))"

lemma sweep_disk:
  "disk (fold (sweep_entry active dir) entries s) q = (if swept dir active entries q then None else disk s q)"
proof (induction entries arbitrary: s)
  case Nil
  then show ?case by (simp add: swept_def)
next
  case (Cons m ms)
  have "disk (sweep_entry active dir m s) q = (if swept dir active [m] q then None else disk s q)"
    by (auto simp: sweep_entry_def swept_def Let_def)
  moreover have "swept dir active (m # ms) q \<longleftrightarrow> swept dir active [m] q \<or> swept dir active ms q"
    by (auto simp: swept_def)
  ultimately show ?case by (simp add: Cons)
qed



section \<open>Transfers the code does not finish\<close>

text \<open>A transfer of unknown length (size \<open>UINT64_MAX\<close>) is accepted, written and then always thrown away.\<close>

lemma stream_never_completes:
  assumes "um_find (recv_files s) (i, FileTransferKey f n) = Some c" and "rc_size c = - 1"
    and "\<And>d. disk s (rc_path c) = Some d \<Longrightarrow> length d < 2 ^ 64 - 1"
  shows "ended_failed i n c s (on_chunk e i f n p [] s)"
proof -
  have "unat (- 1 :: u64) = 2 ^ 64 - 1" by (simp add: unsigned_minus_1_eq_mask mask_eq_exp_minus_1)
  then have "\<not> HasExactFileSize (rc_path c) (rc_size c) s"
    using assms(2,3) by (fastforce simp: HasExactFileSize_def split: option.splits)
  then have "\<not> ended_complete i c s (finish_receive e i f n c s)"
    by (auto simp: ended_complete_def HasExactFileSize_def)
  with finish_ends [OF refl, of i c s e f n] assms(1) show ?thesis by (simp add: on_chunk_def)
qed

text \<open>An accepted empty file ends without any event.\<close>

lemma empty_file_unreported:
  assumes "um_find (recv_files s) (i, FileTransferKey f n) = Some c" and "rc_size c = 0" "\<not> rc_io_failed c"
    and "disk s (rc_path c) = Some []" and "flush_ok e" "close_ok e"
  shows "event_lines (on_chunk e i f n p [] s) = event_lines s \<and>
    um_find (recv_files (on_chunk e i f n p [] s)) (i, FileTransferKey f n) = None"
  using assms by (simp add: on_chunk_def finish_receive_def HasExactFileSize_def Let_def umap_simps)

text \<open>
  A peer that offers a file again under the number and name of an earlier one and cancels the
  offer, which nobody has accepted, deletes the file received before.
\<close>

lemma cancelled_offer_deletes_earlier_file:
  assumes "disk s (file_recv_dir s @ ''/'' @ storage_name sender f n (received_name kind f n raw)) = Some d"
    and "kind \<noteq> TOX_FILE_KIND_AVATAR"
  shows "disk (on_file_control i f n CANCEL (Some sender)
      (on_file_offer i f n kind sz raw (Some sender) None s))
      (file_recv_dir s @ ''/'' @ storage_name sender f n (received_name kind f n raw)) = None"
  using assms by (simp add: on_file_control_def on_file_offer_def DiscardReceive_def EraseSendContext_def
      Let_def umap_simps enqueue_line_def)

end
