(* ===== verification/Endpoints.thy ===== *)
theory Endpoints
  imports Prelude
begin

text \<open>
  The small functions at the edges of the library: bootstrap host candidates
  (\<open>source/Nat64Synthesis.h\<close>), profile paths (\<open>source/PathUtils.cpp\<close>), the instance id of an
  event line (\<open>ffi/event_line_parser.cpp\<close>) and the once-only callback gate
  (\<open>ffi/dart_send_message_contract.cpp\<close>).

  A C string is \<open>None\<close> for the null pointer and otherwise the characters before the NUL. The
  resolver (\<open>getaddrinfo\<close>), \<open>inet_ntop\<close> and the environment are parameters.
\<close>

section \<open>Bootstrap hosts\<close>

fun octet :: "nat \<Rightarrow> nat \<Rightarrow> string \<Rightarrow> (nat \<times> string) option" where
  "octet val digits [] = Some (digits, [])"
| "octet val digits (c # cs) =
     (if is_digit c then
        let val' = val * 10 + digit_value c in
        if digits + 1 > 3 \<or> val' > 255 then None else octet val' (digits + 1) cs
      else Some (digits, c # cs))"

lemma octet_shorter: "octet v d p = Some (n, rest) \<Longrightarrow> length rest \<le> length p"
  by (induction v d p rule: octet.induct) (auto simp: Let_def split: if_splits)

function ipv4_loop :: "nat \<Rightarrow> string \<Rightarrow> bool" where
  "ipv4_loop octets p =
     (case octet 0 0 p of None \<Rightarrow> False
      | Some (digits, rest) \<Rightarrow>
          if digits = 0 then False
          else
            (case rest of [] \<Rightarrow> octets + 1 = 4
             | c # cs \<Rightarrow> if c \<noteq> CHR ''.'' \<or> octets + 1 = 4 then False else ipv4_loop (octets + 1) cs))"
  by pat_completeness auto
termination
  by (relation "measure (length \<circ> snd)") (auto dest: octet_shorter)

declare ipv4_loop.simps [simp del]

definition IsIpv4Literal :: "string option \<Rightarrow> bool" where
  "IsIpv4Literal host = (case host of None \<Rightarrow> False | Some h \<Rightarrow> if h = [] then False else ipv4_loop 0 h)"

record addr_info =
  ai_inet6 :: bool
  ai_addr :: "bytes option"
  ai_addrlen :: nat

definition IN6_IS_ADDR_V4MAPPED :: "bytes \<Rightarrow> bool" where
  "IN6_IS_ADDR_V4MAPPED a \<longleftrightarrow> take 12 a = replicate 10 0 @ [0xFF, 0xFF]"

text \<open>One entry of the result list; \<open>sizeof(struct sockaddr_in6)\<close> is 28.\<close>

definition add_addrinfo :: "(bytes \<Rightarrow> string option) \<Rightarrow> addr_info \<Rightarrow> string list \<Rightarrow> string list" where
  "add_addrinfo inet_ntop ai out =
     (case ai_addr ai of None \<Rightarrow> out
      | Some a \<Rightarrow>
          if \<not> ai_inet6 ai \<or> ai_addrlen ai < 28 then out
          else if IN6_IS_ADDR_V4MAPPED a then out
          else (case inet_ntop a of None \<Rightarrow> out
                | Some s \<Rightarrow> if s \<in> set out then out else out @ [s]))"

definition Ipv6StringsFromAddrinfo :: "(bytes \<Rightarrow> string option) \<Rightarrow> addr_info list \<Rightarrow> string list" where
  "Ipv6StringsFromAddrinfo inet_ntop ais = fold (add_addrinfo inet_ntop) ais []"

text \<open>\<open>apple\<close> is the \<open>__APPLE__\<close> build; \<open>resolve\<close> is \<open>getaddrinfo\<close>, \<open>None\<close> for an error.\<close>

definition SynthesizedIpv6ForIpv4Literal ::
  "bool \<Rightarrow> (string \<Rightarrow> addr_info list option) \<Rightarrow> (bytes \<Rightarrow> string option) \<Rightarrow> string \<Rightarrow> string list" where
  "SynthesizedIpv6ForIpv4Literal apple resolve inet_ntop host =
     (if apple then
        if \<not> IsIpv4Literal (Some host) then []
        else (case resolve host of None \<Rightarrow> [] | Some res \<Rightarrow>
                if res = [] then [] else Ipv6StringsFromAddrinfo inet_ntop res)
      else [])"

definition BootstrapHostCandidates ::
  "bool \<Rightarrow> (string \<Rightarrow> addr_info list option) \<Rightarrow> (bytes \<Rightarrow> string option) \<Rightarrow> string option \<Rightarrow> string list" where
  "BootstrapHostCandidates apple resolve inet_ntop host =
     (case host of None \<Rightarrow> []
      | Some h \<Rightarrow> SynthesizedIpv6ForIpv4Literal apple resolve inet_ntop h @ [h])"

section \<open>Paths\<close>

text \<open>A path is the list of its components.\<close>

datatype platform = Windows | Apple | Other

definition env_set :: "(string \<Rightarrow> string option) \<Rightarrow> string \<Rightarrow> string option" where
  "env_set env v = (case env v of Some x \<Rightarrow> if x = [] then None else Some x | None \<Rightarrow> None)"

definition GetDefaultDataDir :: "platform \<Rightarrow> (string \<Rightarrow> string option) \<Rightarrow> string list" where
  "GetDefaultDataDir pl env =
     (let fallback = [''./tim2tox_data''] in
      case pl of
        Windows \<Rightarrow> (case env_set env ''APPDATA'' of Some d \<Rightarrow> [d, ''tim2tox''] | None \<Rightarrow> fallback)
      | Apple \<Rightarrow> (case env_set env ''HOME'' of
                   Some h \<Rightarrow> [h, ''Library'', ''Application Support'', ''tim2tox''] | None \<Rightarrow> fallback)
      | Other \<Rightarrow> (case env_set env ''XDG_DATA_HOME'' of
                   Some x \<Rightarrow> [x, ''tim2tox'']
                 | None \<Rightarrow> (case env_set env ''HOME'' of
                             Some h \<Rightarrow> [h, ''.local'', ''share'', ''tim2tox''] | None \<Rightarrow> fallback)))"

definition BuildProfilePath :: "string list \<Rightarrow> int \<Rightarrow> string list" where
  "BuildProfilePath base_dir instance_id =
     (if instance_id = 0 then base_dir @ [''tox_profile.tox'']
      else base_dir @ [''tox_profile_'' @ dec_int instance_id @ ''.tox''])"

section \<open>Event lines\<close>

definition kRoutedPrefixes :: "string list" where
  "kRoutedPrefixes =
     [''progress_recv:'', ''file_done:'', ''file_request:'', ''avatar_request:'', ''file_recv_failed:'']"

text \<open>\<open>std::from_chars\<close> on \<open>int64_t\<close>, base 10, all of the text: \<open>None\<close> when it stops early or overflows.\<close>

definition from_chars_all :: "string \<Rightarrow> int option" where
  "from_chars_all s =
     (if s \<noteq> [] \<and> list_all is_digit s \<and> dec_value s < 2 ^ 63 then Some (int (dec_value s)) else None)"

definition routed_id :: "string \<Rightarrow> string option" where
  "routed_id line =
     (case List.find (\<lambda>p. prefix p line) kRoutedPrefixes of None \<Rightarrow> None
      | Some p \<Rightarrow>
          (case find_from '':'' line (length p) of None \<Rightarrow> None
           | Some delimiter \<Rightarrow> Some (substr line (length p) (delimiter - length p))))"

definition ParseInstanceIdFromLine :: "string \<Rightarrow> int" where
  "ParseInstanceIdFromLine line =
     (case routed_id line of None \<Rightarrow> 0
      | Some id_text \<Rightarrow>
          if id_text = [] \<or> \<not> is_digit (hd id_text) then 0
          else (case from_chars_all id_text of None \<Rightarrow> 0
                | Some instance_id \<Rightarrow> if instance_id \<le> 0 then 0 else instance_id))"

section \<open>The callback gate\<close>

definition TryComplete :: "u32 \<Rightarrow> u32 \<times> bool" where
  "TryComplete attempt_count = (attempt_count + 1, attempt_count = 0)"

text \<open>\<open>n\<close> attempts in a row, by whichever threads: \<open>fetch_add\<close> is atomic.\<close>

fun attempts :: "nat \<Rightarrow> u32 \<Rightarrow> bool list" where
  "attempts 0 c = []"
| "attempts (Suc n) c = (case TryComplete c of (c', won) \<Rightarrow> won # attempts n c')"

section \<open>Lemmas\<close>

lemma foldl_digits_mono: "v \<le> foldl (\<lambda>acc c. 10 * acc + digit_value c) v t"
proof (induction t arbitrary: v)
  case (Cons c t)
  have "v \<le> 10 * v + digit_value c" by simp
  also have "\<dots> \<le> foldl (\<lambda>acc c. 10 * acc + digit_value c) (10 * v + digit_value c) t" by (rule Cons.IH)
  finally show ?case by simp
qed simp

lemma octet_takeWhile:
  assumes "d \<le> 3" "v \<le> 255"
  shows "octet v d p =
    (let t = takeWhile is_digit p in
     if d + length t \<le> 3 \<and> foldl (\<lambda>acc c. 10 * acc + digit_value c) v t \<le> 255
     then Some (d + length t, dropWhile is_digit p) else None)"
  using assms
proof (induction p arbitrary: v d)
  case (Cons c p)
  let ?v = "10 * v + digit_value c"
  have "?v \<le> foldl (\<lambda>acc c. 10 * acc + digit_value c) ?v (takeWhile is_digit p)"
    by (rule foldl_digits_mono)
  then show ?case
    using Cons.prems Cons.IH [of "Suc d" ?v] by (auto simp: Let_def mult.commute split: if_splits)
qed (simp add: Let_def)

definition is_octet :: "string \<Rightarrow> bool" where
  "is_octet t \<longleftrightarrow> t \<noteq> [] \<and> list_all is_digit t \<and> length t \<le> 3 \<and> dec_value t \<le> 255"

fun dotted :: "string list \<Rightarrow> string" where
  "dotted [] = []"
| "dotted [t] = t"
| "dotted (t # u # ts) = t @ ''.'' @ dotted (u # ts)"

lemma octet_Some:
  "octet 0 0 p = Some (n, rest) \<longleftrightarrow>
     n = length (takeWhile is_digit p) \<and> rest = dropWhile is_digit p \<and> n \<le> 3 \<and>
     dec_value (takeWhile is_digit p) \<le> 255"
  by (auto simp: octet_takeWhile Let_def dec_value_def)

lemma octet_run:
  assumes "list_all is_digit t" "rest = [] \<or> \<not> is_digit (hd rest)"
  shows "takeWhile is_digit (t @ rest) = t" "dropWhile is_digit (t @ rest) = rest"
  using assms by (cases rest; simp add: list_all_iff takeWhile_append dropWhile_append)+

lemma ipv4_loop_last: "ipv4_loop 3 p \<longleftrightarrow> is_octet p"
proof -
  have "ipv4_loop 3 p \<longleftrightarrow> (\<exists>n. octet 0 0 p = Some (n, []) \<and> n \<noteq> 0)"
    by (subst ipv4_loop.simps) (auto split: option.splits list.splits)
  also have "\<dots> \<longleftrightarrow> is_octet p"
  proof
    assume "\<exists>n. octet 0 0 p = Some (n, []) \<and> n \<noteq> 0"
    then have h: "dropWhile is_digit p = []" "takeWhile is_digit p \<noteq> []"
      "length (takeWhile is_digit p) \<le> 3" "dec_value (takeWhile is_digit p) \<le> 255"
      by (auto simp: octet_Some)
    then have eq: "takeWhile is_digit p = p" by (metis append_Nil2 takeWhile_dropWhile_id)
    then have "list_all is_digit p" by (simp add: list_all_iff takeWhile_eq_all_conv)
    then show "is_octet p" using h by (simp only: eq is_octet_def) simp
  next
    assume p: "is_octet p"
    then have "takeWhile is_digit p = p" "dropWhile is_digit p = []"
      using octet_run [of p "[]"] by (simp_all only: is_octet_def append_Nil2 simp_thms)
    then have "octet 0 0 p = Some (length p, [])"
      using p by (simp only: octet_Some is_octet_def)
    then show "\<exists>n. octet 0 0 p = Some (n, []) \<and> n \<noteq> 0"
      using p by (simp add: is_octet_def)
  qed
  finally show ?thesis .
qed

lemma ipv4_loop_more:
  assumes "o' < 3"
  shows "ipv4_loop o' p \<longleftrightarrow> (\<exists>t q. p = t @ ''.'' @ q \<and> is_octet t \<and> ipv4_loop (Suc o') q)"
proof
  assume "ipv4_loop o' p"
  then have "case octet 0 0 p of None \<Rightarrow> False | Some (digits, rest) \<Rightarrow>
      if digits = 0 then False
      else (case rest of [] \<Rightarrow> o' + 1 = 4
            | c # cs \<Rightarrow> if c \<noteq> CHR ''.'' \<or> o' + 1 = 4 then False else ipv4_loop (o' + 1) cs)"
    by (simp only: ipv4_loop.simps [of o' p])
  then obtain n cs where o1: "octet 0 0 p = Some (n, CHR ''.'' # cs)" "n \<noteq> 0" "ipv4_loop (Suc o') cs"
    using assms
    by (cases "octet 0 0 p") (auto split: list.splits if_splits simp: neq_Nil_conv)
  let ?t = "takeWhile is_digit p"
  have "p = ?t @ ''.'' @ cs" "is_octet ?t"
    using o1 takeWhile_dropWhile_id [of is_digit p]
    by (auto simp: octet_Some is_octet_def list_all_iff dest: set_takeWhileD)
  with o1(3) show "\<exists>t q. p = t @ ''.'' @ q \<and> is_octet t \<and> ipv4_loop (Suc o') q" by blast
next
  assume "\<exists>t q. p = t @ ''.'' @ q \<and> is_octet t \<and> ipv4_loop (Suc o') q"
  then obtain t q where q: "p = t @ ''.'' @ q" "is_octet t" "ipv4_loop (Suc o') q" by blast
  then have "octet 0 0 p = Some (length t, CHR ''.'' # q)"
    using octet_run [of t "''.'' @ q"] by (simp add: octet_Some is_octet_def is_digit_def)
  then show "ipv4_loop o' p" using q assms by (subst ipv4_loop.simps) (simp add: is_octet_def)
qed

lemma distinct_add_addrinfo: "distinct out \<Longrightarrow> distinct (add_addrinfo ntop ai out)"
  by (auto simp: add_addrinfo_def split: option.splits)

lemma distinct_fold_add: "distinct out \<Longrightarrow> distinct (fold (add_addrinfo ntop) ais out)"
  by (induction ais arbitrary: out) (simp_all add: distinct_add_addrinfo)

lemma set_fold_add:
  "set (fold (add_addrinfo ntop) ais out) = set out \<union>
     {s. \<exists>ai \<in> set ais. \<exists>a. ai_addr ai = Some a \<and> ai_inet6 ai \<and> 28 \<le> ai_addrlen ai \<and>
          \<not> IN6_IS_ADDR_V4MAPPED a \<and> ntop a = Some s}"
proof (induction ais arbitrary: out)
  case (Cons ai ais)
  have "set (add_addrinfo ntop ai out) = set out \<union>
     {s. \<exists>a. ai_addr ai = Some a \<and> ai_inet6 ai \<and> 28 \<le> ai_addrlen ai \<and>
          \<not> IN6_IS_ADDR_V4MAPPED a \<and> ntop a = Some s}"
    by (auto simp: add_addrinfo_def split: option.splits)
  then show ?case by (auto simp: Cons.IH)
qed simp

lemma attempts_false: "\<forall>i < n. c + word_of_nat i \<noteq> 0 \<Longrightarrow> attempts n c = replicate n False"
proof (induction n arbitrary: c)
  case (Suc n)
  have "c \<noteq> 0" using Suc.prems [rule_format, of 0] by simp
  moreover have "\<forall>i < n. c + 1 + word_of_nat i \<noteq> 0"
    using Suc.prems by (metis Suc_less_eq add.assoc of_nat_Suc)
  ultimately show ?case using Suc.IH by (simp add: TryComplete_def)
qed simp

section \<open>Properties\<close>

text \<open>
  \<open>IsIpv4Literal\<close> accepts exactly the strings of four octets separated by dots, an octet
  being one to three digits of value at most 255.
\<close>

theorem ipv4_literal_iff:
  "IsIpv4Literal (Some h) \<longleftrightarrow>
     (\<exists>a b c d. h = a @ ''.'' @ b @ ''.'' @ c @ ''.'' @ d \<and> is_octet a \<and> is_octet b \<and> is_octet c \<and> is_octet d)"
proof -
  have "ipv4_loop 0 h \<longleftrightarrow>
      (\<exists>a b c d. h = a @ ''.'' @ b @ ''.'' @ c @ ''.'' @ d \<and> is_octet a \<and> is_octet b \<and> is_octet c \<and> is_octet d)"
    by (simp add: ipv4_loop_more ipv4_loop_last numeral_2_eq_2 numeral_3_eq_3 [symmetric]) blast
  then show ?thesis by (auto simp: IsIpv4Literal_def is_octet_def)
qed

text \<open>
  Bootstrap candidates: the host itself is always the last candidate; before it come, once
  each, the non-mapped IPv6 results of the resolver, and only for an IPv4 literal on Apple
  platforms.
\<close>

theorem bootstrap_candidates:
  "\<exists>synth. BootstrapHostCandidates apple resolve ntop (Some h) = synth @ [h] \<and> distinct synth \<and>
     set synth = (if apple \<and> IsIpv4Literal (Some h)
       then {s. \<exists>res ai a. resolve h = Some res \<and> ai \<in> set res \<and> ai_addr ai = Some a \<and> ai_inet6 ai \<and>
               28 \<le> ai_addrlen ai \<and> \<not> IN6_IS_ADDR_V4MAPPED a \<and> ntop a = Some s}
       else {})"
  by (rule exI [of _ "SynthesizedIpv6ForIpv4Literal apple resolve ntop h"])
    (auto simp: BootstrapHostCandidates_def SynthesizedIpv6ForIpv4Literal_def Ipv6StringsFromAddrinfo_def
      distinct_fold_add set_fold_add split: option.splits)

text \<open>C0. Two instances under one base directory never share a profile file.\<close>

theorem profile_path_inject:
  "BuildProfilePath d i = BuildProfilePath d j \<longleftrightarrow> i = j"
  by (auto simp: BuildProfilePath_def)

lemma find_routed:
  assumes "p \<in> set kRoutedPrefixes"
  shows "List.find (\<lambda>q. prefix q (p @ s)) kRoutedPrefixes = Some p"
  using assms unfolding kRoutedPrefixes_def list.set insert_iff empty_iff by (elim disjE) simp_all

text \<open>
  The instance id of a routed event line: a line built with any of the routed prefixes and a
  positive id that fits \<open>int64_t\<close> gives that id, whatever follows the separator.
\<close>

theorem instance_id_roundtrip:
  assumes "p \<in> set kRoutedPrefixes" "0 < n" "n < 2 ^ 63"
  shows "ParseInstanceIdFromLine (p @ dec_nat n @ '':'' @ rest) = int n"
proof -
  have "CHR '':'' \<notin> set (dec_nat n)"
    using dec_nat_digits [of n] by (auto simp: list_all_iff is_digit_def)
  then have "\<not> sublist '':'' (dec_nat n)" by (meson list.set_intros(1) set_mono_sublist subsetD)
  then have "find_str '':'' (dec_nat n @ '':'' @ rest) = Some (length (dec_nat n))"
    using find_str_before_copy [of "CHR '':''" "[]" "dec_nat n" rest] by simp
  then have "routed_id (p @ dec_nat n @ '':'' @ rest) = Some (dec_nat n)"
    using find_routed [OF assms(1)] by (simp add: routed_id_def find_from_def substr_def)
  moreover have "is_digit (hd (dec_nat n))"
    using dec_nat_digits [of n] by (simp add: list_all_iff)
  ultimately show ?thesis
    using assms(2,3) dec_nat_digits [of n] by (simp add: ParseInstanceIdFromLine_def from_chars_all_def)
qed

theorem instance_id_roundtrip_witness:
  "ParseInstanceIdFromLine (''file_done:'' @ dec_nat 42 @ '':'' @ ''abc'') = 42"
  using instance_id_roundtrip [of "''file_done:''" 42 "''abc''"] by (simp add: kRoutedPrefixes_def)

text \<open>
  The gate lets exactly the first of any \<open>2^32\<close> attempts through; attempt \<open>2^32 + 1\<close> would
  pass again, the counter having wrapped.
\<close>

theorem gate_once:
  assumes "n < 2 ^ 32"
  shows "attempts (Suc n) 0 = True # replicate n False"
proof -
  have "\<forall>i < n. (1 :: u32) + word_of_nat i \<noteq> 0"
  proof (intro allI impI notI)
    fix i assume i: "i < n" and z: "(1 :: u32) + word_of_nat i = 0"
    then have "(word_of_nat (Suc i) :: u32) = 0" by simp
    then have "2 ^ 32 dvd Suc i" by (simp only: word_of_nat_eq_0_iff) simp
    then show False using i assms by (auto dest: dvd_imp_le)
  qed
  then show ?thesis using attempts_false [of n 1] by (simp add: TryComplete_def)
qed

theorem gate_once_witness: "attempts (Suc 3) 0 = True # replicate 3 False"
  by (rule gate_once) simp

end
