(* ===== verification/MessageUtils.thy ===== *)
theory MessageUtils
  imports Prelude
begin

text \<open>
  The text framings that carry structured data inside a Tox message:
  \<open>source/MessageReplyUtil.cpp\<close> (replies), \<open>source/MergerMessageUtil.cpp\<close> (merged messages) and
  \<open>source/RevokeMessageUtil.cpp\<close> (revocations).

  A V2TIM buffer is a byte list, empty for the null buffer. The scanners of the source walk an
  index over the text; here they recurse on the text that is left. \<open>-1\<close> positions and \<open>npos\<close>
  are \<open>None\<close>. Brace depth is a natural number (the source's \<open>int\<close> starts at 1 and the loop ends
  at 0). Time stamps are integers: seconds since 1970 stay far from the ends of \<open>int64_t\<close>.
\<close>

abbreviation quote :: char where "quote \<equiv> CHR 0x22"
abbreviation backslash :: char where "backslash \<equiv> CHR 0x5C"
abbreviation lbrace :: char where "lbrace \<equiv> CHR 0x7B"
abbreviation rbrace :: char where "rbrace \<equiv> CHR 0x7D"
abbreviation nl :: char where "nl \<equiv> CHR 0x0A"
abbreviation cr :: char where "cr \<equiv> CHR 0x0D"
abbreviation tab :: char where "tab \<equiv> CHR 0x09"

definition quoted :: "string \<Rightarrow> string" where
  "quoted k = quote # k @ [quote]"

definition to_buffer :: "string \<Rightarrow> bytes" where
  "to_buffer s = map byte_of s"

definition from_buffer :: "bytes \<Rightarrow> string" where
  "from_buffer b = map char_at b"

section \<open>Extracting values\<close>

text \<open>Key, colon, blanks: where the value of \<open>key\<close> starts, common to all extractors.\<close>

definition value_after_key :: "string \<Rightarrow> string \<Rightarrow> string option" where
  "value_after_key json key =
     (case find_str (quoted key) json of None \<Rightarrow> None
      | Some keyPos \<Rightarrow>
          (case find_from '':'' json keyPos of None \<Rightarrow> None
           | Some colonPos \<Rightarrow>
               let v = dropWhile (\<lambda>c. c = CHR '' '' \<or> c = tab) (drop (colonPos + 1) json) in
               if v = [] then None else Some v))"

fun scan_object :: "nat \<Rightarrow> string \<Rightarrow> string option" where
  "scan_object braceCount [] = None"
| "scan_object braceCount (c # cs) =
     (let n = (if c = lbrace then braceCount + 1 else if c = rbrace then braceCount - 1 else braceCount) in
      if n = 0 then Some [] else map_option (Cons c) (scan_object n cs))"

definition simple_value :: "string \<Rightarrow> string" where
  "simple_value v =
     takeWhile (\<lambda>c. c \<noteq> CHR '','' \<and> c \<noteq> rbrace \<and> c \<noteq> CHR '']'' \<and> c \<noteq> CHR '' '' \<and> c \<noteq> tab \<and>
                    c \<noteq> nl \<and> c \<noteq> cr) v"

definition reply_ExtractJsonValue :: "string \<Rightarrow> string \<Rightarrow> string" where
  "reply_ExtractJsonValue json key =
     (case value_after_key json key of None \<Rightarrow> ''''
      | Some v \<Rightarrow>
          if hd v = quote then
            (case find_str [quote] (tl v) of None \<Rightarrow> '''' | Some strEnd \<Rightarrow> take strEnd (tl v))
          else if hd v = lbrace then
            (case scan_object 1 (tl v) of None \<Rightarrow> '''' | Some body \<Rightarrow> [lbrace] @ body @ [rbrace])
          else simple_value v)"

definition HasJsonKey :: "string \<Rightarrow> string \<Rightarrow> bool" where
  "HasJsonKey json key \<longleftrightarrow> find_str (quoted key) json \<noteq> None"

text \<open>The string scanner of the revoke and merger utilities: an escape skips one character.\<close>

fun scan_string :: "bool \<Rightarrow> string \<Rightarrow> string option" where
  "scan_string escaped [] = None"
| "scan_string escaped (c # cs) =
     (if escaped then map_option (Cons c) (scan_string False cs)
      else if c = backslash then map_option (Cons c) (scan_string True cs)
      else if c = quote then Some []
      else map_option (Cons c) (scan_string False cs))"

fun unescape :: "string \<Rightarrow> string" where
  "unescape (c # d # cs) =
     (if c = backslash then
        if d = CHR ''n'' then nl # unescape cs
        else if d = CHR ''r'' then cr # unescape cs
        else if d = CHR ''t'' then tab # unescape cs
        else if d = quote then quote # unescape cs
        else if d = backslash then backslash # unescape cs
        else c # unescape (d # cs)
      else c # unescape (d # cs))"
| "unescape cs = cs"

definition revoke_ExtractJsonValue :: "string \<Rightarrow> string \<Rightarrow> string" where
  "revoke_ExtractJsonValue json key =
     (case value_after_key json key of None \<Rightarrow> ''''
      | Some v \<Rightarrow>
          if hd v = quote then
            (case scan_string False (tl v) of None \<Rightarrow> '''' | Some val \<Rightarrow> unescape val)
          else simple_value v)"

text \<open>The two escapings of the builders: identifiers, and free text.\<close>

definition escape_id :: "string \<Rightarrow> string" where
  "escape_id s = concat (map (\<lambda>c. if c = quote then [backslash, quote]
                                  else if c = backslash then [backslash, backslash] else [c]) s)"

definition escape_text :: "string \<Rightarrow> string" where
  "escape_text s = concat (map (\<lambda>c. if c = quote then [backslash, quote]
                                    else if c = backslash then [backslash, backslash]
                                    else if c = nl then [backslash, CHR ''n'']
                                    else if c = cr then [backslash, CHR ''r'']
                                    else if c = tab then [backslash, CHR ''t''] else [c]) s)"

section \<open>Replies\<close>

definition REPLY_START_MARKER :: string where "REPLY_START_MARKER = ''[REPLY_START]''"
definition REPLY_END_MARKER :: string where "REPLY_END_MARKER = ''[REPLY_END]''"

definition ExtractReplyJsonFromCloudCustomData :: "bytes \<Rightarrow> string" where
  "ExtractReplyJsonFromCloudCustomData cloudCustomData =
     (if cloudCustomData = [] then ''''
      else
        let cloudDataStr = from_buffer cloudCustomData;
            reference = reply_ExtractJsonValue cloudDataStr ''messageReference'';
            reply = reply_ExtractJsonValue cloudDataStr ''messageReply'' in
        if HasJsonKey cloudDataStr ''messageReference'' \<and> reference \<noteq> '''' \<and> reference ! 0 = lbrace
        then reference
        else if HasJsonKey cloudDataStr ''messageReply'' \<and> reply \<noteq> '''' \<and> reply ! 0 = lbrace
        then reply
        else '''')"

definition BuildMessageWithReply :: "string \<Rightarrow> string \<Rightarrow> string" where
  "BuildMessageWithReply replyJson txt =
     (if replyJson = [] then txt
      else REPLY_START_MARKER @ replyJson @ REPLY_END_MARKER @ [nl] @ txt)"

text \<open>
  The marker parser of the reply and merger utilities: whether the message is framed, the
  framed JSON and the text after it.
\<close>

definition parse_framed :: "string \<Rightarrow> string \<Rightarrow> string \<Rightarrow> bool \<times> string \<times> string" where
  "parse_framed START END message =
     (case (find_str START message, find_str END message) of
        (Some startPos, Some endPos) \<Rightarrow>
          if endPos \<le> startPos then (False, '''', message)
          else
            let jsonStart = startPos + length START;
                jsonLength = endPos - jsonStart;
                json = substr message jsonStart jsonLength;
                textStart = endPos + length END in
            if textStart < length message
            then (True, json, dropWhile (\<lambda>c. c = nl \<or> c = cr) (drop textStart message))
            else (True, json, '''')
      | _ \<Rightarrow> (False, '''', message))"

definition ParseMessageWithReply :: "string \<Rightarrow> bool \<times> string \<times> string" where
  "ParseMessageWithReply message = parse_framed REPLY_START_MARKER REPLY_END_MARKER message"

definition BuildCloudCustomDataFromReplyJson :: "string \<Rightarrow> bytes" where
  "BuildCloudCustomDataFromReplyJson replyJson =
     (if replyJson = [] then []
      else to_buffer (([lbrace] @ quoted ''messageReference'' @ '':'') @ replyJson @ [rbrace]))"

definition IsMessageTooLong :: "string \<Rightarrow> bool" where
  "IsMessageTooLong message \<longleftrightarrow> length message > 1372"

definition CompressReplyJson :: "string \<Rightarrow> string" where
  "CompressReplyJson replyJson =
     (let messageID = reply_ExtractJsonValue replyJson ''messageID'';
          version = reply_ExtractJsonValue replyJson ''version'' in
      if messageID = [] then replyJson
      else [lbrace] @
        (if version \<noteq> [] then quoted ''version'' @ '':'' @ version @ '',''
         else quoted ''version'' @ '':1,'') @
        quoted ''messageID'' @ '':'' @ quoted messageID @ [rbrace])"

definition RemoveReplyFromCloudCustomData :: "bytes \<Rightarrow> bytes" where
  "RemoveReplyFromCloudCustomData cloudCustomData =
     (if cloudCustomData = [] then cloudCustomData
      else
        let cloudDataStr = from_buffer cloudCustomData in
        if \<not> HasJsonKey cloudDataStr ''messageReference'' \<and> \<not> HasJsonKey cloudDataStr ''messageReply''
        then cloudCustomData else [])"

section \<open>Merged messages\<close>

definition MERGER_START_MARKER :: string where "MERGER_START_MARKER = ''[MERGER_START]''"
definition MERGER_END_MARKER :: string where "MERGER_END_MARKER = ''[MERGER_END]''"

text \<open>\<open>std::string(s.CString())\<close> stops at the first NUL.\<close>

definition CString :: "string \<Rightarrow> string" where
  "CString s = takeWhile (\<lambda>c. c \<noteq> CHR 0x00) s"

fun json_strings :: "(string \<Rightarrow> string) \<Rightarrow> string list \<Rightarrow> string" where
  "json_strings esc [] = ''''"
| "json_strings esc [x] = quoted (esc (CString x))"
| "json_strings esc (x # y # xs) = quoted (esc (CString x)) @ '','' @ json_strings esc (y # xs)"

definition BuildMergerJson :: "string list \<Rightarrow> string \<Rightarrow> string list \<Rightarrow> string" where
  "BuildMergerJson messageIDs title abstractList =
     [lbrace] @ quoted ''title'' @ '':'' @ quoted (escape_text (CString title)) @ '','' @
     quoted ''abstractList'' @ '':['' @ json_strings escape_text abstractList @ ''],'' @
     quoted ''messageIDList'' @ '':['' @ json_strings escape_id messageIDs @ '']'' @ [rbrace]"

definition BuildMessageWithMerger :: "string \<Rightarrow> string \<Rightarrow> string" where
  "BuildMessageWithMerger mergerJson compatibleText =
     MERGER_START_MARKER @ mergerJson @ MERGER_END_MARKER @ [nl] @ compatibleText"

definition ParseMessageWithMerger :: "string \<Rightarrow> bool \<times> string \<times> string" where
  "ParseMessageWithMerger message = parse_framed MERGER_START_MARKER MERGER_END_MARKER message"

lemma scan_string_length: "scan_string e s = Some v \<Longrightarrow> length v < length s"
  by (induction e s arbitrary: v rule: scan_string.induct) (auto split: if_splits)

text \<open>The element loop of \<open>ExtractJsonArray\<close>, on the text from the current position.\<close>

definition skip_comma :: "string \<Rightarrow> string" where
  "skip_comma s = (if s \<noteq> [] \<and> hd s = CHR '','' then tl s else s)"

lemma length_skip_comma: "length (skip_comma s) \<le> length s"
  by (simp add: skip_comma_def)

lemma skip_value_shorter:
  assumes "t \<noteq> []" "hd t \<noteq> CHR '']''"
  shows "length (skip_comma (dropWhile (\<lambda>c. c \<noteq> CHR '','' \<and> c \<noteq> CHR '']'') t)) < length t"
proof (cases t)
  case (Cons c cs)
  then show ?thesis
    using assms length_dropWhile_le [of "\<lambda>c. c \<noteq> CHR '','' \<and> c \<noteq> CHR '']''" cs]
      length_skip_comma [of "dropWhile (\<lambda>c. c \<noteq> CHR '','' \<and> c \<noteq> CHR '']'') cs"]
    by (cases "c = CHR '',''") (auto simp: skip_comma_def)
qed (use assms in simp)

function array_loop :: "string \<Rightarrow> string list \<Rightarrow> string list" where
  "array_loop s result =
     (if s = [] \<or> hd s = CHR '']'' then result
      else
        let t = dropWhile (\<lambda>c. c = CHR '' '' \<or> c = tab \<or> c = nl \<or> c = cr) s in
        if t = [] \<or> hd t = CHR '']'' then result
        else if hd t = quote then
          (case scan_string False (tl t) of
             None \<Rightarrow> result
           | Some val \<Rightarrow> array_loop (skip_comma (drop (length val + 1) (tl t))) (result @ [unescape val]))
        else array_loop (skip_comma (dropWhile (\<lambda>c. c \<noteq> CHR '','' \<and> c \<noteq> CHR '']'') t)) result)"
  by pat_completeness auto
termination
proof (relation "measure (length \<circ> fst)", goal_cases)
  case 1
  then show ?case by simp
next
  case (2 s result t val)
  have "length (skip_comma (drop (length val + 1) (tl t))) \<le> length (tl t)"
    by (rule order_trans [OF length_skip_comma]) simp
  also have "\<dots> < length t" using 2 by (metis length_tl diff_less length_greater_0_conv zero_less_one)
  also have "\<dots> \<le> length s" using 2 by (simp add: length_dropWhile_le)
  finally show ?case by simp
next
  case (3 s result t)
  then have "length (skip_comma (dropWhile (\<lambda>c. c \<noteq> CHR '','' \<and> c \<noteq> CHR '']'') t)) < length t"
    by (intro skip_value_shorter) auto
  also have "\<dots> \<le> length s" using 3 by (simp add: length_dropWhile_le)
  finally show ?case by simp
qed

declare array_loop.simps [simp del]

definition ExtractJsonArray :: "string \<Rightarrow> string \<Rightarrow> string list" where
  "ExtractJsonArray json key =
     (case value_after_key json key of None \<Rightarrow> []
      | Some v \<Rightarrow> if hd v \<noteq> CHR ''['' then [] else array_loop (tl v) [])"

definition ExtractMessageIDs :: "string \<Rightarrow> string list" where
  "ExtractMessageIDs mergerJson =
     (if find_str ''messageIDList'' mergerJson \<noteq> None then ExtractJsonArray mergerJson ''messageIDList''
      else if mergerJson \<noteq> [] \<and> mergerJson ! 0 = CHR ''['' then
        ExtractJsonArray ([lbrace] @ quoted ''array'' @ '':'' @ mergerJson @ [rbrace]) ''array''
      else [])"

definition ExtractAbstractList :: "string \<Rightarrow> string list" where
  "ExtractAbstractList mergerJson = ExtractJsonArray mergerJson ''abstractList''"

section \<open>Revocations\<close>

definition REVOKE_START_MARKER :: string where "REVOKE_START_MARKER = ''[REVOKE_START]''"
definition REVOKE_END_MARKER :: string where "REVOKE_END_MARKER = ''[REVOKE_END]''"

datatype msg_status =
  V2TIM_MSG_STATUS_SENDING | V2TIM_MSG_STATUS_SEND_SUCC | V2TIM_MSG_STATUS_SEND_FAIL
  | V2TIM_MSG_STATUS_HAS_DELETED | V2TIM_MSG_STATUS_LOCAL_IMPORTED | V2TIM_MSG_STATUS_LOCAL_REVOKED

text \<open>\<open>now\<close> is the system clock in seconds.\<close>

definition CanRevokeMessage :: "int \<Rightarrow> msg_status \<Rightarrow> int \<Rightarrow> int \<Rightarrow> bool" where
  "CanRevokeMessage now status timestamp maxRevokeTimeSeconds =
     (if status = V2TIM_MSG_STATUS_LOCAL_REVOKED then False
      else if status \<noteq> V2TIM_MSG_STATUS_SEND_SUCC then False
      else
        let timeDiff = now - timestamp in
        if timeDiff < 0 then True else timeDiff \<le> maxRevokeTimeSeconds)"

definition BuildRevokeJson :: "int \<Rightarrow> string \<Rightarrow> string \<Rightarrow> string \<Rightarrow> string" where
  "BuildRevokeJson now msgID revoker reason =
     [lbrace] @ quoted ''msgID'' @ '':'' @ quoted (escape_id msgID) @ '','' @
     quoted ''revoker'' @ '':'' @ quoted (escape_id revoker) @ '','' @
     quoted ''timestamp'' @ '':'' @ dec_int now @ '','' @
     quoted ''reason'' @ '':'' @ quoted (escape_text reason) @ [rbrace]"

definition BuildRevokeMessage :: "string \<Rightarrow> bytes" where
  "BuildRevokeMessage revokeJson = to_buffer (REVOKE_START_MARKER @ revokeJson @ REVOKE_END_MARKER)"

text \<open>\<open>None\<close> where the source returns before it assigns the three out-parameters.\<close>

definition ParseRevokeMessage :: "bytes \<Rightarrow> bool \<times> (string \<times> string \<times> string) option" where
  "ParseRevokeMessage data =
     (if data = [] then (False, None)
      else
        let messageStr = from_buffer data in
        case (find_str REVOKE_START_MARKER messageStr, find_str REVOKE_END_MARKER messageStr) of
          (Some startPos, Some endPos) \<Rightarrow>
            if endPos \<le> startPos then (False, None)
            else
              let jsonStart = startPos + length REVOKE_START_MARKER;
                  json = substr messageStr jsonStart (endPos - jsonStart);
                  msgID = revoke_ExtractJsonValue json ''msgID'';
                  revoker = revoke_ExtractJsonValue json ''revoker'';
                  reason = revoke_ExtractJsonValue json ''reason'' in
              (msgID \<noteq> [] \<and> revoker \<noteq> [], Some (msgID, revoker, reason))
        | _ \<Rightarrow> (False, None))"

section \<open>Marker framing\<close>

text \<open>
  What the parsers rely on of a pair of markers: the end marker cannot begin inside the start
  marker, and its first character does not recur in it.
\<close>

locale marker_pair =
  fixes START END :: string
  assumes no_overlap: "j < length START \<Longrightarrow> \<not> prefix END (drop j (START @ rest))"
    and END_nonempty: "END \<noteq> []"
    and END_head: "hd END \<notin> set (tl END)"
begin

text \<open>The JSON length never wraps: an end marker after the start marker is after all of it.\<close>

lemma end_after_start:
  assumes "find_str START m = Some i" "find_str END m = Some j" "i < j"
  shows "i + length START \<le> j"
proof (rule ccontr)
  assume "\<not> i + length START \<le> j"
  then have k: "j - i < length START" using assms(3) by simp
  obtain rest where rest: "drop i m = START @ rest"
    using find_str_Some_prefix [OF assms(1)] by (auto simp: prefix_def)
  have "drop (j - i) (START @ rest) = drop j m"
    using rest assms(3) by (metis drop_drop le_add_diff_inverse2 less_imp_le)
  then show False
    using no_overlap [OF k, of rest] find_str_Some_prefix [OF assms(2)] by simp
qed

lemma find_END:
  assumes "\<not> sublist END json"
  shows "find_str END (START @ json @ END @ s) = Some (length START + length json)"
proof -
  have "find_str END (START @ json @ END @ s) =
      map_option ((+) (length START)) (find_str END (json @ END @ s))"
    by (rule find_str_skip) (rule no_overlap)
  moreover have "find_str END (json @ END @ s) = Some (length json)"
    using find_str_before_copy [of "hd END" "tl END" json s] assms END_nonempty END_head by simp
  ultimately show ?thesis by simp
qed

lemma parse_framed_build:
  assumes "\<not> sublist END json" "START \<noteq> []"
  shows "parse_framed START END (START @ json @ END @ [nl] @ txt) =
           (True, json, dropWhile (\<lambda>c. c = nl \<or> c = cr) txt)"
proof -
  let ?m = "START @ json @ END @ [nl] @ txt"
  have "find_str START ?m = Some 0" by simp
  moreover have "find_str END ?m = Some (length START + length json)"
    by (rule find_END [OF assms(1)])
  moreover have "substr ?m (length START) (length json) = json"
    by (simp add: substr_def)
  moreover have "drop (length START + length json + length END) ?m = nl # txt"
    by simp
  ultimately show ?thesis using assms(2)
    by (simp add: parse_framed_def Let_def)
qed

lemma parse_framed_result:
  "parse_framed START END m = (b, json, txt) \<Longrightarrow>
     if b then sublist json m \<and> sublist txt m else json = [] \<and> txt = m"
  by (auto simp: parse_framed_def substr_def Let_def split: option.splits if_splits
      intro: sublist_order.order_trans [OF sublist_take] sublist_order.order_trans [OF sublist_dropWhile])

end

interpretation reply: marker_pair REPLY_START_MARKER REPLY_END_MARKER
  by unfold_locales (auto simp: REPLY_START_MARKER_def REPLY_END_MARKER_def eval_nat_numeral less_Suc_eq)

interpretation merger: marker_pair MERGER_START_MARKER MERGER_END_MARKER
  by unfold_locales (auto simp: MERGER_START_MARKER_def MERGER_END_MARKER_def eval_nat_numeral less_Suc_eq)

interpretation revoke: marker_pair REVOKE_START_MARKER REVOKE_END_MARKER
  by unfold_locales (auto simp: REVOKE_START_MARKER_def REVOKE_END_MARKER_def eval_nat_numeral less_Suc_eq)

section \<open>Escaping\<close>

lemma prefix_quoted: "prefix (quoted k) (c # t) \<longleftrightarrow> c = quote \<and> prefix (k @ [quote]) t"
  by (auto simp: quoted_def)

lemma unescape_plain: "c \<noteq> backslash \<Longrightarrow> unescape (c # s) = c # unescape s"
  by (cases s) simp_all

text \<open>
  A per-character escaping that \<open>unescape\<close> undoes: a character stands for itself unless it is a
  quote or a backslash, or becomes a two-character escape.
\<close>

locale escaping =
  fixes enc :: "char \<Rightarrow> string"
  assumes enc_cases: "enc c = [c] \<and> c \<noteq> quote \<and> c \<noteq> backslash \<or>
    (\<exists>d. enc c = [backslash, d] \<and> (\<forall>s. unescape (backslash # d # s) = c # unescape s))"
begin

lemma enc_elim:
  obtains "enc c = [c]" "c \<noteq> quote" "c \<noteq> backslash"
  | d where "enc c = [backslash, d]" "\<And>s. unescape (backslash # d # s) = c # unescape s"
  using enc_cases [of c] by blast

lemma unescape_enc [simp]: "unescape (concat (map enc s)) = s"
proof (induction s)
  case (Cons c s)
  then show ?case by (cases c rule: enc_elim) (simp_all add: unescape_plain del: unescape.simps)
qed simp

lemma scan_string_enc [simp]:
  "scan_string False (concat (map enc s) @ quote # rest) = Some (concat (map enc s))"
proof (induction s)
  case (Cons c s)
  then show ?case by (cases c rule: enc_elim) simp_all
qed simp

text \<open>A key cannot be read inside an escaped value, except as the whole tail of it.\<close>

lemma prefix_enc:
  assumes "prefix (k @ [quote]) (concat (map enc s) @ quote # rest)" "quote \<notin> set k" "backslash \<notin> set k"
  shows "s = k"
  using assms
proof (induction s arbitrary: k)
  case Nil
  then show ?case by (cases k) auto
next
  case (Cons c s)
  then show ?case by (cases c rule: enc_elim; cases k) auto
qed

lemma enc_quote: "enc c = [backslash, quote] \<Longrightarrow> c = quote"
  using enc_cases [of c] by auto

lemma find_key_enc:
  assumes "\<not> suffix (quote # k) s" "quote \<notin> set k" "backslash \<notin> set k"
  shows "find_str (quoted k) (concat (map enc s) @ quote # rest) =
           map_option ((+) (length (concat (map enc s)))) (find_str (quoted k) (quote # rest))"
  using assms
proof (induction s)
  case Nil
  then show ?case by (simp add: option.map_ident_strong del: find_str.simps)
next
  case (Cons c s)
  have sub: "\<not> suffix (quote # k) s" using Cons.prems(1) by (auto simp: suffix_Cons)
  note IH = Cons.IH [OF sub Cons.prems(2,3)]
  show ?case
  proof (cases c rule: enc_elim)
    case 1
    then show ?thesis by (simp add: IH prefix_quoted option.map_comp comp_def)
  next
    case (2 d)
    have "\<not> prefix (quoted k) (d # concat (map enc s) @ quote # rest)"
    proof
      assume p: "prefix (quoted k) (d # concat (map enc s) @ quote # rest)"
      then have d: "d = quote" and "prefix (k @ [quote]) (concat (map enc s) @ quote # rest)"
        by (auto simp: quoted_def)
      then have "s = k" "c = quote" using prefix_enc Cons.prems(2,3) 2(1) enc_quote by auto
      with Cons.prems(1) show False by simp
    qed
    with 2(1) show ?thesis by (auto simp: IH prefix_quoted option.map_comp comp_def)
  qed
qed

end

interpretation id_escaping: escaping "\<lambda>c. if c = quote then [backslash, quote]
    else if c = backslash then [backslash, backslash] else [c]"
  rewrites "concat (map (\<lambda>c. if c = quote then [backslash, quote]
    else if c = backslash then [backslash, backslash] else [c]) s) = escape_id s"
  by (unfold_locales, auto simp: escape_id_def)

interpretation text_escaping: escaping "\<lambda>c. if c = quote then [backslash, quote]
    else if c = backslash then [backslash, backslash]
    else if c = nl then [backslash, CHR ''n''] else if c = cr then [backslash, CHR ''r'']
    else if c = tab then [backslash, CHR ''t''] else [c]"
  rewrites "concat (map (\<lambda>c. if c = quote then [backslash, quote]
    else if c = backslash then [backslash, backslash]
    else if c = nl then [backslash, CHR ''n''] else if c = cr then [backslash, CHR ''r'']
    else if c = tab then [backslash, CHR ''t''] else [c]) s) = escape_text s"
  by (unfold_locales, auto simp: escape_text_def)

section \<open>Reading a key\<close>

text \<open>Text a search for the key passes over, whatever follows.\<close>

definition key_free :: "string \<Rightarrow> string \<Rightarrow> bool" where
  "key_free k p \<longleftrightarrow>
     (\<forall>s. find_str (quoted k) (p @ s) = map_option ((+) (length p)) (find_str (quoted k) s))"

text \<open>The keys the utilities look for.\<close>

definition plain_key :: "string \<Rightarrow> bool" where
  "plain_key k \<longleftrightarrow> k \<noteq> [] \<and> quote \<notin> set k \<and> backslash \<notin> set k \<and> CHR '':'' \<notin> set k \<and>
     CHR '','' \<notin> set k \<and> CHR '']'' \<notin> set k"

lemma key_free_append: "key_free k p \<Longrightarrow> key_free k q \<Longrightarrow> key_free k (p @ q)"
  by (auto simp: key_free_def option.map_comp comp_def add.assoc intro!: option.map_cong)

lemma key_free_Nil [simp]: "key_free k []"
  by (simp add: key_free_def option.map_ident_strong)

lemma key_free_no_quote: "quote \<notin> set p \<Longrightarrow> key_free k p"
proof (induction p)
  case (Cons c p)
  then show ?case
    by (auto simp: key_free_def prefix_quoted option.map_comp comp_def intro!: option.map_cong)
qed simp

text \<open>An escaped value that is followed by a character no key starts with.\<close>

lemma key_free_escaped:
  assumes key: "plain_key k" and c: "c \<noteq> quote" "c \<notin> set k"
    and no: "\<not> suffix (quote # k) (quote # s)"
    and skip: "\<And>rest. \<not> suffix (quote # k) s \<Longrightarrow>
      find_str (quoted k) (e @ quote # rest) = map_option ((+) (length e)) (find_str (quoted k) (quote # rest))"
    and pre: "\<And>rest. prefix (k @ [quote]) (e @ quote # rest) \<Longrightarrow> s = k"
  shows "key_free k (quoted e @ [c])"
proof -
  have s: "\<not> suffix (quote # k) s" "s \<noteq> k" using no by (auto simp: suffix_Cons)
  have tail: "find_str (quoted k) (quote # c # rest) = map_option ((+) 2) (find_str (quoted k) rest)" for rest
  proof -
    have "\<not> prefix (k @ [quote]) (c # rest)" using key c by (cases k) (auto simp: plain_key_def)
    then show ?thesis using c(1)
      by (auto simp: prefix_quoted option.map_comp comp_def intro!: option.map_cong)
  qed
  have "find_str (quoted k) (quote # e @ quote # c # rest) =
      map_option Suc (find_str (quoted k) (e @ quote # c # rest))" for rest
    using pre [of "c # rest"] s by (auto simp: prefix_quoted)
  then show ?thesis
    by (auto simp: key_free_def quoted_def [of e] skip [OF s(1)] tail option.map_comp comp_def
        simp del: find_str.simps intro!: option.map_cong)
qed

lemma plain_keyD: "plain_key k \<Longrightarrow> quote \<notin> set k \<and> backslash \<notin> set k"
  by (auto simp: plain_key_def)

lemma key_free_id:
  "plain_key k \<Longrightarrow> c \<in> {CHR '','', CHR '']''} \<Longrightarrow> \<not> suffix (quote # k) (quote # s) \<Longrightarrow>
     key_free k (quoted (escape_id s) @ [c])"
  by (rule key_free_escaped [where s = s])
    (auto simp: plain_key_def simp del: find_str.simps
      intro: id_escaping.find_key_enc id_escaping.prefix_enc)

lemma key_free_text:
  "plain_key k \<Longrightarrow> c \<in> {CHR '','', CHR '']''} \<Longrightarrow> \<not> suffix (quote # k) (quote # s) \<Longrightarrow>
     key_free k (quoted (escape_text s) @ [c])"
  by (rule key_free_escaped [where s = s])
    (auto simp: plain_key_def simp del: find_str.simps
      intro: text_escaping.find_key_enc text_escaping.prefix_enc)

lemma key_free_other_key:
  assumes "plain_key k" "plain_key k'" "\<not> suffix (quote # k) (quote # k')"
  shows "key_free k (quoted k' @ '':'')"
proof (rule key_free_escaped [OF assms(1) _ _ assms(3)])
  have "escape_id k' = k'"
    using plain_keyD [OF assms(2)] by (induction k') (auto simp: escape_id_def)
  with assms show "find_str (quoted k) (k' @ quote # rest) =
      map_option ((+) (length k')) (find_str (quoted k) (quote # rest))" for rest
    using id_escaping.find_key_enc [of k k' rest] assms by (auto simp: plain_key_def suffix_Cons)
  show "prefix (k @ [quote]) (k' @ quote # rest) \<Longrightarrow> k' = k" for rest
    using id_escaping.prefix_enc [of k k' rest] assms(1) \<open>escape_id k' = k'\<close> by (auto simp: plain_key_def)
qed (use assms(1) in \<open>simp_all add: plain_key_def\<close>)

lemma value_after_key_at:
  assumes "key_free k pre" "plain_key k" "c \<noteq> CHR '' ''" "c \<noteq> tab"
  shows "value_after_key (pre @ quoted k @ '':'' @ c # v) k = Some (c # v)"
proof -
  let ?json = "pre @ quoted k @ '':'' @ c # v"
  have key: "find_str (quoted k) ?json = Some (length pre)"
    using assms(1) unfolding key_free_def by simp
  have "CHR '':'' \<notin> set (quoted k)" using assms(2) by (simp add: plain_key_def quoted_def)
  then have "\<not> sublist '':'' (quoted k)" by (meson list.set_intros(1) set_mono_sublist subsetD)
  then have "find_str '':'' (quoted k @ '':'' @ c # v) = Some (length (quoted k))"
    using find_str_before_copy [of "CHR '':''" "[]" "quoted k" "c # v"] by simp
  then have colon: "find_from '':'' ?json (length pre) = Some (length pre + length (quoted k))"
    by (simp add: find_from_def)
  have "drop (length pre + length (quoted k) + 1) ?json = c # v" by simp
  with assms(3,4) show ?thesis
    by (simp only: value_after_key_def key colon option.case Let_def) simp
qed

lemma find_quote: "quote \<notin> set v \<Longrightarrow> find_str [quote] (v @ quote # rest) = Some (length v)"
  using find_str_before_copy [of quote "[]" v rest] set_mono_sublist [of "[quote]" v] by auto

lemma reply_ExtractJsonValue_at: "key_free k pre \<Longrightarrow> plain_key k \<Longrightarrow> quote \<notin> set v \<Longrightarrow>
    reply_ExtractJsonValue (pre @ quoted k @ '':'' @ quoted v @ rest) k = v"
  using value_after_key_at [of k pre quote "v @ quote # rest"] find_quote [of v rest]
  by (simp add: reply_ExtractJsonValue_def quoted_def [of v])

lemma revoke_ExtractJsonValue_id: "key_free k pre \<Longrightarrow> plain_key k \<Longrightarrow>
    revoke_ExtractJsonValue (pre @ quoted k @ '':'' @ quoted (escape_id v) @ rest) k = v"
  using value_after_key_at [of k pre quote "escape_id v @ quote # rest"]
  by (simp add: revoke_ExtractJsonValue_def quoted_def [of "escape_id v"])

lemma revoke_ExtractJsonValue_text: "key_free k pre \<Longrightarrow> plain_key k \<Longrightarrow>
    revoke_ExtractJsonValue (pre @ quoted k @ '':'' @ quoted (escape_text v) @ rest) k = v"
  using value_after_key_at [of k pre quote "escape_text v @ quote # rest"]
  by (simp add: revoke_ExtractJsonValue_def quoted_def [of "escape_text v"])

section \<open>Round trips\<close>

text \<open>Revocation messages: the fields come back, whatever characters they hold.\<close>

lemma plain_keys [simp]:
  "plain_key ''msgID''" "plain_key ''revoker''" "plain_key ''reason''" "plain_key ''timestamp''"
  "plain_key ''title''" "plain_key ''abstractList''" "plain_key ''messageIDList''"
  "plain_key ''messageReference''" "plain_key ''messageID''" "plain_key ''version''"
  by (simp_all add: plain_key_def)

lemma key_free_dec_int: "key_free k (dec_int i)"
proof (rule key_free_no_quote, rule notI)
  assume "quote \<in> set (dec_int i)"
  from dec_int_chars [OF this] show False by (simp add: is_digit_def)
qed

text \<open>A field whose value would be taken for \<open>key\<close>: it is the key, or ends in a quote and the key.\<close>

abbreviation shadows :: "string \<Rightarrow> string \<Rightarrow> bool" where
  "shadows key v \<equiv> suffix (quote # key) (quote # v)"

lemma keys_no_shadow [simp]:
  "\<not> shadows ''revoker'' ''msgID''" "\<not> shadows ''reason'' ''msgID''" "\<not> shadows ''reason'' ''revoker''"
  "\<not> shadows ''reason'' ''timestamp''" "\<not> shadows ''abstractList'' ''title''"
  "\<not> shadows ''messageIDList'' ''title''" "\<not> shadows ''messageIDList'' ''abstractList''"
  "\<not> shadows ''messageID'' ''version''"
  by (simp_all add: suffix_Cons)

lemma revoke_fields:
  assumes "\<not> shadows ''revoker'' msgID" "\<not> shadows ''reason'' msgID" "\<not> shadows ''reason'' revoker"
  shows "revoke_ExtractJsonValue (BuildRevokeJson now msgID revoker reason) ''msgID'' = msgID"
    and "revoke_ExtractJsonValue (BuildRevokeJson now msgID revoker reason) ''revoker'' = revoker"
    and "revoke_ExtractJsonValue (BuildRevokeJson now msgID revoker reason) ''reason'' = reason"
proof -
  let ?json = "BuildRevokeJson now msgID revoker reason"
  have b: "key_free k [lbrace]" "key_free k '',''" for k by (simp_all add: key_free_no_quote)
  have i: "key_free k ([lbrace] @ quoted ''msgID'' @ '':'')" if "k = ''revoker'' \<or> k = ''reason''" for k
    using that key_free_append [OF b(1) key_free_other_key [of k "''msgID''"]] by auto
  have v: "key_free k (quoted (escape_id msgID) @ '','')" if "k = ''revoker'' \<or> k = ''reason''" for k
    using that key_free_id [of k] assms by auto
  have r: "key_free ''reason'' (quoted ''revoker'' @ '':'')" "key_free ''reason'' (quoted (escape_id revoker) @ '','')"
    "key_free ''reason'' (quoted ''timestamp'' @ '':'')" "key_free ''reason'' (dec_int now @ '','')"
    by (rule key_free_other_key key_free_id key_free_append [OF key_free_dec_int b(2)];
        use assms in simp)+
  show "revoke_ExtractJsonValue ?json ''revoker'' = revoker"
    using revoke_ExtractJsonValue_id [OF key_free_append [OF i v]] by (simp add: BuildRevokeJson_def)
  note pre = key_free_append [OF key_free_append [OF i v] key_free_append [OF r(1)
    key_free_append [OF r(2) key_free_append [OF r(3,4)]]]]
  show "revoke_ExtractJsonValue ?json ''reason'' = reason"
    using revoke_ExtractJsonValue_text [OF pre] by (simp add: BuildRevokeJson_def)
  show "revoke_ExtractJsonValue ?json ''msgID'' = msgID"
    using revoke_ExtractJsonValue_id [OF b(1), of "''msgID''"] by (simp add: BuildRevokeJson_def)
qed

lemma from_to_buffer [simp]: "from_buffer (to_buffer s) = s"
  by (simp add: from_buffer_def to_buffer_def)

lemma to_buffer_Nil [simp]: "to_buffer s = [] \<longleftrightarrow> s = []"
  by (simp add: to_buffer_def)

lemma revoke_markers: "0 < length REVOKE_START_MARKER" "REVOKE_START_MARKER \<noteq> []"
  by (simp_all add: REVOKE_START_MARKER_def)

lemma ParseRevokeMessage_BuildRevokeMessage:
  assumes "\<not> sublist REVOKE_END_MARKER json"
  shows "ParseRevokeMessage (BuildRevokeMessage json) =
    (let msgID = revoke_ExtractJsonValue json ''msgID'';
         revoker = revoke_ExtractJsonValue json ''revoker'';
         reason = revoke_ExtractJsonValue json ''reason'' in
     (msgID \<noteq> [] \<and> revoker \<noteq> [], Some (msgID, revoker, reason)))"
proof -
  let ?m = "REVOKE_START_MARKER @ json @ REVOKE_END_MARKER"
  have s: "find_str REVOKE_START_MARKER ?m = Some 0" by simp
  have e: "find_str REVOKE_END_MARKER ?m = Some (length REVOKE_START_MARKER + length json)"
    using revoke.find_END [OF assms, of "[]"] by simp
  have j: "substr ?m (length REVOKE_START_MARKER) (length json) = json" by (simp add: substr_def)
  show ?thesis
    using revoke_markers
    by (simp add: ParseRevokeMessage_def BuildRevokeMessage_def s e j Let_def)
qed

text \<open>Merged messages: both arrays come back.\<close>

lemma CString_idem [simp]: "CString (CString s) = CString s"
  by (simp add: CString_def takeWhile_takeWhile)

lemma array_loop_step:
  assumes "unescape e = v" "\<And>r. scan_string False (e @ quote # r) = Some e"
  shows "array_loop (quoted e @ '','' @ rest) acc = array_loop rest (acc @ [v])"
    and "array_loop (quoted e @ '']'' @ rest) acc = acc @ [v]"
proof -
  have "array_loop (quoted e @ t) acc = array_loop (skip_comma t) (acc @ [v])" for t
    using assms by (subst array_loop.simps) (simp add: quoted_def)
  then show "array_loop (quoted e @ '','' @ rest) acc = array_loop rest (acc @ [v])"
    "array_loop (quoted e @ '']'' @ rest) acc = acc @ [v]"
    by (simp_all add: skip_comma_def array_loop.simps [of "CHR '']'' # rest"])
qed

lemma array_loop_json_strings:
  assumes "\<And>s. unescape (esc s) = s" "\<And>s r. scan_string False (esc s @ quote # r) = Some (esc s)"
  shows "array_loop (json_strings esc xs @ '']'' @ rest) acc = acc @ map CString xs"
proof (induction xs arbitrary: acc rule: induct_list012)
  case 1
  then show ?case by (simp add: array_loop.simps)
qed (simp_all add: array_loop_step [OF assms, simplified])

lemma key_free_json_strings:
  assumes "plain_key k" "\<And>x. x \<in> set xs \<Longrightarrow> \<not> shadows k (CString x)"
  shows "key_free k (json_strings escape_text xs @ '']'')"
  using assms(2)
proof (induction escape_text xs rule: json_strings.induct)
  case 1
  then show ?case by (simp add: key_free_no_quote)
next
  case (2 x)
  then show ?case using key_free_text [OF assms(1), of "CHR '']''" "CString x"] by simp
next
  case (3 x y xs)
  then show ?case
    using key_free_append [OF key_free_text [OF assms(1), of "CHR '',''" "CString x"]] by simp
qed

lemma ExtractJsonArray_at:
  assumes "key_free k pre" "plain_key k"
    and "\<And>s. unescape (esc s) = s" "\<And>s r. scan_string False (esc s @ quote # r) = Some (esc s)"
  shows "ExtractJsonArray (pre @ quoted k @ '':['' @ json_strings esc xs @ '']'' @ rest) k = map CString xs"
  using value_after_key_at [OF assms(1,2), of "CHR ''[''" "json_strings esc xs @ '']'' @ rest"]
    array_loop_json_strings [OF assms(3,4), where acc = "[]"]
  by (simp add: ExtractJsonArray_def)

lemma merger_prefix:
  assumes "k = ''abstractList'' \<or> k = ''messageIDList''" "\<not> shadows k (CString title)"
  shows "key_free k ([lbrace] @ (quoted ''title'' @ '':'') @ quoted (escape_text (CString title)) @ '','')"
  using assms by (intro key_free_append [OF key_free_no_quote key_free_append [OF key_free_other_key key_free_text]])
    auto

lemma merger_abstracts:
  assumes "\<not> shadows ''abstractList'' (CString title)"
  shows "ExtractAbstractList (BuildMergerJson ids title abstracts) = map CString abstracts"
  using ExtractJsonArray_at [OF merger_prefix [of "''abstractList''" title], of escape_text abstracts] assms
  by (simp add: ExtractAbstractList_def BuildMergerJson_def)

lemma merger_ids:
  assumes "\<And>x. x \<in> set (title # abstracts) \<Longrightarrow> \<not> shadows ''messageIDList'' (CString x)"
  shows "ExtractMessageIDs (BuildMergerJson ids title abstracts) = map CString ids"
proof -
  let ?k = "''messageIDList''"
  let ?pre = "([lbrace] @ (quoted ''title'' @ '':'') @ quoted (escape_text (CString title)) @ '','') @
    (quoted ''abstractList'' @ '':'') @ ''['' @ (json_strings escape_text abstracts @ '']'') @ '',''"
  have "key_free ?k ((json_strings escape_text abstracts @ '']'') @ '','')"
    using assms by (intro key_free_append [OF key_free_json_strings key_free_no_quote]) auto
  then have "key_free ?k (''['' @ (json_strings escape_text abstracts @ '']'') @ '','')"
    using key_free_append [OF key_free_no_quote [of "''[''"]] by simp
  then have "key_free ?k ?pre"
    using assms by (intro key_free_append [OF merger_prefix key_free_append [OF key_free_other_key]]) auto
  from ExtractJsonArray_at [OF this, of escape_id ids "[rbrace]"]
  have arr: "ExtractJsonArray (BuildMergerJson ids title abstracts) ?k = map CString ids"
    by (simp add: BuildMergerJson_def)
  have "BuildMergerJson ids title abstracts = (?pre @ [quote]) @ ?k @
      (quote # '':['' @ json_strings escape_id ids @ '']'' @ [rbrace])"
    by (simp add: BuildMergerJson_def quoted_def)
  then have "find_str ?k (BuildMergerJson ids title abstracts) \<noteq> None"
    unfolding find_str_None_iff by (metis sublist_appendI)
  then show ?thesis using arr by (simp add: ExtractMessageIDs_def)
qed

text \<open>Replies: a JSON object survives the cloud custom data wrapper.\<close>

fun depth_ok :: "nat \<Rightarrow> string \<Rightarrow> bool" where
  "depth_ok n [] = (n = 0)"
| "depth_ok n (c # cs) =
     (if c = lbrace then depth_ok (n + 1) cs
      else if c = rbrace then n > 0 \<and> depth_ok (n - 1) cs else depth_ok n cs)"

lemma scan_object_balanced: "depth_ok n body \<Longrightarrow> scan_object (n + 1) (body @ rbrace # rest) = Some body"
proof (induction body arbitrary: n)
  case (Cons c body)
  then show ?case by (cases n) (auto simp: Let_def split: if_splits)
qed simp

lemma ExtractReply_BuildCloud:
  assumes "depth_ok 0 body"
  shows "ExtractReplyJsonFromCloudCustomData (BuildCloudCustomDataFromReplyJson (lbrace # body @ [rbrace])) =
           lbrace # body @ [rbrace]"
proof -
  let ?r = "lbrace # body @ [rbrace]" and ?k = "''messageReference''"
  let ?s = "[lbrace] @ quoted ?k @ '':'' @ lbrace # body @ [rbrace, rbrace]"
  have k: "key_free ?k [lbrace]" by (simp add: key_free_no_quote)
  then have "HasJsonKey ?s ?k" unfolding HasJsonKey_def key_free_def by simp
  moreover have "reply_ExtractJsonValue ?s ?k = ?r"
    using value_after_key_at [OF k, of lbrace "body @ [rbrace, rbrace]"]
      scan_object_balanced [OF assms, of "[rbrace]"]
    by (simp add: reply_ExtractJsonValue_def)
  ultimately show ?thesis
    by (simp add: ExtractReplyJsonFromCloudCustomData_def BuildCloudCustomDataFromReplyJson_def Let_def)
qed

lemma CompressReplyJson_messageID:
  assumes "quote \<notin> set (reply_ExtractJsonValue json ''messageID'')"
    "quote \<notin> set (reply_ExtractJsonValue json ''version'')"
  shows "reply_ExtractJsonValue (CompressReplyJson json) ''messageID'' = reply_ExtractJsonValue json ''messageID''"
proof -
  have pre: "key_free ''messageID'' ([lbrace] @ (quoted ''version'' @ '':'') @ v @ '','')"
    if "quote \<notin> set v" for v
    using that by (intro key_free_append [OF key_free_no_quote key_free_append [OF key_free_other_key key_free_no_quote]]) auto
  show ?thesis
    using reply_ExtractJsonValue_at [OF pre [OF assms(2)] _ assms(1), of "[rbrace]"]
      reply_ExtractJsonValue_at [OF pre [of "''1''"] _ assms(1), of "[rbrace]"]
    by (simp add: CompressReplyJson_def Let_def)
qed

end
