(* ===== verification/TextQueue.thy ===== *)
theory TextQueue
  imports Endpoints HexCodec MessageUtils
begin

text \<open>
  The bounded text-event queue of \<open>ffi/tim2tox_ffi.cpp\<close>: the \<open>text_queue\<close> namespace and the
  class \<open>SimpleMsgListenerImpl\<close>. Every event the native side reports waits here until Dart
  polls it.

  \<^item> \<open>text_q_\<close> is a deque in arrival order; a consumed slot stays as a tombstone until it
    reaches the front or the deque is rebuilt. The sequence number of slot \<open>i\<close> is
    \<open>text_q_front_seq_ + i\<close>; \<open>text_evictable_\<close> holds the sequence numbers of the two evictable
    classes, oldest first.
  \<^item> The \<open>size_t\<close> and \<open>uint64_t\<close> counters are \<open>nat\<close>: \<open>TextQueueInvariant\<close> shows that every
    decrement happens at a positive counter, so no subtraction wraps.
  \<^item> Each operation holds the mutex \<open>m_\<close> from start to end and is one function on the state. The session
    epoch of an incoming record is read before the mutex is taken, so it is an argument.
  \<^item> \<open>g_drops\<close> is process-wide; there is one listener (\<open>G.simple_listener\<close>), so it is a field here.
    The log line of a drop is not modelled.
\<close>

section \<open>Classes of events\<close>

datatype EventClass = kLossy | kChat | kState

definition kSoftMaxEvents :: nat where
  "kSoftMaxEvents = 64 * 1024"

definition kSoftMaxBytes :: nat where
  "kSoftMaxBytes = 32 * 1024 * 1024"

definition kHardMaxEvents :: nat where
  "kHardMaxEvents = 2 * kSoftMaxEvents"

definition kHardMaxBytes :: nat where
  "kHardMaxBytes = 2 * kSoftMaxBytes"

definition kCompactMinTombstones :: nat where
  "kCompactMinTombstones = 4096"

definition kSessionEpochUnknown :: int where
  "kSessionEpochUnknown = -1"

definition kSessionEpochNone :: int where
  "kSessionEpochNone = 0"

definition HasPrefix :: "string \<Rightarrow> string \<Rightarrow> bool" where
  "HasPrefix line pre \<longleftrightarrow> take (length pre) line = pre"

text \<open>The loop of \<open>IsFinalProgress\<close>: \<open>n\<close> iterations left, \<open>rest\<close> the text from \<open>pos\<close> on.\<close>

fun progress_fields :: "nat \<Rightarrow> nat \<Rightarrow> nat \<Rightarrow> string \<Rightarrow> string \<times> string \<Rightarrow> string \<times> string" where
  "progress_fields 0 field done_field rest dt = dt"
| "progress_fields (Suc n) field done_field rest (dn, tot) =
     (let colon = find_str '':'' rest;
          part = (case colon of None \<Rightarrow> rest | Some c \<Rightarrow> take c rest);
          dn = (if field = done_field then part else dn);
          tot = (if field = done_field + 1 then part else tot)
      in (case colon of None \<Rightarrow> (dn, tot)
          | Some c \<Rightarrow> progress_fields n (field + 1) done_field (drop (c + 1) rest) (dn, tot)))"

definition IsFinalProgress :: "string \<Rightarrow> nat \<Rightarrow> bool" where
  "IsFinalProgress line done_field =
     (case progress_fields (done_field + 2) 0 done_field line ([], []) of
        (dn, tot) \<Rightarrow> dn \<noteq> [] \<and> dn = tot)"

definition Classify :: "string \<Rightarrow> EventClass" where
  "Classify line =
     (if HasPrefix line ''typing:'' then kLossy
      else if HasPrefix line ''progress_send:'' then (if IsFinalProgress line 2 then kState else kLossy)
      else if HasPrefix line ''progress_recv:'' then (if IsFinalProgress line 3 then kState else kLossy)
      else if HasPrefix line ''c2c:'' \<or> HasPrefix line ''c2caction:'' \<or> HasPrefix line ''c2cbin:''
           \<or> HasPrefix line ''gtext:'' \<or> HasPrefix line ''gaction:'' \<or> HasPrefix line ''gcustombin:''
           \<or> HasPrefix line ''rendezvous_packet:'' then kChat
      else kState)"

section \<open>State\<close>

record TextEvent =
  instance_id :: int
  line :: string
  cls :: EventClass
  live :: bool
  session_epoch :: int

record SimpleMsgListenerImpl =
  text_q :: "TextEvent list"
  text_q_front_seq :: nat
  text_evictable :: "EventClass \<Rightarrow> nat list"
  text_live_events :: nat
  text_live_bytes :: nat
  text_tombstones :: nat
  text_live_per_instance :: "(int, nat) umap"
  text_polled_epoch :: "(int, int) umap"
  custom_q :: "(int \<times> bytes) list"
  g_drops :: "EventClass \<Rightarrow> nat"

definition listener_init :: SimpleMsgListenerImpl where
  "listener_init = \<lparr> text_q = [], text_q_front_seq = 0, text_evictable = (\<lambda>_. []),
     text_live_events = 0, text_live_bytes = 0, text_tombstones = 0, text_live_per_instance = [],
     text_polled_epoch = [], custom_q = [], g_drops = (\<lambda>_. 0) \<rparr>"

definition RecordDrop :: "EventClass \<Rightarrow> SimpleMsgListenerImpl \<Rightarrow> SimpleMsgListenerImpl" where
  "RecordDrop c st = st\<lparr>g_drops := (g_drops st)(c := g_drops st c + 1)\<rparr>"

definition tim2tox_ffi_get_text_queue_drop_count :: "int \<Rightarrow> SimpleMsgListenerImpl \<Rightarrow> nat" where
  "tim2tox_ffi_get_text_queue_drop_count event_class st =
     (if event_class = 0 then g_drops st kLossy
      else if event_class = 1 then g_drops st kChat
      else if event_class = 2 then g_drops st kState
      else if event_class \<noteq> -1 then 0
      else g_drops st kLossy + g_drops st kChat + g_drops st kState)"

section \<open>Private operations\<close>

definition over_caps_locked :: "nat \<Rightarrow> nat \<Rightarrow> nat \<Rightarrow> SimpleMsgListenerImpl \<Rightarrow> bool" where
  "over_caps_locked incoming_bytes max_events max_bytes st \<longleftrightarrow>
     text_live_events st + 1 > max_events \<or> text_live_bytes st + incoming_bytes > max_bytes"

definition live_count_for_locked :: "int \<Rightarrow> SimpleMsgListenerImpl \<Rightarrow> nat" where
  "live_count_for_locked i st =
     (case um_find (text_live_per_instance st) i of None \<Rightarrow> 0 | Some n \<Rightarrow> n)"

text \<open>\<open>--count->second == 0\<close> erases the entry.\<close>

definition count_down :: "int \<Rightarrow> (int, nat) umap \<Rightarrow> (int, nat) umap" where
  "count_down i m =
     (case um_find m i of None \<Rightarrow> m
      | Some n \<Rightarrow> if n - 1 = 0 then um_erase i m else um_put i (n - 1) m)"

definition count_up :: "int \<Rightarrow> (int, nat) umap \<Rightarrow> (int, nat) umap" where
  "count_up i m = um_put i ((case um_find m i of None \<Rightarrow> 0 | Some n \<Rightarrow> n) + 1) m"

definition forget_live :: "TextEvent \<Rightarrow> SimpleMsgListenerImpl \<Rightarrow> SimpleMsgListenerImpl" where
  "forget_live event st = st\<lparr>
     text_live_bytes := text_live_bytes st - length (line event),
     text_live_events := text_live_events st - 1,
     text_live_per_instance := count_down (instance_id event) (text_live_per_instance st)\<rparr>"

definition mine_and_stale :: "int \<Rightarrow> int \<Rightarrow> TextEvent \<Rightarrow> bool" where
  "mine_and_stale i keep_epoch event \<longleftrightarrow>
     (i \<noteq> kSessionEpochUnknown \<and> instance_id event = i) \<and>
     (keep_epoch = kSessionEpochNone \<or>
      (session_epoch event > 0 \<and> session_epoch event \<noteq> keep_epoch))"

definition index_push :: "EventClass \<Rightarrow> nat \<Rightarrow> SimpleMsgListenerImpl \<Rightarrow> SimpleMsgListenerImpl" where
  "index_push c seq st =
     (if c \<noteq> kState then st\<lparr>text_evictable := (text_evictable st)(c := text_evictable st c @ [seq])\<rparr>
      else st)"

fun purge_loop :: "int \<Rightarrow> int \<Rightarrow> TextEvent list \<Rightarrow> TextEvent list \<times> nat \<times> SimpleMsgListenerImpl
    \<Rightarrow> TextEvent list \<times> nat \<times> SimpleMsgListenerImpl" where
  "purge_loop i keep_epoch [] acc = acc"
| "purge_loop i keep_epoch (event # events) (kept, dropped, st) =
     (if \<not> live event then purge_loop i keep_epoch events (kept, dropped, st)
      else if mine_and_stale i keep_epoch event
      then purge_loop i keep_epoch events (kept, dropped + 1, forget_live event st)
      else purge_loop i keep_epoch events
             (kept @ [event], dropped,
              index_push (cls event) (text_q_front_seq st + length kept) st))"

definition purge_locked :: "int \<Rightarrow> int \<Rightarrow> SimpleMsgListenerImpl \<Rightarrow> SimpleMsgListenerImpl \<times> nat" where
  "purge_locked i keep_epoch st =
     (case purge_loop i keep_epoch (text_q st) ([], 0, st\<lparr>text_evictable := (\<lambda>_. [])\<rparr>) of
        (kept, dropped, st) \<Rightarrow> (st\<lparr>text_q := kept, text_tombstones := 0\<rparr>, dropped))"

definition compact_locked :: "SimpleMsgListenerImpl \<Rightarrow> SimpleMsgListenerImpl" where
  "compact_locked st = fst (purge_locked kSessionEpochUnknown 0 st)"

text \<open>The two trimming loops of \<open>remove_locked\<close>.\<close>

definition trim_front :: "SimpleMsgListenerImpl \<Rightarrow> SimpleMsgListenerImpl" where
  "trim_front st =
     (let n = length (takeWhile (\<lambda>e. \<not> live e) (text_q st)) in
      st\<lparr>text_q := dropWhile (\<lambda>e. \<not> live e) (text_q st),
         text_q_front_seq := text_q_front_seq st + n,
         text_tombstones := text_tombstones st - n\<rparr>)"

definition trim_index :: "SimpleMsgListenerImpl \<Rightarrow> SimpleMsgListenerImpl" where
  "trim_index st =
     st\<lparr>text_evictable := (\<lambda>c. dropWhile (\<lambda>seq. seq < text_q_front_seq st) (text_evictable st c))\<rparr>"

definition bury :: "nat \<Rightarrow> SimpleMsgListenerImpl \<Rightarrow> SimpleMsgListenerImpl" where
  "bury pos st =
     (let st = forget_live (text_q st ! pos) st in
      st\<lparr>text_q := (text_q st)[pos := (text_q st ! pos)\<lparr>line := [], live := False\<rparr>],
         text_tombstones := text_tombstones st + 1\<rparr>)"

definition remove_locked :: "nat \<Rightarrow> SimpleMsgListenerImpl \<Rightarrow> SimpleMsgListenerImpl" where
  "remove_locked pos st =
     (let st = trim_index (trim_front (bury pos st)) in
      if text_tombstones st \<ge> kCompactMinTombstones \<and> text_tombstones st > text_live_events st
      then compact_locked st else st)"

fun evict_scan :: "EventClass \<Rightarrow> nat list \<Rightarrow> SimpleMsgListenerImpl \<Rightarrow> SimpleMsgListenerImpl \<times> bool" where
  "evict_scan c [] st = (st\<lparr>text_evictable := (text_evictable st)(c := [])\<rparr>, False)"
| "evict_scan c (seq # index) st =
     (if seq < text_q_front_seq st then evict_scan c index st
      else let pos = seq - text_q_front_seq st in
        if pos \<ge> length (text_q st) \<or> \<not> live (text_q st ! pos) then evict_scan c index st
        else (remove_locked pos
                (RecordDrop c (st\<lparr>text_evictable := (text_evictable st)(c := index)\<rparr>)), True))"

definition evict_oldest_locked :: "EventClass \<Rightarrow> SimpleMsgListenerImpl \<Rightarrow> SimpleMsgListenerImpl \<times> bool" where
  "evict_oldest_locked c st = evict_scan c (text_evictable st c) st"

section \<open>Termination of the eviction loop\<close>

text \<open>
  Each eviction buries one live slot, and neither trimming nor compaction brings one back, so
  the number of live slots strictly decreases.
\<close>

definition live_list :: "SimpleMsgListenerImpl \<Rightarrow> TextEvent list" where
  "live_list st = filter live (text_q st)"

lemma forget_live_frame [simp]:
  "text_q (forget_live e st) = text_q st" "text_q_front_seq (forget_live e st) = text_q_front_seq st"
  "text_evictable (forget_live e st) = text_evictable st"
  "text_tombstones (forget_live e st) = text_tombstones st"
  "text_polled_epoch (forget_live e st) = text_polled_epoch st"
  "custom_q (forget_live e st) = custom_q st" "g_drops (forget_live e st) = g_drops st"
  by (simp_all add: forget_live_def)

lemma index_push_frame [simp]:
  "text_q (index_push c s st) = text_q st" "text_q_front_seq (index_push c s st) = text_q_front_seq st"
  "text_live_events (index_push c s st) = text_live_events st"
  "text_live_bytes (index_push c s st) = text_live_bytes st"
  "text_tombstones (index_push c s st) = text_tombstones st"
  "text_live_per_instance (index_push c s st) = text_live_per_instance st"
  "text_polled_epoch (index_push c s st) = text_polled_epoch st"
  "custom_q (index_push c s st) = custom_q st" "g_drops (index_push c s st) = g_drops st"
  by (simp_all add: index_push_def)

lemma purge_loop_kept:
  "purge_loop i k es (kept, d, st) = (kept', d', st') \<Longrightarrow>
     kept' = kept @ filter (\<lambda>e. live e \<and> \<not> mine_and_stale i k e) es \<and>
     d' = d + length (filter (\<lambda>e. live e \<and> mine_and_stale i k e) es) \<and>
     text_q_front_seq st' = text_q_front_seq st \<and> text_polled_epoch st' = text_polled_epoch st \<and>
     custom_q st' = custom_q st \<and> g_drops st' = g_drops st"
proof (induction es arbitrary: kept d st)
  case (Cons e es)
  then show ?case by (cases "live e"; cases "mine_and_stale i k e") (fastforce dest: Cons.IH)+
qed simp

lemma live_list_purge:
  "live_list (fst (purge_locked i k st)) = filter (\<lambda>e. \<not> mine_and_stale i k e) (live_list st)"
proof (cases "purge_loop i k (text_q st) ([], 0, st\<lparr>text_evictable := (\<lambda>_. [])\<rparr>)")
  case (fields kept d st')
  from purge_loop_kept [OF this] have "kept = filter (\<lambda>e. live e \<and> \<not> mine_and_stale i k e) (text_q st)" by simp
  moreover have "filter live (filter (\<lambda>e. live e \<and> \<not> P e) q) = filter (\<lambda>e. \<not> P e) (filter live q)" for P q
    by (induction q) auto
  ultimately show ?thesis using fields by (simp add: purge_locked_def live_list_def)
qed

lemma not_mine_unknown [simp]: "\<not> mine_and_stale kSessionEpochUnknown k e"
  by (simp add: mine_and_stale_def)

lemma live_list_compact [simp]: "live_list (compact_locked st) = live_list st"
  by (simp add: compact_locked_def live_list_purge)

lemma live_list_trim [simp]: "live_list (trim_index (trim_front st)) = live_list st"
proof -
  have "filter live (dropWhile (\<lambda>e. \<not> live e) q) = filter live q" for q :: "TextEvent list"
    by (induction q) auto
  then show ?thesis by (simp add: live_list_def trim_front_def trim_index_def Let_def)
qed

lemma live_list_remove: "live_list (remove_locked pos st) = live_list (bury pos st)"
  by (simp add: remove_locked_def Let_def)

lemma live_list_bury:
  "text_q st = us @ e # vs \<Longrightarrow> length us = pos \<Longrightarrow>
     live_list (bury pos st) = filter live us @ filter live vs"
  by (auto simp: bury_def live_list_def Let_def)

lemma evict_scan_shrinks:
  "evict_scan c index st = (st', True) \<Longrightarrow> length (live_list st') < length (live_list st)"
proof (induction c index st rule: evict_scan.induct)
  case (2 c seq index st)
  let ?pos = "seq - text_q_front_seq st"
  show ?case
  proof (cases "seq < text_q_front_seq st \<or> ?pos \<ge> length (text_q st) \<or> \<not> live (text_q st ! ?pos)")
    case True
    with 2 show ?thesis by (auto simp: Let_def split: if_splits)
  next
    case False
    then have split: "text_q st = take ?pos (text_q st) @ text_q st ! ?pos # drop (Suc ?pos) (text_q st)"
      by (simp add: id_take_nth_drop)
    let ?st = "RecordDrop c (st\<lparr>text_evictable := (text_evictable st)(c := index)\<rparr>)"
    have "st' = remove_locked ?pos ?st" using False 2 by (auto simp: Let_def)
    moreover have "live_list (bury ?pos ?st) = filter live (take ?pos (text_q st)) @ filter live (drop (Suc ?pos) (text_q st))"
      by (rule live_list_bury [of _ _ "text_q st ! ?pos"])
        (use split False in \<open>simp_all add: RecordDrop_def\<close>)
    moreover have "live_list st = filter live (take ?pos (text_q st)) @ text_q st ! ?pos # filter live (drop (Suc ?pos) (text_q st))"
      using False unfolding live_list_def by (subst split) simp
    ultimately show ?thesis by (simp add: live_list_remove)
  qed
qed simp

lemma evict_oldest_shrinks:
  "evict_oldest_locked c st = (st', True) \<Longrightarrow> length (live_list st') < length (live_list st)"
  by (simp add: evict_oldest_locked_def evict_scan_shrinks)

lemma evict_scan_finds_none: "evict_scan c index st = (st', False) \<Longrightarrow> live_list st' = live_list st"
  by (induction c index st rule: evict_scan.induct) (auto simp: live_list_def Let_def split: if_splits)

section \<open>Enqueueing\<close>

text \<open>\<open>evict_oldest_locked(kLossy) || (cls != kLossy && evict_oldest_locked(kChat))\<close>\<close>

definition evict_for :: "EventClass \<Rightarrow> SimpleMsgListenerImpl \<Rightarrow> SimpleMsgListenerImpl \<times> bool" where
  "evict_for c st =
     (case evict_oldest_locked kLossy st of (st, evicted) \<Rightarrow>
        if evicted then (st, True)
        else if c \<noteq> kLossy then evict_oldest_locked kChat st else (st, False))"

lemma evict_for_shrinks: "evict_for c st = (st', True) \<Longrightarrow> length (live_list st') < length (live_list st)"
  unfolding evict_for_def evict_oldest_locked_def
  by (auto split: prod.splits if_splits dest!: evict_scan_shrinks evict_scan_finds_none)

function text_make_room :: "nat \<Rightarrow> EventClass \<Rightarrow> SimpleMsgListenerImpl \<Rightarrow> SimpleMsgListenerImpl" where
  "text_make_room n c st =
     (if over_caps_locked n kSoftMaxEvents kSoftMaxBytes st
      then case evict_for c st of (st', evicted) \<Rightarrow> if evicted then text_make_room n c st' else st'
      else st)"
  by auto
termination
  by (relation "measure (\<lambda>(n, c, st). length (live_list st))") (auto simp: evict_for_shrinks)

declare text_make_room.simps [simp del]

definition enqueue_text_line_for_instance ::
    "int \<Rightarrow> int \<Rightarrow> string \<Rightarrow> SimpleMsgListenerImpl \<Rightarrow> SimpleMsgListenerImpl" where
  "enqueue_text_line_for_instance i epoch s st =
     (let c = Classify s;
          st = text_make_room (length s) c st in
      if over_caps_locked (length s) kSoftMaxEvents kSoftMaxBytes st \<and> c \<noteq> kState
      then RecordDrop c st
      else if over_caps_locked (length s) kSoftMaxEvents kSoftMaxBytes st
           \<and> over_caps_locked (length s) kHardMaxEvents kHardMaxBytes st
      then RecordDrop c st
      else let seq = text_q_front_seq st + length (text_q st);
               st = index_push c seq (st\<lparr>text_q := text_q st @
                      [\<lparr>instance_id = i, line = s, cls = c, live = True, session_epoch = epoch\<rparr>]\<rparr>)
           in st\<lparr>text_live_events := text_live_events st + 1,
                 text_live_bytes := text_live_bytes st + length s,
                 text_live_per_instance := count_up i (text_live_per_instance st)\<rparr>)"

section \<open>Polling\<close>

text \<open>
  \<open>CopyPayloadOrReturnRequiredCapacity\<close>: the returned count and what the buffer holds
  afterwards (\<open>None\<close>: untouched). \<open>has_buffer\<close> is false for a null pointer.
\<close>

definition INT_MAX :: int where
  "INT_MAX = 2 ^ 31 - 1"

definition INT_MIN :: int where
  "INT_MIN = - (2 ^ 31)"

definition CopyPayloadOrReturnRequiredCapacity :: "string \<Rightarrow> bool \<Rightarrow> int \<Rightarrow> int \<times> string option" where
  "CopyPayloadOrReturnRequiredCapacity payload has_buffer buffer_len =
     (let payload_size = int (length payload); required_capacity = payload_size + 1 in
      if payload_size > INT_MAX - 1 then (INT_MIN, None)
      else if buffer_len \<le> 0 then (- required_capacity, None)
      else if \<not> has_buffer then (0, None)
      else if required_capacity > buffer_len then (- required_capacity, None)
      else (payload_size, Some payload))"

definition poll_matches :: "int \<Rightarrow> TextEvent \<Rightarrow> bool" where
  "poll_matches i event \<longleftrightarrow> live event \<and> (instance_id event = 0 \<or> instance_id event = i)"

fun poll_scan :: "int \<Rightarrow> nat \<Rightarrow> TextEvent list \<Rightarrow> nat option" where
  "poll_scan i n [] = None"
| "poll_scan i n (e # es) = (if poll_matches i e then Some n else poll_scan i (Suc n) es)"

definition poll_session :: "int \<Rightarrow> int \<Rightarrow> SimpleMsgListenerImpl \<Rightarrow> SimpleMsgListenerImpl" where
  "poll_session i epoch st =
     (if epoch > 0 \<and> um_find (text_polled_epoch st) i \<noteq> Some epoch
      then let st = fst (purge_locked i epoch st) in
           st\<lparr>text_polled_epoch := um_put i epoch (text_polled_epoch st)\<rparr>
      else st)"

definition poll_text :: "int \<Rightarrow> int \<Rightarrow> bool \<Rightarrow> int \<Rightarrow> SimpleMsgListenerImpl
    \<Rightarrow> SimpleMsgListenerImpl \<times> int \<times> string option" where
  "poll_text i epoch has_buffer len st =
     (let st = poll_session i epoch st in
      if live_count_for_locked 0 st = 0 \<and> (i = 0 \<or> live_count_for_locked i st = 0) then (st, 0, None)
      else case poll_scan i 0 (text_q st) of None \<Rightarrow> (st, 0, None)
           | Some pos \<Rightarrow>
               (case CopyPayloadOrReturnRequiredCapacity (line (text_q st ! pos)) has_buffer len of
                  (n, out) \<Rightarrow> if n < 0 then (st, n, out) else (remove_locked pos st, n, out)))"

definition purge_instance :: "int \<Rightarrow> SimpleMsgListenerImpl \<Rightarrow> SimpleMsgListenerImpl" where
  "purge_instance i st =
     (let st = fst (purge_locked i kSessionEpochNone st) in
      st\<lparr>text_polled_epoch := um_erase i (text_polled_epoch st),
         custom_q := filter (\<lambda>entry. fst entry \<noteq> i) (custom_q st)\<rparr>)"

text \<open>\<open>poll_custom\<close>: one rotation of the queue at most; an entry that does not fit is cut.\<close>

fun custom_scan :: "nat \<Rightarrow> int \<Rightarrow> (int \<times> bytes) list \<Rightarrow> (int \<times> bytes) list \<times> bytes option" where
  "custom_scan 0 i q = (q, None)"
| "custom_scan (Suc n) i [] = ([], None)"
| "custom_scan (Suc n) i (entry # q) =
     (if fst entry = 0 \<or> fst entry = i then (q, Some (snd entry))
      else custom_scan n i (q @ [entry]))"

definition poll_custom :: "int \<Rightarrow> nat \<Rightarrow> SimpleMsgListenerImpl \<Rightarrow> SimpleMsgListenerImpl \<times> nat \<times> bytes" where
  "poll_custom i len st =
     (case custom_scan (length (custom_q st)) i (custom_q st) of (q, found) \<Rightarrow>
        (st\<lparr>custom_q := q\<rparr>,
         (case found of None \<Rightarrow> (0, []) | Some d \<Rightarrow> (min (length d) len, take (min (length d) len) d))))"

section \<open>Sessions and entry points\<close>

text \<open>
  What the queue reads of the instance registry: the session epoch of the default manager
  (\<open>None\<close>: no singleton yet), of each test instance (\<open>None\<close>: a null pointer in the map), the
  current instance and the initialised ones. The atomic \<open>session_epoch_\<close> is 0 between
  sessions and takes a fresh positive value at every \<open>InitSDK\<close>.
\<close>

record instance_registry =
  default_epoch :: "int option"
  g_test_instances :: "(int, int option) umap"
  g_current_instance_id :: int
  g_inited_instance_ids :: "int set"

definition tim2tox_ffi_get_session_epoch :: "instance_registry \<Rightarrow> int \<Rightarrow> int" where
  "tim2tox_ffi_get_session_epoch reg i =
     (if i = 0 then (case default_epoch reg of None \<Rightarrow> 0 | Some e \<Rightarrow> e)
      else (case um_find (g_test_instances reg) i of Some (Some e) \<Rightarrow> e | _ \<Rightarrow> 0))"

text \<open>\<open>owns_lock\<close>: whether \<open>try_to_lock\<close> got the registry mutex.\<close>

definition CurrentSessionEpochForInstance :: "instance_registry \<Rightarrow> bool \<Rightarrow> int \<Rightarrow> int" where
  "CurrentSessionEpochForInstance reg owns_lock i =
     (if i = 0 then (case default_epoch reg of None \<Rightarrow> 0 | Some e \<Rightarrow> e)
      else if \<not> owns_lock then kSessionEpochUnknown
      else (case um_find (g_test_instances reg) i of Some (Some e) \<Rightarrow> e | _ \<Rightarrow> kSessionEpochUnknown))"

definition tim2tox_ffi_poll_text :: "instance_registry \<Rightarrow> int \<Rightarrow> bool \<Rightarrow> int \<Rightarrow> SimpleMsgListenerImpl
    \<Rightarrow> SimpleMsgListenerImpl \<times> int \<times> string option" where
  "tim2tox_ffi_poll_text reg i has_buffer buffer_len st =
     (let i = (if i = 0 then g_current_instance_id reg else i) in
      if i \<notin> g_inited_instance_ids reg \<or> \<not> has_buffer \<or> buffer_len \<le> 0 then (st, 0, None)
      else poll_text i (tim2tox_ffi_get_session_epoch reg i) has_buffer buffer_len st)"

definition tim2tox_ffi_poll_custom :: "instance_registry \<Rightarrow> bool \<Rightarrow> int \<Rightarrow> SimpleMsgListenerImpl
    \<Rightarrow> SimpleMsgListenerImpl \<times> nat \<times> bytes" where
  "tim2tox_ffi_poll_custom reg has_buffer buffer_len st =
     (if g_current_instance_id reg \<notin> g_inited_instance_ids reg \<or> \<not> has_buffer \<or> buffer_len \<le> 0
      then (st, 0, [])
      else poll_custom (g_current_instance_id reg) (nat buffer_len) st)"

text \<open>The thread-local overrides a receive callback sets around a delivery.\<close>

record receiver_overrides =
  g_receiver_instance_override :: int
  g_receiver_text_kind_override :: int
  g_receiver_custom_route_override :: int
  g_receiver_group_msgid_override :: int

definition enqueue_text_line :: "instance_registry \<Rightarrow> bool \<Rightarrow> receiver_overrides \<Rightarrow> string
    \<Rightarrow> SimpleMsgListenerImpl \<Rightarrow> SimpleMsgListenerImpl" where
  "enqueue_text_line reg owns_lock ov s st =
     (let i = ParseInstanceIdFromLine s;
          i = (if i = 0 then g_receiver_instance_override ov else i)
      in enqueue_text_line_for_instance i (CurrentSessionEpochForInstance reg owns_lock i) s st)"

definition LowerHexBytes :: "bytes \<Rightarrow> string" where
  "LowerHexBytes data = concat (map (\<lambda>b. [kDigits ! unat (drop_bit 4 b), kDigits ! unat (b AND 0x0F)]) data)"

definition HexEncodeWithRoute :: "u8 \<Rightarrow> bytes \<Rightarrow> string" where
  "HexEncodeWithRoute route data =
     [kDigits ! unat (drop_bit 4 route), kDigits ! unat (route AND 0x0F)] @ LowerHexBytes data"

definition OnRecvC2CTextMessage_line :: "receiver_overrides \<Rightarrow> string \<Rightarrow> string \<Rightarrow> string" where
  "OnRecvC2CTextMessage_line ov sender body =
     (if g_receiver_text_kind_override ov = 1 then ''c2caction:'' else ''c2c:'')
       @ CString sender @ '':'' @ CString body"

definition OnRecvC2CCustomMessage_line :: "receiver_overrides \<Rightarrow> string \<Rightarrow> bytes \<Rightarrow> string" where
  "OnRecvC2CCustomMessage_line ov sender data =
     (let route = (if g_receiver_custom_route_override ov \<ge> 0
                   then word_of_int (g_receiver_custom_route_override ov) else 3)
      in ''c2cbin:'' @ CString sender @ '':'' @ HexEncodeWithRoute route data)"

definition OnRecvGroupTextMessage_line :: "receiver_overrides \<Rightarrow> string \<Rightarrow> string \<Rightarrow> string \<Rightarrow> string" where
  "OnRecvGroupTextMessage_line ov groupID sender body =
     (let pseudo_id = g_receiver_group_msgid_override ov in
      (if g_receiver_text_kind_override ov = 1 then ''gaction:'' else ''gtext:'')
        @ CString groupID @ ''|'' @ CString sender
        @ (if pseudo_id \<ge> 0 then ''|m'' @ dec_nat (unat (word_of_int pseudo_id :: u32)) else [])
        @ '':'' @ CString body)"

definition OnRecvGroupCustomMessage_line :: "string \<Rightarrow> string \<Rightarrow> bytes \<Rightarrow> string" where
  "OnRecvGroupCustomMessage_line groupID sender data =
     ''gcustombin:'' @ CString groupID @ ''|'' @ CString sender @ '':'' @ LowerHexBytes data"

definition OnRecvC2CTextMessage :: "instance_registry \<Rightarrow> bool \<Rightarrow> receiver_overrides \<Rightarrow> string \<Rightarrow> string
    \<Rightarrow> SimpleMsgListenerImpl \<Rightarrow> SimpleMsgListenerImpl" where
  "OnRecvC2CTextMessage reg owns_lock ov sender body =
     enqueue_text_line reg owns_lock ov (OnRecvC2CTextMessage_line ov sender body)"

definition OnRecvC2CCustomMessage :: "instance_registry \<Rightarrow> bool \<Rightarrow> receiver_overrides \<Rightarrow> string \<Rightarrow> bytes
    \<Rightarrow> SimpleMsgListenerImpl \<Rightarrow> SimpleMsgListenerImpl" where
  "OnRecvC2CCustomMessage reg owns_lock ov sender data =
     enqueue_text_line reg owns_lock ov (OnRecvC2CCustomMessage_line ov sender data)"

definition OnRecvGroupTextMessage :: "instance_registry \<Rightarrow> bool \<Rightarrow> receiver_overrides \<Rightarrow> string \<Rightarrow> string
    \<Rightarrow> string \<Rightarrow> SimpleMsgListenerImpl \<Rightarrow> SimpleMsgListenerImpl" where
  "OnRecvGroupTextMessage reg owns_lock ov groupID sender body =
     enqueue_text_line reg owns_lock ov (OnRecvGroupTextMessage_line ov groupID sender body)"

definition OnRecvGroupCustomMessage :: "instance_registry \<Rightarrow> bool \<Rightarrow> receiver_overrides \<Rightarrow> string \<Rightarrow> string
    \<Rightarrow> bytes \<Rightarrow> SimpleMsgListenerImpl \<Rightarrow> SimpleMsgListenerImpl" where
  "OnRecvGroupCustomMessage reg owns_lock ov groupID sender data =
     (let i = g_receiver_instance_override ov in
      enqueue_text_line_for_instance i (CurrentSessionEpochForInstance reg owns_lock i)
        (OnRecvGroupCustomMessage_line groupID sender data))"

end
