(* ===== verification/TextQueueInvariant.thy ===== *)
theory TextQueueInvariant
  imports TextQueue
begin

text \<open>
  The representation invariant of the text-event queue and the abstraction to a plain list.

  \<^item> \<open>counters_ok\<close>: the cached counters are the counts over the deque.
  \<^item> \<open>index_ok\<close>: an eviction index is strictly increasing, in range, and holds every live slot
    of its class (stale sequence numbers are allowed), except the positions in \<open>X\<close>.
  \<^item> \<open>live_list\<close> is the abstraction: the live events in arrival order. Each private operation
    is characterised by what it does to that list.
\<close>

section \<open>Invariant\<close>

definition bytes_of :: "TextEvent list \<Rightarrow> nat" where
  "bytes_of es = sum_list (map (\<lambda>e. length (line e)) es)"

definition number_for :: "int \<Rightarrow> TextEvent list \<Rightarrow> nat" where
  "number_for i es = length (filter (\<lambda>e. instance_id e = i) es)"

definition counts :: "(int, nat) umap \<Rightarrow> TextEvent list \<Rightarrow> bool" where
  "counts m es \<longleftrightarrow>
     (\<forall>i. um_find m i = (if number_for i es = 0 then None else Some (number_for i es)))"

definition tallies :: "TextEvent list \<Rightarrow> SimpleMsgListenerImpl \<Rightarrow> bool" where
  "tallies es st \<longleftrightarrow> text_live_events st = length es \<and> text_live_bytes st = bytes_of es
     \<and> counts (text_live_per_instance st) es"

definition counters_ok :: "SimpleMsgListenerImpl \<Rightarrow> bool" where
  "counters_ok st \<longleftrightarrow> tallies (live_list st) st
     \<and> text_tombstones st = length (filter (\<lambda>e. \<not> live e) (text_q st))"

definition index_for :: "EventClass \<Rightarrow> nat \<Rightarrow> TextEvent list \<Rightarrow> nat set \<Rightarrow> nat list \<Rightarrow> bool" where
  "index_for c front q X ix \<longleftrightarrow> sorted_wrt (<) ix
     \<and> (\<forall>s\<in>set ix. s < front + length q \<and> (front \<le> s \<longrightarrow> cls (q ! (s - front)) = c))
     \<and> (\<forall>pos<length q. live (q ! pos) \<and> cls (q ! pos) = c \<and> pos \<notin> X \<longrightarrow> front + pos \<in> set ix)"

abbreviation index_ok :: "nat set \<Rightarrow> SimpleMsgListenerImpl \<Rightarrow> EventClass \<Rightarrow> bool" where
  "index_ok X st c \<equiv> index_for c (text_q_front_seq st) (text_q st) X (text_evictable st c)"

definition indexes_ok :: "SimpleMsgListenerImpl \<Rightarrow> bool" where
  "indexes_ok st \<longleftrightarrow> (\<forall>c. c \<noteq> kState \<longrightarrow> index_ok {} st c)"

definition caps_ok :: "SimpleMsgListenerImpl \<Rightarrow> bool" where
  "caps_ok st \<longleftrightarrow> length (live_list st) \<le> kHardMaxEvents \<and> bytes_of (live_list st) \<le> kHardMaxBytes
     \<and> (text_tombstones st < kCompactMinTombstones \<or> text_tombstones st \<le> text_live_events st)"

definition queue_inv :: "SimpleMsgListenerImpl \<Rightarrow> bool" where
  "queue_inv st \<longleftrightarrow> counters_ok st \<and> indexes_ok st \<and> caps_ok st"

section \<open>Counters\<close>

lemma bytes_of_simps [simp]:
  "bytes_of [] = 0" "bytes_of (e # es) = length (line e) + bytes_of es"
  "bytes_of (es @ fs) = bytes_of es + bytes_of fs"
  by (simp_all add: bytes_of_def)

lemma number_for_simps [simp]:
  "number_for i [] = 0"
  "number_for i (e # es) = (if instance_id e = i then 1 else 0) + number_for i es"
  "number_for i (es @ fs) = number_for i es + number_for i fs"
  by (simp_all add: number_for_def)

lemma counts_down: "counts m (us @ e # vs) \<Longrightarrow> counts (count_down (instance_id e) m) (us @ vs)"
  by (auto simp: counts_def count_down_def umap_simps split: option.splits)

lemma counts_up: "counts m es \<Longrightarrow> counts (count_up (instance_id e) m) (es @ [e])"
  by (auto simp: counts_def count_up_def umap_simps)

lemma tallies_forget: "tallies (us @ e # vs) st \<Longrightarrow> tallies (us @ vs) (forget_live e st)"
  by (simp add: tallies_def forget_live_def counts_down)

text \<open>No decrement of a \<open>size_t\<close> counter wraps.\<close>

lemma forget_exact:
  "tallies (us @ e # vs) st \<Longrightarrow> 1 \<le> text_live_events st \<and> length (line e) \<le> text_live_bytes st
     \<and> (\<exists>n \<ge> 1. um_find (text_live_per_instance st) (instance_id e) = Some n)"
  by (auto simp: tallies_def counts_def)

lemma tallies_cong [simp]:
  "tallies es (index_push c s st) = tallies es st" "tallies es (RecordDrop c st) = tallies es st"
  "tallies es (st\<lparr>text_evictable := f\<rparr>) = tallies es st" "tallies es (st\<lparr>text_q := q\<rparr>) = tallies es st"
  "tallies es (st\<lparr>text_tombstones := n\<rparr>) = tallies es st"
  "tallies es (st\<lparr>text_q_front_seq := n\<rparr>) = tallies es st"
  "tallies es (st\<lparr>text_polled_epoch := p\<rparr>) = tallies es st"
  "tallies es (st\<lparr>custom_q := cq\<rparr>) = tallies es st"
  by (simp_all add: tallies_def RecordDrop_def)

section \<open>Tombstones\<close>

lemma split_at:
  assumes "pos < length q"
  obtains us e vs where "q = us @ e # vs" "length us = pos" "q ! pos = e"
  using assms by (metis id_take_nth_drop length_take min.absorb4)

lemma counters_bury:
  assumes "counters_ok st" "text_q st = us @ e # vs" "length us = pos" "live e"
  shows "counters_ok (bury pos st)"
proof -
  have "tallies (filter live us @ filter live vs) (forget_live e st)"
    using assms by (intro tallies_forget) (simp add: counters_ok_def live_list_def)
  moreover have "live_list (bury pos st) = filter live us @ filter live vs"
    by (rule live_list_bury [OF assms(2,3)])
  ultimately show ?thesis
    using assms by (auto simp: counters_ok_def bury_def Let_def)
qed

lemma index_bury:
  assumes "index_for c f q {pos} ix" "pos < length q"
  shows "index_for c f (q[pos := (q ! pos)\<lparr>line := [], live := False\<rparr>]) {} ix"
  using assms unfolding index_for_def by (auto simp: nth_list_update)

lemma counters_trim: "counters_ok st \<Longrightarrow> counters_ok (trim_index (trim_front st))"
proof -
  have "length (filter (\<lambda>e. \<not> live e) q) =
      length (takeWhile (\<lambda>e. \<not> live e) q) + length (filter (\<lambda>e. \<not> live e) (dropWhile (\<lambda>e. \<not> live e) q))" for q :: "TextEvent list"
    by (induction q) auto
  from this [of "text_q st"] show "counters_ok st \<Longrightarrow> ?thesis"
    unfolding counters_ok_def live_list_trim by (simp add: trim_front_def trim_index_def Let_def)
qed

lemma sorted_dropWhile_less:
  "sorted_wrt (<) ix \<Longrightarrow> set (dropWhile (\<lambda>s. s < f) ix) = {s \<in> set ix. f \<le> s}" for ix :: "nat list"
  by (induction ix) auto

lemma index_drop:
  assumes "index_for c f q {} ix" "n \<le> length q"
  shows "index_for c (f + n) (drop n q) {} (dropWhile (\<lambda>s. s < f + n) ix)"
proof -
  have s: "sorted_wrt (<) ix" using assms by (simp add: index_for_def)
  have "sorted_wrt (<) (dropWhile (\<lambda>s. s < f + n) ix)"
    using s by (metis sorted_wrt_append takeWhile_dropWhile_id)
  moreover have "drop n q ! (s - (f + n)) = q ! (s - f)" if "f + n \<le> s" for s
    using that assms(2) by simp
  ultimately show ?thesis
    using assms unfolding index_for_def sorted_dropWhile_less [OF s]
    by (auto simp: add.assoc less_diff_conv2)
qed

lemma index_trim: "index_ok {} st c \<Longrightarrow> index_ok {} (trim_index (trim_front st)) c"
  unfolding trim_index_def trim_front_def Let_def
  by (simp add: dropWhile_eq_drop [of _ "text_q st"] length_takeWhile_le index_drop)

section \<open>Rebuilding\<close>

definition rebuilt :: "nat \<Rightarrow> TextEvent list \<Rightarrow> (EventClass \<Rightarrow> nat list) \<Rightarrow> bool" where
  "rebuilt front kept ev \<longleftrightarrow> (\<forall>c. c \<noteq> kState \<longrightarrow> index_for c front kept {} (ev c))"

lemma index_snoc:
  assumes "index_for c f q {} ix"
  shows "index_for c f (q @ [e]) {} (if cls e = c then ix @ [f + length q] else ix)"
  using assms unfolding index_for_def
  by (auto simp: sorted_wrt_append nth_append less_Suc_eq)

lemma index_push_evictable:
  "c \<noteq> kState \<Longrightarrow> text_evictable (index_push c' s st) c =
     (if c' = c then text_evictable st c @ [s] else text_evictable st c)"
  by (simp add: index_push_def)

lemma rebuilt_push:
  "rebuilt f kept (text_evictable st) \<Longrightarrow>
     rebuilt f (kept @ [e]) (text_evictable (index_push (cls e) (f + length kept) st))"
  unfolding rebuilt_def by (simp add: index_push_evictable index_snoc)

lemma purge_loop_inv:
  assumes "purge_loop i k es (kept, d, st) = (kept', d', st')"
    and "tallies (kept @ filter live es) st"
    and "rebuilt (text_q_front_seq st) kept (text_evictable st)"
  shows "tallies kept' st' \<and> rebuilt (text_q_front_seq st) kept' (text_evictable st')"
  using assms
proof (induction es arbitrary: kept d st)
  case (Cons e es)
  show ?case
  proof (cases "live e")
    case dead: False
    then show ?thesis using Cons by simp
  next
    case alive: True
    then have t: "tallies (kept @ e # filter live es) st" using Cons.prems(2) by simp
    show ?thesis
    proof (cases "mine_and_stale i k e")
      case True
      with alive Cons.IH [of kept "d + 1" "forget_live e st"] Cons.prems tallies_forget [OF t]
      show ?thesis by simp
    next
      case False
      with alive Cons.IH [of "kept @ [e]" d "index_push (cls e) (text_q_front_seq st + length kept) st"]
        Cons.prems t show ?thesis by (simp add: rebuilt_push)
    qed
  qed
qed simp

lemma rebuilt_Nil [simp]: "rebuilt f [] (\<lambda>_. [])"
  by (simp add: rebuilt_def index_for_def)

lemma purge_inv:
  assumes "counters_ok st"
  shows "counters_ok (fst (purge_locked i k st)) \<and> indexes_ok (fst (purge_locked i k st))"
proof (cases "purge_loop i k (text_q st) ([], 0, st\<lparr>text_evictable := (\<lambda>_. [])\<rparr>)")
  case (fields kept d st')
  from purge_loop_kept [OF fields] have kept: "kept = filter (\<lambda>e. live e \<and> \<not> mine_and_stale i k e) (text_q st)"
    and front: "text_q_front_seq st' = text_q_front_seq st" by simp_all
  have "tallies kept st' \<and> rebuilt (text_q_front_seq st) kept (text_evictable st')"
    using purge_loop_inv [OF fields] assms by (simp add: counters_ok_def live_list_def)
  moreover have "filter live kept = kept" "filter (\<lambda>e. \<not> live e) kept = []"
    unfolding kept by (auto intro!: filter_cong)
  ultimately show ?thesis
    using fields front by (simp add: purge_locked_def counters_ok_def live_list_def indexes_ok_def rebuilt_def)
qed

lemma purge_frame:
  "text_tombstones (fst (purge_locked i k st)) = 0"
  "text_polled_epoch (fst (purge_locked i k st)) = text_polled_epoch st"
  "custom_q (fst (purge_locked i k st)) = custom_q st"
  "g_drops (fst (purge_locked i k st)) = g_drops st"
  by (auto simp: purge_locked_def split: prod.split dest!: purge_loop_kept)

lemma purge_dropped:
  "snd (purge_locked i k st) = length (filter (mine_and_stale i k) (live_list st))"
  by (auto simp: purge_locked_def live_list_def conj_commute split: prod.split dest!: purge_loop_kept)

lemma compact_frame [simp]:
  "text_polled_epoch (compact_locked st) = text_polled_epoch st" "custom_q (compact_locked st) = custom_q st"
  "g_drops (compact_locked st) = g_drops st"
  by (simp_all add: compact_locked_def purge_frame)

lemma filter_le: "length (filter P es) \<le> length es" "bytes_of (filter P es) \<le> bytes_of es"
  by (simp, induction es) auto

section \<open>Removal and eviction\<close>

definition within_caps :: "TextEvent list \<Rightarrow> bool" where
  "within_caps es \<longleftrightarrow> length es \<le> kHardMaxEvents \<and> bytes_of es \<le> kHardMaxBytes"

lemma caps_ok_alt:
  "caps_ok st \<longleftrightarrow> within_caps (live_list st)
     \<and> (text_tombstones st < kCompactMinTombstones \<or> text_tombstones st \<le> text_live_events st)"
  by (simp add: caps_ok_def within_caps_def)

lemma remove_inv:
  assumes "counters_ok st" "\<And>c. c \<noteq> kState \<Longrightarrow> index_ok {pos} st c" "within_caps (live_list st)"
    and q: "text_q st = us @ e # vs" "length us = pos" "live e"
  shows "queue_inv (remove_locked pos st) \<and> live_list (remove_locked pos st) = filter live us @ filter live vs"
proof -
  let ?t = "trim_index (trim_front (bury pos st))"
  have "index_ok {} (bury pos st) c" if "c \<noteq> kState" for c
    using index_bury [OF assms(2) [OF that]] q by (simp add: bury_def Let_def)
  then have t: "counters_ok ?t" "indexes_ok ?t"
    using counters_trim [OF counters_bury [OF assms(1) q]] by (simp_all add: indexes_ok_def index_trim)
  have abs: "live_list (remove_locked pos st) = filter live us @ filter live vs"
    using live_list_bury [OF q(1,2)] by (simp add: live_list_remove)
  moreover have "within_caps (filter live us @ filter live vs)"
    using assms(3) q by (simp add: within_caps_def live_list_def)
  moreover have "counters_ok (remove_locked pos st) \<and> indexes_ok (remove_locked pos st) \<and>
      (text_tombstones (remove_locked pos st) < kCompactMinTombstones
        \<or> text_tombstones (remove_locked pos st) \<le> text_live_events (remove_locked pos st))"
    using t purge_inv [OF t(1)]
    by (auto simp: remove_locked_def Let_def compact_locked_def purge_frame kCompactMinTombstones_def)
  ultimately show ?thesis by (simp add: queue_inv_def caps_ok_alt)
qed

lemma remove_frame [simp]:
  "text_polled_epoch (remove_locked pos st) = text_polled_epoch st"
  "custom_q (remove_locked pos st) = custom_q st" "g_drops (remove_locked pos st) = g_drops st"
  by (simp_all add: remove_locked_def Let_def trim_index_def trim_front_def bury_def)

text \<open>The first element with a property, removed.\<close>

fun drop_first :: "('a \<Rightarrow> bool) \<Rightarrow> 'a list \<Rightarrow> 'a list" where
  "drop_first P [] = []"
| "drop_first P (x # xs) = (if P x then xs else x # drop_first P xs)"

lemma drop_first_append:
  "(\<And>x. x \<in> set us \<Longrightarrow> \<not> P x) \<Longrightarrow> P e \<Longrightarrow> drop_first P (us @ e # vs) = us @ vs"
  by (induction us) auto

lemma drop_first_none: "(\<And>x. x \<in> set xs \<Longrightarrow> \<not> P x) \<Longrightarrow> drop_first P xs = xs"
  by (induction xs) auto

lemma drop_first_length: "\<exists>x \<in> set xs. P x \<Longrightarrow> length (drop_first P xs) < length xs"
  by (induction xs) auto

lemma drop_first_filter: "(\<And>x. x \<in> set xs \<Longrightarrow> P x \<Longrightarrow> \<not> R x) \<Longrightarrow> filter R (drop_first P xs) = filter R xs"
  by (induction xs) auto

lemma index_tail_stale:
  assumes "index_for c f q {} (s # ix)" "s < f \<or> s - f \<ge> length q \<or> \<not> live (q ! (s - f))"
  shows "index_for c f q {} ix"
proof -
  have "p \<noteq> s - f \<or> s < f" if "p < length q" "live (q ! p)" for p using assms(2) that by auto
  then have "f + p \<noteq> s" if "p < length q" "live (q ! p)" for p using that by fastforce
  with assms(1) show ?thesis unfolding index_for_def by auto
qed

lemma index_tail_live: "index_for c f q {} (s # ix) \<Longrightarrow> f \<le> s \<Longrightarrow> index_for c f q {s - f} ix"
  unfolding index_for_def by (simp, metis diff_add_inverse)

lemma index_head_oldest:
  assumes "index_for c f q {} (s # ix)" "p < s - f" "f \<le> s" "s - f < length q" "live (q ! p)"
  shows "cls (q ! p) \<noteq> c"
proof
  assume "cls (q ! p) = c"
  then have "f + p \<in> set (s # ix)" using assms unfolding index_for_def by auto
  moreover have "\<forall>t \<in> set ix. s < t" using assms unfolding index_for_def by simp
  ultimately show False using assms(2) by auto
qed

abbreviation of_class :: "EventClass \<Rightarrow> TextEvent \<Rightarrow> bool" where
  "of_class c \<equiv> \<lambda>e. cls e = c"

lemma index_Nil_none:
  "index_for c f q {} [] \<Longrightarrow> \<not> (\<exists>e \<in> set (filter live q). cls e = c)"
  unfolding index_for_def by (auto simp: in_set_conv_nth)

lemma evict_scan_spec:
  assumes "counters_ok st" "within_caps (live_list st)" "c \<noteq> kState"
    and "\<And>c'. c' \<noteq> kState \<Longrightarrow> c' \<noteq> c \<Longrightarrow> index_ok {} st c'"
    and "index_for c (text_q_front_seq st) (text_q st) {} ix"
  shows "if \<exists>e \<in> set (live_list st). cls e = c
    then \<exists>st'. evict_scan c ix st = (st', True) \<and> queue_inv st'
      \<and> live_list st' = drop_first (of_class c) (live_list st)
      \<and> g_drops st' = (g_drops st)(c := g_drops st c + 1)
      \<and> text_polled_epoch st' = text_polled_epoch st \<and> custom_q st' = custom_q st
    else evict_scan c ix st = (st\<lparr>text_evictable := (text_evictable st)(c := [])\<rparr>, False)"
  using assms(5)
proof (induction ix)
  case Nil
  then show ?case using index_Nil_none by (fastforce simp: live_list_def)
next
  case (Cons s ix)
  let ?f = "text_q_front_seq st" and ?q = "text_q st"
  show ?case
  proof (cases "s < ?f \<or> s - ?f \<ge> length ?q \<or> \<not> live (?q ! (s - ?f))")
    case True
    then have "evict_scan c (s # ix) st = evict_scan c ix st" by (auto simp: Let_def)
    then show ?thesis using Cons.IH [OF index_tail_stale [OF Cons.prems True]] by (simp only:)
  next
    case False
    then have pos: "s - ?f < length ?q" "?f \<le> s" "live (?q ! (s - ?f))" by auto
    obtain us e vs where q: "?q = us @ e # vs" "length us = s - ?f" "?q ! (s - ?f) = e"
      using pos(1) by (rule split_at)
    let ?s = "RecordDrop c (st\<lparr>text_evictable := (text_evictable st)(c := ix)\<rparr>)"
    have kls: "cls e = c" using Cons.prems pos q(3) unfolding index_for_def by auto
    have older: "\<not> cls x = c" if x: "x \<in> set (filter live us)" for x
    proof -
      from x obtain p where "p < length us" "us ! p = x" "live x" by (auto simp: in_set_conv_nth)
      then show ?thesis using index_head_oldest [OF Cons.prems, of p] pos q by (simp add: nth_append)
    qed
    have "index_ok {s - ?f} ?s c'" if "c' \<noteq> kState" for c'
      using index_tail_live [OF Cons.prems pos(2)] assms(4) [OF that]
      by (auto simp: RecordDrop_def index_for_def)
    moreover have "counters_ok ?s" "within_caps (live_list ?s)"
      using assms(1,2) by (simp_all add: counters_ok_def tallies_def live_list_def RecordDrop_def)
    ultimately have rm: "queue_inv (remove_locked (s - ?f) ?s) \<and>
        live_list (remove_locked (s - ?f) ?s) = filter live us @ filter live vs"
      using q pos by (intro remove_inv [of ?s _ us e vs]) (simp_all add: RecordDrop_def)
    have abs: "live_list st = filter live us @ e # filter live vs"
      using q pos by (simp add: live_list_def)
    have ev: "evict_scan c (s # ix) st = (remove_locked (s - ?f) ?s, True)" using pos by (simp add: Let_def)
    have "drop_first (of_class c) (live_list st) = filter live us @ filter live vs"
      unfolding abs by (rule drop_first_append) (use older kls in auto)
    moreover have "\<exists>e \<in> set (live_list st). cls e = c" using abs kls by auto
    ultimately show ?thesis using rm ev by (auto simp: RecordDrop_def)
  qed
qed

lemma queue_inv_index_Nil:
  assumes "queue_inv st" "\<not> (\<exists>e \<in> set (live_list st). cls e = c)"
  shows "queue_inv (st\<lparr>text_evictable := (text_evictable st)(c := [])\<rparr>)"
proof -
  have "index_for c (text_q_front_seq st) (text_q st) {} []"
    using assms(2) by (auto simp: index_for_def live_list_def in_set_conv_nth)
  with assms(1) show ?thesis
    by (auto simp: queue_inv_def counters_ok_def indexes_ok_def caps_ok_def live_list_def)
qed

text \<open>\<open>evict_oldest_locked\<close> removes the oldest live event of its class, if there is one.\<close>

lemma evict_oldest_spec:
  assumes "queue_inv st" "c \<noteq> kState" "evict_oldest_locked c st = (st', b)"
  shows "queue_inv st' \<and> b = (\<exists>e \<in> set (live_list st). cls e = c)
     \<and> live_list st' = drop_first (of_class c) (live_list st)
     \<and> g_drops st' = (if b then (g_drops st)(c := g_drops st c + 1) else g_drops st)
     \<and> text_polled_epoch st' = text_polled_epoch st \<and> custom_q st' = custom_q st"
proof -
  have pre: "counters_ok st" "within_caps (live_list st)" "\<And>c'. c' \<noteq> kState \<Longrightarrow> index_ok {} st c'"
    using assms(1) by (simp_all add: queue_inv_def caps_ok_alt indexes_ok_def)
  note spec = evict_scan_spec [OF pre(1,2) assms(2) pre(3) pre(3) [OF assms(2)], folded evict_oldest_locked_def, unfolded assms(3)]
  show ?thesis
  proof (cases "\<exists>e \<in> set (live_list st). cls e = c")
    case True
    with spec show ?thesis by auto
  next
    case False
    with spec have "st' = st\<lparr>text_evictable := (text_evictable st)(c := [])\<rparr>" "b = False" by auto
    with False queue_inv_index_Nil [OF assms(1) False] show ?thesis
      by (auto simp: live_list_def intro!: drop_first_none [symmetric])
  qed
qed

end
