(* ===== verification/TextQueueRefinement.thy ===== *)
theory TextQueueRefinement
  imports TextQueueInvariant
begin

text \<open>
  The text-event queue against its contract: a plain list of waiting events with no tombstones,
  sequence numbers, indexes or cached counters. Making room means deleting the oldest lossy
  event, or the oldest chat event, from that list; polling takes the first event for the
  instance or for everybody. The deque implements this machine: the same calls give the same
  results, whatever their order.
\<close>

section \<open>The contract\<close>

record event_fifo =
  waiting :: "TextEvent list"
  seen_epoch :: "(int, int) umap"
  waiting_custom :: "(int \<times> bytes) list"
  lost :: "EventClass \<Rightarrow> nat"

definition fifo_over :: "nat \<Rightarrow> nat \<Rightarrow> nat \<Rightarrow> event_fifo \<Rightarrow> bool" where
  "fifo_over n max_events max_bytes a \<longleftrightarrow>
     length (waiting a) + 1 > max_events \<or> bytes_of (waiting a) + n > max_bytes"

definition has_class :: "EventClass \<Rightarrow> event_fifo \<Rightarrow> bool" where
  "has_class c a \<longleftrightarrow> (\<exists>e \<in> set (waiting a). cls e = c)"

definition fifo_lose :: "EventClass \<Rightarrow> event_fifo \<Rightarrow> event_fifo" where
  "fifo_lose c a = a\<lparr>lost := (lost a)(c := lost a c + 1)\<rparr>"

definition fifo_evict :: "EventClass \<Rightarrow> event_fifo \<Rightarrow> event_fifo" where
  "fifo_evict c a = fifo_lose c (a\<lparr>waiting := drop_first (of_class c) (waiting a)\<rparr>)"

definition victim :: "EventClass \<Rightarrow> event_fifo \<Rightarrow> EventClass option" where
  "victim c a = (if has_class kLossy a then Some kLossy
     else if c \<noteq> kLossy \<and> has_class kChat a then Some kChat else None)"

lemma fifo_evict_shrinks: "victim c a = Some v \<Longrightarrow> length (waiting (fifo_evict v a)) < length (waiting a)"
  by (auto simp: victim_def has_class_def fifo_evict_def fifo_lose_def split: if_splits intro: drop_first_length)

function fifo_room :: "nat \<Rightarrow> EventClass \<Rightarrow> event_fifo \<Rightarrow> event_fifo" where
  "fifo_room n c a =
     (if fifo_over n kSoftMaxEvents kSoftMaxBytes a
      then case victim c a of None \<Rightarrow> a | Some v \<Rightarrow> fifo_room n c (fifo_evict v a)
      else a)"
  by auto
termination
  by (relation "measure (\<lambda>(n, c, a). length (waiting a))") (auto simp: fifo_evict_shrinks)

declare fifo_room.simps [simp del]

definition fifo_enqueue :: "int \<Rightarrow> int \<Rightarrow> string \<Rightarrow> event_fifo \<Rightarrow> event_fifo" where
  "fifo_enqueue i epoch s a =
     (let c = Classify s; a = fifo_room (length s) c a;
          soft = fifo_over (length s) kSoftMaxEvents kSoftMaxBytes a;
          hard = fifo_over (length s) kHardMaxEvents kHardMaxBytes a in
      if soft \<and> (c \<noteq> kState \<or> hard) then fifo_lose c a
      else a\<lparr>waiting := waiting a @
        [\<lparr>instance_id = i, line = s, cls = c, live = True, session_epoch = epoch\<rparr>]\<rparr>)"

definition fifo_forget :: "int \<Rightarrow> int \<Rightarrow> event_fifo \<Rightarrow> event_fifo" where
  "fifo_forget i keep a = a\<lparr>waiting := filter (\<lambda>e. \<not> mine_and_stale i keep e) (waiting a)\<rparr>"

definition fifo_session :: "int \<Rightarrow> int \<Rightarrow> event_fifo \<Rightarrow> event_fifo" where
  "fifo_session i epoch a =
     (if epoch > 0 \<and> um_find (seen_epoch a) i \<noteq> Some epoch
      then (fifo_forget i epoch a)\<lparr>seen_epoch := um_put i epoch (seen_epoch a)\<rparr> else a)"

definition fifo_poll :: "int \<Rightarrow> int \<Rightarrow> bool \<Rightarrow> int \<Rightarrow> event_fifo \<Rightarrow> event_fifo \<times> int \<times> string option" where
  "fifo_poll i epoch has_buffer len a =
     (let a = fifo_session i epoch a in
      case List.find (poll_matches i) (waiting a) of None \<Rightarrow> (a, 0, None)
      | Some e \<Rightarrow> (case CopyPayloadOrReturnRequiredCapacity (line e) has_buffer len of (n, out) \<Rightarrow>
          ((if n < 0 then a else a\<lparr>waiting := drop_first (poll_matches i) (waiting a)\<rparr>), n, out)))"

definition fifo_purge :: "int \<Rightarrow> event_fifo \<Rightarrow> event_fifo" where
  "fifo_purge i a =
     (let a = fifo_forget i kSessionEpochNone a in
      a\<lparr>seen_epoch := um_erase i (seen_epoch a),
        waiting_custom := filter (\<lambda>entry. fst entry \<noteq> i) (waiting_custom a)\<rparr>)"

definition fifo_custom :: "int \<Rightarrow> nat \<Rightarrow> event_fifo \<Rightarrow> event_fifo \<times> nat \<times> bytes" where
  "fifo_custom i len a =
     (case custom_scan (length (waiting_custom a)) i (waiting_custom a) of (q, found) \<Rightarrow>
        (a\<lparr>waiting_custom := q\<rparr>,
         (case found of None \<Rightarrow> (0, []) | Some d \<Rightarrow> (min (length d) len, take (min (length d) len) d))))"

section \<open>Operations as data\<close>

datatype queue_op =
  Enqueue int int string
| Poll int int bool int
| Purge int
| Poll_Custom int nat

datatype queue_out = No_Result | Polled int "string option" | Polled_Custom nat bytes

fun queue_do :: "queue_op \<Rightarrow> SimpleMsgListenerImpl \<Rightarrow> SimpleMsgListenerImpl \<times> queue_out" where
  "queue_do (Enqueue i epoch s) st = (enqueue_text_line_for_instance i epoch s st, No_Result)"
| "queue_do (Poll i epoch has_buffer len) st =
     (case poll_text i epoch has_buffer len st of (st', n, out) \<Rightarrow> (st', Polled n out))"
| "queue_do (Purge i) st = (purge_instance i st, No_Result)"
| "queue_do (Poll_Custom i len) st = (case poll_custom i len st of (st', n, d) \<Rightarrow> (st', Polled_Custom n d))"

fun fifo_do :: "queue_op \<Rightarrow> event_fifo \<Rightarrow> event_fifo \<times> queue_out" where
  "fifo_do (Enqueue i epoch s) a = (fifo_enqueue i epoch s a, No_Result)"
| "fifo_do (Poll i epoch has_buffer len) a =
     (case fifo_poll i epoch has_buffer len a of (a', n, out) \<Rightarrow> (a', Polled n out))"
| "fifo_do (Purge i) a = (fifo_purge i a, No_Result)"
| "fifo_do (Poll_Custom i len) a = (case fifo_custom i len a of (a', n, d) \<Rightarrow> (a', Polled_Custom n d))"

definition fifo_of :: "SimpleMsgListenerImpl \<Rightarrow> event_fifo" where
  "fifo_of st = \<lparr> waiting = live_list st, seen_epoch = text_polled_epoch st,
     waiting_custom = custom_q st, lost = g_drops st \<rparr>"

section \<open>Simulation\<close>

lemma over_caps_fifo: "queue_inv st \<Longrightarrow> over_caps_locked n e b st = fifo_over n e b (fifo_of st)"
  by (simp add: queue_inv_def counters_ok_def tallies_def over_caps_locked_def fifo_over_def fifo_of_def)

lemma evict_for_sim:
  assumes "queue_inv st" "evict_for c st = (st', b)"
  shows "queue_inv st' \<and> b = (victim c (fifo_of st) \<noteq> None) \<and>
    fifo_of st' = (case victim c (fifo_of st) of None \<Rightarrow> fifo_of st | Some v \<Rightarrow> fifo_evict v (fifo_of st))"
proof -
  obtain s1 b1 where l: "evict_oldest_locked kLossy st = (s1, b1)" by fastforce
  note L = evict_oldest_spec [OF assms(1) _ l]
  show ?thesis
  proof (cases "b1 \<or> c = kLossy")
    case True
    with assms(2) l L show ?thesis
      by (auto simp: evict_for_def victim_def has_class_def fifo_of_def fifo_evict_def fifo_lose_def
          drop_first_none split: if_splits)
  next
    case False
    with assms(2) l have ch: "evict_oldest_locked kChat s1 = (st', b)" by (simp add: evict_for_def)
    have same: "live_list s1 = live_list st" using L False by (auto intro: drop_first_none)
    note C = evict_oldest_spec [OF _ _ ch]
    from L C same False show ?thesis
      by (auto simp: victim_def has_class_def fifo_of_def fifo_evict_def fifo_lose_def drop_first_none)
  qed
qed

lemma make_room_sim: "queue_inv st \<Longrightarrow> queue_inv (text_make_room n c st) \<and> fifo_of (text_make_room n c st) = fifo_room n c (fifo_of st)"
proof (induction n c st rule: text_make_room.induct)
  case (1 n c st)
  obtain st' b where ev: "evict_for c st = (st', b)" by fastforce
  note E = evict_for_sim [OF 1(2) ev]
  show ?case
  proof (cases "over_caps_locked n kSoftMaxEvents kSoftMaxBytes st \<and> b")
    case True
    then have "queue_inv (text_make_room n c st') \<and> fifo_of (text_make_room n c st') = fifo_room n c (fifo_of st')"
      using 1(1) [OF _ ev [symmetric]] E by simp
    moreover obtain v where "victim c (fifo_of st) = Some v" using True E by auto
    ultimately show ?thesis
      using True E ev over_caps_fifo [OF 1(2)]
      by (simp add: text_make_room.simps [of n c st] fifo_room.simps [of n c "fifo_of st"])
  next
    case False
    then show ?thesis
      using E ev over_caps_fifo [OF 1(2)] 1(2)
      by (auto simp: text_make_room.simps [of n c st] fifo_room.simps [of n c "fifo_of st"])
  qed
qed

lemma queue_inv_drop [simp]: "queue_inv (RecordDrop c st) = queue_inv st"
  by (simp add: queue_inv_def counters_ok_def indexes_ok_def caps_ok_def live_list_def RecordDrop_def tallies_def)

lemma fifo_of_drop: "fifo_of (RecordDrop c st) = fifo_lose c (fifo_of st)"
  by (simp add: fifo_of_def fifo_lose_def RecordDrop_def live_list_def)

text \<open>The state after \<open>push_back\<close> and the counter updates.\<close>

definition admit_event :: "TextEvent \<Rightarrow> SimpleMsgListenerImpl \<Rightarrow> SimpleMsgListenerImpl" where
  "admit_event e st =
     (let st = index_push (cls e) (text_q_front_seq st + length (text_q st)) (st\<lparr>text_q := text_q st @ [e]\<rparr>)
      in st\<lparr>text_live_events := text_live_events st + 1,
            text_live_bytes := text_live_bytes st + length (line e),
            text_live_per_instance := count_up (instance_id e) (text_live_per_instance st)\<rparr>)"

lemma admit_event_inv:
  assumes "queue_inv st" "live e" "\<not> over_caps_locked (length (line e)) kHardMaxEvents kHardMaxBytes st"
  shows "queue_inv (admit_event e st)"
proof -
  have abs: "live_list (admit_event e st) = live_list st @ [e]"
    using assms(2) by (simp add: admit_event_def live_list_def Let_def)
  have "counters_ok (admit_event e st)"
    unfolding counters_ok_def abs using assms(1,2) counts_up
    by (simp add: admit_event_def Let_def tallies_def queue_inv_def counters_ok_def)
  moreover have "indexes_ok (admit_event e st)"
    using assms(1) index_snoc
    by (simp add: admit_event_def Let_def indexes_ok_def queue_inv_def index_push_evictable)
  moreover have "caps_ok (admit_event e st)"
    using assms(1,3) unfolding caps_ok_def abs
    by (auto simp: queue_inv_def caps_ok_def counters_ok_def tallies_def over_caps_locked_def admit_event_def Let_def)
  ultimately show ?thesis by (simp add: queue_inv_def)
qed

lemma fifo_of_admit_event:
  "live e \<Longrightarrow> fifo_of (admit_event e st) = (fifo_of st)\<lparr>waiting := waiting (fifo_of st) @ [e]\<rparr>"
  by (simp add: fifo_of_def admit_event_def live_list_def Let_def)

lemma soft_below_hard:
  "fifo_over n kHardMaxEvents kHardMaxBytes a \<Longrightarrow> fifo_over n kSoftMaxEvents kSoftMaxBytes a"
  by (auto simp: fifo_over_def kHardMaxEvents_def kHardMaxBytes_def)

lemma enqueue_alt:
  "enqueue_text_line_for_instance i epoch s st =
     (let c = Classify s; st = text_make_room (length s) c st in
      if over_caps_locked (length s) kSoftMaxEvents kSoftMaxBytes st
         \<and> (c \<noteq> kState \<or> over_caps_locked (length s) kHardMaxEvents kHardMaxBytes st)
      then RecordDrop c st
      else admit_event \<lparr>instance_id = i, line = s, cls = c, live = True, session_epoch = epoch\<rparr> st)"
  by (auto simp: enqueue_text_line_for_instance_def admit_event_def Let_def)

lemma enqueue_sim:
  assumes "queue_inv st"
  shows "queue_inv (enqueue_text_line_for_instance i epoch s st) \<and>
    fifo_of (enqueue_text_line_for_instance i epoch s st) = fifo_enqueue i epoch s (fifo_of st)"
proof -
  let ?c = "Classify s" and ?e = "\<lparr>instance_id = i, line = s, cls = Classify s, live = True, session_epoch = epoch\<rparr>"
  let ?st = "text_make_room (length s) ?c st"
  from make_room_sim [OF assms] have room: "queue_inv ?st" "fifo_of ?st = fifo_room (length s) ?c (fifo_of st)" by auto
  note over = over_caps_fifo [OF room(1)]
  let ?refuse = "fifo_over (length s) kSoftMaxEvents kSoftMaxBytes (fifo_of ?st)
      \<and> (?c \<noteq> kState \<or> fifo_over (length s) kHardMaxEvents kHardMaxBytes (fifo_of ?st))"
  have impl: "enqueue_text_line_for_instance i epoch s st = (if ?refuse then RecordDrop ?c ?st else admit_event ?e ?st)"
    unfolding enqueue_alt Let_def over ..
  have spec: "fifo_enqueue i epoch s (fifo_of st) =
      (if ?refuse then fifo_lose ?c (fifo_of ?st) else (fifo_of ?st)\<lparr>waiting := waiting (fifo_of ?st) @ [?e]\<rparr>)"
    unfolding fifo_enqueue_def Let_def room(2) ..
  show ?thesis
  proof (cases ?refuse)
    case True
    then show ?thesis unfolding impl spec using room(1) fifo_of_drop by (simp only: if_True queue_inv_drop simp_thms)
  next
    case False
    then have "\<not> over_caps_locked (length (line ?e)) kHardMaxEvents kHardMaxBytes ?st"
      using soft_below_hard by (auto simp: over)
    from admit_event_inv [OF room(1) _ this] have "queue_inv (admit_event ?e ?st)" by simp
    then show ?thesis unfolding impl spec if_not_P [OF False] by (simp add: fifo_of_admit_event)
  qed
qed

lemma purge_sim:
  assumes "queue_inv st"
  shows "queue_inv (fst (purge_locked i k st)) \<and> fifo_of (fst (purge_locked i k st)) = fifo_forget i k (fifo_of st)"
proof -
  have "within_caps (live_list (fst (purge_locked i k st)))"
    using assms filter_le order_trans unfolding live_list_purge queue_inv_def caps_ok_alt within_caps_def by blast
  then show ?thesis using assms purge_inv
    by (simp add: queue_inv_def caps_ok_alt purge_frame kCompactMinTombstones_def fifo_of_def fifo_forget_def live_list_purge)
qed

lemma queue_inv_epochs [simp]:
  "queue_inv (st\<lparr>text_polled_epoch := p\<rparr>) = queue_inv st" "queue_inv (st\<lparr>custom_q := q\<rparr>) = queue_inv st"
  by (simp_all add: queue_inv_def counters_ok_def indexes_ok_def caps_ok_def live_list_def)

lemma fifo_of_updates [simp]:
  "fifo_of (st\<lparr>text_polled_epoch := p\<rparr>) = (fifo_of st)\<lparr>seen_epoch := p\<rparr>"
  "fifo_of (st\<lparr>custom_q := q\<rparr>) = (fifo_of st)\<lparr>waiting_custom := q\<rparr>"
  by (simp_all add: fifo_of_def live_list_def)

lemma fifo_of_sel [simp]:
  "waiting (fifo_of st) = live_list st" "seen_epoch (fifo_of st) = text_polled_epoch st"
  "waiting_custom (fifo_of st) = custom_q st" "lost (fifo_of st) = g_drops st"
  by (simp_all add: fifo_of_def)

lemma session_sim:
  "queue_inv st \<Longrightarrow> queue_inv (poll_session i epoch st) \<and> fifo_of (poll_session i epoch st) = fifo_session i epoch (fifo_of st)"
  by (simp add: poll_session_def fifo_session_def Let_def purge_sim purge_frame)

lemma poll_scan_Some:
  "poll_scan i n q = Some p \<Longrightarrow> \<exists>us e vs. q = us @ e # vs \<and> p = n + length us \<and> poll_matches i e
     \<and> (\<forall>x \<in> set us. \<not> poll_matches i x)"
proof (induction q arbitrary: n)
  case (Cons x q)
  show ?case
  proof (cases "poll_matches i x")
    case True
    with Cons.prems show ?thesis by (auto intro!: exI [of _ "[]"])
  next
    case False
    with Cons.prems have "poll_scan i (Suc n) q = Some p" by simp
    from Cons.IH [OF this] obtain us e vs where "q = us @ e # vs" "p = Suc n + length us" "poll_matches i e"
        "\<forall>x \<in> set us. \<not> poll_matches i x" by blast
    with False show ?thesis by (intro exI [of _ "x # us"]) auto
  qed
qed simp

lemma poll_scan_None: "poll_scan i n q = None \<longleftrightarrow> (\<forall>x \<in> set q. \<not> poll_matches i x)"
  by (induction q arbitrary: n) auto

lemma find_append_first:
  "(\<forall>x \<in> set us. \<not> P x) \<Longrightarrow> P e \<Longrightarrow> List.find P (us @ e # vs) = Some e"
  by (induction us) auto

lemma poll_none_waiting:
  assumes "queue_inv st" "live_count_for_locked 0 st = 0 \<and> (i = 0 \<or> live_count_for_locked i st = 0)"
  shows "\<forall>x \<in> set (live_list st). \<not> poll_matches i x"
proof -
  have "number_for j (live_list st) = live_count_for_locked j st" for j
    using assms(1) by (auto simp: queue_inv_def counters_ok_def tallies_def counts_def live_count_for_locked_def)
  with assms(2) have "number_for 0 (live_list st) = 0 \<and> number_for i (live_list st) = 0" by auto
  then show ?thesis by (auto simp: number_for_def filter_empty_conv poll_matches_def)
qed

lemma poll_sim:
  assumes "queue_inv st0" "poll_text i epoch hb len st0 = (st', r)"
  shows "queue_inv st' \<and> fifo_poll i epoch hb len (fifo_of st0) = (fifo_of st', r)"
proof -
  define st where "st = poll_session i epoch st0"
  have inv: "queue_inv st" and abs: "fifo_of st = fifo_session i epoch (fifo_of st0)"
    using session_sim [OF assms(1)] by (simp_all add: st_def)
  let ?idle = "live_count_for_locked 0 st = 0 \<and> (i = 0 \<or> live_count_for_locked i st = 0)"
  consider (none) "\<forall>x \<in> set (live_list st). \<not> poll_matches i x" "st' = st" "r = (0, None)"
    | (some) p where "\<not> ?idle" "poll_scan i 0 (text_q st) = Some p"
  proof (cases ?idle)
    case True
    then show ?thesis using none poll_none_waiting [OF inv] assms(2) by (auto simp: poll_text_def st_def)
  next
    case False
    then show ?thesis
    proof (cases "poll_scan i 0 (text_q st)")
      case None
      then show ?thesis using none False assms(2) poll_scan_None [of i 0 "text_q st"]
        by (auto simp: poll_text_def st_def live_list_def)
    next
      case (Some p)
      show ?thesis by (rule some [OF False Some])
    qed
  qed
  then show ?thesis
  proof cases
    case none
    then have "List.find (poll_matches i) (live_list st) = None" by (simp add: find_None_iff)
    with none inv show ?thesis by (simp add: fifo_poll_def abs [symmetric])
  next
    case some
    from poll_scan_Some [OF some(2)] obtain us e vs where q: "text_q st = us @ e # vs" "length us = p"
      and m: "poll_matches i e" "\<forall>x \<in> set us. \<not> poll_matches i x" by auto
    have ll: "live_list st = filter live us @ e # filter live vs"
      using q m by (simp add: live_list_def poll_matches_def)
    have at: "text_q st ! p = e" using q by (simp add: nth_append flip: q(2))
    have find: "List.find (poll_matches i) (live_list st) = Some e"
      and first: "drop_first (poll_matches i) (live_list st) = filter live us @ filter live vs"
      unfolding ll using m by (auto intro: find_append_first drop_first_append)
    have rm: "queue_inv (remove_locked p st) \<and> live_list (remove_locked p st) = filter live us @ filter live vs"
      using inv q m by (intro remove_inv [of st p us e vs])
        (auto simp: queue_inv_def indexes_ok_def caps_ok_alt index_for_def poll_matches_def)
    obtain n out where c: "CopyPayloadOrReturnRequiredCapacity (line e) hb len = (n, out)" by fastforce
    have "(st', r) = (if n < 0 then (st, n, out) else (remove_locked p st, n, out))"
      using some assms(2) at c by (simp add: poll_text_def st_def [symmetric] Let_def split: if_splits)
    moreover have "fifo_poll i epoch hb len (fifo_of st0) =
        ((if n < 0 then fifo_of st else (fifo_of st)\<lparr>waiting := filter live us @ filter live vs\<rparr>), n, out)"
      using find first c by (simp add: fifo_poll_def Let_def flip: abs)
    moreover have "fifo_of (remove_locked p st) = (fifo_of st)\<lparr>waiting := filter live us @ filter live vs\<rparr>"
      using rm by (simp add: fifo_of_def)
    ultimately show ?thesis using rm inv by (simp split: if_splits)
  qed
qed

lemma purge_instance_sim:
  "queue_inv st \<Longrightarrow> queue_inv (purge_instance i st) \<and> fifo_of (purge_instance i st) = fifo_purge i (fifo_of st)"
  by (simp add: purge_instance_def fifo_purge_def Let_def purge_sim purge_frame fifo_forget_def)

lemma custom_sim:
  "queue_inv st \<Longrightarrow> poll_custom i len st = (st', r) \<Longrightarrow> queue_inv st' \<and> fifo_custom i len (fifo_of st) = (fifo_of st', r)"
  by (auto simp: poll_custom_def fifo_custom_def split: prod.splits option.splits)

interpretation text_fifo: data_refinement fifo_of queue_inv queue_do fifo_do
proof
  fix st p st' r
  assume "queue_inv st" "queue_do p st = (st', r)"
  then show "queue_inv st' \<and> fifo_do p (fifo_of st) = (fifo_of st', r)"
    by (cases p) (auto simp: enqueue_sim purge_instance_sim dest: poll_sim custom_sim split: prod.splits)
qed

lemma queue_inv_init: "queue_inv listener_init"
  by (simp add: queue_inv_def counters_ok_def indexes_ok_def caps_ok_def tallies_def counts_def index_for_def
      listener_init_def live_list_def kCompactMinTombstones_def)

end
