(* ===== verification/TextQueueProperties.thy ===== *)
theory TextQueueProperties
  imports TextQueueRefinement
begin

text \<open>
  What the text-event queue promises its producers and Dart: agreement with the plain list
  after any sequence of calls, bounded memory, the eviction policy, the account of every
  line, delivery without loss or truncation, and isolation of sessions.
\<close>

section \<open>Eviction on the plain list\<close>

definition class_list :: "EventClass \<Rightarrow> event_fifo \<Rightarrow> TextEvent list" where
  "class_list c a = filter (of_class c) (waiting a)"

lemma class_list_Cons:
  "has_class c a \<Longrightarrow> \<exists>e. class_list c a = e # class_list c (fifo_evict c a)"
proof -
  have "\<exists>e \<in> set es. cls e = c \<Longrightarrow> \<exists>e. filter (of_class c) es = e # filter (of_class c) (drop_first (of_class c) es)" for es
    by (induction es) auto
  then show "has_class c a \<Longrightarrow> ?thesis" by (auto simp: has_class_def class_list_def fifo_evict_def fifo_lose_def)
qed

lemma class_list_evict: "class_list c (fifo_evict c a) = drop 1 (class_list c a)"
proof (cases "has_class c a")
  case True
  then obtain e where "class_list c a = e # class_list c (fifo_evict c a)" using class_list_Cons by blast
  then show ?thesis by simp
next
  case False
  then show ?thesis by (auto simp: has_class_def class_list_def fifo_evict_def fifo_lose_def drop_first_none)
qed

lemma class_list_evict_other: "c \<noteq> d \<Longrightarrow> class_list c (fifo_evict d a) = class_list c a"
  by (auto simp: class_list_def fifo_evict_def fifo_lose_def intro!: drop_first_filter)

lemma class_list_empty: "class_list c a = [] \<longleftrightarrow> \<not> has_class c a"
  by (auto simp: class_list_def has_class_def filter_empty_conv)

lemma has_class_evict_other: "c \<noteq> d \<Longrightarrow> has_class c (fifo_evict d a) = has_class c a"
  using class_list_evict_other class_list_empty by metis

lemma room_adds_no_lossy: "\<not> has_class kLossy a \<Longrightarrow> \<not> has_class kLossy (fifo_room k c a)"
proof (induction k c a rule: fifo_room.induct)
  case (1 k c a)
  then show ?case by (auto simp: fifo_room.simps [of k c a] victim_def has_class_evict_other split: if_splits)
qed

lemma lost_evict: "lost (fifo_evict d a) c = lost a c + (if c = d then 1 else 0)"
  by (simp add: fifo_evict_def fifo_lose_def)

text \<open>
  \<open>fifo_room\<close> cuts a prefix of the lossy events and, only when none of them is left, a prefix
  of the chat events; it counts what it cuts.
\<close>

lemma fifo_room_spec:
  "\<exists>n. class_list d (fifo_room k c a) = drop n (class_list d a) \<and>
     lost (fifo_room k c a) d = lost a d + n \<and> n \<le> length (class_list d a) \<and>
     (d = kState \<longrightarrow> n = 0) \<and> (d = kChat \<and> n > 0 \<longrightarrow> c \<noteq> kLossy \<and> class_list kLossy (fifo_room k c a) = [])"
proof (induction k c a rule: fifo_room.induct)
  case (1 k c a)
  show ?case
  proof (cases "fifo_over k kSoftMaxEvents kSoftMaxBytes a \<and> victim c a \<noteq> None")
    case False
    then have "fifo_room k c a = a" by (auto simp: fifo_room.simps [of k c a])
    then show ?thesis by (auto intro: exI [of _ 0])
  next
    case True
    then obtain v where v: "victim c a = Some v" by auto
    with True have room: "fifo_room k c a = fifo_room k c (fifo_evict v a)" by (simp add: fifo_room.simps [of k c a])
    have hv: "has_class v a" "v \<noteq> kState" "v = kChat \<Longrightarrow> c \<noteq> kLossy \<and> \<not> has_class kLossy a"
      using v by (auto simp: victim_def split: if_splits)
    from 1 [OF _ v] True obtain n where
      n: "class_list d (fifo_room k c a) = drop n (class_list d (fifo_evict v a))"
        "lost (fifo_room k c a) d = lost (fifo_evict v a) d + n" "n \<le> length (class_list d (fifo_evict v a))"
        "d = kState \<longrightarrow> n = 0" "d = kChat \<and> n > 0 \<longrightarrow> c \<noteq> kLossy \<and> class_list kLossy (fifo_room k c a) = []"
      unfolding room by blast
    show ?thesis
    proof (cases "d = v")
      case same: True
      obtain e where e: "class_list v a = e # class_list v (fifo_evict v a)" using class_list_Cons [OF hv(1)] by blast
      have "class_list kLossy (fifo_room k c a) = []" if "v = kChat"
      proof -
        have "\<not> has_class kLossy (fifo_evict kChat a)" using hv(3) [OF that] by (simp add: has_class_evict_other)
        then show ?thesis using that room room_adds_no_lossy by (simp add: class_list_empty)
      qed
      then show ?thesis using n hv e same by (intro exI [of _ "Suc n"]) (auto simp: lost_evict)
    next
      case False
      then show ?thesis using n by (intro exI [of _ n]) (auto simp: class_list_evict_other lost_evict)
    qed
  qed
qed

section \<open>After any sequence of calls\<close>

definition queue_after :: "queue_op list \<Rightarrow> SimpleMsgListenerImpl" where
  "queue_after ops = fst (run_all queue_do ops listener_init)"

definition fifo_init :: event_fifo where
  "fifo_init = \<lparr> waiting = [], seen_epoch = [], waiting_custom = [], lost = (\<lambda>_. 0) \<rparr>"

lemma queue_inv_after: "queue_inv (queue_after ops)"
  unfolding queue_after_def using text_fifo.run_agrees [OF queue_inv_init] by blast

text \<open>
  C24. The deque with tombstones, sequence numbers, eviction indexes and cached counters is a
  plain list: for every sequence of enqueues, polls and purges, each poll returns exactly what
  the list of live events would return, and the live slots are that list.
\<close>

theorem text_queue_refines_fifo:
  "snd (run_all queue_do ops listener_init) = snd (run_all fifo_do ops fifo_init) \<and>
   fifo_of (queue_after ops) = fst (run_all fifo_do ops fifo_init)"
proof -
  have "fifo_of listener_init = fifo_init" by (simp add: fifo_of_def fifo_init_def listener_init_def live_list_def)
  with text_fifo.run_agrees [OF queue_inv_init, of ops] show ?thesis by (simp add: queue_after_def)
qed

text \<open>
  The queue is bounded whatever remote peers send: after any sequence of calls the cached
  counters are exact, at most \<open>kHardMaxEvents\<close> events and \<open>kHardMaxBytes\<close> bytes wait, and the
  deque is at most twice the live events, or 4095 tombstones longer.
\<close>

theorem text_queue_bounded:
  "let st = queue_after ops in
     text_live_events st = length (live_list st) \<and> text_live_events st \<le> kHardMaxEvents \<and>
     text_live_bytes st = bytes_of (live_list st) \<and> text_live_bytes st \<le> kHardMaxBytes \<and>
     length (text_q st) \<le> max (2 * text_live_events st) (text_live_events st + 4095)"
proof -
  have "length (text_q st) = length (live_list st) + length (filter (\<lambda>e. \<not> live e) (text_q st))" for st
    unfolding live_list_def by (induction "text_q st" rule: list.induct) (simp_all add: sum_length_filter_compl)
  with queue_inv_after [of ops] show ?thesis
    by (auto simp: Let_def queue_inv_def counters_ok_def tallies_def caps_ok_def kCompactMinTombstones_def)
qed

abbreviation new_event :: "int \<Rightarrow> int \<Rightarrow> string \<Rightarrow> TextEvent" where
  "new_event i epoch s \<equiv> \<lparr>instance_id = i, line = s, cls = Classify s, live = True, session_epoch = epoch\<rparr>"

lemma enqueue_cases:
  fixes a i epoch s
  defines "a' \<equiv> fifo_room (length s) (Classify s) a"
  obtains (refused) "fifo_enqueue i epoch s a = fifo_lose (Classify s) a'"
      "fifo_over (length s) kSoftMaxEvents kSoftMaxBytes a'"
      "Classify s = kState \<Longrightarrow> fifo_over (length s) kHardMaxEvents kHardMaxBytes a'"
    | (admitted) "fifo_enqueue i epoch s a = a'\<lparr>waiting := waiting a' @ [new_event i epoch s]\<rparr>"
proof (cases "fifo_over (length s) kSoftMaxEvents kSoftMaxBytes a'
    \<and> (Classify s \<noteq> kState \<or> fifo_over (length s) kHardMaxEvents kHardMaxBytes a')")
  case True
  then show ?thesis by (intro refused) (auto simp: fifo_enqueue_def a'_def Let_def)
next
  case False
  then show ?thesis by (intro admitted) (auto simp: fifo_enqueue_def a'_def Let_def)
qed

lemma class_list_updates:
  "class_list c (fifo_lose d a) = class_list c a"
  "lost (fifo_lose d a) c = lost a c + (if c = d then 1 else 0)"
  "class_list c (a\<lparr>waiting := waiting a @ [e]\<rparr>) = class_list c a @ (if cls e = c then [e] else [])"
  by (simp_all add: class_list_def fifo_lose_def)

text \<open>
  No line is lost silently: for every class, an enqueue keeps the number of waiting events
  plus the drop counter in step, so each line that does not wait any more without having been
  polled or purged is counted under its class.
\<close>

theorem every_line_accounted:
  "let st = queue_after ops; st' = enqueue_text_line_for_instance i epoch s st in
     length (filter (of_class c) (live_list st')) + g_drops st' c =
     length (filter (of_class c) (live_list st)) + g_drops st c + (if Classify s = c then 1 else 0)"
proof -
  define a where "a = fifo_of (queue_after ops)"
  let ?r = "fifo_room (length s) (Classify s) a"
  from fifo_room_spec [of c "length s" "Classify s" a]
  have "length (class_list c ?r) + lost ?r c = length (class_list c a) + lost a c" by auto
  then have "length (class_list c (fifo_enqueue i epoch s a)) + lost (fifo_enqueue i epoch s a) c =
      length (class_list c a) + lost a c + (if Classify s = c then 1 else 0)"
    by (cases rule: enqueue_cases [of i epoch s a]) (auto simp: class_list_updates)
  then show ?thesis
    using enqueue_sim [OF queue_inv_after, of i epoch s ops, folded a_def]
    by (simp add: Let_def class_list_def a_def flip: fifo_of_sel)
qed

lemma room_idle: "\<not> fifo_over k kSoftMaxEvents kSoftMaxBytes a \<Longrightarrow> fifo_room k c a = a"
  by (simp add: fifo_room.simps [of k c a])

lemma enqueue_policy:
  fixes a i epoch s
  defines "a' \<equiv> fifo_enqueue i epoch s a" and "e \<equiv> new_event i epoch s"
  shows "\<exists>lossy chat taken.
     class_list kLossy a' = drop lossy (class_list kLossy a) @ (if taken \<and> cls e = kLossy then [e] else []) \<and>
     class_list kChat a' = drop chat (class_list kChat a) @ (if taken \<and> cls e = kChat then [e] else []) \<and>
     class_list kState a' = class_list kState a @ (if taken \<and> cls e = kState then [e] else []) \<and>
     (lossy + chat > 0 \<or> \<not> taken \<longrightarrow> fifo_over (length s) kSoftMaxEvents kSoftMaxBytes a) \<and>
     (chat > 0 \<longrightarrow> cls e \<noteq> kLossy \<and> class_list kLossy a' = []) \<and>
     (\<not> taken \<and> cls e = kState \<longrightarrow> fifo_over (length s) kHardMaxEvents kHardMaxBytes a')"
proof -
  let ?r = "fifo_room (length s) (Classify s) a"
  note spec = fifo_room_spec [of _ "length s" "Classify s" a]
  from spec [of kLossy] obtain l where l: "class_list kLossy ?r = drop l (class_list kLossy a)"
    "lost ?r kLossy = lost a kLossy + l" by blast
  from spec [of kChat] obtain c where c: "class_list kChat ?r = drop c (class_list kChat a)"
    "lost ?r kChat = lost a kChat + c" "c > 0 \<longrightarrow> Classify s \<noteq> kLossy \<and> class_list kLossy ?r = []" by blast
  from spec [of kState] have st: "class_list kState ?r = class_list kState a" by auto
  have over: "fifo_over (length s) kSoftMaxEvents kSoftMaxBytes a" if "l + c > 0"
    using room_idle l(2) c(2) that by (cases "fifo_over (length s) kSoftMaxEvents kSoftMaxBytes a") auto
  show ?thesis
  proof (cases rule: enqueue_cases [of i epoch s a])
    case refused
    then have "fifo_over (length s) kSoftMaxEvents kSoftMaxBytes a" using room_idle by metis
    moreover have "fifo_over n x y (fifo_lose d b) = fifo_over n x y b" for n x y d b
      by (simp add: fifo_over_def fifo_lose_def)
    ultimately show ?thesis using refused l c st
      by (intro exI [of _ l] exI [of _ c] exI [of _ False]) (auto simp: a'_def e_def class_list_updates)
  next
    case admitted
    then show ?thesis using l c st over
      by (intro exI [of _ l] exI [of _ c] exI [of _ True]) (auto simp: a'_def e_def class_list_updates)
  qed
qed



section \<open>Delivery\<close>

lemma session_twice: "fifo_session i epoch (fifo_session i epoch a) = fifo_session i epoch a"
  by (simp add: fifo_session_def umap_simps)

lemma waiting_line_small:
  assumes "queue_inv st" "e \<in> set (live_list st)"
  shows "int (length (line e)) + 1 < INT_MAX"
proof -
  have "length (line e) \<le> bytes_of (live_list st)"
    using assms(2) by (auto simp: bytes_of_def intro: member_le_sum_list)
  then show ?thesis using assms(1)
    by (simp add: queue_inv_def caps_ok_def kHardMaxBytes_def kSoftMaxBytes_def INT_MAX_def)
qed

definition poll_outcome :: "int \<Rightarrow> int \<Rightarrow> int \<Rightarrow> SimpleMsgListenerImpl \<Rightarrow> bool" where
  "poll_outcome i epoch len st =
     (case List.find (poll_matches i) (live_list (poll_session i epoch st)) of
        None \<Rightarrow> snd (poll_text i epoch True len st) = (0, None)
      | Some e \<Rightarrow> (let n = int (length (line e)); (st', r) = poll_text i epoch True len st in
          if n < len
          then r = (n, Some (line e)) \<and>
               live_list st' = drop_first (poll_matches i) (live_list (poll_session i epoch st))
          else r = (- (n + 1), None) \<and> live_list st' = live_list (poll_session i epoch st) \<and>
               snd (poll_text i epoch True (n + 1) st') = (n, Some (line e))))"

text \<open>
  C27. A poll hands out the oldest event for the instance or for everybody, whole and once. When
  the buffer is too small the event stays at its place, the result is the negative capacity it
  needs, and polling again with that capacity returns it.
\<close>

theorem poll_delivers_whole_record:
  assumes "0 < len"
  shows "poll_outcome i epoch len (queue_after ops)"
proof -
  let ?st = "queue_after ops" and ?w = "live_list (poll_session i epoch (queue_after ops))"
  have s: "queue_inv (poll_session i epoch ?st)" "fifo_of (poll_session i epoch ?st) = fifo_session i epoch (fifo_of ?st)"
    using session_sim [OF queue_inv_after] by auto
  have w: "waiting (fifo_session i epoch (fifo_of ?st)) = ?w" using s(2) fifo_of_sel(1) by metis
  obtain st' r where p: "poll_text i epoch True len ?st = (st', r)" by (metis surj_pair)
  from poll_sim [OF queue_inv_after p] have p': "queue_inv st'" "fifo_poll i epoch True len (fifo_of ?st) = (fifo_of st', r)" by auto
  show ?thesis
  proof (cases "List.find (poll_matches i) ?w")
    case None
    with p p' w show ?thesis by (auto simp: poll_outcome_def fifo_poll_def Let_def)
  next
    case (Some e)
    then have "e \<in> set ?w" by (auto simp: find_Some_iff)
    with waiting_line_small [OF s(1)] have small: "int (length (line e)) + 1 < INT_MAX" by blast
    show ?thesis
    proof (cases "int (length (line e)) < len")
      case True
      with p p' w Some small assms have r: "r = (int (length (line e)), Some (line e))"
        and st': "fifo_of st' = (fifo_session i epoch (fifo_of ?st))\<lparr>waiting := drop_first (poll_matches i) ?w\<rparr>"
        by (auto simp: fifo_poll_def Let_def CopyPayloadOrReturnRequiredCapacity_def)
      from arg_cong [OF st', of waiting] have "live_list st' = drop_first (poll_matches i) ?w" by simp
      with True p r Some show ?thesis by (simp add: poll_outcome_def Let_def)
    next
      case False
      with p p' w Some small assms have r: "r = (- (int (length (line e)) + 1), None)"
        and st': "fifo_of st' = fifo_session i epoch (fifo_of ?st)"
        by (auto simp: fifo_poll_def Let_def CopyPayloadOrReturnRequiredCapacity_def)
      obtain st'' r' where q: "poll_text i epoch True (int (length (line e)) + 1) st' = (st'', r')" by (metis surj_pair)
      from poll_sim [OF p'(1) q] have "fifo_poll i epoch True (int (length (line e)) + 1) (fifo_of st') = (fifo_of st'', r')" by blast
      then have "r' = (int (length (line e)), Some (line e))"
        using Some small w by (auto simp: st' session_twice fifo_poll_def Let_def CopyPayloadOrReturnRequiredCapacity_def)
      moreover have "live_list st' = ?w" using st' w fifo_of_sel(1) by metis
      ultimately show ?thesis using False p q r Some by (simp add: poll_outcome_def Let_def)
    qed
  qed
qed

theorem poll_delivers_whole_record_witness:
  "poll_outcome 0 7 4 (queue_after [Enqueue 0 7 ''c2c:a:hello'', Enqueue 0 7 ''conn:success''])"
  by (rule poll_delivers_whole_record) simp

section \<open>Classification\<close>

lemma find_colon: "CHR '':'' \<notin> set u \<Longrightarrow> find_str '':'' (u @ CHR '':'' # r) = Some (length u)"
  by (induction u) (auto simp: prefix_Cons)

lemma find_no_colon: "CHR '':'' \<notin> set u \<Longrightarrow> find_str '':'' u = None"
  by (induction u) (auto simp: prefix_Cons)

lemmas progress_eval = IsFinalProgress_def eval_nat_numeral find_colon find_no_colon Let_def

text \<open>
  A progress update is a state event, which no flood evicts, exactly when it reports the
  whole file; every earlier update is lossy. A colon in the path of a received file does not
  matter.
\<close>

theorem final_progress_is_state:
  assumes "CHR '':'' \<notin> set inst" "CHR '':'' \<notin> set uid" "CHR '':'' \<notin> set sofar" "CHR '':'' \<notin> set whole" "sofar \<noteq> []"
  shows "Classify (''progress_send:'' @ uid @ '':'' @ sofar @ '':'' @ whole) = (if sofar = whole then kState else kLossy)
    \<and> Classify (''progress_recv:'' @ inst @ '':'' @ uid @ '':'' @ sofar @ '':'' @ whole @ '':'' @ path) =
        (if sofar = whole then kState else kLossy)"
proof -
  have "IsFinalProgress (''progress_send'' @ CHR '':'' # uid @ CHR '':'' # sofar @ CHR '':'' # whole) 2 \<longleftrightarrow> sofar = whole"
    using assms by (simp add: progress_eval del: append_Cons)
  moreover have "IsFinalProgress (''progress_recv'' @ CHR '':'' # inst @ CHR '':'' # uid @ CHR '':'' # sofar
      @ CHR '':'' # whole @ CHR '':'' # path) 3 \<longleftrightarrow> sofar = whole"
    using assms by (simp add: progress_eval del: append_Cons)
  ultimately show ?thesis by (simp add: Classify_def HasPrefix_def)
qed

theorem final_progress_is_state_witness:
  "Classify (''progress_send:'' @ ''AB'' @ '':'' @ ''10'' @ '':'' @ ''10'') = (if ''10'' = ''10'' then kState else kLossy)
    \<and> Classify (''progress_recv:'' @ ''1'' @ '':'' @ ''AB'' @ '':'' @ ''10'' @ '':'' @ ''10'' @ '':'' @ ''/tmp/a:b'') =
        (if ''10'' = ''10'' then kState else kLossy)"
  by (rule final_progress_is_state) simp_all

text \<open>What the message listeners queue is ordinary content, whatever the peer puts into it.\<close>

lemma message_lines_are_chat:
  "Classify (OnRecvC2CTextMessage_line ov sender body) = kChat"
  "Classify (OnRecvC2CCustomMessage_line ov sender data) = kChat"
  "Classify (OnRecvGroupTextMessage_line ov gid sender body) = kChat"
  "Classify (OnRecvGroupCustomMessage_line gid sender data) = kChat"
  by (simp_all add: Classify_def HasPrefix_def OnRecvC2CTextMessage_line_def OnRecvC2CCustomMessage_line_def
      OnRecvGroupTextMessage_line_def OnRecvGroupCustomMessage_line_def Let_def)

lemma message_lines_not_routed:
  "ParseInstanceIdFromLine (OnRecvC2CTextMessage_line ov sender body) = 0"
  "ParseInstanceIdFromLine (OnRecvGroupTextMessage_line ov gid sender body) = 0"
  by (simp_all add: ParseInstanceIdFromLine_def routed_id_def kRoutedPrefixes_def
      OnRecvC2CTextMessage_line_def OnRecvGroupTextMessage_line_def Let_def)

end
