(* ===== verification/TextSessions.thy ===== *)
theory TextSessions
  imports TextQueueProperties
begin

text \<open>
  Sessions over the text-event queue. An instance id outlives its sessions: \<open>InitSDK\<close> stores a
  fresh epoch in the manager, \<open>UnInitSDK\<close> stores 0, and the next account reuses the id. The step
  relation interleaves these with enqueues, polls and purges of every instance in any order,
  an enqueue reading its stamp in the same step. Handles of instances are not negative.
\<close>

record session_system =
  registry :: instance_registry
  g_next_session_epoch :: int
  listener :: SimpleMsgListenerImpl

definition store_epoch :: "int \<Rightarrow> int \<Rightarrow> instance_registry \<Rightarrow> instance_registry" where
  "store_epoch i e reg =
     (if i = 0 then reg\<lparr>default_epoch := Some e\<rparr>
      else reg\<lparr>g_test_instances := um_put i (Some e) (g_test_instances reg)\<rparr>)"

definition InitSDK_epoch :: "int \<Rightarrow> session_system \<Rightarrow> session_system" where
  "InitSDK_epoch i s =
     (let next = g_next_session_epoch s + 1 in
      s\<lparr>g_next_session_epoch := next, registry := store_epoch i next (registry s)\<rparr>)"

definition UnInitSDK_epoch :: "int \<Rightarrow> session_system \<Rightarrow> session_system" where
  "UnInitSDK_epoch i s = s\<lparr>registry := store_epoch i 0 (registry s)\<rparr>"

abbreviation epoch_of :: "session_system \<Rightarrow> int \<Rightarrow> int" where
  "epoch_of s i \<equiv> tim2tox_ffi_get_session_epoch (registry s) i"

inductive session_step :: "session_system \<Rightarrow> session_system \<Rightarrow> bool" where
  init: "0 \<le> i \<Longrightarrow> session_step s (InitSDK_epoch i s)"
| uninit: "session_step s (UnInitSDK_epoch i s)"
| receive: "session_step s (s\<lparr>listener := enqueue_text_line_for_instance i
      (CurrentSessionEpochForInstance (registry s) owns_lock i) msg (listener s)\<rparr>)"
| poll: "session_step s (s\<lparr>listener := fst (poll_text i (epoch_of s i) has_buffer len (listener s))\<rparr>)"
| purge: "session_step s (s\<lparr>listener := purge_instance i (listener s)\<rparr>)"

definition session_initial :: "session_system \<Rightarrow> bool" where
  "session_initial s \<longleftrightarrow> (\<forall>i. epoch_of s i = 0) \<and> g_next_session_epoch s = 0 \<and> listener s = listener_init"

definition own_stamp :: "session_system \<Rightarrow> int \<Rightarrow> TextEvent \<Rightarrow> bool" where
  "own_stamp s i e \<longleftrightarrow> (instance_id e = i \<longrightarrow> session_epoch e \<le> 0 \<or> session_epoch e = epoch_of s i)"

definition session_inv :: "session_system \<Rightarrow> bool" where
  "session_inv s \<longleftrightarrow> queue_inv (listener s) \<and> 0 \<le> g_next_session_epoch s \<and>
     (\<forall>i. epoch_of s i \<le> g_next_session_epoch s \<and> (i < 0 \<longrightarrow> epoch_of s i = 0)) \<and>
     (\<forall>i ep. um_find (text_polled_epoch (listener s)) i = Some ep \<longrightarrow> 0 < ep \<and> ep \<le> g_next_session_epoch s) \<and>
     (\<forall>i. um_find (text_polled_epoch (listener s)) i = Some (epoch_of s i) \<longrightarrow>
        (\<forall>e \<in> set (live_list (listener s)). own_stamp s i e))"

section \<open>Preservation\<close>

lemma epoch_store:
  "tim2tox_ffi_get_session_epoch (store_epoch i e reg) j = (if j = i then e else tim2tox_ffi_get_session_epoch reg j)"
  by (simp add: tim2tox_ffi_get_session_epoch_def store_epoch_def umap_simps split: option.splits)

lemma drop_first_subset: "set (drop_first P xs) \<subseteq> set xs"
  by (induction xs) auto

lemma fifo_room_subset: "set (waiting (fifo_room n c a)) \<subseteq> set (waiting a)"
proof (induction n c a rule: fifo_room.induct)
  case (1 n c a)
  have "set (waiting (fifo_evict v a)) \<subseteq> set (waiting a)" for v
    using drop_first_subset by (simp add: fifo_evict_def fifo_lose_def)
  with 1 show ?case by (auto simp: fifo_room.simps [of n c a] split: option.splits)
qed

lemma fifo_room_epochs [simp]: "seen_epoch (fifo_room n c a) = seen_epoch a"
proof (induction n c a rule: fifo_room.induct)
  case (1 n c a)
  then show ?case by (auto simp: fifo_room.simps [of n c a] fifo_evict_def fifo_lose_def split: option.splits)
qed

lemma enqueue_live:
  assumes "queue_inv st"
  shows "set (live_list (enqueue_text_line_for_instance i epoch s st)) \<subseteq> insert (new_event i epoch s) (set (live_list st))"
    and "text_polled_epoch (enqueue_text_line_for_instance i epoch s st) = text_polled_epoch st"
proof -
  let ?a = "fifo_of st"
  have sim: "fifo_of (enqueue_text_line_for_instance i epoch s st) = fifo_enqueue i epoch s ?a"
    using enqueue_sim [OF assms] by blast
  have "set (waiting (fifo_enqueue i epoch s ?a)) \<subseteq> insert (new_event i epoch s) (set (waiting ?a)) \<and>
      seen_epoch (fifo_enqueue i epoch s ?a) = seen_epoch ?a"
    using fifo_room_subset [of "length s" "Classify s" ?a]
    by (cases rule: enqueue_cases [of i epoch s ?a]) (auto simp: fifo_lose_def)
  then show "set (live_list (enqueue_text_line_for_instance i epoch s st)) \<subseteq> insert (new_event i epoch s) (set (live_list st))"
    "text_polled_epoch (enqueue_text_line_for_instance i epoch s st) = text_polled_epoch st"
    unfolding sim [symmetric] fifo_of_sel by auto
qed

lemma fifo_poll_frame:
  "fifo_poll i epoch hb len a = (a', r) \<Longrightarrow>
     set (waiting a') \<subseteq> set (waiting (fifo_session i epoch a)) \<and> seen_epoch a' = seen_epoch (fifo_session i epoch a)"
  using drop_first_subset by (force simp: fifo_poll_def Let_def split: option.splits prod.splits if_splits)

lemma poll_live:
  assumes "queue_inv st"
  shows "queue_inv (fst (poll_text i epoch hb len st))"
    and "set (live_list (fst (poll_text i epoch hb len st))) \<subseteq> set (live_list (poll_session i epoch st))"
    and "text_polled_epoch (fst (poll_text i epoch hb len st)) = text_polled_epoch (poll_session i epoch st)"
proof -
  obtain st' r where p: "poll_text i epoch hb len st = (st', r)" by (metis surj_pair)
  from poll_sim [OF assms p] have q: "queue_inv st'" "fifo_poll i epoch hb len (fifo_of st) = (fifo_of st', r)" by auto
  have abs: "fifo_session i epoch (fifo_of st) = fifo_of (poll_session i epoch st)" using session_sim [OF assms] by simp
  from fifo_poll_frame [OF q(2), unfolded abs fifo_of_sel] q(1) p
  show "queue_inv (fst (poll_text i epoch hb len st))"
    "set (live_list (fst (poll_text i epoch hb len st))) \<subseteq> set (live_list (poll_session i epoch st))"
    "text_polled_epoch (fst (poll_text i epoch hb len st)) = text_polled_epoch (poll_session i epoch st)"
    by simp_all
qed

lemma poll_session_live:
  "live_list (poll_session i epoch st) =
     (if epoch > 0 \<and> um_find (text_polled_epoch st) i \<noteq> Some epoch
      then filter (\<lambda>e. \<not> mine_and_stale i epoch e) (live_list st) else live_list st)"
  "text_polled_epoch (poll_session i epoch st) =
     (if epoch > 0 \<and> um_find (text_polled_epoch st) i \<noteq> Some epoch
      then um_put i epoch (text_polled_epoch st) else text_polled_epoch st)"
proof -
  have "live_list (st\<lparr>text_polled_epoch := p\<rparr>) = live_list st" for st p by (simp add: live_list_def)
  then show "live_list (poll_session i epoch st) =
     (if epoch > 0 \<and> um_find (text_polled_epoch st) i \<noteq> Some epoch
      then filter (\<lambda>e. \<not> mine_and_stale i epoch e) (live_list st) else live_list st)"
    by (simp add: poll_session_def Let_def live_list_purge)
  show "text_polled_epoch (poll_session i epoch st) =
     (if epoch > 0 \<and> um_find (text_polled_epoch st) i \<noteq> Some epoch
      then um_put i epoch (text_polled_epoch st) else text_polled_epoch st)"
    by (simp add: poll_session_def Let_def purge_frame)
qed

lemma stamp_current:
  "CurrentSessionEpochForInstance reg lock i \<le> 0 \<or> CurrentSessionEpochForInstance reg lock i = tim2tox_ffi_get_session_epoch reg i"
  by (auto simp: CurrentSessionEpochForInstance_def tim2tox_ffi_get_session_epoch_def kSessionEpochUnknown_def
      split: option.splits)

text \<open>After the purge of a poll, the instance's own records carry no older stamp.\<close>

lemma poll_session_own:
  assumes "session_inv s" "e \<in> set (live_list (poll_session i (epoch_of s i) (listener s)))" "epoch_of s i > 0"
  shows "own_stamp s i e"
proof (cases "um_find (text_polled_epoch (listener s)) i = Some (epoch_of s i)")
  case True
  with assms show ?thesis by (auto simp: session_inv_def poll_session_live)
next
  case False
  with assms(2,3) have "\<not> mine_and_stale i (epoch_of s i) e" by (simp add: poll_session_live)
  moreover have "i \<noteq> -1" using assms(1,3) unfolding session_inv_def by force
  ultimately show ?thesis using assms(3) by (auto simp: mine_and_stale_def own_stamp_def kSessionEpochUnknown_def kSessionEpochNone_def)
qed

lemma session_inv_init: "session_initial s \<Longrightarrow> session_inv s"
  using queue_inv_init by (auto simp: session_initial_def session_inv_def listener_init_def)

lemma session_inv_store:
  assumes "session_inv s" "e = 0 \<or> 0 \<le> i \<and> e = g_next_session_epoch s + 1" "n = g_next_session_epoch s \<or> n = g_next_session_epoch s + 1"
    "e \<le> n"
  shows "session_inv (s\<lparr>g_next_session_epoch := n, registry := store_epoch i e (registry s)\<rparr>)"
  using assms unfolding session_inv_def own_stamp_def
  by (simp add: epoch_store) (smt (verit, best))

lemma session_inv_enqueue:
  assumes "session_inv s"
  shows "session_inv (s\<lparr>listener := enqueue_text_line_for_instance i
      (CurrentSessionEpochForInstance (registry s) lock i) msg (listener s)\<rparr>)"
proof -
  let ?ep = "CurrentSessionEpochForInstance (registry s) lock i"
  have q: "queue_inv (listener s)" using assms by (simp add: session_inv_def)
  have "own_stamp s j (new_event i ?ep msg)" for j using stamp_current [of "registry s" lock i] by (auto simp: own_stamp_def)
  then have "own_stamp s j e" if "um_find (text_polled_epoch (listener s)) j = Some (epoch_of s j)"
      "e \<in> set (live_list (enqueue_text_line_for_instance i ?ep msg (listener s)))" for j e
    using that enqueue_live(1) [OF q, of i ?ep msg] assms by (auto simp: session_inv_def)
  then show ?thesis using assms enqueue_sim [OF q] enqueue_live(2) [OF q]
    by (simp add: session_inv_def own_stamp_def)
qed

lemma session_inv_shrink:
  assumes "session_inv s" "queue_inv st" "set (live_list st) \<subseteq> set (live_list (listener s))"
    and "\<And>j ep. um_find (text_polled_epoch st) j = Some ep \<Longrightarrow> um_find (text_polled_epoch (listener s)) j = Some ep
      \<or> ep = epoch_of s j \<and> 0 < ep \<and> (\<forall>e \<in> set (live_list st). own_stamp s j e)"
  shows "session_inv (s\<lparr>listener := st\<rparr>)"
  using assms unfolding session_inv_def own_stamp_def by (auto simp: subset_iff) blast+

lemma session_inv_poll:
  assumes "session_inv s"
  shows "session_inv (s\<lparr>listener := fst (poll_text i (epoch_of s i) hb len (listener s))\<rparr>)"
proof (rule session_inv_shrink [OF assms])
  let ?ep = "epoch_of s i" and ?st = "fst (poll_text i (epoch_of s i) hb len (listener s))"
  have q: "queue_inv (listener s)" using assms by (simp add: session_inv_def)
  show "queue_inv ?st" by (rule poll_live(1) [OF q])
  show "set (live_list ?st) \<subseteq> set (live_list (listener s))"
    using poll_live(2) [OF q, of i ?ep hb len] by (auto simp: poll_session_live split: if_splits)
  fix j ep
  assume "um_find (text_polled_epoch ?st) j = Some ep"
  then show "um_find (text_polled_epoch (listener s)) j = Some ep
      \<or> ep = epoch_of s j \<and> 0 < ep \<and> (\<forall>e \<in> set (live_list ?st). own_stamp s j e)"
    using poll_live(2,3) [OF q, of i ?ep hb len] poll_session_own [OF assms, of _ i]
    by (auto simp: poll_session_live umap_simps split: if_splits)
qed

lemma session_inv_purge: "session_inv s \<Longrightarrow> session_inv (s\<lparr>listener := purge_instance i (listener s)\<rparr>)"
proof (rule session_inv_shrink)
  assume s: "session_inv s"
  then have q: "queue_inv (listener s)" by (simp add: session_inv_def)
  have abs: "fifo_of (purge_instance i (listener s)) = fifo_purge i (fifo_of (listener s))"
    and "queue_inv (purge_instance i (listener s))" using purge_instance_sim [OF q] by auto
  then show "queue_inv (purge_instance i (listener s))" by simp
  from arg_cong [OF abs, of waiting] show "set (live_list (purge_instance i (listener s))) \<subseteq> set (live_list (listener s))"
    by (simp add: fifo_purge_def fifo_forget_def Let_def)
  fix j ep
  assume "um_find (text_polled_epoch (purge_instance i (listener s))) j = Some ep"
  with arg_cong [OF abs, of seen_epoch] show "um_find (text_polled_epoch (listener s)) j = Some ep
      \<or> ep = epoch_of s j \<and> 0 < ep \<and> (\<forall>e \<in> set (live_list (purge_instance i (listener s))). own_stamp s j e)"
    by (auto simp: fifo_purge_def fifo_forget_def Let_def umap_simps split: if_splits)
qed

interpretation sessions: state_system session_initial session_step session_inv
proof
  show "session_initial s \<Longrightarrow> session_inv s" for s by (rule session_inv_init)
next
  fix s t
  assume "session_step s t" "session_inv s"
  then show "session_inv t"
  proof cases
    case (init i)
    then show ?thesis using session_inv_store [OF \<open>session_inv s\<close>, of "g_next_session_epoch s + 1" i "g_next_session_epoch s + 1"]
      by (simp add: InitSDK_epoch_def Let_def)
  next
    case (uninit i)
    then show ?thesis using session_inv_store [OF \<open>session_inv s\<close>, of 0 i "g_next_session_epoch s"] \<open>session_inv s\<close>
      by (simp add: UnInitSDK_epoch_def session_inv_def)
  qed (simp_all add: session_inv_enqueue session_inv_poll session_inv_purge \<open>session_inv s\<close>)
qed


definition quiet_registry :: instance_registry where
  "quiet_registry = \<lparr> default_epoch = None, g_test_instances = [], g_current_instance_id = 0, g_inited_instance_ids = {0} \<rparr>"

definition quiet_system :: session_system where
  "quiet_system = \<lparr> registry = quiet_registry, g_next_session_epoch = 0, listener = listener_init \<rparr>"

definition first_session :: session_system where
  "first_session = InitSDK_epoch 0 quiet_system"

definition first_message :: session_system where
  "first_message = first_session\<lparr>listener := enqueue_text_line_for_instance 0
     (CurrentSessionEpochForInstance (registry first_session) True 0) ''c2c:a:hi'' (listener first_session)\<rparr>"

lemma first_message_reached: "session_step\<^sup>*\<^sup>* quiet_system first_message"
proof -
  have "session_step quiet_system first_session" unfolding first_session_def by (rule session_step.init) simp
  moreover have "session_step first_session first_message" unfolding first_message_def by (rule session_step.receive)
  ultimately show ?thesis by (meson r_into_rtranclp rtranclp.rtrancl_into_rtrancl)
qed

lemma quiet_initial: "session_initial quiet_system"
  by (simp add: session_initial_def quiet_system_def quiet_registry_def tim2tox_ffi_get_session_epoch_def)

lemma enqueue_idle:
  assumes "text_live_events st < kSoftMaxEvents" "text_live_bytes st + length s \<le> kSoftMaxBytes"
  shows "enqueue_text_line_for_instance i epoch s st = admit_event (new_event i epoch s) st"
proof -
  have "\<not> over_caps_locked (length s) kSoftMaxEvents kSoftMaxBytes st" using assms by (simp add: over_caps_locked_def)
  then show ?thesis by (simp add: enqueue_alt text_make_room.simps [of _ _ st] Let_def)
qed

lemma classify_sample [simp]: "Classify ''c2c:a:hi'' = kChat"
  by (simp add: Classify_def HasPrefix_def)

lemmas evaluate_queue = enqueue_idle admit_event_def index_push_def listener_init_def count_up_def Let_def
  kSoftMaxEvents_def kSoftMaxBytes_def poll_text_def poll_session_def purge_locked_def
  live_count_for_locked_def poll_matches_def CopyPayloadOrReturnRequiredCapacity_def INT_MAX_def
  mine_and_stale_def kSessionEpochNone_def kSessionEpochUnknown_def

lemma first_message_epoch: "epoch_of first_message 0 = 1"
  by (simp add: first_message_def first_session_def InitSDK_epoch_def quiet_system_def store_epoch_def
      tim2tox_ffi_get_session_epoch_def Let_def)

lemma first_message_listener: "listener first_message = enqueue_text_line_for_instance 0 1 ''c2c:a:hi'' listener_init"
  by (simp add: first_message_def first_session_def InitSDK_epoch_def quiet_system_def store_epoch_def
      CurrentSessionEpochForInstance_def Let_def)

lemma first_message_poll: "snd (poll_text 0 1 True 64 (listener first_message)) = (8, Some ''c2c:a:hi'')"
  unfolding first_message_listener by (simp add: evaluate_queue)


section \<open>A stamp read too early\<close>

text \<open>
  The stamp is read before the queue mutex is taken, and stale stamps are purged only at the
  first poll of an epoch. A record stamped with epoch 1 that enters the queue after the first
  poll of epoch 2 is handed to session 2.
\<close>

lemma late_stamp_delivered:
  "snd (run_all queue_do [Poll 0 2 True 64, Enqueue 0 1 ''c2c:a:hi'', Poll 0 2 True 64] listener_init) =
     [Polled 0 None, No_Result, Polled 8 (Some ''c2c:a:hi'')]"
  by (simp add: evaluate_queue)

end
