(* ===== verification/ConversationManager.thy ===== *)
theory ConversationManager
  imports HexCodec MessageUtils
begin

text \<open>
  \<open>V2TIMConversationManagerImpl\<close>: the conversation cache, pins, deletions, drafts and the
  listeners, and the receive options of \<open>V2TIMMessageManagerImpl\<close> that every conversation
  reports.

  \<^item> The state is a record; each method is a function that returns the new state, the listener
    calls it makes in order (\<open>conv_event\<close>) and what its callback receives.
  \<^item> toxcore, the clock and the manager objects are the environment \<open>conv_env\<close>: the manager of
    the current instance, the stored manager, whether each has a live session and its friends.
  \<^item> The methods take several mutexes one after the other; the model runs a method without
    interference.
  \<^item> \<open>lastMessage\<close> is always null here and has no field. A null listener is \<open>None\<close>; exceptions of
    listeners are swallowed by the code and not modelled.
\<close>

section \<open>Data\<close>

datatype conversation_type = V2TIM_UNKNOWN | V2TIM_C2C | V2TIM_GROUP

definition V2TIM_RECEIVE_MESSAGE :: int where
  "V2TIM_RECEIVE_MESSAGE = 0"

definition ERR_SDK_NOT_INITIALIZED :: int where
  "ERR_SDK_NOT_INITIALIZED = 6013"

definition ERR_SDK_CONVERSATION_NOT_FOUND :: int where
  "ERR_SDK_CONVERSATION_NOT_FOUND = 6010"

text \<open>\<open>V2TIMConversation\<close> and \<open>ConversationSnapshot\<close> carry the same values.\<close>

record V2TIMConversation =
  conversationID :: string
  userID :: string
  groupID :: string
  groupType :: string
  showName :: string
  faceUrl :: string
  draftText :: string
  unreadCount :: int
  recvOpt :: int
  draftTimestamp :: nat
  orderKey :: nat
  c2cReadTimestamp :: nat
  groupReadSequence :: nat
  isPinned :: bool
  conv_type :: conversation_type

record ConversationSnapshot =
  conversation_id :: string
  user_id :: string
  group_id :: string
  group_type :: string
  show_name :: string
  face_url :: string
  draft_text :: string
  unread_count :: int
  recv_opt :: int
  draft_timestamp :: nat
  order_key :: nat
  c2c_read_timestamp :: nat
  group_read_sequence :: nat
  is_pinned :: bool
  snap_type :: conversation_type

definition new_conversation :: V2TIMConversation where
  "new_conversation = \<lparr> conversationID = [], userID = [], groupID = [], groupType = [], showName = [],
     faceUrl = [], draftText = [], unreadCount = 0, recvOpt = V2TIM_RECEIVE_MESSAGE, draftTimestamp = 0,
     orderKey = 0, c2cReadTimestamp = 0, groupReadSequence = 0, isPinned = False, conv_type = V2TIM_UNKNOWN \<rparr>"

text \<open>A friend: its number and, when toxcore knows it, its public key.\<close>

type_synonym tox_friend = "nat \<times> bytes option"

record manager_view =
  is_running :: bool
  live_session :: "tox_friend list option"

record receive_options =
  c2c_receive_opts :: "(string, int) umap"
  group_receive_opts :: "(string, int) umap"

record conv_env =
  current_manager :: "manager_view option"
  stored_manager :: "manager_view option"
  message_manager :: "receive_options option"
  steady_now :: int

record conversation_manager =
  listeners :: "nat option list"
  cached_conversations :: "ConversationSnapshot list"
  last_friend_count :: nat
  last_refresh_time :: int
  pinned_conversations :: "(string, bool) umap"
  deleted_conversation_ids :: "string set"

datatype conv_event =
  OnConversationChanged nat "V2TIMConversation list"
| OnConversationDeleted nat "string list"
| OnNewConversation nat "V2TIMConversation list"
| OnTotalUnreadMessageCountChanged nat u64
| ClearC2CHistoryMessage string
| ClearGroupHistoryMessage string

definition notify_listeners :: "(nat \<Rightarrow> conv_event) \<Rightarrow> conversation_manager \<Rightarrow> conv_event list" where
  "notify_listeners ev st = concat (map (\<lambda>l. case l of None \<Rightarrow> [] | Some i \<Rightarrow> [ev i]) (listeners st))"

definition AddConversationListener :: "nat option \<Rightarrow> conversation_manager \<Rightarrow> conversation_manager" where
  "AddConversationListener l st = st\<lparr>listeners := listeners st @ [l]\<rparr>"

definition RemoveConversationListener :: "nat option \<Rightarrow> conversation_manager \<Rightarrow> conversation_manager" where
  "RemoveConversationListener l st = st\<lparr>listeners := filter (\<lambda>x. x \<noteq> l) (listeners st)\<rparr>"

section \<open>Receive options\<close>

definition opt_key :: "string \<Rightarrow> string" where
  "opt_key uid = (if length uid > 64 then take 64 uid else uid)"

definition GetC2CReceiveOptSync :: "string \<Rightarrow> receive_options \<Rightarrow> int" where
  "GetC2CReceiveOptSync uid mm =
     (if uid = [] then 0
      else case um_find (c2c_receive_opts mm) uid of
        Some opt \<Rightarrow> opt
      | None \<Rightarrow> (if length uid > 64
                then (case um_find (c2c_receive_opts mm) (take 64 uid) of Some opt \<Rightarrow> opt | None \<Rightarrow> 0)
                else 0))"

definition C2CRecvOptForUser :: "conv_env \<Rightarrow> string \<Rightarrow> int" where
  "C2CRecvOptForUser env uid =
     (if uid = [] then 0
      else case current_manager env of None \<Rightarrow> 0
      | Some _ \<Rightarrow> (case message_manager env of None \<Rightarrow> 0 | Some mm \<Rightarrow> GetC2CReceiveOptSync uid mm))"

text \<open>The user ids with text, as the three option methods copy them.\<close>

definition given_user_ids :: "string list \<Rightarrow> string list" where
  "given_user_ids userIDList = filter (\<lambda>uid. uid \<noteq> []) userIDList"

definition store_c2c_opts :: "string list \<Rightarrow> int \<Rightarrow> receive_options \<Rightarrow> receive_options" where
  "store_c2c_opts uids opt mm =
     mm\<lparr>c2c_receive_opts := fold (\<lambda>uid. um_put (opt_key uid) opt) uids (c2c_receive_opts mm)\<rparr>"

definition GetC2CReceiveMessageOpt :: "string list \<Rightarrow> receive_options \<Rightarrow> (string \<times> int) list" where
  "GetC2CReceiveMessageOpt userIDList mm =
     map (\<lambda>uid. (CString uid, case um_find (c2c_receive_opts mm) (opt_key uid) of
                   Some opt \<Rightarrow> opt | None \<Rightarrow> V2TIM_RECEIVE_MESSAGE))
       (given_user_ids userIDList)"

definition SetGroupReceiveMessageOpt :: "string \<Rightarrow> int \<Rightarrow> receive_options \<Rightarrow> receive_options" where
  "SetGroupReceiveMessageOpt gid opt mm =
     mm\<lparr>group_receive_opts := um_put (CString gid) opt (group_receive_opts mm)\<rparr>"

section \<open>Snapshots\<close>

definition ToSnapshot :: "V2TIMConversation \<Rightarrow> ConversationSnapshot" where
  "ToSnapshot c = \<lparr> conversation_id = CString (conversationID c), user_id = CString (userID c),
     group_id = CString (groupID c), group_type = CString (groupType c), show_name = CString (showName c),
     face_url = CString (faceUrl c), draft_text = CString (draftText c), unread_count = unreadCount c,
     recv_opt = recvOpt c, draft_timestamp = draftTimestamp c, order_key = orderKey c,
     c2c_read_timestamp = c2cReadTimestamp c, group_read_sequence = groupReadSequence c,
     is_pinned = isPinned c, snap_type = conv_type c \<rparr>"

definition is_c2c_id :: "string \<Rightarrow> bool" where
  "is_c2c_id cid \<longleftrightarrow> length cid \<ge> 4 \<and> take 4 cid = ''c2c_''"

definition is_group_id :: "string \<Rightarrow> bool" where
  "is_group_id cid \<longleftrightarrow> length cid \<ge> 6 \<and> take 6 cid = ''group_''"

text \<open>The strings of a snapshot hold no NUL, so \<open>c_str()\<close> gives them back whole.\<close>

definition MaterializeConversation :: "conv_env \<Rightarrow> ConversationSnapshot \<Rightarrow> V2TIMConversation" where
  "MaterializeConversation env s =
     (let uid = (if user_id s = [] \<and> take 4 (conversation_id s) = ''c2c_''
                 then drop 4 (conversation_id s) else user_id s);
          opt = (if snap_type s = V2TIM_C2C then C2CRecvOptForUser env uid else recv_opt s)
      in \<lparr> conversationID = conversation_id s, userID = user_id s, groupID = group_id s,
           groupType = group_type s, showName = show_name s, faceUrl = face_url s, draftText = draft_text s,
           unreadCount = unread_count s, recvOpt = opt, draftTimestamp = draft_timestamp s,
           orderKey = order_key s, c2cReadTimestamp = c2c_read_timestamp s,
           groupReadSequence = group_read_sequence s, isPinned = is_pinned s, conv_type = snap_type s \<rparr>)"

definition find_cached :: "string \<Rightarrow> conversation_manager \<Rightarrow> ConversationSnapshot option" where
  "find_cached cid st = List.find (\<lambda>s. conversation_id s = cid) (cached_conversations st)"

text \<open>Assignment through the iterator of \<open>find_if\<close>: the first match only.\<close>

fun update_first :: "('a \<Rightarrow> bool) \<Rightarrow> ('a \<Rightarrow> 'a) \<Rightarrow> 'a list \<Rightarrow> 'a list" where
  "update_first P f [] = []"
| "update_first P f (x # xs) = (if P x then f x # xs else x # update_first P f xs)"

fun erase_first :: "('a \<Rightarrow> bool) \<Rightarrow> 'a list \<Rightarrow> 'a list" where
  "erase_first P [] = []"
| "erase_first P (x # xs) = (if P x then xs else x # erase_first P xs)"

definition pinned_in :: "string \<Rightarrow> conversation_manager \<Rightarrow> bool" where
  "pinned_in cid st = (um_find (pinned_conversations st) cid = Some True)"

section \<open>Rebuilding the cache\<close>

definition CreateConversationFromFriend :: "conv_env \<Rightarrow> conversation_manager \<Rightarrow> tox_friend \<Rightarrow> V2TIMConversation" where
  "CreateConversationFromFriend env st f =
     (case snd f of
        Some pubkey \<Rightarrow>
          (let hex_pubkey = tox_bytes_to_hex pubkey; convID = ''c2c_'' @ hex_pubkey in
           new_conversation\<lparr>conv_type := V2TIM_C2C, conversationID := convID, userID := hex_pubkey,
             recvOpt := (if hex_pubkey \<noteq> [] then C2CRecvOptForUser env hex_pubkey else V2TIM_RECEIVE_MESSAGE),
             isPinned := pinned_in convID st\<rparr>)
      | None \<Rightarrow>
          (let convID = ''c2c_'' @ dec_nat (fst f) in
           new_conversation\<lparr>conv_type := V2TIM_C2C, conversationID := convID, isPinned := pinned_in convID st\<rparr>))"

definition REFRESH_DEBOUNCE_MS :: int where
  "REFRESH_DEBOUNCE_MS = 200"

text \<open>The clock counts nanoseconds; \<open>duration_cast\<close> truncates to milliseconds.\<close>

definition debounced :: "conv_env \<Rightarrow> conversation_manager \<Rightarrow> bool" where
  "debounced env st \<longleftrightarrow> (steady_now env - last_refresh_time st) div 1000000 < REFRESH_DEBOUNCE_MS"

definition refresh_session :: "conv_env \<Rightarrow> tox_friend list option" where
  "refresh_session env =
     (case (case current_manager env of Some m \<Rightarrow> Some m | None \<Rightarrow> stored_manager env) of
        None \<Rightarrow> None
      | Some m \<Rightarrow> if is_running m then live_session m else None)"

definition rebuilt_cache :: "conv_env \<Rightarrow> conversation_manager \<Rightarrow> tox_friend list \<Rightarrow> ConversationSnapshot list" where
  "rebuilt_cache env st friends =
     map ToSnapshot
       (filter (\<lambda>conv. CString (conversationID conv) \<notin> deleted_conversation_ids st)
         (map (CreateConversationFromFriend env st) friends))"

definition RefreshConversationCache :: "conv_env \<Rightarrow> conversation_manager \<Rightarrow> conversation_manager" where
  "RefreshConversationCache env st =
     (if debounced env st then st
      else let st = st\<lparr>last_refresh_time := steady_now env\<rparr> in
        case refresh_session env of
          None \<Rightarrow> st\<lparr>cached_conversations := []\<rparr>
        | Some friends \<Rightarrow>
            st\<lparr>cached_conversations := rebuilt_cache env st friends, last_friend_count := length friends\<rparr>)"

text \<open>The constructor sets the time of the last refresh to now and refreshes; one reading of the clock stands for both.\<close>

definition new_conversation_manager :: "conv_env \<Rightarrow> conversation_manager" where
  "new_conversation_manager env =
     RefreshConversationCache env
       \<lparr> listeners = [], cached_conversations = [], last_friend_count = 0, last_refresh_time = steady_now env,
         pinned_conversations = [], deleted_conversation_ids = {} \<rparr>"

definition NotifyNewConversations :: "conv_env \<Rightarrow> conversation_manager \<Rightarrow> conv_event list" where
  "NotifyNewConversations env st =
     (if cached_conversations st = [] then []
      else notify_listeners (\<lambda>l. OnNewConversation l (map (MaterializeConversation env) (cached_conversations st))) st)"

definition RefreshCache :: "conv_env \<Rightarrow> conversation_manager \<Rightarrow> conversation_manager \<times> conv_event list" where
  "RefreshCache env st = (let st = RefreshConversationCache env st in (st, NotifyNewConversations env st))"

section \<open>Queries\<close>

record conversation_result =
  nextSeq :: nat
  isFinished :: bool
  conversationList :: "V2TIMConversation list"

definition need_refresh :: "tox_friend list \<Rightarrow> conversation_manager \<Rightarrow> bool" where
  "need_refresh friends st \<longleftrightarrow>
     length friends \<noteq> last_friend_count st \<or> (cached_conversations st = [] \<and> length friends > 0)"

definition page_of :: "conv_env \<Rightarrow> nat \<Rightarrow> nat \<Rightarrow> conversation_manager \<Rightarrow> V2TIMConversation list" where
  "page_of env seq count st =
     (let total_rows = length (cached_conversations st);
          start = min seq total_rows;
          stop = min (start + count) total_rows
      in map (\<lambda>s. (MaterializeConversation env s)\<lparr>isPinned := pinned_in (conversation_id s) st\<rparr>)
           (drop start (take stop (cached_conversations st))))"

definition GetConversationList :: "conv_env \<Rightarrow> nat \<Rightarrow> nat \<Rightarrow> conversation_manager
    \<Rightarrow> conversation_manager \<times> (int + conversation_result)" where
  "GetConversationList env seq count st =
     (case (case current_manager env of Some m \<Rightarrow> Some m | None \<Rightarrow> stored_manager env) of
        None \<Rightarrow> (st, Inl ERR_SDK_NOT_INITIALIZED)
      | Some m \<Rightarrow>
          (case live_session m of
             None \<Rightarrow> (st, Inl ERR_SDK_NOT_INITIALIZED)
           | Some friends \<Rightarrow>
               (let st = (if need_refresh friends st then RefreshConversationCache env st else st)
                in (st, Inr \<lparr> nextSeq = 0, isFinished = True, conversationList = page_of env seq count st \<rparr>))))"

definition GetConversationListByFilter :: "conv_env \<Rightarrow> nat \<Rightarrow> nat \<Rightarrow> conversation_manager
    \<Rightarrow> conversation_manager \<times> (int + conversation_result)" where
  "GetConversationListByFilter env seq count st = GetConversationList env seq count st"

definition GetConversationList_ids :: "conv_env \<Rightarrow> string list \<Rightarrow> conversation_manager \<Rightarrow> V2TIMConversation list" where
  "GetConversationList_ids env ids st =
     concat (map (\<lambda>cid. case find_cached (CString cid) st of None \<Rightarrow> [] | Some s \<Rightarrow> [MaterializeConversation env s]) ids)"

text \<open>\<open>strtoul\<close> in base 16 on two characters: the value of the digits read so far, 0 when there are none.\<close>

definition strtoul_pair :: "char \<Rightarrow> char \<Rightarrow> int" where
  "strtoul_pair a b =
     (case strtol_digit a b of Some v \<Rightarrow> v | None \<Rightarrow> if nibble a \<ge> 0 then nibble a else 0)"

fun strtoul_pairs :: "string \<Rightarrow> bytes" where
  "strtoul_pairs (a # b # cs) = word_of_int (strtoul_pair a b) # strtoul_pairs cs"
| "strtoul_pairs _ = []"

definition lookup_conversation :: "string \<Rightarrow> conversation_manager \<Rightarrow> ConversationSnapshot option" where
  "lookup_conversation conv_id st =
     (case find_cached conv_id st of Some s \<Rightarrow> Some s
      | None \<Rightarrow>
          if take 4 conv_id \<noteq> ''c2c_'' then find_cached (''c2c_'' @ conv_id) st
          else List.find (\<lambda>s. user_id s = drop 4 conv_id) (cached_conversations st))"

definition GetConversation :: "conv_env \<Rightarrow> string \<Rightarrow> conversation_manager
    \<Rightarrow> conversation_manager \<times> (int + V2TIMConversation)" where
  "GetConversation env cid st =
     (let st = RefreshConversationCache env st; conv_id = CString cid in
      (st,
       case lookup_conversation conv_id st of
         Some s \<Rightarrow> Inr (MaterializeConversation env s)
       | None \<Rightarrow>
           if length conv_id = 64 then
             (case stored_manager env of None \<Rightarrow> Inl ERR_SDK_NOT_INITIALIZED
              | Some m \<Rightarrow>
                  (case live_session m of None \<Rightarrow> Inl ERR_SDK_NOT_INITIALIZED
                   | Some friends \<Rightarrow>
                       (case List.find (\<lambda>f. snd f = Some (strtoul_pairs conv_id)) friends of
                          Some f \<Rightarrow> Inr (CreateConversationFromFriend env st f)
                        | None \<Rightarrow> Inl ERR_SDK_CONVERSATION_NOT_FOUND)))
           else Inl ERR_SDK_CONVERSATION_NOT_FOUND))"

section \<open>Changes\<close>

definition minimal_conversation :: "conv_env \<Rightarrow> string \<Rightarrow> V2TIMConversation" where
  "minimal_conversation env conv_id =
     (let c2c_uid = (if is_c2c_id conv_id then drop 4 conv_id else []) in
      new_conversation\<lparr>conversationID := conv_id, userID := c2c_uid,
        recvOpt := (if is_c2c_id conv_id then C2CRecvOptForUser env c2c_uid else 0),
        conv_type := (if is_c2c_id conv_id then V2TIM_C2C else V2TIM_GROUP)\<rparr>)"

definition NotifyConversationChangedForConvID :: "conv_env \<Rightarrow> string \<Rightarrow> conversation_manager \<Rightarrow> conv_event list" where
  "NotifyConversationChangedForConvID env cid st =
     (let conv_id = CString cid in
      if conv_id = [] then []
      else let conv = (case find_cached conv_id st of
                         Some s \<Rightarrow> MaterializeConversation env s | None \<Rightarrow> minimal_conversation env conv_id)
           in notify_listeners (\<lambda>l. OnConversationChanged l [conv]) st)"

definition UpdateC2CReceiveOptAndNotify :: "conv_env \<Rightarrow> string \<Rightarrow> int \<Rightarrow> conversation_manager
    \<Rightarrow> conversation_manager \<times> conv_event list" where
  "UpdateC2CReceiveOptAndNotify env uid0 opt st =
     (let uid = (if length uid0 \<ge> 64 then take 64 uid0 else uid0); conv_id = ''c2c_'' @ uid in
      if uid = [] then (st, [])
      else
        (case find_cached conv_id st of
           Some s \<Rightarrow>
             (let st = st\<lparr>cached_conversations :=
                    update_first (\<lambda>s. conversation_id s = conv_id) (recv_opt_update (\<lambda>_. opt)) (cached_conversations st)\<rparr>;
                  conv = MaterializeConversation env (s\<lparr>recv_opt := opt\<rparr>)
              in (st, notify_listeners (\<lambda>l. OnConversationChanged l [conv]) st))
         | None \<Rightarrow>
             (let conv = new_conversation\<lparr>conversationID := conv_id, userID := uid, recvOpt := opt, conv_type := V2TIM_C2C\<rparr>
              in (st, notify_listeners (\<lambda>l. OnConversationChanged l [conv]) st))))"

text \<open>
  \<open>SetC2CReceiveMessageOpt\<close> of the message manager: store every id under its first 64
  characters, then tell the conversation manager once per id.
\<close>

fun push_opts :: "conv_env \<Rightarrow> int \<Rightarrow> string list \<Rightarrow> conversation_manager \<Rightarrow> conversation_manager \<times> conv_event list" where
  "push_opts env opt [] st = (st, [])"
| "push_opts env opt (uid # uids) st =
     (case UpdateC2CReceiveOptAndNotify env uid opt st of (st, evs) \<Rightarrow>
        case push_opts env opt uids st of (st, evs') \<Rightarrow> (st, evs @ evs'))"

definition SetC2CReceiveMessageOpt :: "conv_env \<Rightarrow> string list \<Rightarrow> int \<Rightarrow> receive_options \<Rightarrow> conversation_manager
    \<Rightarrow> receive_options \<times> conversation_manager \<times> conv_event list" where
  "SetC2CReceiveMessageOpt env userIDList opt mm st =
     (let uids = given_user_ids userIDList;
          mm = store_c2c_opts uids opt mm;
          env = env\<lparr>message_manager := Some mm\<rparr>
      in (mm, push_opts env opt uids st))"

definition DeleteConversation :: "string \<Rightarrow> conversation_manager \<Rightarrow> conversation_manager \<times> conv_event list" where
  "DeleteConversation cid st =
     (let conv_id = CString cid;
          st = st\<lparr>deleted_conversation_ids := insert conv_id (deleted_conversation_ids st)\<rparr>;
          st = (if is_c2c_id conv_id \<or> is_group_id conv_id
                then st\<lparr>cached_conversations := erase_first (\<lambda>s. conversation_id s = conv_id) (cached_conversations st)\<rparr>
                else st)
      in (st, notify_listeners (\<lambda>l. OnConversationDeleted l [cid]) st))"

definition clear_history :: "conv_env \<Rightarrow> string \<Rightarrow> conv_event list" where
  "clear_history env conv_id =
     (if is_c2c_id conv_id
      then (if drop 4 conv_id \<noteq> [] \<and> stored_manager env \<noteq> None then [ClearC2CHistoryMessage (drop 4 conv_id)] else [])
      else if is_group_id conv_id
      then (if drop 6 conv_id \<noteq> [] \<and> stored_manager env \<noteq> None then [ClearGroupHistoryMessage (drop 6 conv_id)] else [])
      else [])"

fun DeleteConversationList :: "conv_env \<Rightarrow> bool \<Rightarrow> string list \<Rightarrow> conversation_manager
    \<Rightarrow> conversation_manager \<times> conv_event list \<times> (string \<times> int) list" where
  "DeleteConversationList env clearMessage [] st = (st, [], [])"
| "DeleteConversationList env clearMessage (cid # cids) st =
     (let cleared = (if clearMessage then clear_history env (CString cid) else []) in
      case DeleteConversation cid st of (st, evs) \<Rightarrow>
        case DeleteConversationList env clearMessage cids st of (st, evs', results) \<Rightarrow>
          (st, cleared @ evs @ evs', (cid, 0) # results))"

definition sparse_conversation :: "conv_env \<Rightarrow> string \<Rightarrow> string \<Rightarrow> V2TIMConversation" where
  "sparse_conversation env cid conv_id =
     (let conv = new_conversation\<lparr>conversationID := cid\<rparr> in
      if is_c2c_id conv_id
      then conv\<lparr>conv_type := V2TIM_C2C, userID := drop 4 conv_id, recvOpt := C2CRecvOptForUser env (drop 4 conv_id)\<rparr>
      else if is_group_id conv_id then conv\<lparr>conv_type := V2TIM_GROUP, groupID := drop 6 conv_id\<rparr>
      else conv)"

definition SetConversationDraft :: "conv_env \<Rightarrow> string \<Rightarrow> string \<Rightarrow> conversation_manager
    \<Rightarrow> conversation_manager \<times> conv_event list" where
  "SetConversationDraft env cid draft st =
     (let conv_id = CString cid;
          st = st\<lparr>cached_conversations :=
                 update_first (\<lambda>s. conversation_id s = conv_id) (draft_text_update (\<lambda>_. CString draft)) (cached_conversations st)\<rparr>;
          conv = (sparse_conversation env cid conv_id)\<lparr>draftText := draft\<rparr>
      in (st, notify_listeners (\<lambda>l. OnConversationChanged l [conv]) st))"

definition SetConversationCustomData :: "string list \<Rightarrow> (string \<times> int) list" where
  "SetConversationCustomData ids = map (\<lambda>cid. (cid, 0)) ids"

definition storePinned :: "bool \<Rightarrow> string \<Rightarrow> (string, bool) umap \<Rightarrow> (string, bool) umap" where
  "storePinned pin key m = (if pin then um_put key True m else um_erase key m)"

definition PinConversation :: "conv_env \<Rightarrow> string \<Rightarrow> bool \<Rightarrow> conversation_manager
    \<Rightarrow> conversation_manager \<times> conv_event list" where
  "PinConversation env cid pin st =
     (let convID = CString cid;
          m = storePinned pin convID (pinned_conversations st);
          m = (if is_c2c_id convID \<and> length (drop 4 convID) \<ge> TOX_PUBLIC_KEY_SIZE * 2
               then storePinned pin (''c2c_'' @ take (TOX_PUBLIC_KEY_SIZE * 2) (drop 4 convID)) m else m);
          st = st\<lparr>pinned_conversations := m\<rparr>;
          conv = new_conversation\<lparr>conversationID := convID, isPinned := pin\<rparr>;
          conv = (if is_c2c_id convID
                  then conv\<lparr>conv_type := V2TIM_C2C, userID := drop 4 convID,
                         recvOpt := C2CRecvOptForUser env (drop 4 convID)\<rparr>
                  else if is_group_id convID then conv\<lparr>conv_type := V2TIM_GROUP, groupID := drop 6 convID\<rparr>
                  else conv\<lparr>conv_type := V2TIM_C2C, userID := convID\<rparr>)
      in (st, notify_listeners (\<lambda>l. OnConversationChanged l [conv]) st))"

definition MarkConversation :: "conv_env \<Rightarrow> string list \<Rightarrow> conversation_manager \<Rightarrow> conv_event list \<times> (string \<times> int) list" where
  "MarkConversation env ids st =
     (let changed = GetConversationList_ids env ids st in
      ((if changed \<noteq> [] then notify_listeners (\<lambda>l. OnConversationChanged l changed) st else []),
       map (\<lambda>cid. (cid, 0)) ids))"

definition GetTotalUnreadMessageCount :: u64 where
  "GetTotalUnreadMessageCount = 0"

definition total_unread :: "conversation_manager \<Rightarrow> u64" where
  "total_unread st = sum_list (map (\<lambda>s. word_of_int (unread_count s)) (cached_conversations st))"

definition CleanConversationUnreadMessageCount :: "conv_env \<Rightarrow> string \<Rightarrow> conversation_manager
    \<Rightarrow> conversation_manager \<times> conv_event list" where
  "CleanConversationUnreadMessageCount env cid st =
     (let conv_id = CString cid;
          st = st\<lparr>cached_conversations :=
                 update_first (\<lambda>s. conversation_id s = conv_id) (unread_count_update (\<lambda>_. 0)) (cached_conversations st)\<rparr>;
          conv = (case find_cached conv_id st of
                    Some s \<Rightarrow> MaterializeConversation env s | None \<Rightarrow> sparse_conversation env cid conv_id)
      in (st, notify_listeners (\<lambda>l. OnConversationChanged l [conv]) st
            @ notify_listeners (\<lambda>l. OnTotalUnreadMessageCountChanged l (total_unread st)) st))"

end
