(* ===== verification/ConversationProperties.thy ===== *)
theory ConversationProperties
  imports ConversationManager
begin

text \<open>
  What the conversation manager promises: rows of the cache are the friends that were not
  deleted, a deletion is final, a pin shows in every later list, and a receive option reaches
  every conversation that is reported for the user.
\<close>

section \<open>The friends of toxcore\<close>

definition friend_conv_id :: "tox_friend \<Rightarrow> string" where
  "friend_conv_id f = ''c2c_'' @ (case snd f of Some k \<Rightarrow> tox_bytes_to_hex k | None \<Rightarrow> dec_nat (fst f))"

text \<open>
  toxcore documents friend numbers below \<open>2\<^sup>32\<close> and keys of 32 bytes, each number and each key
  once in the list.
\<close>

definition friends_ok :: "tox_friend list \<Rightarrow> bool" where
  "friends_ok fs \<longleftrightarrow> distinct (map fst fs) \<and> distinct (List.map_filter snd fs) \<and>
     (\<forall>f \<in> set fs. fst f < 2 ^ 32 \<and> (\<forall>k. snd f = Some k \<longrightarrow> length k = TOX_PUBLIC_KEY_SIZE))"

definition env_ok :: "conv_env \<Rightarrow> bool" where
  "env_ok env \<longleftrightarrow> (\<forall>fs. refresh_session env = Some fs \<longrightarrow> friends_ok fs)"

lemma dec_nat_length: "n < 10 ^ Suc k \<Longrightarrow> length (dec_nat n) \<le> Suc k"
proof (induction k arbitrary: n)
  case (Suc k)
  show ?case
  proof (cases "n < 10")
    case False
    have "n div 10 < 10 ^ Suc k" using Suc.prems by (simp add: less_mult_imp_div_less mult.commute)
    from Suc.IH [OF this] False show ?thesis by (simp add: dec_nat.simps [of n])
  qed (simp add: dec_nat.simps [of n])
qed (simp add: dec_nat.simps)

lemma CString_id: "CHR 0x00 \<notin> set s \<Longrightarrow> CString s = s"
  unfolding CString_def by (rule takeWhile_eq_all_conv [THEN iffD2]) auto

lemma hex_no_nul: "CHR 0x00 \<notin> set (tox_bytes_to_hex k)"
proof -
  have "\<not> isxdigit CHR 0x00" by (simp add: isxdigit_def in_range_def code_def)
  then show ?thesis using isxdigit_tox_bytes_to_hex [of k] by (auto simp: list_all_iff)
qed

lemma dec_no_nul: "CHR 0x00 \<notin> set (dec_nat n)"
proof -
  have "\<not> is_digit CHR 0x00" by (simp add: is_digit_def)
  then show ?thesis using dec_nat_digits [of n] by (auto simp: list_all_iff)
qed

lemma friend_id_CString [simp]: "CString (friend_conv_id f) = friend_conv_id f"
  by (rule CString_id) (auto simp: friend_conv_id_def hex_no_nul dec_no_nul split: option.splits)

lemma hex_CString [simp]: "CString (tox_bytes_to_hex k) = tox_bytes_to_hex k"
  by (rule CString_id) (rule hex_no_nul)

lemma create_id [simp]: "conversationID (CreateConversationFromFriend env st f) = friend_conv_id f"
  by (simp add: CreateConversationFromFriend_def friend_conv_id_def Let_def split: option.splits)

lemma friend_ids_distinct:
  assumes "friends_ok fs"
  shows "distinct (map friend_conv_id fs)"
  using assms
proof (induction fs)
  case (Cons f fs)
  have ok: "friends_ok fs" using Cons.prems by (auto simp: friends_ok_def map_filter_simps split: option.splits)
  have "friend_conv_id f \<noteq> friend_conv_id g" if g: "g \<in> set fs" for g
  proof
    assume eq: "friend_conv_id f = friend_conv_id g"
    have bounds: "h \<in> {f, g} \<Longrightarrow> fst h < 10 ^ Suc 9 \<and> (\<forall>k. snd h = Some k \<longrightarrow> length k = 32)" for h
      using Cons.prems g by (force simp: friends_ok_def TOX_PUBLIC_KEY_SIZE_def)
    have len: "length (dec_nat (fst h)) \<le> 10" if "h \<in> {f, g}" for h
      using dec_nat_length [of "fst h" 9] bounds [OF that] by simp
    show False
    proof (cases "snd f"; cases "snd g")
      assume "snd f = None" "snd g = None"
      then have "fst f = fst g" using eq by (simp add: friend_conv_id_def)
      then show False using Cons.prems g by (auto simp: friends_ok_def)
    next
      fix k assume "snd f = None" "snd g = Some k"
      then show False using arg_cong [OF eq, of length] bounds [of g] len [of f] by (simp add: friend_conv_id_def)
    next
      fix k assume "snd f = Some k" "snd g = None"
      then show False using arg_cong [OF eq, of length] bounds [of f] len [of g] by (simp add: friend_conv_id_def)
    next
      fix j k assume jk: "snd f = Some j" "snd g = Some k"
      then have "tox_bytes_to_hex j = tox_bytes_to_hex k" using eq by (simp add: friend_conv_id_def)
      then have "j = k" using unhex_loop_upper by (metis option.inject)
      moreover have "k \<in> set (List.map_filter snd fs)" using g jk by (auto simp: set_map_filter)
      ultimately show False using Cons.prems jk by (simp add: friends_ok_def map_filter_simps)
    qed
  qed
  then show ?case using Cons.IH [OF ok] by auto
qed simp

section \<open>Rows of the cache\<close>

type_synonym conv_row = "string \<times> string \<times> conversation_type"

definition row_of :: "ConversationSnapshot \<Rightarrow> conv_row" where
  "row_of s = (conversation_id s, user_id s, snap_type s)"

abbreviation rows :: "conversation_manager \<Rightarrow> conv_row list" where
  "rows st \<equiv> map row_of (cached_conversations st)"

definition row_ok :: "string set \<Rightarrow> conv_row \<Rightarrow> bool" where
  "row_ok gone r \<longleftrightarrow> (case r of (cid, uid, ty) \<Rightarrow>
     ty = V2TIM_C2C \<and> is_c2c_id cid \<and> CString cid = cid \<and> cid \<notin> gone \<and> (uid = [] \<or> cid = ''c2c_'' @ uid))"

definition conv_inv :: "conversation_manager \<Rightarrow> bool" where
  "conv_inv st \<longleftrightarrow> distinct (map conversation_id (cached_conversations st)) \<and> (\<forall>r \<in> set (rows st). row_ok (deleted_conversation_ids st) r)"

lemma rows_fst: "map conversation_id xs = map fst (map row_of xs)"
  by (simp add: row_of_def)

lemma conv_inv_rows:
  "rows st' = rows st \<Longrightarrow> deleted_conversation_ids st' = deleted_conversation_ids st \<Longrightarrow> conv_inv st' = conv_inv st"
  unfolding conv_inv_def rows_fst by simp

lemma update_first_rows: "(\<And>x. g (f x) = g x) \<Longrightarrow> map g (update_first P f xs) = map g xs"
  by (induction xs) auto

lemma rows_update:
  "map row_of (update_first P (recv_opt_update h) xs) = map row_of xs"
  "map row_of (update_first P (draft_text_update k) xs) = map row_of xs"
  "map row_of (update_first P (unread_count_update h) xs) = map row_of xs"
  by (rule update_first_rows, simp add: row_of_def)+

lemma create_row:
  "row_of (ToSnapshot (CreateConversationFromFriend env st f)) =
     (friend_conv_id f, (case snd f of Some k \<Rightarrow> tox_bytes_to_hex k | None \<Rightarrow> []), V2TIM_C2C)"
proof -
  have [simp]: "CString [] = []" by (simp add: CString_def)
  show ?thesis using create_id [of env st f]
    by (auto simp: row_of_def ToSnapshot_def CreateConversationFromFriend_def Let_def new_conversation_def
        simp del: create_id split: option.splits)
qed

lemma rebuilt_rows:
  "map row_of (rebuilt_cache env st fs) =
     map (\<lambda>f. (friend_conv_id f, (case snd f of Some k \<Rightarrow> tox_bytes_to_hex k | None \<Rightarrow> []), V2TIM_C2C))
       (filter (\<lambda>f. friend_conv_id f \<notin> deleted_conversation_ids st) fs)"
  unfolding rebuilt_cache_def by (induction fs) (simp_all add: create_row)

lemma rebuilt_ids:
  "map conversation_id (rebuilt_cache env st fs) =
     map friend_conv_id (filter (\<lambda>f. friend_conv_id f \<notin> deleted_conversation_ids st) fs)"
  unfolding rows_fst rebuilt_rows by simp

lemma friend_row_ok:
  assumes "friend_conv_id f \<notin> gone"
  shows "row_ok gone (friend_conv_id f, (case snd f of Some k \<Rightarrow> tox_bytes_to_hex k | None \<Rightarrow> []), V2TIM_C2C)"
proof -
  have "is_c2c_id (friend_conv_id f)" by (simp add: friend_conv_id_def is_c2c_id_def)
  then show ?thesis using assms by (cases "snd f") (simp_all add: row_ok_def, simp_all add: friend_conv_id_def)
qed

lemma refresh_inv:
  assumes "conv_inv st" "env_ok env"
  shows "conv_inv (RefreshConversationCache env st)"
proof (cases "debounced env st \<or> refresh_session env = None")
  case True
  then show ?thesis using assms(1) by (auto simp: RefreshConversationCache_def conv_inv_def Let_def)
next
  case False
  then obtain fs where fs: "refresh_session env = Some fs" "\<not> debounced env st" by auto
  then have "distinct (map friend_conv_id fs)" using assms(2) friend_ids_distinct by (auto simp: env_ok_def)
  then have "distinct (map friend_conv_id (filter P fs))" for P by (induction fs) auto
  then show ?thesis using fs friend_row_ok
    by (auto simp: RefreshConversationCache_def conv_inv_def Let_def rebuilt_rows rebuilt_ids)
qed

lemma erase_first_subset: "set (erase_first P xs) \<subseteq> set xs"
  by (induction xs) auto

lemma erase_first_distinct: "distinct (map g xs) \<Longrightarrow> distinct (map g (erase_first P xs))"
  using erase_first_subset by (induction xs) (auto, fastforce)

lemma erase_first_gone:
  "distinct (map g xs) \<Longrightarrow> x \<in> set (erase_first (\<lambda>y. g y = k) xs) \<Longrightarrow> g x \<noteq> k"
  by (induction xs) (force split: if_splits)+

lemma delete_inv:
  assumes "conv_inv st"
  shows "conv_inv (fst (DeleteConversation cid st))"
proof -
  let ?cid = "CString cid" and ?c = "cached_conversations st"
  have d: "distinct (map conversation_id ?c)" using assms by (simp add: conv_inv_def)
  have e: "distinct (map conversation_id (erase_first (\<lambda>s. conversation_id s = ?cid) ?c))"
    by (rule erase_first_distinct [OF d])
  have rows: "row_ok (deleted_conversation_ids st) (row_of s)" if "s \<in> set ?c" for s
    using that assms by (auto simp: conv_inv_def)
  show ?thesis
  proof (cases "is_c2c_id ?cid \<or> is_group_id ?cid")
    case True
    have "row_ok (insert ?cid (deleted_conversation_ids st)) (row_of s)"
      if s: "s \<in> set (erase_first (\<lambda>s. conversation_id s = ?cid) ?c)" for s
      using rows [of s] erase_first_gone [OF d s] subsetD [OF erase_first_subset s]
      by (simp add: row_ok_def row_of_def)
    then show ?thesis using True e by (auto simp: DeleteConversation_def Let_def conv_inv_def)
  next
    case False
    have "row_ok (insert ?cid (deleted_conversation_ids st)) (row_of s)" if "s \<in> set ?c" for s
      using rows [OF that] False by (auto simp: row_ok_def row_of_def)
    then show ?thesis using False d by (auto simp: DeleteConversation_def Let_def conv_inv_def)
  qed
qed

section \<open>Reachable states\<close>

inductive conv_step :: "conversation_manager \<Rightarrow> conversation_manager \<Rightarrow> bool" where
  page: "env_ok env \<Longrightarrow> conv_step st (fst (GetConversationList env seq count st))"
| lookup: "env_ok env \<Longrightarrow> conv_step st (fst (GetConversation env cid st))"
| refresh: "env_ok env \<Longrightarrow> conv_step st (fst (RefreshCache env st))"
| delete: "conv_step st (fst (DeleteConversation cid st))"
| draft: "conv_step st (fst (SetConversationDraft env cid d st))"
| pin: "conv_step st (fst (PinConversation env cid b st))"
| opt: "conv_step st (fst (UpdateC2CReceiveOptAndNotify env uid opt st))"
| clean: "conv_step st (fst (CleanConversationUnreadMessageCount env cid st))"
| add: "conv_step st (AddConversationListener l st)"
| remove: "conv_step st (RemoveConversationListener l st)"

definition conv_initial :: "conversation_manager \<Rightarrow> bool" where
  "conv_initial st \<longleftrightarrow> (\<exists>env. st = new_conversation_manager env)"

text \<open>The refresh of the constructor always falls into the debounce window it just opened.\<close>

lemma new_manager_empty: "cached_conversations (new_conversation_manager env) = []"
  by (simp add: new_conversation_manager_def RefreshConversationCache_def debounced_def REFRESH_DEBOUNCE_MS_def)

lemma conv_inv_new: "conv_initial st \<Longrightarrow> conv_inv st"
  using new_manager_empty by (auto simp: conv_initial_def conv_inv_def)

lemma opt_rows:
  "rows (fst (UpdateC2CReceiveOptAndNotify env uid opt st)) = rows st"
  "deleted_conversation_ids (fst (UpdateC2CReceiveOptAndNotify env uid opt st)) = deleted_conversation_ids st"
  by (simp_all add: UpdateC2CReceiveOptAndNotify_def Let_def rows_update split: option.split)

lemma quiet_rows:
  "rows (fst (SetConversationDraft env cid d st)) = rows st"
  "deleted_conversation_ids (fst (SetConversationDraft env cid d st)) = deleted_conversation_ids st"
  "rows (fst (PinConversation env cid b st)) = rows st"
  "deleted_conversation_ids (fst (PinConversation env cid b st)) = deleted_conversation_ids st"
  "rows (fst (CleanConversationUnreadMessageCount env cid st)) = rows st"
  "deleted_conversation_ids (fst (CleanConversationUnreadMessageCount env cid st)) = deleted_conversation_ids st"
  "rows (AddConversationListener l st) = rows st"
  "deleted_conversation_ids (AddConversationListener l st) = deleted_conversation_ids st"
  "rows (RemoveConversationListener l st) = rows st"
  "deleted_conversation_ids (RemoveConversationListener l st) = deleted_conversation_ids st"
  by (simp_all add: SetConversationDraft_def PinConversation_def CleanConversationUnreadMessageCount_def
      AddConversationListener_def RemoveConversationListener_def Let_def rows_update)

lemmas quiet_inv = conv_inv_rows [OF opt_rows] conv_inv_rows [OF quiet_rows(1,2)] conv_inv_rows [OF quiet_rows(3,4)]
  conv_inv_rows [OF quiet_rows(5,6)] conv_inv_rows [OF quiet_rows(7,8)] conv_inv_rows [OF quiet_rows(9,10)]

lemma list_state: "fst (GetConversationList env seq count st) \<in> {st, RefreshConversationCache env st}"
  by (auto simp: GetConversationList_def Let_def split: option.splits)

lemma lookup_state: "fst (GetConversation env cid st) = RefreshConversationCache env st"
  by (simp add: GetConversation_def Let_def)

lemma refresh_deleted [simp]: "deleted_conversation_ids (RefreshConversationCache env st) = deleted_conversation_ids st"
  by (simp add: RefreshConversationCache_def Let_def split: option.split)

interpretation conversations: state_system conv_initial conv_step conv_inv
proof
  show "conv_initial st \<Longrightarrow> conv_inv st" for st by (rule conv_inv_new)
next
  fix st t
  assume "conv_step st t" "conv_inv st"
  then show "conv_inv t"
  proof cases
    case (page env seq count)
    then show ?thesis using list_state [of env seq count st] refresh_inv \<open>conv_inv st\<close> by auto
  qed (simp_all add: lookup_state RefreshCache_def Let_def refresh_inv delete_inv quiet_inv)
qed

lemma deleted_mono: "conv_step st t \<Longrightarrow> deleted_conversation_ids st \<subseteq> deleted_conversation_ids t"
proof (induction rule: conv_step.induct)
  case (page env st seq count)
  then show ?case using list_state [of env seq count st] by auto
qed (auto simp: lookup_state RefreshCache_def Let_def DeleteConversation_def opt_rows quiet_rows)

lemma deleted_kept: "conv_step\<^sup>*\<^sup>* st t \<Longrightarrow> deleted_conversation_ids st \<subseteq> deleted_conversation_ids t"
  by (induction rule: rtranclp_induct) (auto dest: deleted_mono)

lemma delete_ids [simp]:
  "deleted_conversation_ids (fst (DeleteConversation cid st)) = insert (CString cid) (deleted_conversation_ids st)"
  by (simp add: DeleteConversation_def Let_def)

lemma page_ids: "c \<in> set (page_of env seq count st) \<Longrightarrow> conversationID c \<in> conversation_id ` set (cached_conversations st)"
  by (auto simp: page_of_def Let_def MaterializeConversation_def dest!: in_set_dropD in_set_takeD)


text \<open>An account with two friends whose keys are not known yet, asked a second after the start.\<close>

definition two_friends :: manager_view where
  "two_friends = \<lparr> is_running = True, live_session = Some [(0, None), (1, None)] \<rparr>"

definition env_at :: "int \<Rightarrow> receive_options \<Rightarrow> conv_env" where
  "env_at ns mm = \<lparr> current_manager = Some two_friends, stored_manager = Some two_friends,
     message_manager = Some mm, steady_now = ns \<rparr>"

definition no_options :: receive_options where
  "no_options = \<lparr> c2c_receive_opts = [], group_receive_opts = [] \<rparr>"

lemma env_at_ok: "env_ok (env_at ns mm)"
  by (simp add: env_ok_def env_at_def refresh_session_def two_friends_def friends_ok_def map_filter_simps)

lemma env_at_session: "refresh_session (env_at ns mm) = Some [(0, None), (1, None)]"
  by (simp add: env_at_def refresh_session_def two_friends_def)

lemma small_ids: "friend_conv_id (0, None) = ''c2c_0''" "friend_conv_id (1, None) = ''c2c_1''"
  by code_simp+

text \<open>The identifiers a refreshed list shows.\<close>

lemma refreshed_ids:
  assumes "\<not> debounced env st" "refresh_session env = Some fs"
  shows "map conversation_id (cached_conversations (RefreshConversationCache env st)) =
    map friend_conv_id (filter (\<lambda>f. friend_conv_id f \<notin> deleted_conversation_ids st) fs)"
  using assms by (simp add: RefreshConversationCache_def Let_def rebuilt_ids)

lemma page_ids_eq:
  "map conversationID (page_of env seq count st) = map conversation_id (take count (drop seq (cached_conversations st)))"
proof -
  have "drop (min seq n) (take (min (min seq n + count) n) xs) = take count (drop seq xs)" if "n = length xs" for n and xs :: "ConversationSnapshot list"
    using that by (cases "seq \<le> n") (simp_all add: drop_take min_def)
  then show ?thesis by (simp add: page_of_def Let_def MaterializeConversation_def comp_def)
qed

text \<open>
  A list request outside the debounce window that sees a changed friend list answers with
  the friends of toxcore in their order, without the deleted ones, cut to the requested range.
\<close>

theorem list_matches_friends:
  assumes "(case current_manager env of Some m \<Rightarrow> Some m | None \<Rightarrow> stored_manager env) = Some m"
    and "is_running m" "live_session m = Some friends" "need_refresh friends st" "\<not> debounced env st"
  shows "\<exists>r. snd (GetConversationList env seq count st) = Inr r \<and>
    map conversationID (conversationList r) =
      take count (drop seq (map friend_conv_id
        (filter (\<lambda>f. friend_conv_id f \<notin> deleted_conversation_ids st) friends)))"
proof -
  have "refresh_session env = Some friends" using assms by (simp add: refresh_session_def)
  from refreshed_ids [OF assms(5) this, THEN arg_cong, of "\<lambda>xs. take count (drop seq xs)"] show ?thesis
    using assms(1,3,4) by (simp add: GetConversationList_def Let_def page_ids_eq take_map drop_map)
qed

lemma start_not_debounced: "\<not> debounced (env_at 1000000000 mm) (new_conversation_manager (env_at 0 no_options))"
  by (simp add: debounced_def env_at_def new_conversation_manager_def RefreshConversationCache_def REFRESH_DEBOUNCE_MS_def)

lemma new_manager_fields:
  "deleted_conversation_ids (new_conversation_manager env) = {}" "listeners (new_conversation_manager env) = []"
  "last_friend_count (new_conversation_manager env) = 0" "last_refresh_time (new_conversation_manager env) = steady_now env"
  "pinned_conversations (new_conversation_manager env) = []"
  by (simp_all add: new_conversation_manager_def RefreshConversationCache_def debounced_def REFRESH_DEBOUNCE_MS_def)

theorem list_matches_friends_witness:
  "\<exists>r. snd (GetConversationList (env_at 1000000000 no_options) 0 1 (new_conversation_manager (env_at 0 no_options))) = Inr r \<and>
    map conversationID (conversationList r) =
      take 1 (drop 0 (map friend_conv_id (filter (\<lambda>f. friend_conv_id f \<notin>
        deleted_conversation_ids (new_conversation_manager (env_at 0 no_options))) [(0, None), (1, None)])))"
proof (rule list_matches_friends [of _ two_friends])
  show "\<not> debounced (env_at 1000000000 no_options) (new_conversation_manager (env_at 0 no_options))"
    by (rule start_not_debounced)
qed (simp_all add: env_at_def [of 1000000000] two_friends_def need_refresh_def new_manager_fields)

lemma list_refreshes:
  assumes "(case current_manager env of Some m \<Rightarrow> Some m | None \<Rightarrow> stored_manager env) = Some m"
    and "live_session m = Some friends" "need_refresh friends st"
  shows "GetConversationList env seq count st = (RefreshConversationCache env st,
    Inr \<lparr>nextSeq = 0, isFinished = True, conversationList = page_of env seq count (RefreshConversationCache env st)\<rparr>)"
  using assms by (simp add: GetConversationList_def Let_def)

lemma env_at_manager:
  "(case current_manager (env_at ns mm) of Some m \<Rightarrow> Some m | None \<Rightarrow> stored_manager (env_at ns mm)) = Some two_friends"
  "live_session two_friends = Some [(0, None), (1, None)]"
  by (simp_all add: env_at_def two_friends_def)


section \<open>Pins\<close>

definition pin_keys :: "string \<Rightarrow> string set" where
  "pin_keys convID = insert convID
     (if is_c2c_id convID \<and> length convID \<ge> 68 then {take 68 convID} else {})"

lemma pinned_after:
  "pinned_in k (fst (PinConversation env cid pin st)) =
     (if k \<in> pin_keys (CString cid) then pin else pinned_in k st)"
proof -
  have "''c2c_'' @ take 64 (drop 4 s) = take 68 s" if "is_c2c_id s" for s
    using that take_add [of 4 64 s] by (simp add: is_c2c_id_def)
  then show ?thesis
    by (auto simp: PinConversation_def Let_def pinned_in_def pin_keys_def storePinned_def umap_simps TOX_PUBLIC_KEY_SIZE_def)
qed

text \<open>
  A pin or unpin shows in every later page: exactly the rows whose identifier is the given
  one, or its first 64 key characters when a full Tox address was given, change their mark;
  order, rows and everything else of the page stay.
\<close>

theorem pin_shows_in_list:
  "page_of env' seq count (fst (PinConversation env cid pin st)) =
     map (\<lambda>c. c\<lparr>isPinned := (if conversationID c \<in> pin_keys (CString cid) then pin else isPinned c)\<rparr>)
       (page_of env' seq count st)"
proof -
  have "cached_conversations (fst (PinConversation env cid pin st)) = cached_conversations st"
    by (simp add: PinConversation_def Let_def)
  then show ?thesis by (simp add: page_of_def Let_def pinned_after MaterializeConversation_def)
qed

section \<open>Receive options\<close>

text \<open>Every conversation object an operation hands to a callback or to the listeners.\<close>

datatype conv_op =
  Op_List nat nat
| Op_Ids "string list"
| Op_Get string
| Op_Refresh
| Op_Notify string
| Op_Draft string string
| Op_Pin string bool
| Op_Mark "string list"
| Op_Clean string

fun event_conversations :: "conv_event \<Rightarrow> V2TIMConversation list" where
  "event_conversations (OnConversationChanged l cs) = cs"
| "event_conversations (OnNewConversation l cs) = cs"
| "event_conversations _ = []"

definition in_events :: "conv_event list \<Rightarrow> V2TIMConversation list" where
  "in_events evs = concat (map event_conversations evs)"

fun reports :: "conv_env \<Rightarrow> conv_op \<Rightarrow> conversation_manager \<Rightarrow> V2TIMConversation list" where
  "reports env (Op_List seq count) st =
     (case snd (GetConversationList env seq count st) of Inl _ \<Rightarrow> [] | Inr r \<Rightarrow> conversationList r)"
| "reports env (Op_Ids ids) st = GetConversationList_ids env ids st"
| "reports env (Op_Get cid) st = (case snd (GetConversation env cid st) of Inl _ \<Rightarrow> [] | Inr c \<Rightarrow> [c])"
| "reports env Op_Refresh st = in_events (snd (RefreshCache env st))"
| "reports env (Op_Notify cid) st = in_events (NotifyConversationChangedForConvID env cid st)"
| "reports env (Op_Draft cid d) st = in_events (snd (SetConversationDraft env cid d st))"
| "reports env (Op_Pin cid b) st = in_events (snd (PinConversation env cid b st))"
| "reports env (Op_Mark ids) st = in_events (fst (MarkConversation env ids st))"
| "reports env (Op_Clean cid) st = in_events (snd (CleanConversationUnreadMessageCount env cid st))"

definition truthful :: "conv_env \<Rightarrow> V2TIMConversation \<Rightarrow> bool" where
  "truthful env c \<longleftrightarrow> (is_c2c_id (CString (conversationID c)) \<longrightarrow>
     recvOpt c = C2CRecvOptForUser env (drop 4 (CString (conversationID c))))"

lemma in_changed: "c \<in> set (in_events (notify_listeners (\<lambda>l. OnConversationChanged l cs) st)) \<Longrightarrow> c \<in> set cs"
  by (auto simp: in_events_def notify_listeners_def split: option.splits)

lemma in_new: "c \<in> set (in_events (notify_listeners (\<lambda>l. OnNewConversation l cs) st)) \<Longrightarrow> c \<in> set cs"
  by (auto simp: in_events_def notify_listeners_def split: option.splits)

lemma in_unread: "in_events (notify_listeners (\<lambda>l. OnTotalUnreadMessageCountChanged l n) st) = []"
  by (auto simp: in_events_def notify_listeners_def split: option.splits)

lemma in_events_append: "in_events (a @ b) = in_events a @ in_events b" "in_events [] = []"
  by (simp_all add: in_events_def)

lemma c2c_id_split: "is_c2c_id s \<Longrightarrow> s = ''c2c_'' @ drop 4 s"
  unfolding is_c2c_id_def by (metis append_take_drop_id)

lemma materialized_truthful:
  assumes "row_ok gone (row_of s)"
  shows "truthful env (MaterializeConversation env s)"
proof -
  have "is_c2c_id (conversation_id s)" "snap_type s = V2TIM_C2C" "CString (conversation_id s) = conversation_id s"
    "user_id s = [] \<or> conversation_id s = ''c2c_'' @ user_id s"
    using assms by (auto simp: row_ok_def row_of_def)
  then show ?thesis by (auto simp: truthful_def MaterializeConversation_def Let_def is_c2c_id_def)
qed

lemma created_truthful: "snd f = Some k \<Longrightarrow> truthful env (CreateConversationFromFriend env st f)"
  by (auto simp: truthful_def friend_conv_id_def CreateConversationFromFriend_def Let_def V2TIM_RECEIVE_MESSAGE_def
      C2CRecvOptForUser_def hex_no_nul CString_id)

lemma sparse_truthful: "truthful env (sparse_conversation env cid (CString cid))"
  by (simp add: truthful_def sparse_conversation_def new_conversation_def Let_def)

lemma sparse_draft_truthful: "truthful env ((sparse_conversation env cid (CString cid))\<lparr>draftText := d\<rparr>)"
  using sparse_truthful [of env cid] by (simp add: truthful_def)

lemma minimal_truthful: "truthful env (minimal_conversation env (CString cid))"
  by (simp add: truthful_def minimal_conversation_def new_conversation_def Let_def)

lemma pin_truthful: "c \<in> set (reports env (Op_Pin cid b) st) \<Longrightarrow> truthful env c"
  by (auto simp: PinConversation_def Let_def truthful_def new_conversation_def dest!: in_changed
      split: if_splits)

lemma cached_truthful:
  assumes "conv_inv st" "s \<in> set (cached_conversations st)"
  shows "truthful env (MaterializeConversation env s)" "truthful env ((MaterializeConversation env s)\<lparr>isPinned := b\<rparr>)"
proof -
  have "row_ok (deleted_conversation_ids st) (row_of s)" using assms by (simp add: conv_inv_def)
  from materialized_truthful [OF this, of env] show "truthful env (MaterializeConversation env s)"
    "truthful env ((MaterializeConversation env s)\<lparr>isPinned := b\<rparr>)" by (simp_all add: truthful_def)
qed

lemma find_cached_mem: "find_cached cid st = Some s \<Longrightarrow> s \<in> set (cached_conversations st)"
  by (auto simp: find_cached_def find_Some_iff)

lemma lookup_mem: "lookup_conversation cid st = Some s \<Longrightarrow> s \<in> set (cached_conversations st)"
  by (auto simp: lookup_conversation_def find_Some_iff dest: find_cached_mem split: option.splits if_splits)

lemma ids_truthful: "conv_inv st \<Longrightarrow> c \<in> set (GetConversationList_ids env ids st) \<Longrightarrow> truthful env c"
  by (auto simp: GetConversationList_ids_def intro: cached_truthful find_cached_mem [OF sym] split: option.splits)

lemma list_truthful:
  assumes "conv_inv st" "env_ok env" "c \<in> set (reports env (Op_List seq count) st)"
  shows "truthful env c"
proof -
  let ?u = "fst (GetConversationList env seq count st)"
  have "conv_inv ?u" using list_state [of env seq count st] assms(1) refresh_inv [OF assms(1,2)] by auto
  moreover have "c \<in> set (page_of env seq count ?u)"
    using assms(3) by (auto simp: GetConversationList_def Let_def split: option.splits)
  ultimately show ?thesis
    by (auto simp: page_of_def Let_def dest!: in_set_dropD in_set_takeD intro: cached_truthful)
qed

lemma get_truthful:
  assumes "conv_inv st" "env_ok env" "c \<in> set (reports env (Op_Get cid) st)"
  shows "truthful env c"
  using assms refresh_inv [OF assms(1,2)]
  by (auto simp: GetConversation_def Let_def find_Some_iff dest!: lookup_mem intro: cached_truthful created_truthful
      split: option.splits if_splits)

lemma refresh_truthful:
  assumes "conv_inv st" "env_ok env" "c \<in> set (reports env Op_Refresh st)"
  shows "truthful env c"
  using assms refresh_inv [OF assms(1,2)]
  by (auto simp: RefreshCache_def NotifyNewConversations_def Let_def in_events_append dest!: in_new
      intro: cached_truthful split: if_splits)

lemma found_truthful:
  "conv_inv st \<Longrightarrow> truthful env d \<Longrightarrow>
     truthful env (case find_cached cid st of Some s \<Rightarrow> MaterializeConversation env s | None \<Rightarrow> d)"
  by (auto intro: cached_truthful find_cached_mem split: option.split)

lemma clean_truthful:
  assumes "conv_inv st" "c \<in> set (reports env (Op_Clean cid) st)"
  shows "truthful env c"
proof -
  have "conv_inv (fst (CleanConversationUnreadMessageCount env cid st))" using assms(1) quiet_inv by simp
  from found_truthful [OF this sparse_truthful [of env cid], of "CString cid"] assms(2) show ?thesis
    by (auto simp: CleanConversationUnreadMessageCount_def Let_def in_events_append in_unread dest!: in_changed)
qed

lemma reports_truthful:
  assumes "conv_inv st" "env_ok env" "c \<in> set (reports env p st)"
  shows "truthful env c"
proof (cases p)
  case (Op_List seq count)
  then show ?thesis using list_truthful assms by blast
next
  case (Op_Get cid)
  then show ?thesis using get_truthful assms by blast
next
  case Op_Refresh
  then show ?thesis using refresh_truthful assms by blast
next
  case (Op_Notify cid)
  then show ?thesis using assms found_truthful [OF assms(1) minimal_truthful]
    by (auto simp: NotifyConversationChangedForConvID_def Let_def in_events_append dest!: in_changed split: if_splits)
next
  case (Op_Draft cid d)
  then show ?thesis using assms sparse_draft_truthful by (auto simp: SetConversationDraft_def Let_def dest!: in_changed)
next
  case (Op_Mark ids)
  then show ?thesis using assms ids_truthful [OF assms(1)]
    by (auto simp: MarkConversation_def Let_def in_events_append dest!: in_changed split: if_splits)
next
  case (Op_Clean cid)
  then show ?thesis using clean_truthful assms by blast
qed (use assms pin_truthful ids_truthful [OF assms(1)] in auto)

lemma stored_opts:
  "um_find (fold (\<lambda>uid. um_put (opt_key uid) opt) uids m) k =
     (if k \<in> opt_key ` set uids then Some opt else um_find m k)"
  by (induction uids arbitrary: m) (auto simp: umap_simps)

lemma opt_after_store:
  assumes "uid \<in> set uids" "uid \<noteq> []" "current_manager env \<noteq> None"
    and "message_manager env = Some (store_c2c_opts uids opt mm)"
  shows "C2CRecvOptForUser env (opt_key uid) = opt"
proof -
  have "um_find (c2c_receive_opts (store_c2c_opts uids opt mm)) (opt_key uid) = Some opt"
    using assms(1) by (simp add: store_c2c_opts_def stored_opts)
  moreover have "opt_key uid \<noteq> []" using assms(2) by (auto simp: opt_key_def)
  ultimately show ?thesis using assms(3,4) by (auto simp: C2CRecvOptForUser_def GetC2CReceiveOptSync_def)
qed


definition muted_options :: receive_options where
  "muted_options = fst (SetC2CReceiveMessageOpt (env_at 0 no_options) [''ab''] 2 no_options (new_conversation_manager (env_at 0 no_options)))"

definition listened :: conversation_manager where
  "listened = AddConversationListener (Some 1) (new_conversation_manager (env_at 0 no_options))"

lemma listened_reports:
  "reports env (Op_Notify ''c2c_ab'') listened = [minimal_conversation env ''c2c_ab'']"
  by (simp add: NotifyConversationChangedForConvID_def notify_listeners_def in_events_def listened_def CString_def
      AddConversationListener_def new_manager_fields new_manager_empty find_cached_def Let_def)


section \<open>Deviations\<close>

text \<open>Pinning by the bare user id announces a muted user with the default option.\<close>

lemma bare_pin_reports_unmuted:
  "C2CRecvOptForUser (env_at 0 muted_options) ''ab'' = 2 \<and>
   map (\<lambda>c. (conv_type c, userID c, recvOpt c)) (reports (env_at 0 muted_options) (Op_Pin ''ab'' True) listened) =
     [(V2TIM_C2C, ''ab'', 0)]"
  by (simp add: C2CRecvOptForUser_def env_at_def two_friends_def muted_options_def SetC2CReceiveMessageOpt_def
      store_c2c_opts_def given_user_ids_def opt_key_def GetC2CReceiveOptSync_def no_options_def Let_def
      PinConversation_def is_c2c_id_def is_group_id_def CString_def new_conversation_def V2TIM_RECEIVE_MESSAGE_def
      notify_listeners_def in_events_def listened_def AddConversationListener_def new_manager_fields)

text \<open>Every answer claims to be the last page, also one that was cut.\<close>

lemma every_page_is_final:
  "snd (GetConversationList env seq count st) = Inr r \<Longrightarrow> isFinished r \<and> nextSeq r = 0"
  by (auto simp: GetConversationList_def Let_def split: option.splits)

text \<open>Within the debounce window of the constructor the list of an account with friends is empty.\<close>

lemma early_list_is_empty:
  "map_sum id conversationList (snd (GetConversationList (env_at 1000 no_options) 0 9 (new_conversation_manager (env_at 0 no_options)))) = Inr []"
proof -
  let ?st = "new_conversation_manager (env_at 0 no_options)"
  have "debounced (env_at 1000 no_options) ?st"
    by (simp add: debounced_def env_at_def new_manager_fields REFRESH_DEBOUNCE_MS_def)
  then have "RefreshConversationCache (env_at 1000 no_options) ?st = ?st" by (simp add: RefreshConversationCache_def)
  then show ?thesis using list_refreshes [OF env_at_manager, of ?st 1000 no_options 0 9]
    by (simp add: need_refresh_def new_manager_fields page_of_def new_manager_empty)
qed

text \<open>A rebuild forgets every draft.\<close>

lemma refresh_forgets_drafts:
  "\<not> debounced env st \<Longrightarrow> s \<in> set (cached_conversations (RefreshConversationCache env st)) \<Longrightarrow> draft_text s = []"
  by (auto simp: RefreshConversationCache_def rebuilt_cache_def ToSnapshot_def CreateConversationFromFriend_def
      new_conversation_def CString_def Let_def split: option.splits)

text \<open>A friend list that changed without changing its length is not noticed.\<close>

lemma swapped_friend_unnoticed:
  "length friends = last_friend_count st \<Longrightarrow> cached_conversations st \<noteq> [] \<Longrightarrow> \<not> need_refresh friends st"
  by (simp add: need_refresh_def)

end
