(* ===== verification/PacketCodec.thy ===== *)
theory PacketCodec
  imports Prelude
begin

text \<open>
  The two byte framings tim2tox puts on the wire.

  \<^item> \<open>source/Tim2ToxPacketIds.h\<close>: the lossless custom-packet identifiers.
  \<^item> \<open>source/Tim2ToxControlPacket.{h,cpp}\<close>: control frames to a friend (\<open>control_Encode\<close>,
    \<open>control_Decode\<close>). \<open>TOX_MAX_CUSTOM_PACKET_SIZE\<close> belongs to toxcore and is the parameter
    \<open>max_custom\<close>.
  \<^item> \<open>source/Tim2ToxGroupPacket.{h,cpp}\<close>: the frame of every NGC custom packet (\<open>Wrap\<close>,
    \<open>PeekKind\<close>, \<open>Unwrap\<close>). A null \<open>data\<close> pointer is \<open>None\<close>.
  Both are interpreted as wire codecs: what is encoded decodes to itself, and the control
  decoder and the group decoder accept nothing else.
\<close>

section \<open>Packet identifiers\<close>

definition kLosslessCustomRangeStart :: u8 where
  "kLosslessCustomRangeStart = 160"

definition kLosslessCustomRangeEnd :: u8 where
  "kLosslessCustomRangeEnd = 191"

definition kSignaling :: u8 where
  "kSignaling = 183"

definition kControl :: u8 where
  "kControl = 184"

section \<open>Control packets\<close>

text \<open>
  \<open>enum class Type : uint8_t\<close> holds any byte (the decoder casts one in), so a type is a byte
  and the enumerators are constants.
\<close>

type_synonym control_type = u8

definition kReceipt :: control_type where "kReceipt = 1"
definition kReaction :: control_type where "kReaction = 2"
definition kGenericCustom :: control_type where "kGenericCustom = 3"
definition kGroupIdentity :: control_type where "kGroupIdentity = 4"

record control_packet =
  cp_type :: control_type
  cp_body :: string

definition kPacketId :: u8 where
  "kPacketId = kControl"

definition control_kMagic :: bytes where
  "control_kMagic = map byte_of ''T2TC''"

definition control_kVersion :: u8 where
  "control_kVersion = 1"

definition kFlags :: u8 where
  "kFlags = 0"

definition control_kHeaderSize :: nat where
  "control_kHeaderSize = 10"

definition IsKnownType :: "control_type \<Rightarrow> bool" where
  "IsKnownType t \<longleftrightarrow> t = kReceipt \<or> t = kReaction \<or> t = kGenericCustom \<or> t = kGroupIdentity"

text \<open>
  \<open>TOX_MAX_CUSTOM_PACKET_SIZE - kHeaderSize\<close> is unsigned; toxcore's constant is larger than the
  header, which the theorems state as a hypothesis where they need it.
\<close>

definition control_Encode :: "nat \<Rightarrow> control_type \<Rightarrow> string \<Rightarrow> bytes option" where
  "control_Encode max_custom t body =
     (if \<not> IsKnownType t \<or> length body > 65535 \<or>
         length body > max_custom - control_kHeaderSize
      then None
      else
        let body_size = (word_of_nat (length body) :: u16) in
        Some ([kPacketId] @ control_kMagic @
              [control_kVersion, t, kFlags,
               ucast (drop_bit 8 body_size), ucast (body_size AND 0xFF)] @
              map byte_of body))"

definition control_Decode :: "nat \<Rightarrow> bytes \<Rightarrow> control_packet option" where
  "control_Decode max_custom frame =
     (if length frame < control_kHeaderSize \<or> length frame > max_custom \<or>
         frame ! 0 \<noteq> kPacketId \<or>
         take 4 (drop 1 frame) \<noteq> control_kMagic \<or>
         frame ! 5 \<noteq> control_kVersion \<or> frame ! 7 \<noteq> kFlags
      then None
      else
        let t = frame ! 6 in
        if \<not> IsKnownType t then None
        else
          let body_size = (push_bit 8 (unat (frame ! 8))) OR (unat (frame ! 9)) in
          if length frame \<noteq> control_kHeaderSize + body_size then None
          else Some \<lparr>cp_type = t,
                     cp_body = map char_at (take body_size (drop control_kHeaderSize frame))\<rparr>)"

section \<open>Group packets\<close>

definition group_kMagic :: bytes where
  "group_kMagic = 0xB7 # map byte_of ''T2T''"

definition group_kVersion :: u8 where
  "group_kVersion = 1"

definition group_kHeaderSize :: nat where
  "group_kHeaderSize = 6"

definition kCustomMessage :: u8 where "kCustomMessage = 1"
definition kGroupReceipt :: u8 where "kGroupReceipt = 2"
definition kIdentityProof :: u8 where "kIdentityProof = 3"
definition kRendezvous :: u8 where "kRendezvous = 4"

definition Wrap :: "u8 \<Rightarrow> bytes option \<Rightarrow> bytes" where
  "Wrap kind data =
     group_kMagic @ [group_kVersion] @ [kind] @
     (case data of None \<Rightarrow> [] | Some payload \<Rightarrow> payload)"

definition PeekKind :: "bytes option \<Rightarrow> int" where
  "PeekKind data =
     (case data of
        None \<Rightarrow> -1
      | Some d \<Rightarrow>
          if length d < group_kHeaderSize \<or> take 4 d \<noteq> group_kMagic \<or> d ! 4 \<noteq> group_kVersion
          then -1
          else uint (d ! 5))"

definition Unwrap :: "u8 \<Rightarrow> bytes option \<Rightarrow> bytes option" where
  "Unwrap kind data =
     (if PeekKind data \<noteq> uint kind then None
      else case data of None \<Rightarrow> None | Some d \<Rightarrow> Some (drop group_kHeaderSize d))"

lemmas control_defs [wire_defs] =
  control_Encode_def control_Decode_def kPacketId_def kControl_def control_kMagic_def
  control_kVersion_def kFlags_def control_kHeaderSize_def

lemmas group_packet_defs [wire_defs] =
  Wrap_def PeekKind_def Unwrap_def group_kMagic_def group_kVersion_def group_kHeaderSize_def

section \<open>Lemmas\<close>

text \<open>The two length bytes carry the length: big-endian split and join of a 16-bit value.\<close>

lemma be16_join: "push_bit 8 (unat h) OR unat l = 256 * unat h + unat l" for h l :: u8
proof -
  have "unat l < 2 ^ 8" using unsigned_less [of l] by simp
  then have l: "take_bit 8 (unat l) = unat l" by (rule take_bit_nat_eq_self)
  have "push_bit 8 (unat h) AND take_bit 8 (unat l) = 0"
    by (rule bit_eqI) (auto simp: bit_simps)
  then have "push_bit 8 (unat h) + unat l = push_bit 8 (unat h) OR unat l"
    by (simp add: l disjunctive_add_eq_or)
  then show ?thesis by (simp add: push_bit_eq_mult)
qed

lemma unat_be16_hi: "n < 65536 \<Longrightarrow> unat (ucast (drop_bit 8 (word_of_nat n :: u16)) :: u8) = n div 256"
  by (simp add: unsigned_ucast_eq unat_of_nat take_bit_eq_mod drop_bit_eq_div unat_div)

lemma unat_be16_lo:
  assumes "n < 65536"
  shows "unat (ucast ((word_of_nat n :: u16) AND 0xFF) :: u8) = n mod 256"
proof -
  have m: "(word_of_nat n :: u16) AND 0xFF = take_bit 8 (word_of_nat n)"
    by (simp add: take_bit_eq_mask mask_eq_exp_minus_1)
  have "unat (take_bit 8 (word_of_nat n :: u16)) = n mod 256"
    using assms by (simp add: unat_of_nat take_bit_eq_mod unat_mod)
  then show ?thesis by (simp add: m unsigned_ucast_eq take_bit_eq_mod)
qed

lemma be16_join_split:
  assumes "n < 65536"
  shows "push_bit 8 (unat (ucast (drop_bit 8 (word_of_nat n :: u16)) :: u8)) OR
         unat (ucast ((word_of_nat n :: u16) AND 0xFF) :: u8) = n"
  by (rule trans [OF be16_join]) (simp add: unat_be16_hi unat_be16_lo assms)

text \<open>And back: any two bytes are the split of the value they join to.\<close>

lemma be16_split_join:
  fixes h l :: u8
  defines "n \<equiv> push_bit 8 (unat h) OR unat l"
  shows "n < 65536"
    and "ucast (drop_bit 8 (word_of_nat n :: u16)) = h"
    and "ucast ((word_of_nat n :: u16) AND 0xFF) = l"
proof -
  have h: "unat h < 256" and l: "unat l < 256"
    using unsigned_less [of h] unsigned_less [of l] by simp_all
  have n: "n = 256 * unat h + unat l" by (simp add: n_def be16_join)
  show b: "n < 65536" using h l by (simp add: n)
  show "ucast (drop_bit 8 (word_of_nat n :: u16)) = h"
    by (rule word_unat_eq_iff [THEN iffD2]) (simp add: unat_be16_hi [OF b], simp add: n l)
  show "ucast ((word_of_nat n :: u16) AND 0xFF) = l"
    by (rule word_unat_eq_iff [THEN iffD2]) (simp add: unat_be16_lo [OF b], simp add: n l)
qed

section \<open>Control codec\<close>

lemma Encode_SomeE:
  assumes "control_Encode M t body = Some frame"
  obtains "IsKnownType t" "length body < 65536" "length body \<le> M - control_kHeaderSize"
    "frame = [kPacketId] @ control_kMagic @ [control_kVersion, t, kFlags,
       ucast (drop_bit 8 (word_of_nat (length body) :: u16)),
       ucast ((word_of_nat (length body) :: u16) AND 0xFF)] @ map byte_of body"
  using assms by (auto simp: control_Encode_def Let_def split: if_splits)

lemma length_control_kMagic [simp]: "length control_kMagic = 4"
  by (simp add: control_kMagic_def)

lemma Encode_length:
  assumes "control_Encode M t body = Some frame" and "control_kHeaderSize \<le> M"
  shows "length frame = control_kHeaderSize + length body" and "length frame \<le> M"
  using assms by (auto elim!: Encode_SomeE simp: control_kHeaderSize_def)

lemma Decode_Encode:
  assumes enc: "control_Encode M t body = Some frame" and M: "control_kHeaderSize \<le> M"
  shows "control_Decode M frame = Some \<lparr>cp_type = t, cp_body = body\<rparr>"
proof -
  from enc have known: "IsKnownType t" and b: "length body < 65536" by (auto elim: Encode_SomeE)
  define hi lo where "hi = (ucast (drop_bit 8 (word_of_nat (length body) :: u16)) :: u8)"
    and "lo = (ucast ((word_of_nat (length body) :: u16) AND 0xFF) :: u8)"
  have frame: "frame = [kPacketId] @ control_kMagic @ [control_kVersion, t, kFlags, hi, lo] @ map byte_of body"
    using enc unfolding hi_def lo_def by (auto elim: Encode_SomeE)
  have join: "push_bit 8 (unat hi) OR unat lo = length body"
    unfolding hi_def lo_def by (rule be16_join_split [OF b])
  have len: "length frame \<le> M" using Encode_length [OF enc M] by simp
  show ?thesis
    using len by (simp add: control_Decode_def frame control_kMagic_def control_kHeaderSize_def
        known join Let_def)
qed

lemma list_header_split:
  assumes "10 \<le> length (f :: 'a list)"
  shows "f = [f ! 0] @ take 4 (drop 1 f) @ [f ! 5, f ! 6, f ! 7, f ! 8, f ! 9] @ drop 10 f"
proof (rule nth_equalityI)
  show "length f = length ([f ! 0] @ take 4 (drop 1 f) @ [f ! 5, f ! 6, f ! 7, f ! 8, f ! 9] @ drop 10 f)"
    using assms by simp
next
  fix i assume i: "i < length f"
  consider "i = 0" | "1 \<le> i" "i < 5" | "i = 5" | "i = 6" | "i = 7" | "i = 8" | "i = 9" | "10 \<le> i"
    by linarith
  then show "f ! i = ([f ! 0] @ take 4 (drop 1 f) @ [f ! 5, f ! 6, f ! 7, f ! 8, f ! 9] @ drop 10 f) ! i"
    by cases (use assms i in \<open>auto simp: nth_append nth_Cons'\<close>)
qed

lemma Encode_Decode:
  assumes dec: "control_Decode M frame = Some p"
  shows "control_Encode M (cp_type p) (cp_body p) = Some frame"
proof -
  let ?n = "push_bit 8 (unat (frame ! 8)) OR unat (frame ! 9)"
  from dec have len: "10 \<le> length frame" "length frame \<le> M" "length frame = 10 + ?n"
    and hdr: "frame ! 0 = kPacketId" "take 4 (drop 1 frame) = control_kMagic"
      "frame ! 5 = control_kVersion" "frame ! 7 = kFlags"
    and known: "IsKnownType (frame ! 6)"
    and p: "p = \<lparr>cp_type = frame ! 6, cp_body = map char_at (take ?n (drop 10 frame))\<rparr>"
    by (auto simp: control_Decode_def control_kHeaderSize_def Let_def split: if_splits)
  have n: "?n < 65536" "ucast (drop_bit 8 (word_of_nat ?n :: u16)) = frame ! 8"
    "ucast ((word_of_nat ?n :: u16) AND 0xFF) = frame ! 9"
    by (rule be16_split_join)+
  have body: "cp_body p = map char_at (drop 10 frame)" and "length (cp_body p) = ?n"
    using p len(3) by simp_all
  then have "map byte_of (cp_body p) = drop 10 frame" by simp
  then show ?thesis
    using list_header_split [OF len(1)] len n known hdr \<open>length (cp_body p) = ?n\<close>
    by (simp add: control_Encode_def Let_def p control_kHeaderSize_def)
qed

text \<open>The control framing as a strict codec on packets, for toxcore's packet limit.\<close>

definition encode_packet :: "nat \<Rightarrow> control_packet \<Rightarrow> bytes option" where
  "encode_packet M p = control_Encode M (cp_type p) (cp_body p)"

interpretation control: strict_wire_codec "encode_packet (10 + n)" "control_Decode (10 + n)" for n
proof unfold_locales
  fix m b assume "encode_packet (10 + n) m = Some b"
  then show "control_Decode (10 + n) b = Some m"
    using Decode_Encode [of "10 + n" "cp_type m" "cp_body m" b]
    by (simp add: encode_packet_def control_kHeaderSize_def)
next
  fix b m assume "control_Decode (10 + n) b = Some m"
  then show "encode_packet (10 + n) m = Some b"
    by (simp add: encode_packet_def Encode_Decode)
qed

section \<open>Group codec\<close>

definition encode_group :: "u8 \<times> bytes \<Rightarrow> bytes option" where
  "encode_group = (\<lambda>(kind, payload). Some (Wrap kind (Some payload)))"

definition decode_group :: "bytes \<Rightarrow> (u8 \<times> bytes) option" where
  "decode_group d =
     (if PeekKind (Some d) = -1 then None
      else map_option (Pair (word_of_int (PeekKind (Some d))))
             (Unwrap (word_of_int (PeekKind (Some d))) (Some d)))"

lemma length_group_kMagic [simp]: "length group_kMagic = 4"
  by (simp add: group_kMagic_def)

lemma PeekKind_Wrap [simp]: "PeekKind (Some (Wrap kind data)) = uint kind"
  by (simp add: PeekKind_def Wrap_def group_kHeaderSize_def nth_append)

lemma Unwrap_Wrap [simp]:
  "Unwrap k (Some (Wrap kind data)) =
     (if k = kind then Some (case data of None \<Rightarrow> [] | Some p \<Rightarrow> p) else None)"
proof -
  have "drop group_kHeaderSize (Wrap kind data) = (case data of None \<Rightarrow> [] | Some p \<Rightarrow> p)"
    by (simp add: Wrap_def group_kHeaderSize_def)
  then show ?thesis by (auto simp: Unwrap_def word_uint_eq_iff)
qed

lemma PeekKind_well_formed:
  assumes "PeekKind (Some d) \<noteq> -1"
  shows "d = Wrap (d ! 5) (Some (drop 6 d))" and "PeekKind (Some d) = uint (d ! 5)"
proof -
  from assms have wf: "6 \<le> length d" "take 4 d = group_kMagic" "d ! 4 = group_kVersion"
    by (auto simp: PeekKind_def group_kHeaderSize_def split: if_splits)
  have "d = take 4 d @ drop 4 d" by simp
  moreover have "drop 4 d = d ! 4 # d ! 5 # drop 6 d"
    using wf(1) by (simp add: Cons_nth_drop_Suc numeral_eq_Suc)
  ultimately show "d = Wrap (d ! 5) (Some (drop 6 d))" using wf by (simp add: Wrap_def)
  show "PeekKind (Some d) = uint (d ! 5)"
    using assms by (auto simp: PeekKind_def split: if_splits)
qed

interpretation group_packet: strict_wire_codec encode_group decode_group
proof unfold_locales
  fix m :: "u8 \<times> bytes" and b
  assume "encode_group m = Some b"
  then show "decode_group b = Some m" by (auto simp: encode_group_def decode_group_def split: prod.splits)
next
  fix b and m :: "u8 \<times> bytes"
  assume dec: "decode_group b = Some m"
  then have ne: "PeekKind (Some b) \<noteq> -1" by (auto simp: decode_group_def split: if_splits)
  note wf = PeekKind_well_formed [OF ne]
  have "m = (b ! 5, drop 6 b)"
    using dec ne wf(2) by (simp add: decode_group_def Unwrap_def group_kHeaderSize_def)
  then show "encode_group m = Some b" using wf(1) by (simp add: encode_group_def)
qed

end
