(* ===== verification/IdentityState.thy ===== *)
theory IdentityState
  imports PacketCodec HexCodec
begin

text \<open>
  The group identity tables of \<open>source/V2TIMManagerImpl.{h,cpp}\<close> (MM-6): which friend claims
  which group key, which challenges are open, which members are proven, and the rate windows
  that meter all of it. Every function here runs under \<open>mutex_\<close>.

  \<^item> The steady clock is in nanoseconds; the default \<open>time_point\<close> is 0.
  \<^item> \<open>unordered_map\<close> is an association list, \<open>unordered_set\<close> a list without duplicates, \<open>deque\<close> a
    list with its front first.
  \<^item> A pointer to a counter of a window is a value of \<open>rate_counter\<close>.
  \<^item> \<open>nonces_drawn\<close>, \<open>friend_frames\<close>, \<open>group_packets\<close> and \<open>group_actions\<close> record the calls of the
    random generator and what left the object.
\<close>

section \<open>State\<close>

record rate_window =
  window_start :: int
  hint_packets :: u32
  new_digests :: u32
  proofs_out :: u32
  proof_verifies :: u32
  receipts_in :: u32

datatype rate_counter = HintPackets | NewDigests | ProofsSent | ProofVerifies | ReceiptsIn

definition new_window :: rate_window where
  "new_window = \<lparr>window_start = 0, hint_packets = 0, new_digests = 0, proofs_out = 0, proof_verifies = 0, receipts_in = 0\<rparr>"

fun counter_of :: "rate_counter \<Rightarrow> rate_window \<Rightarrow> u32" where
  "counter_of HintPackets w = hint_packets w"
| "counter_of NewDigests w = new_digests w"
| "counter_of ProofsSent w = proofs_out w"
| "counter_of ProofVerifies w = proof_verifies w"
| "counter_of ReceiptsIn w = receipts_in w"

fun set_counter :: "rate_counter \<Rightarrow> u32 \<Rightarrow> rate_window \<Rightarrow> rate_window" where
  "set_counter HintPackets n w = w\<lparr>hint_packets := n\<rparr>"
| "set_counter NewDigests n w = w\<lparr>new_digests := n\<rparr>"
| "set_counter ProofsSent n w = w\<lparr>proofs_out := n\<rparr>"
| "set_counter ProofVerifies n w = w\<lparr>proof_verifies := n\<rparr>"
| "set_counter ReceiptsIn n w = w\<lparr>receipts_in := n\<rparr>"

record identity_challenge =
  ic_friend_hex :: string
  ic_group :: u32
  ic_member_key :: string
  ic_sent_at :: int

record proven_member =
  pm_friend_hex :: string
  pm_group :: u32
  pm_proven_at :: int

record mm6_diag =
  d_proofs_sent :: u64
  d_proofs_in :: u64
  d_proofs_accepted :: u64
  d_proofs_rejected :: u64
  d_last_payload :: string
  d_receipts_in :: u64
  d_receipts_refused :: u64
  d_receipts_refused_global :: u64
  d_receipts_replayed :: u64
  d_receipts_forwarded :: u64

record identity_state =
  friend_group_digests :: "(string, (string, int) umap) umap"
  digest_claimants :: "(string, string list) umap"
  identity_claim_count :: nat
  member_digest_index :: "(string, (u32 \<times> string) list) umap"
  member_digest_by_slot :: "(string, string) umap"
  member_key_to_friend :: "(string, proven_member) umap"
  pending_challenges :: "(string, identity_challenge) umap"
  answered_challenges :: "(string, int) umap"
  answered_order :: "(int \<times> string) list"
  rate_by_friend :: "(string, rate_window) umap"
  rate_by_group_sender :: "(string, rate_window) umap"
  receipt_rate_by_sender :: "(string, rate_window) umap"
  rate_global :: rate_window
  receipt_rate_global :: rate_window
  per_sender_override :: u32
  global_override :: u32
  diag :: mm6_diag
  last_prune :: int
  online_identity_friends :: "u32 list"
  seen_receipts :: "(string, int) umap"
  seen_order :: "(int \<times> string) list"
  group_ids :: "(u32, string) umap"
  group_numbers :: "(string, u32) umap"
  peer_cache :: "(u32, (string, u32) umap) umap"
  nonces_drawn :: nat
  friend_frames :: "(u32 \<times> bytes) list"
  group_packets :: "(u32 \<times> u32 \<times> bytes) list"
  group_actions :: "(string \<times> string \<times> bytes) list"

section \<open>Limits\<close>

abbreviation seconds :: "int \<Rightarrow> int" where "seconds n \<equiv> n * 1000000000"

definition kMaxPendingIdentityChallenges :: nat where "kMaxPendingIdentityChallenges = 256"
definition kMaxPendingChallengesPerFriend :: nat where "kMaxPendingChallengesPerFriend = 32"
definition kIdentityChallengeTtl :: int where "kIdentityChallengeTtl = seconds 60"
definition kMaxClaimsPerFriend :: nat where "kMaxClaimsPerFriend = 256"
definition kMaxIdentityClaims :: nat where "kMaxIdentityClaims = 4096"
definition kMaxClaimantsPerDigest :: nat where "kMaxClaimantsPerDigest = 8"
definition kIdentityClaimTtl :: int where "kIdentityClaimTtl = seconds (24 * 3600)"
definition kMaxProvenMembers :: nat where "kMaxProvenMembers = 4096"
definition kMaxIndexedMembers :: nat where "kMaxIndexedMembers = 16384"
definition kIdentityRateWindow :: int where "kIdentityRateWindow = seconds 60"
definition kMaxHintPacketsPerFriend :: u32 where "kMaxHintPacketsPerFriend = 32"
definition kMaxNewDigestsPerFriend :: u32 where "kMaxNewDigestsPerFriend = 128"
definition kMaxNewDigestsGlobal :: u32 where "kMaxNewDigestsGlobal = 512"
definition kMaxProofsPerFriend :: u32 where "kMaxProofsPerFriend = 32"
definition kMaxProofsGlobal :: u32 where "kMaxProofsGlobal = 2048"
definition kMaxProofVerifiesGlobal :: u32 where "kMaxProofVerifiesGlobal = 4096"
definition kMaxProofVerifiesPerSender :: u32 where "kMaxProofVerifiesPerSender = 32"
definition kMaxProofVerifySenders :: nat where "kMaxProofVerifySenders = 1024"
definition kMaxGroupReceiptsPerSender :: u32 where "kMaxGroupReceiptsPerSender = 2048"
definition kMaxGroupReceiptSenders :: nat where "kMaxGroupReceiptSenders = 1024"
definition kMaxGroupReceiptsGlobal :: u32 where "kMaxGroupReceiptsGlobal = 16384"
definition kMaxAnsweredChallenges :: nat where "kMaxAnsweredChallenges = 1024"
definition kAnsweredChallengeTtl :: int where "kAnsweredChallengeTtl = seconds 600"
definition kMaxSeenGroupReceipts :: nat where "kMaxSeenGroupReceipts = 4096"
definition kSeenGroupReceiptTtl :: int where "kSeenGroupReceiptTtl = seconds 600"
definition kIdentityPruneInterval :: int where "kIdentityPruneInterval = seconds 30"

lemmas identity_limits =
  kMaxPendingIdentityChallenges_def kMaxPendingChallengesPerFriend_def kIdentityChallengeTtl_def kMaxClaimsPerFriend_def
  kMaxIdentityClaims_def kMaxClaimantsPerDigest_def kIdentityClaimTtl_def kMaxProvenMembers_def kMaxIndexedMembers_def
  kIdentityRateWindow_def kMaxHintPacketsPerFriend_def kMaxNewDigestsPerFriend_def kMaxNewDigestsGlobal_def
  kMaxProofsPerFriend_def kMaxProofsGlobal_def kMaxProofVerifiesGlobal_def kMaxProofVerifiesPerSender_def
  kMaxProofVerifySenders_def kMaxGroupReceiptsPerSender_def kMaxGroupReceiptSenders_def kMaxGroupReceiptsGlobal_def
  kMaxAnsweredChallenges_def kAnsweredChallengeTtl_def kMaxSeenGroupReceipts_def kSeenGroupReceiptTtl_def
  kIdentityPruneInterval_def

section \<open>Text helpers\<close>

definition tolower :: "char \<Rightarrow> char" where
  "tolower c = (if in_range CHR ''A'' CHR ''Z'' c then char_of ((of_char c :: nat) + 32) else c)"

definition LowerHex :: "string \<Rightarrow> string" where
  "LowerHex v = map tolower v"

definition to_upper :: "char \<Rightarrow> char" where
  "to_upper c = (if in_range CHR ''a'' CHR ''z'' c then char_of ((of_char c :: nat) - 32) else c)"

definition IdentitySlotKey :: "u32 \<Rightarrow> string \<Rightarrow> string" where
  "IdentitySlotKey group_number member_key_lower = dec_nat (unat group_number) @ ''|'' @ member_key_lower"

definition kConferenceMapKeyTag :: u32 where "kConferenceMapKeyTag = 0x80000000"

definition IsConferenceMapKey :: "u32 \<Rightarrow> bool" where
  "IsConferenceMapKey key \<longleftrightarrow> key \<noteq> UINT32_MAX \<and> (key AND kConferenceMapKeyTag) \<noteq> 0"

definition EffectiveReceiptCap :: "u32 \<Rightarrow> u32 \<Rightarrow> u32" where
  "EffectiveReceiptCap override_value built_in = (if override_value \<noteq> 0 then override_value else built_in)"

section \<open>Budgets\<close>

definition TakeIdentityBudgetLocked :: "int \<Rightarrow> rate_counter \<Rightarrow> u32 \<Rightarrow> rate_window \<Rightarrow> rate_window \<times> bool" where
  "TakeIdentityBudgetLocked now c limit w =
     (let w1 = (if window_start w = 0 \<or> now - window_start w \<ge> kIdentityRateWindow
                then new_window\<lparr>window_start := now\<rparr> else w) in
      if counter_of c w1 \<ge> limit then (w1, False) else (set_counter c (counter_of c w1 + 1) w1, True))"

text \<open>\<open>identity_rate_by_friend_[friend_hex]\<close> makes the window when there is none.\<close>

definition take_friend_budget :: "int \<Rightarrow> rate_counter \<Rightarrow> u32 \<Rightarrow> string \<Rightarrow> identity_state \<Rightarrow> identity_state \<times> bool" where
  "take_friend_budget now c limit friend_hex st =
     (case TakeIdentityBudgetLocked now c limit (case um_find (rate_by_friend st) friend_hex of None \<Rightarrow> new_window | Some w \<Rightarrow> w) of
        (w, b) \<Rightarrow> (st\<lparr>rate_by_friend := um_put friend_hex w (rate_by_friend st)\<rparr>, b))"

definition take_global_budget :: "int \<Rightarrow> rate_counter \<Rightarrow> u32 \<Rightarrow> identity_state \<Rightarrow> identity_state \<times> bool" where
  "take_global_budget now c limit st =
     (case TakeIdentityBudgetLocked now c limit (rate_global st) of (w, b) \<Rightarrow> (st\<lparr>rate_global := w\<rparr>, b))"

text \<open>\<open>!take(friend) || !take(global)\<close>: the second is charged only when the first was granted.\<close>

definition take_both_budgets ::
  "int \<Rightarrow> rate_counter \<Rightarrow> u32 \<Rightarrow> u32 \<Rightarrow> string \<Rightarrow> identity_state \<Rightarrow> identity_state \<times> bool" where
  "take_both_budgets now c limit global_limit friend_hex st =
     (case take_friend_budget now c limit friend_hex st of
        (st1, False) \<Rightarrow> (st1, False)
      | (st1, True) \<Rightarrow> take_global_budget now c global_limit st1)"

definition TakeGroupSenderProofBudgetLocked :: "string \<Rightarrow> int \<Rightarrow> identity_state \<Rightarrow> identity_state \<times> bool" where
  "TakeGroupSenderProofBudgetLocked sender_hex now st =
     (let table = rate_by_group_sender st in
      if um_find table sender_hex = None \<and> length table \<ge> kMaxProofVerifySenders then (st, False)
      else
        case TakeIdentityBudgetLocked now ProofVerifies kMaxProofVerifiesPerSender
               (case um_find table sender_hex of None \<Rightarrow> new_window | Some w \<Rightarrow> w) of
          (w, b) \<Rightarrow> (st\<lparr>rate_by_group_sender := um_put sender_hex w table\<rparr>, b))"

definition TakeGroupSenderReceiptBudgetLocked :: "string \<Rightarrow> int \<Rightarrow> identity_state \<Rightarrow> identity_state \<times> bool" where
  "TakeGroupSenderReceiptBudgetLocked sender_hex now st =
     (let table = receipt_rate_by_sender st in
      if um_find table sender_hex = None \<and> length table \<ge> kMaxGroupReceiptSenders then (st, False)
      else
        case TakeIdentityBudgetLocked now ReceiptsIn (EffectiveReceiptCap (per_sender_override st) kMaxGroupReceiptsPerSender)
               (case um_find table sender_hex of None \<Rightarrow> new_window | Some w \<Rightarrow> w) of
          (w, b) \<Rightarrow> (st\<lparr>receipt_rate_by_sender := um_put sender_hex w table\<rparr>, b))"

definition HasPendingChallengeForSenderLocked :: "u32 \<Rightarrow> string \<Rightarrow> int \<Rightarrow> identity_state \<Rightarrow> bool" where
  "HasPendingChallengeForSenderLocked group_number sender_hex now st \<longleftrightarrow>
     list_ex (\<lambda>(n, p). ic_group p = group_number \<and> now - ic_sent_at p \<le> kIdentityChallengeTtl \<and> ic_member_key p = sender_hex)
       (pending_challenges st)"

section \<open>Claims\<close>

text \<open>Removing a friend from the claimants of a digest, and the entry with its last claimant.\<close>

definition erase_claimant :: "string \<Rightarrow> string \<Rightarrow> (string, string list) umap \<Rightarrow> (string, string list) umap" where
  "erase_claimant friend_hex digest m =
     (case um_find m digest of
        None \<Rightarrow> m
      | Some fs \<Rightarrow>
          let fs1 = remove1 friend_hex fs in if fs1 = [] then um_erase digest m else um_put digest fs1 m)"

definition EraseIdentityClaimLocked :: "string \<Rightarrow> string \<Rightarrow> identity_state \<Rightarrow> identity_state" where
  "EraseIdentityClaimLocked friend_hex digest st =
     (let st1 =
        (case um_find (friend_group_digests st) friend_hex of
           None \<Rightarrow> st
         | Some ds \<Rightarrow>
             let ds1 = um_erase digest ds;
                 count = (if um_find ds digest \<noteq> None \<and> identity_claim_count st > 0
                          then identity_claim_count st - 1 else identity_claim_count st) in
             st\<lparr>identity_claim_count := count,
                friend_group_digests := (if ds1 = [] then um_erase friend_hex (friend_group_digests st)
                                         else um_put friend_hex ds1 (friend_group_digests st))\<rparr>) in
      st1\<lparr>digest_claimants := erase_claimant friend_hex digest (digest_claimants st1)\<rparr>)"

definition DropFriendIdentityClaimsLocked :: "string \<Rightarrow> identity_state \<Rightarrow> identity_state" where
  "DropFriendIdentityClaimsLocked friend_hex st =
     (case um_find (friend_group_digests st) friend_hex of
        None \<Rightarrow> st
      | Some ds \<Rightarrow>
          st\<lparr>digest_claimants := fold (\<lambda>e. erase_claimant friend_hex (fst e)) ds (digest_claimants st),
             identity_claim_count := (if identity_claim_count st > length ds then identity_claim_count st - length ds else 0),
             friend_group_digests := um_erase friend_hex (friend_group_digests st)\<rparr>)"

definition EraseIndexedGroupMemberLocked :: "u32 \<Rightarrow> string \<Rightarrow> identity_state \<Rightarrow> identity_state" where
  "EraseIndexedGroupMemberLocked group_number key st =
     (case um_find (member_digest_by_slot st) (IdentitySlotKey group_number key) of
        None \<Rightarrow> st
      | Some digest \<Rightarrow>
          let idx = (case um_find (member_digest_index st) digest of
                       None \<Rightarrow> member_digest_index st
                     | Some ms \<Rightarrow>
                         let ms1 = filter (\<lambda>m. m \<noteq> (group_number, key)) ms in
                         if ms1 = [] then um_erase digest (member_digest_index st)
                         else um_put digest ms1 (member_digest_index st)) in
          st\<lparr>member_digest_index := idx,
             member_digest_by_slot := um_erase (IdentitySlotKey group_number key) (member_digest_by_slot st)\<rparr>)"

definition DropStaleChallengesForMemberLocked :: "u32 \<Rightarrow> string \<Rightarrow> string \<Rightarrow> identity_state \<Rightarrow> identity_state" where
  "DropStaleChallengesForMemberLocked group_number key digest st =
     st\<lparr>pending_challenges := filter (\<lambda>(n, p).
          let same_member = (ic_group p = group_number \<and> LowerHex (ic_member_key p) = key);
              still_claiming = (case um_find (digest_claimants st) digest of None \<Rightarrow> False | Some fs \<Rightarrow> ic_friend_hex p \<in> set fs) in
          \<not> (same_member \<and> \<not> still_claiming)) (pending_challenges st)\<rparr>"

section \<open>Pruning\<close>

text \<open>The two expiry loops over a deque and the map it indexes.\<close>

fun expire_front :: "int \<Rightarrow> int \<Rightarrow> (int \<times> string) list \<Rightarrow> (string, int) umap \<Rightarrow> (int \<times> string) list \<times> (string, int) umap" where
  "expire_front now ttl [] m = ([], m)"
| "expire_front now ttl (e # es) m = (if now - fst e > ttl then expire_front now ttl es (um_erase (snd e) m) else (e # es, m))"

definition expired_claims :: "int \<Rightarrow> identity_state \<Rightarrow> (string \<times> string) list" where
  "expired_claims now st =
     concat (map (\<lambda>(f, ds). map (\<lambda>e. (f, fst e)) (filter (\<lambda>(d, seen_at). now - seen_at > kIdentityClaimTtl) ds))
       (friend_group_digests st))"

definition live_window :: "int \<Rightarrow> string \<times> rate_window \<Rightarrow> bool" where
  "live_window now e \<longleftrightarrow> \<not> now - window_start (snd e) \<ge> kIdentityRateWindow"

definition PruneIdentityStateLocked :: "int \<Rightarrow> bool \<Rightarrow> identity_state \<Rightarrow> identity_state" where
  "PruneIdentityStateLocked now force st =
     (if \<not> force \<and> last_prune st \<noteq> 0 \<and> now - last_prune st < kIdentityPruneInterval then st
      else
        let st1 = fold (\<lambda>(f, d). EraseIdentityClaimLocked f d) (expired_claims now st) (st\<lparr>last_prune := now\<rparr>);
            (ao, am) = expire_front now kAnsweredChallengeTtl (answered_order st1) (answered_challenges st1);
            (so, sm) = expire_front now kSeenGroupReceiptTtl (seen_order st1) (seen_receipts st1) in
        st1\<lparr>pending_challenges := filter (\<lambda>(n, p). \<not> now - ic_sent_at p > kIdentityChallengeTtl) (pending_challenges st1),
            answered_order := ao, answered_challenges := am, seen_order := so, seen_receipts := sm,
            member_key_to_friend := filter (\<lambda>(k, p). um_find (group_ids st1) (pm_group p) \<noteq> None) (member_key_to_friend st1),
            rate_by_friend := filter (live_window now) (rate_by_friend st1),
            rate_by_group_sender := filter (live_window now) (rate_by_group_sender st1),
            receipt_rate_by_sender := filter (live_window now) (receipt_rate_by_sender st1)\<rparr>)"

end
