(* ===== verification/GroupIdentity.thy ===== *)
theory GroupIdentity
  imports IdentityState
begin

text \<open>
  The group identity protocol of \<open>source/V2TIMManagerImpl.cpp\<close> (MM-6): a friend hints which
  group members it is by digests, is challenged over the friend channel, and answers from its
  group key with a proof sealed to the asker.

  \<^item> toxcore and its crypto are \<open>tox_env\<close>: what its queries answer during one call, SHA-256, the
    authenticated box and the random bytes. \<open>TOX_MAX_CUSTOM_PACKET_SIZE\<close> is \<open>max_custom\<close>.
  \<^item> A handler takes \<open>mutex_\<close> in several sections and calls toxcore between them. Each section is
    a function on the state; in the gaps the other threads may change it: gap \<open>i\<close> of a call is
    \<open>others env i\<close>.
  \<^item> The clock is read once per call.
  \<^item> A hexadecimal text of a key is 64 characters wherever the code decodes one, so the decoded
    bytes fill their buffer.
  \<^item> The per-call caches of chat ids only save repeated queries and have no counterpart.
\<close>

record tox_env =
  tox_alive :: bool
  sdk_running :: bool
  clock :: int
  friend_key_of :: "u32 \<Rightarrow> bytes option"
  friend_by_key :: "bytes \<Rightarrow> u32"
  chat_id_of :: "u32 \<Rightarrow> bytes option"
  self_group_key_of :: "u32 \<Rightarrow> bytes option"
  group_peer_key :: "u32 \<Rightarrow> u32 \<Rightarrow> bytes option"
  group_by_chat_id :: "bytes \<Rightarrow> u32"
  rendezvous_owns :: "u32 \<Rightarrow> bool"
  self_public_key :: bytes
  self_secret_key :: bytes
  crypto_sha256 :: "bytes \<Rightarrow> bytes"
  encrypt_data :: "bytes \<Rightarrow> bytes \<Rightarrow> bytes \<Rightarrow> bytes \<Rightarrow> bytes option"
  decrypt_data :: "bytes \<Rightarrow> bytes \<Rightarrow> bytes \<Rightarrow> bytes \<Rightarrow> bytes option"
  random_bytes :: "nat \<Rightarrow> bytes option"
  box_nonce :: "bytes option"
  private_packet_sent :: bool
  max_custom :: nat
  others :: "nat \<Rightarrow> identity_state \<Rightarrow> identity_state"

definition kIdentityHints :: u8 where "kIdentityHints = 1"
definition kIdentityChallenge :: u8 where "kIdentityChallenge = 2"
definition kIdentityNonceSize :: nat where "kIdentityNonceSize = 16"
definition kDigestsPerPacket :: nat where "kDigestsPerPacket = 40"
definition CRYPTO_SHA256_SIZE :: nat where "CRYPTO_SHA256_SIZE = 32"
definition CRYPTO_NONCE_SIZE :: nat where "CRYPTO_NONCE_SIZE = 24"
definition CRYPTO_MAC_SIZE :: nat where "CRYPTO_MAC_SIZE = 16"
definition TOX_GROUP_CHAT_ID_SIZE :: nat where "TOX_GROUP_CHAT_ID_SIZE = 32"
definition kIdentityProofDomain :: bytes where "kIdentityProofDomain = map byte_of ''T2T-MM6-proof-v2''"
definition kIdentityProofPlainSize :: nat where
  "kIdentityProofPlainSize = 16 + TOX_GROUP_CHAT_ID_SIZE + TOX_PUBLIC_KEY_SIZE + TOX_PUBLIC_KEY_SIZE +
     kIdentityNonceSize + TOX_PUBLIC_KEY_SIZE"
definition kIdentityProofPacketSize :: nat where
  "kIdentityProofPacketSize = CRYPTO_NONCE_SIZE + kIdentityProofPlainSize + CRYPTO_MAC_SIZE"

lemmas identity_sizes =
  kIdentityNonceSize_def kDigestsPerPacket_def CRYPTO_SHA256_SIZE_def CRYPTO_NONCE_SIZE_def CRYPTO_MAC_SIZE_def
  TOX_GROUP_CHAT_ID_SIZE_def TOX_PUBLIC_KEY_SIZE_def kIdentityProofPlainSize_def kIdentityProofPacketSize_def

section \<open>Sending\<close>

definition GroupIdentityDigestHex :: "tox_env \<Rightarrow> bytes \<Rightarrow> bytes \<Rightarrow> string" where
  "GroupIdentityDigestHex env chat_id member_key = tox_bytes_to_hex (crypto_sha256 env (chat_id @ member_key))"

definition SendFriendIdentityFrame :: "tox_env \<Rightarrow> u32 \<Rightarrow> bytes \<Rightarrow> identity_state \<Rightarrow> identity_state" where
  "SendFriendIdentityFrame env friend_number body st =
     (case control_Encode (max_custom env) kGroupIdentity (map char_at body) of
        None \<Rightarrow> st
      | Some frame \<Rightarrow> st\<lparr>friend_frames := friend_frames st @ [(friend_number, frame)]\<rparr>)"

definition proof_plain :: "bytes \<Rightarrow> bytes \<Rightarrow> bytes \<Rightarrow> bytes \<Rightarrow> bytes \<Rightarrow> bytes" where
  "proof_plain chat_id asker_group_key responder_group_key challenge_nonce asker_long_term_key =
     kIdentityProofDomain @ chat_id @ asker_group_key @ responder_group_key @ challenge_nonce @ asker_long_term_key"

definition SealIdentityProof :: "tox_env \<Rightarrow> bytes \<Rightarrow> bytes \<Rightarrow> bytes \<Rightarrow> bytes \<Rightarrow> bytes \<Rightarrow> bytes option" where
  "SealIdentityProof env chat_id asker_group_key responder_group_key challenge_nonce asker_long_term_key =
     (case box_nonce env of
        None \<Rightarrow> None
      | Some nonce \<Rightarrow>
          (case encrypt_data env asker_long_term_key (self_secret_key env) nonce
                  (proof_plain chat_id asker_group_key responder_group_key challenge_nonce asker_long_term_key) of
             None \<Rightarrow> None
           | Some c \<Rightarrow>
               if length c \<noteq> kIdentityProofPlainSize + CRYPTO_MAC_SIZE then None
               else Some (Wrap kIdentityProof (Some (nonce @ c)))))"

text \<open>The raw digests of a list of groups, concatenated.\<close>

definition announce_digests :: "tox_env \<Rightarrow> u32 list \<Rightarrow> bytes" where
  "announce_digests env gs =
     concat (map (\<lambda>g.
       if rendezvous_owns env g then []
       else case (chat_id_of env g, self_group_key_of env g) of
              (Some c, Some k) \<Rightarrow> crypto_sha256 env (c @ k)
            | _ \<Rightarrow> []) gs)"

function hint_bodies :: "bytes \<Rightarrow> bytes list" where
  "hint_bodies digests =
     (if digests = [] then []
      else (kIdentityHints # take (kDigestsPerPacket * CRYPTO_SHA256_SIZE) digests) #
           hint_bodies (drop (kDigestsPerPacket * CRYPTO_SHA256_SIZE) digests))"
  by pat_completeness auto
termination
  by (relation "measure length") (auto simp: identity_sizes)

declare hint_bodies.simps [simp del]

definition AnnounceGroupIdentities :: "tox_env \<Rightarrow> u32 \<Rightarrow> u32 \<Rightarrow> identity_state \<Rightarrow> identity_state" where
  "AnnounceGroupIdentities env only_friend only_group st =
     (if \<not> tox_alive env \<or> \<not> sdk_running env then st
      else
        let gs = (if only_group \<noteq> UINT32_MAX then (if IsConferenceMapKey only_group then [] else [only_group])
                  else filter (\<lambda>g. \<not> IsConferenceMapKey g) (map fst (group_ids st)));
            digests = announce_digests env gs in
        if digests = [] then st
        else
          let st1 = others env 0 st;
              targets = (if only_friend \<noteq> UINT32_MAX then [only_friend] else online_identity_friends st1) in
          fold (\<lambda>f. fold (SendFriendIdentityFrame env f) (hint_bodies digests)) targets st1)"

section \<open>Friends come, go and are deleted\<close>

definition drop_challenges_of :: "string \<Rightarrow> identity_state \<Rightarrow> identity_state" where
  "drop_challenges_of friend_hex st =
     st\<lparr>pending_challenges := filter (\<lambda>(n, p). ic_friend_hex p \<noteq> friend_hex) (pending_challenges st)\<rparr>"

definition NoteFriendConnectionForIdentity :: "tox_env \<Rightarrow> u32 \<Rightarrow> bool \<Rightarrow> identity_state \<Rightarrow> identity_state" where
  "NoteFriendConnectionForIdentity env friend_number online st =
     (if \<not> online then
        let friend_hex = (if tox_alive env then case friend_key_of env friend_number of None \<Rightarrow> '''' | Some k \<Rightarrow> tox_bytes_to_hex k
                          else '''');
            st1 = st\<lparr>online_identity_friends := remove1 friend_number (online_identity_friends st)\<rparr> in
        if friend_hex = [] then st1 else drop_challenges_of friend_hex (DropFriendIdentityClaimsLocked friend_hex st1)
      else if friend_number \<in> set (online_identity_friends st) then st
      else AnnounceGroupIdentities env friend_number UINT32_MAX
             (st\<lparr>online_identity_friends := online_identity_friends st @ [friend_number]\<rparr>))"

definition PurgeFriendIdentityState :: "u32 \<Rightarrow> string \<Rightarrow> identity_state \<Rightarrow> identity_state" where
  "PurgeFriendIdentityState friend_number friend_hex_in st =
     (let friend_hex = map to_upper (take (TOX_PUBLIC_KEY_SIZE * 2) friend_hex_in);
          st1 = st\<lparr>online_identity_friends := remove1 friend_number (online_identity_friends st)\<rparr> in
      if friend_hex = [] then st1
      else
        let st2 = drop_challenges_of friend_hex (DropFriendIdentityClaimsLocked friend_hex st1) in
        st2\<lparr>member_key_to_friend := filter (\<lambda>(k, p). pm_friend_hex p \<noteq> friend_hex) (member_key_to_friend st2),
            rate_by_friend := um_erase friend_hex (rate_by_friend st2)\<rparr>)"

section \<open>The digest index of our peers\<close>

definition in_peer_cache :: "identity_state \<Rightarrow> u32 \<Rightarrow> string \<Rightarrow> bool" where
  "in_peer_cache st g key \<longleftrightarrow>
     (case um_find (peer_cache st) g of None \<Rightarrow> False | Some peers \<Rightarrow> um_find peers key \<noteq> None)"

definition stale_members :: "identity_state \<Rightarrow> (u32 \<times> string) list" where
  "stale_members st = filter (\<lambda>(g, key). \<not> in_peer_cache st g key) (concat (map snd (member_digest_index st)))"

text \<open>
  The scan for peers without an entry. The \<open>break\<close> leaves the loop over one group's peers; the
  condition then also holds at once for every later group.
\<close>

fun missing_loop :: "identity_state \<Rightarrow> (u32 \<times> string) list \<Rightarrow> (u32 \<times> string) list \<Rightarrow> (u32 \<times> string) list" where
  "missing_loop st [] missing = missing"
| "missing_loop st ((g, key) # ps) missing =
     (if length (member_digest_by_slot st) + length missing \<ge> kMaxIndexedMembers then missing
      else if um_find (member_digest_by_slot st) (IdentitySlotKey g key) = None
      then missing_loop st ps (missing @ [(g, key)]) else missing_loop st ps missing)"

definition cached_peers :: "identity_state \<Rightarrow> (u32 \<times> string) list" where
  "cached_peers st =
     concat (map (\<lambda>(g, peers). map (\<lambda>p. (g, fst p)) peers) (filter (\<lambda>e. \<not> IsConferenceMapKey (fst e)) (peer_cache st)))"

definition index_member :: "u32 \<Rightarrow> string \<Rightarrow> string \<Rightarrow> identity_state \<Rightarrow> identity_state" where
  "index_member g key digest st =
     st\<lparr>member_digest_by_slot := um_put (IdentitySlotKey g key) digest (member_digest_by_slot st),
        member_digest_index :=
          um_put digest ((case um_find (member_digest_index st) digest of None \<Rightarrow> [] | Some ms \<Rightarrow> ms) @ [(g, key)])
            (member_digest_index st)\<rparr>"

definition computed_digests :: "tox_env \<Rightarrow> (u32 \<times> string) list \<Rightarrow> (u32 \<times> string \<times> string) list" where
  "computed_digests env missing =
     List.map_filter (\<lambda>(g, key_hex).
       case chat_id_of env g of
         None \<Rightarrow> None
       | Some chat_id \<Rightarrow>
           (case tox_hex_to_bytes key_hex TOX_PUBLIC_KEY_SIZE of
              None \<Rightarrow> None
            | Some key \<Rightarrow> Some (g, key_hex, GroupIdentityDigestHex env chat_id key))) missing"

definition add_computed :: "u32 \<times> string \<times> string \<Rightarrow> identity_state \<Rightarrow> identity_state" where
  "add_computed e st =
     (case e of (g, key, digest) \<Rightarrow>
        if \<not> in_peer_cache st g key then st
        else if um_find (member_digest_by_slot st) (IdentitySlotKey g key) \<noteq> None then st
        else index_member g key digest st)"

definition SyncMemberDigestIndex :: "tox_env \<Rightarrow> identity_state \<Rightarrow> identity_state" where
  "SyncMemberDigestIndex env st =
     (if \<not> tox_alive env then st
      else
        let st1 = fold (\<lambda>(g, key). EraseIndexedGroupMemberLocked g key) (stale_members st) st;
            missing = missing_loop st1 (cached_peers st1) [] in
        if missing = [] then st1
        else fold add_computed (computed_digests env missing) (others env 1 st1))"

section \<open>Challenges\<close>

record candidate =
  cand_friend :: string
  cand_group :: u32
  cand_member :: string

definition open_challenges :: "int \<Rightarrow> identity_state \<Rightarrow> identity_challenge list" where
  "open_challenges now st = filter (\<lambda>p. \<not> now - ic_sent_at p > kIdentityChallengeTtl) (map snd (pending_challenges st))"

definition same_member :: "candidate \<Rightarrow> identity_challenge \<Rightarrow> bool" where
  "same_member c p \<longleftrightarrow> ic_group p = cand_group c \<and> ic_member_key p = cand_member c"

text \<open>
  The counting loop stops at the first open challenge of this friend for this member; the counts
  are used only when there is none.
\<close>

definition already_pending :: "int \<Rightarrow> candidate \<Rightarrow> identity_state \<Rightarrow> bool" where
  "already_pending now c st \<longleftrightarrow>
     list_ex (\<lambda>p. ic_friend_hex p = cand_friend c \<and> same_member c p) (open_challenges now st)"

definition pending_for_friend :: "int \<Rightarrow> candidate \<Rightarrow> identity_state \<Rightarrow> nat" where
  "pending_for_friend now c st = length (filter (\<lambda>p. ic_friend_hex p = cand_friend c) (open_challenges now st))"

definition pending_for_member :: "int \<Rightarrow> candidate \<Rightarrow> identity_state \<Rightarrow> nat" where
  "pending_for_member now c st = length (filter (same_member c) (open_challenges now st))"

text \<open>The section under the lock: the challenge is recorded, unless one of the limits refuses it.\<close>

definition record_challenge :: "int \<Rightarrow> candidate \<Rightarrow> bytes \<Rightarrow> identity_state \<Rightarrow> identity_state \<times> bool" where
  "record_challenge now c nonce st =
     (if um_find (member_key_to_friend st) (cand_member c) \<noteq> None then (st, False)
      else if already_pending now c st \<or> pending_for_friend now c st \<ge> kMaxPendingChallengesPerFriend then (st, False)
      else if pending_for_member now c st \<ge> kMaxClaimantsPerDigest then (st, False)
      else
        let table = (if length (pending_challenges st) \<ge> kMaxPendingIdentityChallenges
                     then case oldest_by ic_sent_at (pending_challenges st) of
                            None \<Rightarrow> pending_challenges st
                          | Some oldest \<Rightarrow> um_erase (fst oldest) (pending_challenges st)
                     else pending_challenges st) in
        (st\<lparr>pending_challenges :=
              um_put (tox_bytes_to_hex nonce)
                \<lparr>ic_friend_hex = cand_friend c, ic_group = cand_group c, ic_member_key = LowerHex (cand_member c), ic_sent_at = now\<rparr>
                table\<rparr>, True))"

definition issue_one ::
  "tox_env \<Rightarrow> candidate \<Rightarrow> identity_state \<times> (u32 \<times> bytes) list \<Rightarrow> identity_state \<times> (u32 \<times> bytes) list" where
  "issue_one env c acc =
     (case acc of (st, sends) \<Rightarrow>
        case (chat_id_of env (cand_group c), self_group_key_of env (cand_group c)) of
          (Some chat_id, Some self_key) \<Rightarrow>
            (case tox_hex_to_bytes (cand_friend c) TOX_PUBLIC_KEY_SIZE of
               None \<Rightarrow> (st, sends)
             | Some friend_key \<Rightarrow>
                 let friend_number = friend_by_key env friend_key in
                 if friend_number = UINT32_MAX then (st, sends)
                 else
                   case random_bytes env (nonces_drawn st) of
                     None \<Rightarrow> (st, sends)
                   | Some nonce \<Rightarrow>
                       (case record_challenge (clock env) c nonce (others env 2 (st\<lparr>nonces_drawn := nonces_drawn st + 1\<rparr>)) of
                          (st1, False) \<Rightarrow> (st1, sends)
                        | (st1, True) \<Rightarrow>
                            (st1, sends @ [(friend_number, kIdentityChallenge # chat_id @ self_key @ nonce)])))
        | _ \<Rightarrow> (st, sends))"

definition IssueIdentityChallenges :: "tox_env \<Rightarrow> candidate list \<Rightarrow> identity_state \<Rightarrow> identity_state" where
  "IssueIdentityChallenges env candidates st =
     (if \<not> tox_alive env \<or> candidates = [] then st
      else case fold (issue_one env) candidates (st, []) of
             (st1, sends) \<Rightarrow> fold (\<lambda>(f, body). SendFriendIdentityFrame env f body) sends st1)"

section \<open>Peers\<close>

definition ErasePeerIdCacheEntry :: "u32 \<Rightarrow> string \<Rightarrow> identity_state \<Rightarrow> identity_state" where
  "ErasePeerIdCacheEntry g key_hex st =
     (case um_find (peer_cache st) g of
        None \<Rightarrow> st
      | Some peers \<Rightarrow> st\<lparr>peer_cache := um_put g (um_erase (LowerHex key_hex) peers) (peer_cache st)\<rparr>)"

text \<open>The fallback scan over peer ids; it gives up after 49 failures in a row.\<close>

function peer_scan :: "tox_env \<Rightarrow> u32 \<Rightarrow> bytes \<Rightarrow> nat \<Rightarrow> nat \<Rightarrow> u32" where
  "peer_scan env g target p fails =
     (if p \<ge> 256 then UINT32_MAX
      else
        case group_peer_key env g (word_of_nat p) of
          Some k \<Rightarrow> if k = target then word_of_nat p else peer_scan env g target (Suc p) 0
        | None \<Rightarrow> if fails + 1 > 48 then UINT32_MAX else peer_scan env g target (Suc p) (fails + 1))"
  by pat_completeness auto
termination
  by (relation "measure (\<lambda>(env, g, target, p, fails). 256 - p)") auto

declare peer_scan.simps [simp del]

definition ResolveGroupPeerIdForKey :: "tox_env \<Rightarrow> u32 \<Rightarrow> string \<Rightarrow> identity_state \<Rightarrow> identity_state \<times> u32" where
  "ResolveGroupPeerIdForKey env g receiver_hex st =
     (if \<not> tox_alive env then (st, UINT32_MAX)
      else
        let cached = (case um_find (peer_cache st) g of
                        None \<Rightarrow> UINT32_MAX
                      | Some peers \<Rightarrow> (case um_find peers (LowerHex receiver_hex) of None \<Rightarrow> UINT32_MAX | Some p \<Rightarrow> p));
            expected = tox_hex_to_bytes receiver_hex TOX_PUBLIC_KEY_SIZE;
            still_owner = (expected \<noteq> None \<and> group_peer_key env g cached = expected);
            st1 = (if cached \<noteq> UINT32_MAX \<and> \<not> still_owner then ErasePeerIdCacheEntry g receiver_hex (others env 3 st) else st) in
        if cached \<noteq> UINT32_MAX \<and> still_owner then (st1, cached)
        else
          (st1, case expected of None \<Rightarrow> UINT32_MAX | Some target \<Rightarrow> peer_scan env g target 0 0))"

section \<open>Incoming hints and challenges\<close>

text \<open>Making room in the replay cache, oldest first.\<close>

function make_room :: "nat \<Rightarrow> (int \<times> string) list \<Rightarrow> (string, int) umap \<Rightarrow> (int \<times> string) list \<times> (string, int) umap" where
  "make_room cap [] m = ([], m)"
| "make_room cap (e # es) m = (if length m \<ge> cap then make_room cap es (um_erase (snd e) m) else (e # es, m))"
  by pat_completeness auto
termination
  by (relation "measure (\<lambda>(cap, es, m). length es)") auto

definition challenge_replay_key :: "string \<Rightarrow> bytes \<Rightarrow> string" where
  "challenge_replay_key friend_hex data =
     friend_hex @ ''|'' @ tox_bytes_to_hex (take TOX_GROUP_CHAT_ID_SIZE data) @ ''|'' @
     tox_bytes_to_hex (take kIdentityNonceSize (drop (TOX_GROUP_CHAT_ID_SIZE + TOX_PUBLIC_KEY_SIZE) data))"

text \<open>The section under the lock: may this challenge be answered?\<close>

definition admit_challenge :: "int \<Rightarrow> string \<Rightarrow> bytes \<Rightarrow> identity_state \<Rightarrow> identity_state \<times> bool" where
  "admit_challenge now friend_hex data st =
     (let replay_key = challenge_replay_key friend_hex data;
          st1 = PruneIdentityStateLocked now False st in
      if um_find (answered_challenges st1) replay_key \<noteq> None then (st1, False)
      else
        case take_both_budgets now ProofsSent kMaxProofsPerFriend kMaxProofsGlobal friend_hex st1 of
          (st2, False) \<Rightarrow> (st2, False)
        | (st2, True) \<Rightarrow>
            (case make_room kMaxAnsweredChallenges (answered_order st2) (answered_challenges st2) of
               (ao, am) \<Rightarrow>
                 (st2\<lparr>answered_challenges := um_emplace replay_key now am,
                      answered_order := ao @ [(now, replay_key)]\<rparr>, True)))"

definition answer_challenge :: "tox_env \<Rightarrow> string \<Rightarrow> bytes \<Rightarrow> bytes \<Rightarrow> identity_state \<Rightarrow> identity_state" where
  "answer_challenge env friend_hex friend_key data st =
     (if length data \<noteq> TOX_GROUP_CHAT_ID_SIZE + TOX_PUBLIC_KEY_SIZE + kIdentityNonceSize then st
      else
        case admit_challenge (clock env) friend_hex data st of
          (st1, False) \<Rightarrow> st1
        | (st1, True) \<Rightarrow>
            let chat_id = take TOX_GROUP_CHAT_ID_SIZE data;
                challenger = take TOX_PUBLIC_KEY_SIZE (drop TOX_GROUP_CHAT_ID_SIZE data);
                nonce = drop (TOX_GROUP_CHAT_ID_SIZE + TOX_PUBLIC_KEY_SIZE) data;
                g = group_by_chat_id env chat_id in
            if g = UINT32_MAX then st1
            else
              case ResolveGroupPeerIdForKey env g (tox_bytes_to_hex challenger) (others env 4 st1) of (st2, peer_id) \<Rightarrow>
              if peer_id = UINT32_MAX then st2
              else
                case self_group_key_of env g of
                  None \<Rightarrow> st2
                | Some self_group_key \<Rightarrow>
                    (case SealIdentityProof env chat_id challenger self_group_key nonce friend_key of
                       None \<Rightarrow> st2
                     | Some packet \<Rightarrow>
                         let st3 = st2\<lparr>group_packets := group_packets st2 @ [(g, peer_id, packet)]\<rparr> in
                         if private_packet_sent env
                         then let st4 = others env 5 st3 in st4\<lparr>diag := (diag st4)\<lparr>d_proofs_sent := d_proofs_sent (diag st4) + 1\<rparr>\<rparr>
                         else st3))"

definition evict_oldest_of :: "string \<Rightarrow> identity_state \<Rightarrow> identity_state" where
  "evict_oldest_of owner st =
     (case um_find (friend_group_digests st) owner of
        None \<Rightarrow> st
      | Some ds \<Rightarrow>
          (case oldest_by (\<lambda>t. t) ds of None \<Rightarrow> st | Some victim \<Rightarrow> EraseIdentityClaimLocked owner (fst victim) st))"

text \<open>The friend with the most claims; the first of several.\<close>

definition heaviest :: "identity_state \<Rightarrow> string" where
  "heaviest st =
     fst (fold (\<lambda>(owner, ds) best. if length ds > snd best then (owner, length ds) else best)
       (friend_group_digests st) ('''', 0))"

definition add_claim :: "int \<Rightarrow> string \<Rightarrow> string \<Rightarrow> identity_state \<Rightarrow> identity_state" where
  "add_claim now friend_hex digest st =
     (let full = (case um_find (friend_group_digests st) friend_hex of None \<Rightarrow> False | Some ds \<Rightarrow> length ds \<ge> kMaxClaimsPerFriend);
          st1 = (if full then evict_oldest_of friend_hex st else st);
          st2 = (if identity_claim_count st1 \<ge> kMaxIdentityClaims
                 then (if heaviest st1 \<noteq> [] then evict_oldest_of (heaviest st1) st1 else st1) else st1);
          ds = (case um_find (friend_group_digests st2) friend_hex of None \<Rightarrow> [] | Some ds \<Rightarrow> ds);
          fresh = (um_find ds digest = None);
          fs = (case um_find (digest_claimants st2) digest of None \<Rightarrow> [] | Some fs \<Rightarrow> fs) in
      st2\<lparr>friend_group_digests := um_put friend_hex (um_emplace digest now ds) (friend_group_digests st2),
          identity_claim_count := (if fresh then identity_claim_count st2 + 1 else identity_claim_count st2),
          digest_claimants := um_put digest (if friend_hex \<in> set fs then fs else fs @ [friend_hex]) (digest_claimants st2)\<rparr>)"

fun hint_loop :: "int \<Rightarrow> string \<Rightarrow> string list \<Rightarrow> string list \<Rightarrow> identity_state \<Rightarrow> identity_state \<times> string list" where
  "hint_loop now friend_hex [] added st = (st, added)"
| "hint_loop now friend_hex (digest # rest) added st =
     (let ds = (case um_find (friend_group_digests st) friend_hex of None \<Rightarrow> [] | Some ds \<Rightarrow> ds) in
      if um_find ds digest \<noteq> None then
        hint_loop now friend_hex rest added
          (st\<lparr>friend_group_digests := um_put friend_hex (um_put digest now ds) (friend_group_digests st)\<rparr>)
      else if (case um_find (digest_claimants st) digest of None \<Rightarrow> False | Some fs \<Rightarrow> length fs \<ge> kMaxClaimantsPerDigest) then
        hint_loop now friend_hex rest added st
      else
        case take_both_budgets now NewDigests kMaxNewDigestsPerFriend kMaxNewDigestsGlobal friend_hex st of
          (st1, False) \<Rightarrow> (st1, added)
        | (st1, True) \<Rightarrow> hint_loop now friend_hex rest (added @ [digest]) (add_claim now friend_hex digest st1))"

fun digest_list :: "nat \<Rightarrow> bytes \<Rightarrow> string list" where
  "digest_list 0 data = []"
| "digest_list (Suc n) data = tox_bytes_to_hex (take CRYPTO_SHA256_SIZE data) # digest_list n (drop CRYPTO_SHA256_SIZE data)"

definition hint_candidates :: "string \<Rightarrow> string list \<Rightarrow> identity_state \<Rightarrow> candidate list" where
  "hint_candidates friend_hex added st =
     concat (map (\<lambda>digest.
       case um_find (member_digest_index st) digest of
         None \<Rightarrow> []
       | Some ms \<Rightarrow>
           map (\<lambda>(g, key). \<lparr>cand_friend = friend_hex, cand_group = g, cand_member = key\<rparr>)
             (filter (\<lambda>(g, key). um_find (member_key_to_friend st) key = None) ms)) added)"

definition handle_hints :: "tox_env \<Rightarrow> string \<Rightarrow> bytes \<Rightarrow> identity_state \<Rightarrow> identity_state" where
  "handle_hints env friend_hex data st =
     (case take_friend_budget (clock env) HintPackets kMaxHintPacketsPerFriend friend_hex
             (PruneIdentityStateLocked (clock env) False st) of
        (st1, False) \<Rightarrow> st1
      | (st1, True) \<Rightarrow>
          (case hint_loop (clock env) friend_hex (digest_list (min (length data div CRYPTO_SHA256_SIZE) kDigestsPerPacket) data) [] st1 of
             (st2, added) \<Rightarrow>
               if added = [] then st2
               else
                 let st3 = others env 7 (SyncMemberDigestIndex env (others env 6 st2)) in
                 IssueIdentityChallenges env (hint_candidates friend_hex added st3) st3))"

definition HandleGroupIdentityAnnouncement :: "tox_env \<Rightarrow> u32 \<Rightarrow> bytes option \<Rightarrow> identity_state \<Rightarrow> identity_state" where
  "HandleGroupIdentityAnnouncement env friend_number data st =
     (case data of
        None \<Rightarrow> st
      | Some [] \<Rightarrow> st
      | Some (subtype # body) \<Rightarrow>
          if \<not> tox_alive env then st
          else
            case friend_key_of env friend_number of
              None \<Rightarrow> st
            | Some friend_key \<Rightarrow>
                let friend_hex = tox_bytes_to_hex friend_key in
                if subtype = kIdentityChallenge then answer_challenge env friend_hex friend_key body st
                else if subtype \<noteq> kIdentityHints \<or> body = [] \<or> length body mod CRYPTO_SHA256_SIZE \<noteq> 0 then st
                else handle_hints env friend_hex body st)"

section \<open>A peer joined\<close>

definition reindex_member :: "u32 \<Rightarrow> string \<Rightarrow> string \<Rightarrow> identity_state \<Rightarrow> identity_state" where
  "reindex_member g key digest st =
     (let slot = um_find (member_digest_by_slot st) (IdentitySlotKey g key) in
      if slot = None \<or> slot \<noteq> Some digest then
        let st1 = (if slot \<noteq> None then EraseIndexedGroupMemberLocked g key st else st) in
        if length (member_digest_by_slot st1) < kMaxIndexedMembers then index_member g key digest st1 else st1
      else st)"

definition MatchGroupIdentityDigests :: "tox_env \<Rightarrow> u32 \<Rightarrow> string \<Rightarrow> identity_state \<Rightarrow> identity_state" where
  "MatchGroupIdentityDigests env g member_key st =
     (if IsConferenceMapKey g \<or> length member_key \<noteq> TOX_PUBLIC_KEY_SIZE * 2 \<or> \<not> tox_alive env then st
      else
        let key_lower = LowerHex member_key in
        case (chat_id_of env g, tox_hex_to_bytes key_lower TOX_PUBLIC_KEY_SIZE) of
          (Some chat_id, Some key) \<Rightarrow>
            let digest = GroupIdentityDigestHex env chat_id key;
                st1 = reindex_member g key_lower digest st in
            if um_find (member_key_to_friend st1) key_lower \<noteq> None then st1
            else
              (case um_find (digest_claimants st1) digest of
                 None \<Rightarrow> st1
               | Some fs \<Rightarrow>
                   IssueIdentityChallenges env
                     (map (\<lambda>f. \<lparr>cand_friend = f, cand_group = g, cand_member = key_lower\<rparr>) fs) st1)
        | _ \<Rightarrow> st)"

text \<open>The identity part of \<open>HandleGroupPeerJoin\<close>: the peer cache, then the match.\<close>

definition peer_join_identity :: "tox_env \<Rightarrow> u32 \<Rightarrow> u32 \<Rightarrow> bytes \<Rightarrow> identity_state \<Rightarrow> identity_state" where
  "peer_join_identity env g peer_id pubkey st =
     (let key_lower = LowerHex (tox_bytes_to_hex pubkey);
          peers = (case um_find (peer_cache st) g of None \<Rightarrow> [] | Some ps \<Rightarrow> ps) in
      MatchGroupIdentityDigests env g key_lower
        (others env 8 (st\<lparr>peer_cache := um_put g (um_put key_lower peer_id peers) (peer_cache st)\<rparr>)))"

text \<open>
  The identity part of \<open>HandleGroupPeerExit\<close>; \<open>self_disconnected\<close> is
  \<open>TOX_GROUP_EXIT_TYPE_SELF_DISCONNECTED\<close>.
\<close>

definition peer_exit_identity :: "tox_env \<Rightarrow> u32 \<Rightarrow> u32 \<Rightarrow> bool \<Rightarrow> identity_state \<Rightarrow> identity_state" where
  "peer_exit_identity env g peer_id self_disconnected st =
     (let gone = (case um_find (peer_cache st) g of None \<Rightarrow> [] | Some ps \<Rightarrow> filter (\<lambda>e. snd e = peer_id \<and> fst e \<noteq> []) ps);
          st1 = (case um_find (peer_cache st) g of
                   None \<Rightarrow> st
                 | Some ps \<Rightarrow> st\<lparr>peer_cache := um_put g (filter (\<lambda>e. snd e \<noteq> peer_id) ps) (peer_cache st)\<rparr>);
          user = (case gone of
                    e # _ \<Rightarrow> Some (map to_upper (fst e))
                  | [] \<Rightarrow> map_option tox_bytes_to_hex (group_peer_key env g peer_id)) in
      case user of
        None \<Rightarrow> st1
      | Some userID \<Rightarrow>
          let key_lower = LowerHex userID;
              st2 = EraseIndexedGroupMemberLocked g key_lower (others env 9 st1);
              st3 = st2\<lparr>pending_challenges :=
                      filter (\<lambda>(n, p). \<not> (ic_group p = g \<and> ic_member_key p = key_lower)) (pending_challenges st2)\<rparr> in
          if self_disconnected then st3
          else st3\<lparr>member_key_to_friend := um_erase key_lower (member_key_to_friend st3)\<rparr>)"

section \<open>Incoming proofs\<close>

definition reject_proof :: "identity_state \<Rightarrow> identity_state" where
  "reject_proof st = st\<lparr>diag := (diag st)\<lparr>d_proofs_rejected := d_proofs_rejected (diag st) + 1\<rparr>\<rparr>"

text \<open>The first section: nothing is spent on a sender that was not challenged or is over its budget.\<close>

definition admit_proof :: "int \<Rightarrow> u32 \<Rightarrow> string \<Rightarrow> bytes \<Rightarrow> identity_state \<Rightarrow> identity_state \<times> bool" where
  "admit_proof now g sender_hex data st =
     (let st1 = PruneIdentityStateLocked now False
                  (st\<lparr>diag := (diag st)\<lparr>d_proofs_in := d_proofs_in (diag st) + 1, d_last_payload := tox_bytes_to_hex data\<rparr>\<rparr>) in
      if \<not> HasPendingChallengeForSenderLocked g sender_hex now st1 then (reject_proof st1, False)
      else case TakeGroupSenderProofBudgetLocked sender_hex now st1 of
             (st2, False) \<Rightarrow> (reject_proof st2, False)
           | (st2, True) \<Rightarrow> (st2, True))"

definition proof_candidates :: "int \<Rightarrow> u32 \<Rightarrow> string \<Rightarrow> identity_state \<Rightarrow> (string \<times> string) list" where
  "proof_candidates now g sender_hex st =
     take kMaxClaimantsPerDigest
       (map (\<lambda>(n, p). (n, ic_friend_hex p))
         (filter (\<lambda>(n, p). \<not> (ic_group p \<noteq> g \<or> now - ic_sent_at p > kIdentityChallengeTtl \<or> LowerHex (ic_member_key p) \<noteq> sender_hex))
           (pending_challenges st)))"

text \<open>The box of one candidate opens, and its transcript is the one that was asked for.\<close>

definition proof_bound :: "bytes \<Rightarrow> bytes \<Rightarrow> bytes \<Rightarrow> bytes \<Rightarrow> bytes \<Rightarrow> bool" where
  "proof_bound plain chat_id self_group_key sender_key self_key \<longleftrightarrow>
     take 16 plain = kIdentityProofDomain \<and>
     take TOX_GROUP_CHAT_ID_SIZE (drop 16 plain) = chat_id \<and>
     take TOX_PUBLIC_KEY_SIZE (drop (16 + TOX_GROUP_CHAT_ID_SIZE) plain) = self_group_key \<and>
     take TOX_PUBLIC_KEY_SIZE (drop (16 + TOX_GROUP_CHAT_ID_SIZE + TOX_PUBLIC_KEY_SIZE) plain) = sender_key \<and>
     take TOX_PUBLIC_KEY_SIZE
       (drop (16 + TOX_GROUP_CHAT_ID_SIZE + TOX_PUBLIC_KEY_SIZE + TOX_PUBLIC_KEY_SIZE + kIdentityNonceSize) plain) = self_key"

definition proof_opens :: "tox_env \<Rightarrow> bytes \<Rightarrow> bytes \<Rightarrow> bytes \<Rightarrow> bytes \<Rightarrow> string \<times> string \<Rightarrow> bool" where
  "proof_opens env data chat_id self_group_key sender_key cand \<longleftrightarrow>
     (case tox_hex_to_bytes (snd cand) TOX_PUBLIC_KEY_SIZE of
        None \<Rightarrow> False
      | Some friend_key \<Rightarrow>
          (case decrypt_data env friend_key (self_secret_key env) (take CRYPTO_NONCE_SIZE data) (drop CRYPTO_NONCE_SIZE data) of
             None \<Rightarrow> False
           | Some plain \<Rightarrow>
               length plain = kIdentityProofPlainSize \<and>
               proof_bound plain chat_id self_group_key sender_key (self_public_key env) \<and>
               LowerHex (tox_bytes_to_hex (take kIdentityNonceSize
                 (drop (16 + TOX_GROUP_CHAT_ID_SIZE + TOX_PUBLIC_KEY_SIZE + TOX_PUBLIC_KEY_SIZE) plain))) = LowerHex (fst cand)))"

definition accept_proof :: "int \<Rightarrow> u32 \<Rightarrow> string \<Rightarrow> string \<Rightarrow> identity_state \<Rightarrow> identity_state" where
  "accept_proof now g sender_hex friend_hex st =
     (let st1 = st\<lparr>diag := (diag st)\<lparr>d_proofs_accepted := d_proofs_accepted (diag st) + 1\<rparr>\<rparr>;
          table = member_key_to_friend st;
          table1 = (if um_find table sender_hex = None \<and> length table \<ge> kMaxProvenMembers
                    then case oldest_by pm_proven_at table of None \<Rightarrow> table | Some oldest \<Rightarrow> um_erase (fst oldest) table
                    else table) in
      st1\<lparr>member_key_to_friend := um_put sender_hex \<lparr>pm_friend_hex = friend_hex, pm_group = g, pm_proven_at = now\<rparr> table1,
          pending_challenges :=
            filter (\<lambda>(n, p). \<not> (ic_group p = g \<and> LowerHex (ic_member_key p) = sender_hex)) (pending_challenges st1)\<rparr>)"

definition verify_proof ::
  "tox_env \<Rightarrow> u32 \<Rightarrow> string \<Rightarrow> bytes \<Rightarrow> bytes \<Rightarrow> bytes \<Rightarrow> bytes \<Rightarrow> identity_state \<Rightarrow> identity_state" where
  "verify_proof env g sender_hex sender_key data chat_id self_group_key st =
     (let st1 = DropStaleChallengesForMemberLocked g sender_hex (GroupIdentityDigestHex env chat_id sender_key) st;
          cands = proof_candidates (clock env) g sender_hex st1 in
      if cands = [] then reject_proof st1
      else
        case take_global_budget (clock env) ProofVerifies kMaxProofVerifiesGlobal st1 of
          (st2, False) \<Rightarrow> reject_proof st2
        | (st2, True) \<Rightarrow>
            (case List.find (proof_opens env data chat_id self_group_key sender_key) cands of
               None \<Rightarrow> reject_proof st2
             | Some (n, friend_hex) \<Rightarrow>
                 if friend_hex = [] then reject_proof st2 else accept_proof (clock env) g sender_hex friend_hex st2))"

definition HandleGroupIdentityProof :: "tox_env \<Rightarrow> u32 \<Rightarrow> u32 \<Rightarrow> bytes option \<Rightarrow> identity_state \<Rightarrow> identity_state" where
  "HandleGroupIdentityProof env g peer_id data st =
     (case data of
        None \<Rightarrow> st
      | Some d \<Rightarrow>
          if length d \<noteq> kIdentityProofPacketSize \<or> \<not> tox_alive env then st
          else
            case group_peer_key env g peer_id of
              None \<Rightarrow> st
            | Some sender_key \<Rightarrow>
                let sender_hex = LowerHex (tox_bytes_to_hex sender_key) in
                case admit_proof (clock env) g sender_hex d st of
                  (st1, False) \<Rightarrow> st1
                | (st1, True) \<Rightarrow>
                    (case (chat_id_of env g, self_group_key_of env g) of
                       (Some chat_id, Some self_group_key) \<Rightarrow>
                         verify_proof env g sender_hex sender_key d chat_id self_group_key (others env 10 st1)
                     | _ \<Rightarrow> st1))"

definition FriendForGroupMemberKey :: "string \<Rightarrow> identity_state \<Rightarrow> string" where
  "FriendForGroupMemberKey member_key_hex st =
     (case um_find (member_key_to_friend st) (LowerHex (take (TOX_PUBLIC_KEY_SIZE * 2) member_key_hex)) of
        None \<Rightarrow> '''' | Some p \<Rightarrow> pm_friend_hex p)"

text \<open>What \<open>UnInitSDK\<close> clears of these tables.\<close>

definition clear_identity :: "identity_state \<Rightarrow> identity_state" where
  "clear_identity st =
     st\<lparr>group_numbers := [], group_ids := [], peer_cache := [], online_identity_friends := [], pending_challenges := [],
        friend_group_digests := [], digest_claimants := [], identity_claim_count := 0, member_digest_index := [],
        member_digest_by_slot := [], member_key_to_friend := [], answered_challenges := [], answered_order := [],
        rate_by_friend := [], rate_by_group_sender := [], receipt_rate_by_sender := [], rate_global := new_window,
        receipt_rate_global := new_window, last_prune := 0, seen_receipts := [], seen_order := []\<rparr>"

end
