(* ===== verification/GroupReceipts.thy ===== *)
theory GroupReceipts
  imports GroupIdentity
begin

text \<open>
  Group receipts of \<open>source/V2TIMManagerImpl.cpp\<close>: the strict parser of the receipt body
  (\<open>IsValidUtf8\<close>, \<open>AppendUtf8\<close>, \<open>ParseStrictReceiptJson\<close>), \<open>SendGroupReceipt\<close> and
  \<open>HandleGroupCustomPrivatePacket\<close>.

  The parser's position in the buffer is the list of bytes that are left; \<open>None\<close> is \<open>return
  false\<close>. Its output strings grow at the end, as in the code.
\<close>

definition EscapeJsonForReceipt :: "string \<Rightarrow> string" where
  "EscapeJsonForReceipt v =
     concat (map (\<lambda>c. if c = CHR 0x22 then [CHR 0x5C, CHR 0x22]
                      else if c = CHR 0x5C then [CHR 0x5C, CHR 0x5C]
                      else if byte_of c \<ge> 0x20 then [c] else []) v)"

section \<open>UTF-8\<close>

text \<open>The continuation bytes: the accumulated code point, \<open>None\<close> for a byte that is not one.\<close>

fun cont_loop :: "nat \<Rightarrow> u32 \<Rightarrow> bytes \<Rightarrow> u32 option" where
  "cont_loop 0 cp data = Some cp"
| "cont_loop (Suc k) cp [] = None"
| "cont_loop (Suc k) cp (cc # data) =
     (if (cc AND 0xC0) \<noteq> 0x80 then None
      else cont_loop k (push_bit 6 cp OR ucast (cc AND 0x3F)) data)"

definition utf8_lead :: "u8 \<Rightarrow> (nat \<times> u32 \<times> u32) option" where
  "utf8_lead c =
     (if (c AND 0xE0) = 0xC0 then Some (1, ucast (c AND 0x1F), 0x80)
      else if (c AND 0xF0) = 0xE0 then Some (2, ucast (c AND 0x0F), 0x800)
      else if (c AND 0xF8) = 0xF0 then Some (3, ucast (c AND 0x07), 0x10000)
      else None)"

function IsValidUtf8Bytes :: "bytes \<Rightarrow> bool" where
  "IsValidUtf8Bytes [] = True"
| "IsValidUtf8Bytes (c # rest) =
     (if c < 0x80 then IsValidUtf8Bytes rest
      else case utf8_lead c of
             None \<Rightarrow> False
           | Some (extra, cp0, min_cp) \<Rightarrow>
               if length (c # rest) \<le> extra then False
               else case cont_loop extra cp0 rest of
                      None \<Rightarrow> False
                    | Some cp \<Rightarrow>
                        if cp < min_cp \<or> cp > 0x10FFFF \<or> (cp \<ge> 0xD800 \<and> cp \<le> 0xDFFF) then False
                        else IsValidUtf8Bytes (drop extra rest))"
  by pat_completeness auto
termination
  by (relation "measure length") auto

definition utf8_bytes :: "u32 \<Rightarrow> bytes" where
  "utf8_bytes cp =
     (if cp < 0x80 then [ucast cp]
      else if cp < 0x800 then [ucast (0xC0 OR drop_bit 6 cp), ucast (0x80 OR (cp AND 0x3F))]
      else if cp < 0x10000 then
        [ucast (0xE0 OR drop_bit 12 cp), ucast (0x80 OR (drop_bit 6 cp AND 0x3F)), ucast (0x80 OR (cp AND 0x3F))]
      else
        [ucast (0xF0 OR drop_bit 18 cp), ucast (0x80 OR (drop_bit 12 cp AND 0x3F)), ucast (0x80 OR (drop_bit 6 cp AND 0x3F)),
         ucast (0x80 OR (cp AND 0x3F))])"

definition AppendUtf8 :: "string \<Rightarrow> u32 \<Rightarrow> string" where
  "AppendUtf8 out cp = out @ map char_at (utf8_bytes cp)"

section \<open>The parser\<close>

record strict_receipt =
  rc_msg_id :: string
  rc_type :: string
  rc_sender :: string

definition json_ws :: "u8 \<Rightarrow> bool" where
  "json_ws b \<longleftrightarrow> b = 0x20 \<or> b = 0x09 \<or> b = 0x0A \<or> b = 0x0D"

definition skip_ws :: "bytes \<Rightarrow> bytes" where
  "skip_ws data = dropWhile json_ws data"

definition hex4_digit :: "u8 \<Rightarrow> u32 option" where
  "hex4_digit h =
     (if h \<ge> 0x30 \<and> h \<le> 0x39 then Some (ucast h - 0x30)
      else if h \<ge> 0x61 \<and> h \<le> 0x66 then Some (ucast h - 0x61 + 10)
      else if h \<ge> 0x41 \<and> h \<le> 0x46 then Some (ucast h - 0x41 + 10) else None)"

fun hex4_loop :: "nat \<Rightarrow> u32 \<Rightarrow> bytes \<Rightarrow> u32 option" where
  "hex4_loop 0 v data = Some v"
| "hex4_loop (Suc k) v [] = None"
| "hex4_loop (Suc k) v (h # data) =
     (case hex4_digit h of None \<Rightarrow> None | Some d \<Rightarrow> hex4_loop k (push_bit 4 v OR d) data)"

definition parse_hex4 :: "bytes \<Rightarrow> u32 option" where
  "parse_hex4 data = (if length data < 4 then None else hex4_loop 4 0 data)"

text \<open>The simple escapes.\<close>

definition json_escape :: "u8 \<Rightarrow> char option" where
  "json_escape e =
     (if e = 0x22 then Some (CHR 0x22) else if e = 0x5C then Some (CHR 0x5C) else if e = 0x2F then Some (CHR 0x2F)
      else if e = 0x62 then Some (CHR 0x08) else if e = 0x66 then Some (CHR 0x0C) else if e = 0x6E then Some (CHR 0x0A)
      else if e = 0x72 then Some (CHR 0x0D) else if e = 0x74 then Some (CHR 0x09) else None)"

text \<open>After \<open>\u\<close>: the code point and what is left; a surrogate must be paired.\<close>

definition parse_unicode :: "bytes \<Rightarrow> (u32 \<times> bytes) option" where
  "parse_unicode data =
     (case parse_hex4 data of
        None \<Rightarrow> None
      | Some cp \<Rightarrow>
          let rest = drop 4 data in
          if cp \<ge> 0xDC00 \<and> cp \<le> 0xDFFF then None
          else if cp \<ge> 0xD800 \<and> cp \<le> 0xDBFF then
            (if length rest < 6 \<or> rest ! 0 \<noteq> 0x5C \<or> rest ! 1 \<noteq> 0x75 then None
             else case parse_hex4 (drop 2 rest) of
                    None \<Rightarrow> None
                  | Some low \<Rightarrow>
                      if low < 0xDC00 \<or> low > 0xDFFF then None
                      else Some (0x10000 + push_bit 10 (cp - 0xD800) + (low - 0xDC00), drop 6 rest))
          else Some (cp, rest))"

lemma parse_unicode_length: "parse_unicode data = Some (cp, rest) \<Longrightarrow> length rest < length data"
  by (auto simp: parse_unicode_def parse_hex4_def Let_def split: option.splits if_splits)

function string_loop :: "string \<Rightarrow> bytes \<Rightarrow> (string \<times> bytes) option" where
  "string_loop out [] = None"
| "string_loop out (c # data) =
     (if c = 0x22 then Some (out, data)
      else if c < 0x20 then None
      else if c \<noteq> 0x5C then string_loop (out @ [char_at c]) data
      else case data of
             [] \<Rightarrow> None
           | esc # rest \<Rightarrow>
               (case json_escape esc of
                  Some ch \<Rightarrow> string_loop (out @ [ch]) rest
                | None \<Rightarrow>
                    if esc = 0x75
                    then (case parse_unicode rest of
                            None \<Rightarrow> None
                          | Some (cp, rest1) \<Rightarrow> string_loop (AppendUtf8 out cp) rest1)
                    else None))"
  by pat_completeness auto
termination
  by (relation "measure (\<lambda>(out, data). length data)") (auto dest: parse_unicode_length)

definition parse_string :: "bytes \<Rightarrow> (string \<times> bytes) option" where
  "parse_string data = (if data = [] \<or> data ! 0 \<noteq> 0x22 then None else string_loop '''' (drop 1 data))"

lemma string_loop_length: "string_loop out data = Some (s, rest) \<Longrightarrow> length rest < length data"
proof (induction out data rule: string_loop.induct)
  case (2 out c data)
  then show ?case
    by (auto split: if_splits list.splits option.splits prod.splits dest!: parse_unicode_length intro: less_trans)
       (meson less_trans_Suc less_SucI less_trans not_less_eq)+
qed simp

lemma parse_string_length: "parse_string data = Some (s, rest) \<Longrightarrow> length rest < length data"
  using string_loop_length [of "[]" "drop 1 data"] by (cases data) (auto simp: parse_string_def split: if_splits)

lemma skip_ws_length: "length (skip_ws data) \<le> length data"
  by (simp add: skip_ws_def length_dropWhile_le)

text \<open>One \<open>key : value\<close>, the blanks around it included.\<close>

definition parse_field :: "bytes \<Rightarrow> (string \<times> string \<times> bytes) option" where
  "parse_field data =
     (case parse_string (skip_ws data) of
        None \<Rightarrow> None
      | Some (key, r1) \<Rightarrow>
          let r2 = skip_ws r1 in
          if r2 = [] \<or> r2 ! 0 \<noteq> 0x3A then None
          else case parse_string (skip_ws (drop 1 r2)) of
                 None \<Rightarrow> None
               | Some (v, r3) \<Rightarrow> Some (key, v, skip_ws r3))"

lemma parse_field_length: "parse_field data = Some (k, v, rest) \<Longrightarrow> length rest < length data"
proof -
  assume "parse_field data = Some (k, v, rest)"
  then obtain r1 r3 where "parse_string (skip_ws data) = Some (k, r1)"
    "parse_string (skip_ws (drop 1 (skip_ws r1))) = Some (v, r3)" "rest = skip_ws r3"
    by (auto simp: parse_field_def Let_def split: option.splits if_splits)
  then show ?thesis
    using parse_string_length [of "skip_ws data" k r1] parse_string_length [of "skip_ws (drop 1 (skip_ws r1))" v r3]
      skip_ws_length [of data] skip_ws_length [of r1] skip_ws_length [of r3] skip_ws_length [of "drop 1 (skip_ws r1)"]
    by simp
qed

function fields_loop :: "(string, string) umap \<Rightarrow> bytes \<Rightarrow> ((string, string) umap \<times> bytes) option" where
  "fields_loop fs data =
     (case parse_field data of
        None \<Rightarrow> None
      | Some (key, v, rest) \<Rightarrow>
          if um_find fs key \<noteq> None then None
          else
            let fs1 = um_put key v fs in
            if rest \<noteq> [] \<and> rest ! 0 = 0x2C then fields_loop fs1 (drop 1 rest)
            else if rest \<noteq> [] \<and> rest ! 0 = 0x7D then Some (fs1, drop 1 rest)
            else None)"
  by pat_completeness auto
termination
  by (relation "measure (\<lambda>(fs, data). length data)") (auto dest!: parse_field_length)

declare fields_loop.simps [simp del] string_loop.simps(2) [simp del] IsValidUtf8Bytes.simps(2) [simp del]

definition receipt_fields :: "(string, string) umap \<Rightarrow> strict_receipt option" where
  "receipt_fields fs =
     (if length fs \<noteq> 4 then None
      else
        case (um_find fs ''type'', um_find fs ''msgID'', um_find fs ''receiptType'', um_find fs ''sender'') of
          (Some t, Some m, Some rt, Some s) \<Rightarrow>
            if t = ''receipt'' \<and> m \<noteq> [] \<and> (rt = ''received'' \<or> rt = ''read'') \<and> length s = TOX_PUBLIC_KEY_SIZE * 2 \<and> list_all isxdigit s
            then Some \<lparr>rc_msg_id = m, rc_type = rt, rc_sender = s\<rparr> else None
        | _ \<Rightarrow> None)"

definition ParseStrictReceiptJson :: "bytes \<Rightarrow> strict_receipt option" where
  "ParseStrictReceiptJson data =
     (if \<not> IsValidUtf8Bytes data then None
      else
        let r = skip_ws data in
        if r = [] \<or> r ! 0 \<noteq> 0x7B then None
        else case fields_loop [] (drop 1 r) of
               None \<Rightarrow> None
             | Some (fs, rest) \<Rightarrow> if skip_ws rest \<noteq> [] then None else receipt_fields fs)"

section \<open>Sending and receiving\<close>

definition receipt_body :: "string \<Rightarrow> string \<Rightarrow> bytes \<Rightarrow> string" where
  "receipt_body msg_id receipt_type self_group_key =
     [CHR 0x7B, CHR 0x22] @ ''type'' @ [CHR 0x22, CHR '':'', CHR 0x22] @ ''receipt'' @ [CHR 0x22, CHR '','', CHR 0x22] @
     ''msgID'' @ [CHR 0x22, CHR '':'', CHR 0x22] @ EscapeJsonForReceipt msg_id @ [CHR 0x22, CHR '','', CHR 0x22] @
     ''receiptType'' @ [CHR 0x22, CHR '':'', CHR 0x22] @ receipt_type @ [CHR 0x22, CHR '','', CHR 0x22] @
     ''sender'' @ [CHR 0x22, CHR '':'', CHR 0x22] @ tox_bytes_to_hex self_group_key @ [CHR 0x22, CHR 0x7D]"

definition SendGroupReceipt :: "tox_env \<Rightarrow> string \<Rightarrow> string \<Rightarrow> string \<Rightarrow> string \<Rightarrow> identity_state \<Rightarrow> identity_state \<times> int" where
  "SendGroupReceipt env groupID author_key_hex msg_id receipt_type st =
     (if groupID = [] \<or> msg_id = [] \<or> length author_key_hex \<noteq> TOX_PUBLIC_KEY_SIZE * 2 \<or>
         (receipt_type \<noteq> ''received'' \<and> receipt_type \<noteq> ''read'') then (st, 0)
      else
        case um_find (group_numbers st) groupID of
          None \<Rightarrow> (st, 0)
        | Some g \<Rightarrow>
            if IsConferenceMapKey g then (st, -2)
            else if \<not> tox_alive env then (st, 0)
            else
              case ResolveGroupPeerIdForKey env g author_key_hex (others env 11 st) of (st1, peer_id) \<Rightarrow>
              if peer_id = UINT32_MAX then (st1, -3)
              else
                case self_group_key_of env g of
                  None \<Rightarrow> (st1, 0)
                | Some self_group_key \<Rightarrow>
                    let packet = Wrap kGroupReceipt (Some (map byte_of (receipt_body msg_id receipt_type self_group_key))) in
                    (st1\<lparr>group_packets := group_packets st1 @ [(g, peer_id, packet)]\<rparr>, if private_packet_sent env then 1 else 0))"

definition replay_key :: "string \<Rightarrow> string \<Rightarrow> strict_receipt \<Rightarrow> string" where
  "replay_key group_id sender_lower r = group_id @ ''|'' @ sender_lower @ ''|'' @ rc_type r @ ''|'' @ rc_msg_id r"

text \<open>The section under the lock: the id of the group when the receipt is to be forwarded.\<close>

definition admit_receipt :: "int \<Rightarrow> u32 \<Rightarrow> string \<Rightarrow> strict_receipt \<Rightarrow> identity_state \<Rightarrow> identity_state \<times> string option" where
  "admit_receipt now g sender_lower r st =
     (let st1 = PruneIdentityStateLocked now False (st\<lparr>diag := (diag st)\<lparr>d_receipts_in := d_receipts_in (diag st) + 1\<rparr>\<rparr>) in
      case TakeGroupSenderReceiptBudgetLocked sender_lower now st1 of
        (st2, False) \<Rightarrow> (st2\<lparr>diag := (diag st2)\<lparr>d_receipts_refused := d_receipts_refused (diag st2) + 1\<rparr>\<rparr>, None)
      | (st2, True) \<Rightarrow>
          (case TakeIdentityBudgetLocked now ReceiptsIn (EffectiveReceiptCap (global_override st2) kMaxGroupReceiptsGlobal)
                  (receipt_rate_global st2) of
             (w, False) \<Rightarrow>
               (st2\<lparr>receipt_rate_global := w,
                    diag := (diag st2)\<lparr>d_receipts_refused_global := d_receipts_refused_global (diag st2) + 1\<rparr>\<rparr>, None)
           | (w, True) \<Rightarrow>
               let st3 = st2\<lparr>receipt_rate_global := w\<rparr> in
               (case um_find (group_ids st3) g of
                  None \<Rightarrow> (st3, None)
                | Some group_id \<Rightarrow>
                    let key = replay_key group_id sender_lower r in
                    if um_find (seen_receipts st3) key \<noteq> None
                    then (st3\<lparr>diag := (diag st3)\<lparr>d_receipts_replayed := d_receipts_replayed (diag st3) + 1\<rparr>\<rparr>, None)
                    else
                      case make_room kMaxSeenGroupReceipts (seen_order st3) (seen_receipts st3) of
                        (so, sm) \<Rightarrow>
                          (st3\<lparr>seen_receipts := um_emplace key now sm, seen_order := so @ [(now, key)],
                               diag := (diag st3)\<lparr>d_receipts_forwarded := d_receipts_forwarded (diag st3) + 1\<rparr>\<rparr>, Some group_id))))"

definition HandleGroupCustomPrivatePacket :: "tox_env \<Rightarrow> u32 \<Rightarrow> u32 \<Rightarrow> bytes option \<Rightarrow> identity_state \<Rightarrow> identity_state" where
  "HandleGroupCustomPrivatePacket env g peer_id data st =
     (if rendezvous_owns env g then st
      else if \<not> sdk_running env then st
      else
        case Unwrap kIdentityProof data of
          Some payload \<Rightarrow> HandleGroupIdentityProof env g peer_id (Some payload) st
        | None \<Rightarrow>
            (case Unwrap kGroupReceipt data of
               None \<Rightarrow> st
             | Some payload \<Rightarrow>
                 if payload = [] \<or> length payload > 1024 then st
                 else
                   case ParseStrictReceiptJson payload of
                     None \<Rightarrow> st
                   | Some r \<Rightarrow>
                       if \<not> tox_alive env then st
                       else
                         case group_peer_key env g peer_id of
                           None \<Rightarrow> st
                         | Some sender_key \<Rightarrow>
                             let sender_hex = tox_bytes_to_hex sender_key; sender_lower = LowerHex sender_hex in
                             if LowerHex (rc_sender r) \<noteq> sender_lower then st
                             else
                               case admit_receipt (clock env) g sender_lower r st of
                                 (st1, None) \<Rightarrow> st1
                               | (st1, Some group_id) \<Rightarrow>
                                   st1\<lparr>group_actions := group_actions st1 @ [(group_id, sender_hex, payload)]\<rparr>))"

end
