(* ===== verification/IdentityInvariants.thy ===== *)
theory IdentityInvariants
  imports GroupReceipts
begin

text \<open>
  What every handler of the identity protocol keeps, whatever the other threads do in its gaps.

  \<^item> \<open>gap_run C\<close>: the sequences of sections under \<open>mutex_\<close> (and of the writes outside it) that other
    threads can run in a gap; \<open>C\<close> is what is known of toxcore's answers.
  \<^item> \<open>admissible C env\<close>: an environment with these answers whose gaps are such sequences.
  \<^item> \<open>identity_reach C\<close>: the states reached from the fresh object by the handlers in admissible
    environments.
  \<^item> The locale \<open>identity_invariant\<close> asks of an invariant that each section keeps it and concludes
    that every reachable state has it. It is interpreted for the bounds of the tables and for the
    authenticity of the proven members.
\<close>

text \<open>Member keys are stored in lower case.\<close>

abbreviation lower :: "string \<Rightarrow> bool" where
  "lower s \<equiv> LowerHex s = s"

definition lower_cache :: "(u32, (string, u32) umap) umap \<Rightarrow> bool" where
  "lower_cache pc \<longleftrightarrow> (\<forall>e\<in>set pc. \<forall>p\<in>set (snd e). lower (fst p))"

definition lower_index :: "(string, (u32 \<times> string) list) umap \<Rightarrow> bool" where
  "lower_index mi \<longleftrightarrow> (\<forall>e\<in>set mi. \<forall>p\<in>set (snd e). lower (snd p))"

lemma tolower_twice: "tolower (tolower c) = tolower c"
proof -
  have "(of_char c :: nat) < 256" by simp
  then show ?thesis by (auto simp: tolower_def in_range_def code_def)
qed

lemma lower_LowerHex [simp]: "lower (LowerHex s)"
  by (simp add: LowerHex_def tolower_twice)

lemma set_um_put: "set (um_put k v m) \<subseteq> insert (k, v) (set m)"
  by (induction m) auto

lemma lower_index_put: "lower_index mi \<Longrightarrow> (\<And>p. p \<in> set ms \<Longrightarrow> lower (snd p)) \<Longrightarrow> lower_index (um_put d ms mi)"
  using set_um_put [of d ms mi] unfolding lower_index_def by fastforce

lemma lower_cache_put: "lower_cache pc \<Longrightarrow> (\<And>p. p \<in> set ps \<Longrightarrow> lower (fst p)) \<Longrightarrow> lower_cache (um_put g ps pc)"
  using set_um_put [of g ps pc] unfolding lower_cache_def by fastforce

lemma lower_erase:
  "lower_index mi \<Longrightarrow> lower_index (um_erase d mi)" "lower_cache pc \<Longrightarrow> lower_cache (um_erase g pc)"
  unfolding lower_index_def lower_cache_def um_erase_filter set_filter by blast+

lemma lower_find:
  "lower_index mi \<Longrightarrow> um_find mi d = Some ms \<Longrightarrow> p \<in> set ms \<Longrightarrow> lower (snd p)"
  "lower_cache pc \<Longrightarrow> um_find pc g = Some ps \<Longrightarrow> q \<in> set ps \<Longrightarrow> lower (fst q)"
  by (auto simp: lower_index_def lower_cache_def dest!: map_of_SomeD)

section \<open>The other threads\<close>

definition hint_section :: "int \<Rightarrow> string \<Rightarrow> string list \<Rightarrow> identity_state \<Rightarrow> identity_state" where
  "hint_section now f ds st =
     (case take_friend_budget now HintPackets kMaxHintPacketsPerFriend f (PruneIdentityStateLocked now False st) of
        (st1, b) \<Rightarrow> if b then fst (hint_loop now f ds [] st1) else st1)"

definition exit_section :: "u32 \<Rightarrow> string \<Rightarrow> bool \<Rightarrow> identity_state \<Rightarrow> identity_state" where
  "exit_section g key gone st =
     (let st1 = EraseIndexedGroupMemberLocked g key st;
          st2 = st1\<lparr>pending_challenges := filter (\<lambda>(n, p). \<not> (ic_group p = g \<and> ic_member_key p = key)) (pending_challenges st1)\<rparr> in
      if gone then st2\<lparr>member_key_to_friend := um_erase key (member_key_to_friend st2)\<rparr> else st2)"

definition cache_section :: "u32 \<Rightarrow> string \<Rightarrow> u32 \<Rightarrow> identity_state \<Rightarrow> identity_state" where
  "cache_section g key peer_id st =
     st\<lparr>peer_cache := um_put g (um_put key peer_id (case um_find (peer_cache st) g of None \<Rightarrow> [] | Some ps \<Rightarrow> ps)) (peer_cache st)\<rparr>"

definition uncache_section :: "u32 \<Rightarrow> u32 \<Rightarrow> identity_state \<Rightarrow> identity_state" where
  "uncache_section g peer_id st =
     (case um_find (peer_cache st) g of
        None \<Rightarrow> st | Some ps \<Rightarrow> st\<lparr>peer_cache := um_put g (filter (\<lambda>e. snd e \<noteq> peer_id) ps) (peer_cache st)\<rparr>)"

inductive gap_run :: "(tox_env \<Rightarrow> bool) \<Rightarrow> (identity_state \<Rightarrow> identity_state) \<Rightarrow> bool" for C where
  idle: "gap_run C id"
| seq: "gap_run C a \<Longrightarrow> gap_run C b \<Longrightarrow> gap_run C (b \<circ> a)"
| emit: "gap_run C (\<lambda>st. st\<lparr>friend_frames := ff st, group_packets := gp st, group_actions := ga st, diag := dg st, nonces_drawn := nd st\<rparr>)"
| online: "gap_run C (\<lambda>st. st\<lparr>online_identity_friends := os st\<rparr>)"
| groups: "gap_run C (\<lambda>st. st\<lparr>group_ids := gi st, group_numbers := gn st\<rparr>)"
| offline: "gap_run C (\<lambda>st. drop_challenges_of f (DropFriendIdentityClaimsLocked f st))"
| purge: "gap_run C (PurgeFriendIdentityState n f)"
| stale: "gap_run C (fold (\<lambda>(g, key). EraseIndexedGroupMemberLocked g key) ms)"
| index: "list_all (\<lambda>(g, key, d). lower key) ds \<Longrightarrow> gap_run C (fold add_computed ds)"
| ask: "lower (cand_member c) \<Longrightarrow> gap_run C (\<lambda>st. fst (record_challenge now c nonce st))"
| forget: "gap_run C (ErasePeerIdCacheEntry g k)"
| answer: "gap_run C (\<lambda>st. fst (admit_challenge now f data st))"
| hints: "f \<noteq> [] \<Longrightarrow> gap_run C (hint_section now f ds)"
| reindex: "gap_run C (reindex_member g (LowerHex k) d)"
| cache: "gap_run C (cache_section g (LowerHex k) p)"
| uncache: "gap_run C (uncache_section g p)"
| exit: "gap_run C (exit_section g key gone)"
| admit: "gap_run C (\<lambda>st. fst (admit_proof now g k data st))"
| verify: "C env \<Longrightarrow> chat_id_of env g = Some chat_id \<Longrightarrow> self_group_key_of env g = Some self_key \<Longrightarrow> length data = kIdentityProofPacketSize \<Longrightarrow>
    gap_run C (verify_proof env g (LowerHex (tox_bytes_to_hex sender_key)) sender_key data chat_id self_key)"
| receipt: "gap_run C (\<lambda>st. fst (admit_receipt now g k r st))"
| uninit: "gap_run C clear_identity"

definition admissible :: "(tox_env \<Rightarrow> bool) \<Rightarrow> tox_env \<Rightarrow> bool" where
  "admissible C env \<longleftrightarrow> C env \<and> (\<forall>i. gap_run C (others env i))"

section \<open>Reachable states\<close>

definition identity_init :: identity_state where
  "identity_init =
     \<lparr>friend_group_digests = [], digest_claimants = [], identity_claim_count = 0, member_digest_index = [],
      member_digest_by_slot = [], member_key_to_friend = [], pending_challenges = [], answered_challenges = [],
      answered_order = [], rate_by_friend = [], rate_by_group_sender = [], receipt_rate_by_sender = [],
      rate_global = new_window, receipt_rate_global = new_window, per_sender_override = 0, global_override = 0,
      diag = \<lparr>d_proofs_sent = 0, d_proofs_in = 0, d_proofs_accepted = 0, d_proofs_rejected = 0, d_last_payload = [],
              d_receipts_in = 0, d_receipts_refused = 0, d_receipts_refused_global = 0, d_receipts_replayed = 0,
              d_receipts_forwarded = 0\<rparr>,
      last_prune = 0, online_identity_friends = [], seen_receipts = [], seen_order = [], group_ids = [],
      group_numbers = [], peer_cache = [], nonces_drawn = 0, friend_frames = [], group_packets = [], group_actions = []\<rparr>"

inductive identity_step :: "(tox_env \<Rightarrow> bool) \<Rightarrow> identity_state \<Rightarrow> identity_state \<Rightarrow> bool" for C where
  announce_step: "admissible C env \<Longrightarrow> identity_step C st (AnnounceGroupIdentities env f g st)"
| connection_step: "admissible C env \<Longrightarrow> identity_step C st (NoteFriendConnectionForIdentity env n online st)"
| purge_step: "identity_step C st (PurgeFriendIdentityState n f st)"
| friend_packet_step: "admissible C env \<Longrightarrow> identity_step C st (HandleGroupIdentityAnnouncement env n d st)"
| group_packet_step: "admissible C env \<Longrightarrow> identity_step C st (HandleGroupCustomPrivatePacket env g p d st)"
| peer_join_step: "admissible C env \<Longrightarrow> identity_step C st (peer_join_identity env g p k st)"
| peer_exit_step: "admissible C env \<Longrightarrow> identity_step C st (peer_exit_identity env g p b st)"
| receipt_step: "admissible C env \<Longrightarrow> identity_step C st (fst (SendGroupReceipt env gid a m t st))"
| others_step: "gap_run C a \<Longrightarrow> identity_step C st (a st)"

inductive identity_reach :: "(tox_env \<Rightarrow> bool) \<Rightarrow> identity_state \<Rightarrow> bool" for C where
  fresh: "identity_reach C identity_init"
| more: "identity_reach C st \<Longrightarrow> identity_step C st st1 \<Longrightarrow> identity_reach C st1"

section \<open>What an invariant has to show\<close>

locale identity_invariant =
  fixes I :: "identity_state \<Rightarrow> bool" and C :: "tox_env \<Rightarrow> bool"
  assumes init: "I identity_init"
    and frame: "I st \<Longrightarrow> I (st\<lparr>friend_frames := a\<rparr>)" "I st \<Longrightarrow> I (st\<lparr>group_packets := b\<rparr>)"
      "I st \<Longrightarrow> I (st\<lparr>diag := c\<rparr>)" "I st \<Longrightarrow> I (st\<lparr>nonces_drawn := n\<rparr>)"
      "I st \<Longrightarrow> I (st\<lparr>online_identity_friends := os\<rparr>)" "I st \<Longrightarrow> lower_cache pc \<Longrightarrow> I (st\<lparr>peer_cache := pc\<rparr>)"
      "I st \<Longrightarrow> I (st\<lparr>rate_global := w\<rparr>)" "I st \<Longrightarrow> I (st\<lparr>rate_by_friend := rf\<rparr>)"
      "I st \<Longrightarrow> lower_index mi \<Longrightarrow> I (st\<lparr>member_digest_index := mi\<rparr>)" "I st \<Longrightarrow> I (st\<lparr>member_digest_by_slot := ms\<rparr>)"
      "I st \<Longrightarrow> I (st\<lparr>group_actions := ga\<rparr>)" "I st \<Longrightarrow> I (st\<lparr>group_ids := gi, group_numbers := gn\<rparr>)"
    and lower_tables: "I st \<Longrightarrow> lower_cache (peer_cache st)" "I st \<Longrightarrow> lower_index (member_digest_index st)"
    and friend_keys: "C env \<Longrightarrow> friend_key_of env fn = Some fk \<Longrightarrow> fk \<noteq> []"
    and prune: "I st \<Longrightarrow> I (PruneIdentityStateLocked now force st)"
    and clear: "I st \<Longrightarrow> I (clear_identity st)"
    and drop_claims: "I st \<Longrightarrow> I (DropFriendIdentityClaimsLocked f st)"
    and refresh: "I st \<Longrightarrow> um_find (friend_group_digests st) f = Some ds \<Longrightarrow> um_find ds d \<noteq> None \<Longrightarrow>
      I (st\<lparr>friend_group_digests := um_put f (um_put d now ds) (friend_group_digests st)\<rparr>)"
    and claim: "I st \<Longrightarrow> f \<noteq> [] \<Longrightarrow> (\<And>ds. um_find (friend_group_digests st) f = Some ds \<Longrightarrow> um_find ds d = None) \<Longrightarrow>
      (\<And>fs. um_find (digest_claimants st) d = Some fs \<Longrightarrow> length fs < kMaxClaimantsPerDigest) \<Longrightarrow> I (add_claim now f d st)"
    and challenges: "I st \<Longrightarrow> I (st\<lparr>pending_challenges := filter P (pending_challenges st)\<rparr>)"
    and challenge: "I st \<Longrightarrow> lower (cand_member cand) \<Longrightarrow> I (fst (record_challenge now cand nonce st))"
    and proven: "I st \<Longrightarrow> I (st\<lparr>member_key_to_friend := filter Q (member_key_to_friend st)\<rparr>)"
    and admit: "I st \<Longrightarrow> I (fst (admit_challenge now f data st))"
    and sender: "I st \<Longrightarrow> I (fst (TakeGroupSenderProofBudgetLocked k now st))"
    and receipt: "I st \<Longrightarrow> I (fst (admit_receipt now g k r st))"
    and accept: "C env \<Longrightarrow> I st \<Longrightarrow> chat_id_of env g = Some chat_id \<Longrightarrow> self_group_key_of env g = Some self_key \<Longrightarrow>
      proof_opens env data chat_id self_key sender_key (nonce_hex, f) \<Longrightarrow>
      I (accept_proof now g (LowerHex (tox_bytes_to_hex sender_key)) f st)"
begin

text \<open>The sections.\<close>

lemma fold_keeps: "(\<And>x s. x \<in> set xs \<Longrightarrow> I s \<Longrightarrow> I (h x s)) \<Longrightarrow> I st \<Longrightarrow> I (fold h xs st)"
  by (induction xs arbitrary: st) simp_all

lemma friend_budget: "I st \<Longrightarrow> I (fst (take_friend_budget now c l f st))"
  by (simp add: take_friend_budget_def frame split: prod.split)

lemma global_budget: "I st \<Longrightarrow> I (fst (take_global_budget now c l st))"
  by (simp add: take_global_budget_def frame split: prod.split)

lemma both_budgets: "I st \<Longrightarrow> I (fst (take_both_budgets now c l g f st))"
  using friend_budget [of st now c l f]
  by (auto simp: take_both_budgets_def global_budget split: prod.split bool.split)

lemma send_frame: "I st \<Longrightarrow> I (SendFriendIdentityFrame env f body st)"
  by (simp add: SendFriendIdentityFrame_def frame split: option.split)

lemma purge: "I st \<Longrightarrow> I (PurgeFriendIdentityState n f st)"
proof -
  assume I: "I st"
  let ?h = "map to_upper (take (TOX_PUBLIC_KEY_SIZE * 2) f)"
  have "I (drop_challenges_of ?h (DropFriendIdentityClaimsLocked ?h (st\<lparr>online_identity_friends := x\<rparr>)))" for x
    using I by (auto simp: drop_challenges_of_def intro!: challenges drop_claims frame)
  then have "I ((s\<lparr>member_key_to_friend := filter Q (member_key_to_friend s)\<rparr>)\<lparr>rate_by_friend := y\<rparr>)"
    if "s = drop_challenges_of ?h (DropFriendIdentityClaimsLocked ?h (st\<lparr>online_identity_friends := x\<rparr>))" for s x y Q
    using that by (intro frame proven) simp
  then show ?thesis using I by (auto simp: PurgeFriendIdentityState_def Let_def intro!: frame)
qed

lemma erase_indexed: "I st \<Longrightarrow> I (EraseIndexedGroupMemberLocked g k st)"
proof -
  assume I: "I st"
  note l = lower_tables(2) [OF I]
  have "lower_index (um_put d (filter P ms) (member_digest_index st))" if "um_find (member_digest_index st) d = Some ms" for d ms P
    by (rule lower_index_put [OF l]) (use lower_find(1) [OF l that] in auto)
  then show ?thesis using I l
    by (auto simp: EraseIndexedGroupMemberLocked_def Let_def lower_erase intro!: frame split: option.split)
qed

lemma add_index: "I st \<Longrightarrow> lower k \<Longrightarrow> I (index_member g k d st)"
proof -
  assume I: "I st" and k: "lower k"
  note l = lower_tables(2) [OF I]
  have "lower (snd p)" if "p \<in> set ((case um_find (member_digest_index st) d of None \<Rightarrow> [] | Some ms \<Rightarrow> ms) @ [(g, k)])" for p
    using that k lower_find(1) [OF l, of d _ p] by (cases "um_find (member_digest_index st) d") auto
  then show ?thesis using I unfolding index_member_def by (intro frame lower_index_put l)
qed

lemma hint_loop: "f \<noteq> [] \<Longrightarrow> I st \<Longrightarrow> I (fst (hint_loop now f ds added st))"
proof (induction now f ds added st rule: hint_loop.induct)
  case (2 now f d rest added st)
  let ?ds = "case um_find (friend_group_digests st) f of None \<Rightarrow> [] | Some ds \<Rightarrow> ds"
  show ?case
  proof (cases "um_find ?ds d = None")
    case False
    then obtain ds where "um_find (friend_group_digests st) f = Some ds" "um_find ds d \<noteq> None" by (auto split: option.splits)
    then show ?thesis using 2 False by (auto simp: Let_def refresh)
  next
    case new: True
    show ?thesis
    proof (cases "case um_find (digest_claimants st) d of None \<Rightarrow> False | Some fs \<Rightarrow> length fs \<ge> kMaxClaimantsPerDigest")
      case True
      then show ?thesis using 2 new by (simp add: Let_def)
    next
      case room: False
      obtain st1 b where b: "take_both_budgets now NewDigests kMaxNewDigestsPerFriend kMaxNewDigestsGlobal f st = (st1, b)"
        by (metis surj_pair)
      have I1: "I st1" using both_budgets [OF 2(5), of now NewDigests kMaxNewDigestsPerFriend kMaxNewDigestsGlobal f] b by simp
      have fields: "friend_group_digests st1 = friend_group_digests st" "digest_claimants st1 = digest_claimants st"
        using b by (auto simp: take_both_budgets_def take_friend_budget_def take_global_budget_def split: prod.splits bool.splits)
      have "I (add_claim now f d st1)"
        by (rule claim [OF I1 2(4)]) (use new room fields in \<open>auto split: option.splits\<close>)
      then show ?thesis using 2(3,4) new room b I1 by (auto simp: Let_def split: bool.split)
    qed
  qed
qed simp

lemma verify:
  assumes "C env" "I st" "chat_id_of env g = Some chat_id" "self_group_key_of env g = Some self_key"
  shows "I (verify_proof env g (LowerHex (tox_bytes_to_hex sender_key)) sender_key d chat_id self_key st)"
proof -
  let ?s = "LowerHex (tox_bytes_to_hex sender_key)"
  let ?st1 = "DropStaleChallengesForMemberLocked g ?s (GroupIdentityDigestHex env chat_id sender_key) st"
  have I1: "I ?st1" using assms(2) by (simp add: DropStaleChallengesForMemberLocked_def challenges)
  obtain st2 b where b: "take_global_budget (clock env) ProofVerifies kMaxProofVerifiesGlobal ?st1 = (st2, b)" by (metis surj_pair)
  have I2: "I st2" using global_budget [OF I1] b by (metis fst_conv)
  have r: "I s \<Longrightarrow> I (reject_proof s)" for s by (simp add: reject_proof_def frame)
  have "I (accept_proof (clock env) g ?s f st2)"
    if "List.find (proof_opens env d chat_id self_key sender_key) cs = Some (n, f)" for cs n f
  proof (rule accept [OF assms(1) I2 assms(3,4)])
    show "proof_opens env d chat_id self_key sender_key (n, f)" using that by (auto simp: find_Some_iff)
  qed
  then show ?thesis using I1 I2 r b by (auto simp: verify_proof_def Let_def split: option.split bool.split)
qed

lemma forget_keeps: "I st \<Longrightarrow> I (ErasePeerIdCacheEntry g k st)"
  using lower_find(2) [OF lower_tables(1)]
  by (auto simp: ErasePeerIdCacheEntry_def um_erase_filter intro!: frame lower_cache_put lower_tables split: option.split)

lemma reindex_keeps: "I st \<Longrightarrow> I (reindex_member g (LowerHex k) d st)"
  by (auto simp: reindex_member_def Let_def intro!: add_index erase_indexed)

lemma stale_keeps: "I st \<Longrightarrow> I (fold (\<lambda>(g, key). EraseIndexedGroupMemberLocked g key) ms st)"
  by (rule fold_keeps) (auto simp: erase_indexed)

lemma index_keeps: "list_all (\<lambda>(g, key, d). lower key) ds \<Longrightarrow> I st \<Longrightarrow> I (fold add_computed ds st)"
  by (rule fold_keeps) (auto simp: add_computed_def add_index list_all_iff split: prod.split)

lemma cache_keeps: "I st \<Longrightarrow> I (cache_section g (LowerHex k) p st)"
proof -
  assume I: "I st"
  let ?ps = "case um_find (peer_cache st) g of None \<Rightarrow> [] | Some ps \<Rightarrow> ps"
  have "lower (fst q)" if "q \<in> set (um_put (LowerHex k) p ?ps)" for q
    using that set_um_put [of "LowerHex k" p ?ps] lower_find(2) [OF lower_tables(1) [OF I], of g _ q]
    by (auto split: option.splits)
  then show ?thesis using I unfolding cache_section_def by (intro frame lower_cache_put lower_tables)
qed

lemma uncache_keeps: "I st \<Longrightarrow> I (uncache_section g p st)"
  using lower_find(2) [OF lower_tables(1), of st g]
  by (auto simp: uncache_section_def intro!: frame lower_cache_put lower_tables split: option.split)

lemma exit_keeps: "I st \<Longrightarrow> I (exit_section g k b st)"
proof -
  assume I: "I st"
  have "I (s\<lparr>pending_challenges := filter P (pending_challenges s),
      member_key_to_friend := um_erase k (member_key_to_friend s)\<rparr>)" if "I s" for s P
    using proven [of "s\<lparr>pending_challenges := filter P (pending_challenges s)\<rparr>" "\<lambda>e. fst e \<noteq> k"] challenges [OF that, of P]
    by (simp add: um_erase_filter)
  then show ?thesis using erase_indexed [OF I, of g k] by (simp add: exit_section_def Let_def challenges)
qed

lemma hint_section_keeps: "f \<noteq> [] \<Longrightarrow> I st \<Longrightarrow> I (hint_section now f ds st)"
  using friend_budget [OF prune, of st now HintPackets kMaxHintPacketsPerFriend f]
  by (auto simp: hint_section_def case_prod_beta intro!: hint_loop)

lemma offline_keeps: "I st \<Longrightarrow> I (drop_challenges_of f (DropFriendIdentityClaimsLocked f st))"
  unfolding drop_challenges_of_def by (intro challenges drop_claims)

lemma admit_proof_keeps: "I st \<Longrightarrow> I (fst (admit_proof now g k x st))"
proof -
  assume I: "I st"
  have p: "I (PruneIdentityStateLocked now force (st\<lparr>diag := x\<rparr>))" for x force using I by (intro prune frame)
  show ?thesis
    using p sender [OF p] by (auto simp: admit_proof_def reject_proof_def Let_def case_prod_beta frame split: bool.split)
qed

lemma emit_keeps: "I st \<Longrightarrow> I (st\<lparr>friend_frames := a, group_packets := b, group_actions := c, diag := d, nonces_drawn := n\<rparr>)"
  using frame(4) [OF frame(3) [OF frame(11) [OF frame(2) [OF frame(1)]]]] .

lemma gap_run_keeps: "gap_run C a \<Longrightarrow> I st \<Longrightarrow> I (a st)"
  by (induction arbitrary: st rule: gap_run.induct)
    (auto simp: emit_keeps frame offline_keeps purge stale_keeps index_keeps challenge forget_keeps admit hint_section_keeps
      reindex_keeps cache_keeps uncache_keeps exit_keeps admit_proof_keeps verify receipt clear)

lemma gap: "admissible C env \<Longrightarrow> I st \<Longrightarrow> I (others env i st)"
  by (simp add: admissible_def gap_run_keeps)

text \<open>The handlers.\<close>

lemma announce: "admissible C env \<Longrightarrow> I st \<Longrightarrow> I (AnnounceGroupIdentities env f g st)"
  by (auto simp: AnnounceGroupIdentities_def Let_def intro!: fold_keeps send_frame gap)

lemma friend_connection: "admissible C env \<Longrightarrow> I st \<Longrightarrow> I (NoteFriendConnectionForIdentity env n online st)"
  by (auto simp: NoteFriendConnectionForIdentity_def drop_challenges_of_def Let_def
      intro!: announce challenges drop_claims frame)

lemma missing_sub: "set (missing_loop st ps acc) \<subseteq> set ps \<union> set acc"
  by (induction st ps acc rule: missing_loop.induct) auto

lemma cached_lower: "I st \<Longrightarrow> (g, k) \<in> set (cached_peers st) \<Longrightarrow> lower k"
  using lower_tables(1) [of st] by (force simp: cached_peers_def lower_cache_def)

lemma sync: "admissible C env \<Longrightarrow> I st \<Longrightarrow> I (SyncMemberDigestIndex env st)"
proof -
  assume E: "admissible C env" and I: "I st"
  define st1 where "st1 = fold (\<lambda>(g, key). EraseIndexedGroupMemberLocked g key) (stale_members st) st"
  have I1: "I st1" unfolding st1_def by (rule fold_keeps) (auto simp: erase_indexed I)
  have low: "lower k" if "(g, k, d) \<in> set (computed_digests env (missing_loop st1 (cached_peers st1) []))" for g k d
    using that missing_sub [of st1 "cached_peers st1" "[]"] cached_lower [OF I1, of g k]
    by (auto simp: computed_digests_def set_map_filter split: option.splits)
  have "I (fold add_computed (computed_digests env (missing_loop st1 (cached_peers st1) [])) (others env 1 st1))"
    using low gap [OF E I1] by (intro fold_keeps) (auto simp: add_computed_def add_index split: prod.split)
  then show ?thesis using I I1 by (simp add: SyncMemberDigestIndex_def Let_def st1_def [symmetric])
qed

lemma issue_one: "admissible C env \<Longrightarrow> lower (cand_member c) \<Longrightarrow> I (fst acc) \<Longrightarrow> I (fst (issue_one env c acc))"
proof (cases acc)
  case (Pair st sends)
  assume E: "admissible C env" and l: "lower (cand_member c)" and "I (fst acc)"
  then have "I (others env 2 (st\<lparr>nonces_drawn := n\<rparr>))" for n using Pair by (simp add: gap frame)
  then have "I (fst (record_challenge now c nonce (others env 2 (st\<lparr>nonces_drawn := n\<rparr>))))" for now nonce n using l by (rule challenge)
  then show ?thesis using Pair \<open>I (fst acc)\<close>
    by (auto simp: issue_one_def Let_def case_prod_beta split: option.split bool.split)
qed

lemma issue: "admissible C env \<Longrightarrow> (\<And>c. c \<in> set cs \<Longrightarrow> lower (cand_member c)) \<Longrightarrow> I st \<Longrightarrow> I (IssueIdentityChallenges env cs st)"
proof -
  assume E: "admissible C env" and l: "\<And>c. c \<in> set cs \<Longrightarrow> lower (cand_member c)" and I: "I st"
  have "I (fst acc) \<Longrightarrow> I (fst (fold (issue_one env) cs acc))" for acc
    using E l by (induction cs arbitrary: acc) (simp_all add: issue_one)
  from this [of "(st, [])"] I have "I (fst (fold (issue_one env) cs (st, [])))" by simp
  then show ?thesis using I by (auto simp: IssueIdentityChallenges_def case_prod_beta intro!: fold_keeps send_frame)
qed

lemma resolve: "admissible C env \<Longrightarrow> I st \<Longrightarrow> I (fst (ResolveGroupPeerIdForKey env g k st))"
proof -
  assume E: "admissible C env" and I: "I st"
  have "I (ErasePeerIdCacheEntry g k s)" if "I s" for s
    using that lower_find(2) [OF lower_tables(1) [OF that]]
    by (auto simp: ErasePeerIdCacheEntry_def um_erase_filter intro!: frame lower_cache_put lower_tables split: option.split)
  then show ?thesis using I E by (simp add: ResolveGroupPeerIdForKey_def Let_def gap)
qed

lemma answer_keeps: "admissible C env \<Longrightarrow> I st \<Longrightarrow> I (answer_challenge env f k d st)"
proof -
  assume E: "admissible C env" and I: "I st"
  have a: "I (fst (admit_challenge now f d st))" for now using I by (rule admit)
  have "I s \<Longrightarrow> I (fst (ResolveGroupPeerIdForKey env g x (others env 4 s)))" for s g x
    using E by (intro resolve gap)
  with a have r: "I (fst (ResolveGroupPeerIdForKey env g x (others env 4 (fst (admit_challenge now f d st)))))" for g x now by blast
  then have "I (s\<lparr>group_packets := p\<rparr>)" if "s = fst (ResolveGroupPeerIdForKey env g x (others env 4 (fst (admit_challenge now f d st))))" for s g x now p
    using that by (simp add: frame)
  then show ?thesis using I E a r
    by (auto simp: answer_challenge_def Let_def case_prod_beta intro!: frame gap split: bool.split option.split)
qed

lemma candidates_lower: "I st \<Longrightarrow> c \<in> set (hint_candidates f added st) \<Longrightarrow> lower (cand_member c)"
proof -
  assume I: "I st" and "c \<in> set (hint_candidates f added st)"
  then obtain d ms g k where "um_find (member_digest_index st) d = Some ms" "(g, k) \<in> set ms" "cand_member c = k"
    by (auto simp: hint_candidates_def split: option.splits dest!: sym [of "Some _"])
  then show ?thesis using lower_find(1) [OF lower_tables(2) [OF I], of d ms "(g, k)"] by simp
qed

lemma hints: "admissible C env \<Longrightarrow> f \<noteq> [] \<Longrightarrow> I st \<Longrightarrow> I (handle_hints env f d st)"
proof -
  assume E: "admissible C env" and f: "f \<noteq> []" and I: "I st"
  have "I (fst (take_friend_budget now c l f (PruneIdentityStateLocked now' force st)))" for now now' c l force
    using I by (intro friend_budget prune)
  then have h: "I (fst (hint_loop now f ds [] (fst (take_friend_budget now' c l f (PruneIdentityStateLocked now'' force st)))))"
    for now now' now'' c l ds force by (intro hint_loop [OF f])
  then have "I (others env 7 (SyncMemberDigestIndex env (others env 6
      (fst (hint_loop now f ds [] (fst (take_friend_budget now' c l f (PruneIdentityStateLocked now'' force st))))))))"
    for now now' now'' c l ds force using E by (intro gap sync)
  then show ?thesis using E h \<open>\<And>now now' c l force. I (fst (take_friend_budget now c l f (PruneIdentityStateLocked now' force st)))\<close>
    by (auto simp: handle_hints_def Let_def case_prod_beta intro!: issue candidates_lower split: bool.split)
qed

lemma announcement: "admissible C env \<Longrightarrow> I st \<Longrightarrow> I (HandleGroupIdentityAnnouncement env n d st)"
proof -
  assume E: "admissible C env" and I: "I st"
  have "tox_bytes_to_hex k \<noteq> []" if "friend_key_of env n = Some k" for k
    using friend_keys [OF _ that] E [unfolded admissible_def] by (cases k) simp_all
  then show ?thesis using E I
    by (auto simp: HandleGroupIdentityAnnouncement_def Let_def answer_keeps hints split: option.split list.split)
qed

lemma match: "admissible C env \<Longrightarrow> I st \<Longrightarrow> I (MatchGroupIdentityDigests env g k st)"
proof -
  assume E: "admissible C env" and I: "I st"
  have "I (reindex_member g (LowerHex x) d st)" for x d
    using I by (auto simp: reindex_member_def Let_def intro!: add_index erase_indexed)
  then show ?thesis using E I
    by (auto simp: MatchGroupIdentityDigests_def Let_def intro!: issue split: option.split)
qed

lemma peer_join: "admissible C env \<Longrightarrow> I st \<Longrightarrow> I (peer_join_identity env g p k st)"
proof -
  assume E: "admissible C env" and I: "I st"
  let ?k = "LowerHex (tox_bytes_to_hex k)" and ?ps = "case um_find (peer_cache st) g of None \<Rightarrow> [] | Some ps \<Rightarrow> ps"
  have "lower (fst q)" if "q \<in> set (um_put ?k p ?ps)" for q
    using that set_um_put [of ?k p ?ps] lower_find(2) [OF lower_tables(1) [OF I], of g _ q]
    by (auto split: option.splits)
  then have "I (st\<lparr>peer_cache := um_put g (um_put ?k p ?ps) (peer_cache st)\<rparr>)"
    using I by (intro frame lower_cache_put lower_tables)
  then show ?thesis using E by (simp add: peer_join_identity_def Let_def match gap)
qed

lemma peer_exit: "admissible C env \<Longrightarrow> I st \<Longrightarrow> I (peer_exit_identity env g p b st)"
proof -
  assume E: "admissible C env" and I: "I st"
  have c: "I s \<Longrightarrow> I (EraseIndexedGroupMemberLocked g k (others env 9 s))" for s k using E by (intro erase_indexed gap)
  have d: "I s \<Longrightarrow> I (s\<lparr>pending_challenges := filter P (pending_challenges s),
      member_key_to_friend := um_erase k (member_key_to_friend s)\<rparr>)" for s P k
    using proven [of "s\<lparr>pending_challenges := filter P (pending_challenges s)\<rparr>" "\<lambda>e. fst e \<noteq> k"] challenges [of s P]
    by (simp add: um_erase_filter)
  have "I (st\<lparr>peer_cache := um_put g (filter P ps) (peer_cache st)\<rparr>)" if "um_find (peer_cache st) g = Some ps" for ps P
    using I lower_find(2) [OF lower_tables(1) [OF I] that] by (intro frame lower_cache_put lower_tables) auto
  then show ?thesis using I
    by (auto simp: peer_exit_identity_def Let_def intro!: c d challenges split: option.split list.split)
qed

lemma proof_packet: "admissible C env \<Longrightarrow> I st \<Longrightarrow> I (HandleGroupIdentityProof env g p d st)"
proof -
  assume E: "admissible C env" and I: "I st"
  have r: "I s \<Longrightarrow> I (reject_proof s)" for s by (simp add: reject_proof_def frame)
  have p: "I (PruneIdentityStateLocked now force (st\<lparr>diag := x\<rparr>))" for now x force using I by (intro prune frame)
  have a: "I (fst (admit_proof now g k x st))" for now k x
    using p sender [OF p] r by (auto simp: admit_proof_def Let_def case_prod_beta split: bool.split)
  have v: "I (verify_proof env g (LowerHex (tox_bytes_to_hex sk)) sk x c k (others env 10 (fst (admit_proof now g y x st))))"
    if "chat_id_of env g = Some c" "self_group_key_of env g = Some k" for sk x c k now y
    using verify [OF _ gap [OF E a] that] E [unfolded admissible_def] by blast
  show ?thesis using I a v
    by (auto simp: HandleGroupIdentityProof_def Let_def case_prod_beta split: option.split bool.split)
qed

lemma group_packet: "admissible C env \<Longrightarrow> I st \<Longrightarrow> I (HandleGroupCustomPrivatePacket env g p d st)"
  using receipt [of st "clock env"]
  by (auto simp: HandleGroupCustomPrivatePacket_def Let_def case_prod_beta intro!: proof_packet frame split: option.split)

lemma send_receipt: "admissible C env \<Longrightarrow> I st \<Longrightarrow> I (fst (SendGroupReceipt env gid a m t st))"
  using resolve [OF _ gap]
  by (auto simp: SendGroupReceipt_def Let_def case_prod_beta intro!: frame split: option.split)

lemma step_keeps: "identity_step C st st1 \<Longrightarrow> I st \<Longrightarrow> I st1"
  by (induction rule: identity_step.induct)
    (simp_all add: announce friend_connection purge announcement group_packet peer_join peer_exit send_receipt gap_run_keeps)

theorem reach_keeps: "identity_reach C st \<Longrightarrow> I st"
  by (induction rule: identity_reach.induct) (auto simp: init step_keeps)

end

end
