(* ===== verification/IdentityBounds.thy ===== *)
theory IdentityBounds
  imports IdentityInvariants
begin

text \<open>
  The bounds of the identity tables, and the agreement of the two indexes of the claims: which
  digests a friend claims, and which friends claim a digest.
\<close>

section \<open>Tables of lists\<close>

text \<open>An entry with no elements is not stored; \<open>digs\<close> reads a missing entry as empty.\<close>

definition digs :: "('k, 'a list) umap \<Rightarrow> 'k \<Rightarrow> 'a list" where
  "digs m k = (case um_find m k of None \<Rightarrow> [] | Some xs \<Rightarrow> xs)"

definition set_digs :: "'k \<Rightarrow> 'a list \<Rightarrow> ('k, 'a list) umap \<Rightarrow> ('k, 'a list) umap" where
  "set_digs k xs m = (if xs = [] then um_erase k m else um_put k xs m)"

definition total_len :: "('k, 'a list) umap \<Rightarrow> nat" where
  "total_len m = sum_list (map (\<lambda>e. length (snd e)) m)"

definition no_empty :: "('k, 'a list) umap \<Rightarrow> bool" where
  "no_empty m \<longleftrightarrow> (\<forall>e\<in>set m. snd e \<noteq> [])"

lemma digs_set [simp]: "digs (set_digs k xs m) j = (if j = k then xs else digs m j)"
  by (simp add: digs_def set_digs_def umap_simps)

lemma um_ok_set [simp]: "um_ok m \<Longrightarrow> um_ok (set_digs k xs m)"
  by (simp add: set_digs_def)

lemma no_empty_set: "no_empty m \<Longrightarrow> no_empty (set_digs k xs m)"
  using set_um_put [of k xs m] by (fastforce simp: no_empty_def set_digs_def um_erase_filter)

lemma digs_absent: "k \<notin> fst ` set m \<Longrightarrow> digs m k = []"
  by (simp add: digs_def map_of_eq_None_iff [THEN iffD2])

lemma total_erase: "um_ok m \<Longrightarrow> total_len (um_erase k m) + length (digs m k) = total_len m"
proof (induction m)
  case (Cons e m)
  obtain j xs where e: "e = (j, xs)" by (cases e)
  have ok: "um_ok m" "j \<notin> fst ` set m" using Cons.prems e by (auto simp: um_ok_def)
  show ?case
  proof (cases "j = k")
    case True
    then show ?thesis using ok e by (simp add: total_len_def digs_def delete_idem)
  next
    case False
    then show ?thesis using Cons.IH [OF ok(1)] e by (simp add: total_len_def digs_def)
  qed
qed (simp add: total_len_def digs_def)

lemma total_put: "um_ok m \<Longrightarrow> total_len (um_put k xs m) + length (digs m k) = total_len m + length xs"
proof (induction m)
  case (Cons e m)
  obtain j ys where e: "e = (j, ys)" by (cases e)
  have ok: "um_ok m" using Cons.prems e by (auto simp: um_ok_def)
  show ?case
  proof (cases "j = k")
    case True
    then show ?thesis using e by (simp add: total_len_def digs_def)
  next
    case False
    then show ?thesis using Cons.IH [OF ok] e by (simp add: total_len_def digs_def)
  qed
qed (simp add: total_len_def digs_def)

lemma total_set: "um_ok m \<Longrightarrow> total_len (set_digs k xs m) + length (digs m k) = total_len m + length xs"
  using total_erase [of m k] total_put [of m k xs] by (simp add: set_digs_def)

lemma digs_le_total: "um_ok m \<Longrightarrow> length (digs m k) \<le> total_len m"
  using total_erase [of m k] by linarith

lemma um_put_same: "um_find m k = Some v \<Longrightarrow> um_put k v m = m"
  by (induction m) (auto split: if_splits)

lemma um_erase_absent: "um_find m k = None \<Longrightarrow> um_erase k m = m"
  by (simp add: delete_idem map_of_eq_None_iff)

lemma set_digs_same: "no_empty m \<Longrightarrow> set_digs k (digs m k) m = m"
  by (auto simp: set_digs_def digs_def no_empty_def um_put_same um_erase_absent split: option.splits dest!: map_of_SomeD)

lemma length_um_erase: "um_ok m \<Longrightarrow> um_find m k \<noteq> None \<Longrightarrow> length (um_erase k m) + 1 = length m"
proof (induction m)
  case (Cons e m)
  obtain j v where e: "e = (j, v)" by (cases e)
  have ok: "um_ok m" "j \<notin> fst ` set m" using Cons.prems(1) e by (auto simp: um_ok_def)
  show ?case using Cons.IH [OF ok(1)] Cons.prems(2) e ok(2) by (auto simp: delete_idem)
qed simp

lemma length_um_put: "length (um_put k v m) = (if um_find m k = None then length m + 1 else length m)"
  by (induction m) auto

section \<open>Claims\<close>

definition claims_ok :: "identity_state \<Rightarrow> bool" where
  "claims_ok st \<longleftrightarrow>
     (let F = friend_group_digests st; D = digest_claimants st in
      um_ok F \<and> um_ok D \<and> no_empty F \<and> no_empty D \<and>
      (\<forall>f. um_ok (digs F f) \<and> length (digs F f) \<le> kMaxClaimsPerFriend) \<and>
      (\<forall>d. distinct (digs D d) \<and> length (digs D d) \<le> kMaxClaimantsPerDigest) \<and>
      (\<forall>f d. um_find (digs F f) d \<noteq> None \<longleftrightarrow> f \<in> set (digs D d)) \<and> digs F [] = [] \<and>
      identity_claim_count st = total_len F \<and> total_len F \<le> kMaxIdentityClaims)"

lemma claims_okD:
  assumes "claims_ok st"
  shows "um_ok (friend_group_digests st)" "um_ok (digest_claimants st)" "no_empty (friend_group_digests st)"
    "no_empty (digest_claimants st)" "um_ok (digs (friend_group_digests st) f)"
    "length (digs (friend_group_digests st) f) \<le> kMaxClaimsPerFriend" "distinct (digs (digest_claimants st) d)"
    "length (digs (digest_claimants st) d) \<le> kMaxClaimantsPerDigest"
    "um_find (digs (friend_group_digests st) f) d \<noteq> None \<longleftrightarrow> f \<in> set (digs (digest_claimants st) d)"
    "digs (friend_group_digests st) [] = []" "identity_claim_count st = total_len (friend_group_digests st)"
    "total_len (friend_group_digests st) \<le> kMaxIdentityClaims"
  using assms unfolding claims_ok_def Let_def by blast+

lemma erase_claimant_set: "no_empty m \<Longrightarrow> erase_claimant f d m = set_digs d (remove1 f (digs m d)) m"
  by (auto simp: erase_claimant_def set_digs_def digs_def um_erase_absent Let_def split: option.split)

lemma erase_claim_eq:
  assumes "claims_ok st"
  shows "EraseIdentityClaimLocked f d st =
    st\<lparr>identity_claim_count := identity_claim_count st - of_bool (um_find (digs (friend_group_digests st) f) d \<noteq> None),
       friend_group_digests := set_digs f (um_erase d (digs (friend_group_digests st) f)) (friend_group_digests st),
       digest_claimants := set_digs d (remove1 f (digs (digest_claimants st) d)) (digest_claimants st)\<rparr>"
proof (cases "um_find (friend_group_digests st) f")
  case None
  then show ?thesis using claims_okD(4) [OF assms]
    by (simp add: EraseIdentityClaimLocked_def digs_def set_digs_def um_erase_absent erase_claimant_set)
next
  case (Some ds)
  then have d: "digs (friend_group_digests st) f = ds" by (simp add: digs_def)
  show ?thesis using claims_okD(4) [OF assms] Some
    by (simp add: EraseIdentityClaimLocked_def Let_def d set_digs_def [of f] erase_claimant_set)
qed

lemma claims_ok_erase:
  assumes C: "claims_ok st" shows "claims_ok (EraseIdentityClaimLocked f d st)"
proof -
  note D = claims_okD [OF C]
  let ?F = "friend_group_digests st" and ?D = "digest_claimants st"
  let ?F' = "set_digs f (um_erase d (digs ?F f)) ?F" and ?D' = "set_digs d (remove1 f (digs ?D d)) ?D"
  have len: "length (um_erase d (digs ?F f)) + of_bool (um_find (digs ?F f) d \<noteq> None) = length (digs ?F f)"
    using length_um_erase [OF D(5), of f d] um_erase_absent [of "digs ?F f" d]
    by (cases "um_find (digs ?F f) d = None") auto
  have tot: "total_len ?F' = total_len ?F - of_bool (um_find (digs ?F f) d \<noteq> None)"
    using total_set [OF D(1), of f "um_erase d (digs ?F f)"] len by linarith
  have link: "um_find (digs ?F' g) e \<noteq> None \<longleftrightarrow> g \<in> set (digs ?D' e)" for g e
    using D(9) [of g e] D(7) [of d] by (auto simp: umap_simps)
  have "length (digs ?F' g) \<le> kMaxClaimsPerFriend" for g using D(6) [of g] D(6) [of f] len by simp
  moreover have "length (digs ?D' e) \<le> kMaxClaimantsPerDigest" "distinct (digs ?D' e)" for e
    using D(8) [of e] D(8) [of d] D(7) by (auto simp: length_remove1)
  moreover have "digs ?F' [] = []" using D(10) by simp
  moreover have "um_ok (digs ?F' g)" for g using D(5) by simp
  ultimately show ?thesis using D link tot
    unfolding erase_claim_eq [OF C] claims_ok_def Let_def by (simp add: no_empty_set)
qed

lemma fold_erase_claimant:
  assumes "no_empty m" "um_ok m" "distinct (map fst ds)"
  shows "no_empty (fold (\<lambda>e. erase_claimant f (fst e)) ds m) \<and> um_ok (fold (\<lambda>e. erase_claimant f (fst e)) ds m) \<and>
    (\<forall>d. digs (fold (\<lambda>e. erase_claimant f (fst e)) ds m) d =
       (if d \<in> fst ` set ds then remove1 f (digs m d) else digs m d))"
  using assms
proof (induction ds arbitrary: m)
  case (Cons e ds)
  have "no_empty (erase_claimant f (fst e) m)" "um_ok (erase_claimant f (fst e) m)"
    using Cons.prems by (simp_all add: erase_claimant_set no_empty_set)
  then show ?case using Cons.IH [of "erase_claimant f (fst e) m"] Cons.prems by (auto simp: erase_claimant_set)
qed simp

lemma claims_ok_drop:
  assumes C: "claims_ok st" shows "claims_ok (DropFriendIdentityClaimsLocked f st)"
proof (cases "um_find (friend_group_digests st) f")
  case None
  then show ?thesis using C by (simp add: DropFriendIdentityClaimsLocked_def)
next
  case (Some ds)
  note D = claims_okD [OF C]
  let ?F = "friend_group_digests st" and ?D = "digest_claimants st"
  have ds: "digs ?F f = ds" using Some by (simp add: digs_def)
  let ?F' = "um_erase f ?F" and ?D' = "fold (\<lambda>e. erase_claimant f (fst e)) ds ?D"
  have F': "?F' = set_digs f [] ?F" by (simp add: set_digs_def)
  have "distinct (map fst ds)" using D(5) [of f] ds by (simp add: um_ok_def)
  from fold_erase_claimant [OF D(4,2) this, of f]
  have D': "no_empty ?D'" "um_ok ?D'" "\<And>d. digs ?D' d = (if d \<in> fst ` set ds then remove1 f (digs ?D d) else digs ?D d)" by auto
  have tot: "total_len ?F' + length ds = total_len ?F" using total_erase [OF D(1), of f] ds by simp
  have link: "um_find (digs ?F' g) e \<noteq> None \<longleftrightarrow> g \<in> set (digs ?D' e)" for g e
  proof -
    have "e \<in> fst ` set ds \<longleftrightarrow> um_find ds e \<noteq> None" by (simp add: map_of_eq_None_iff)
    then show ?thesis using D(9) [of g e] D(9) [of f e] D(7) [of e] ds unfolding F' D'(3) by auto
  qed
  have "length (digs ?D' e) \<le> kMaxClaimantsPerDigest" "distinct (digs ?D' e)" for e
    using D(8) [of e] D(7) [of e] by (auto simp: D'(3) length_remove1)
  moreover have "digs ?F' [] = []" "um_ok (digs ?F' g)" "length (digs ?F' g) \<le> kMaxClaimsPerFriend" for g
    using D(10,5,6) unfolding F' by simp_all
  moreover have "(if identity_claim_count st > length ds then identity_claim_count st - length ds else 0) = total_len ?F'"
    using tot D(11) by auto
  moreover have "no_empty ?F'" "total_len ?F' \<le> kMaxIdentityClaims" using no_empty_set [OF D(3), of f "[]"] tot D(12) unfolding F' by simp_all
  ultimately show ?thesis using D Some D'(1,2) link
    by (simp add: DropFriendIdentityClaimsLocked_def claims_ok_def Let_def del: not_None_eq)
qed

lemma claims_ok_refresh:
  assumes C: "claims_ok st" and ds: "um_find (friend_group_digests st) f = Some ds" and d: "um_find ds d \<noteq> None"
  shows "claims_ok (st\<lparr>friend_group_digests := um_put f (um_put d now ds) (friend_group_digests st)\<rparr>)"
proof -
  note D = claims_okD [OF C]
  let ?F = "friend_group_digests st" and ?D = "digest_claimants st"
  have e: "digs ?F f = ds" using ds by (simp add: digs_def)
  have len: "length (um_put d now ds) = length ds" using d by (simp add: length_um_put)
  have ne: "um_put d now ds \<noteq> []" using len d by auto
  have F': "um_put f (um_put d now ds) ?F = set_digs f (um_put d now ds) ?F" using ne by (simp add: set_digs_def)
  have tot: "total_len (set_digs f (um_put d now ds) ?F) = total_len ?F"
    using total_set [OF D(1), of f "um_put d now ds"] len e by simp
  have "um_find (digs (set_digs f (um_put d now ds) ?F) g) x \<noteq> None \<longleftrightarrow> g \<in> set (digs ?D x)" for g x
    using D(9) [of g x] d e by (auto simp: umap_simps)
  moreover have "um_ok (um_put d now ds)" using D(5) [of f] e by simp
  moreover have "f \<noteq> []" using D(10) e d by auto
  ultimately show ?thesis using D e len tot
    unfolding F' by (auto simp: claims_ok_def Let_def no_empty_set simp del: not_None_eq)
qed

lemma evict_claim:
  assumes C: "claims_ok st" and f: "digs (friend_group_digests st) f \<noteq> []"
  shows "\<exists>d. evict_oldest_of f st = EraseIdentityClaimLocked f d st \<and> um_find (digs (friend_group_digests st) f) d \<noteq> None"
proof -
  obtain ds where ds: "um_find (friend_group_digests st) f = Some ds" "digs (friend_group_digests st) f = ds" "ds \<noteq> []"
    using f by (auto simp: digs_def split: option.splits)
  then obtain e where e: "oldest_by (\<lambda>t. t) ds = Some e" by (metis oldest_by_None not_Some_eq)
  then have "(fst e, snd e) \<in> set ds" using oldest_by_mem [OF e] by simp
  moreover have "um_ok ds" using claims_okD(5) [OF C, of f] ds by simp
  ultimately have "um_find ds (fst e) = Some (snd e)" using um_in_set_iff by metis
  then show ?thesis using ds e by (auto simp: evict_oldest_of_def)
qed

text \<open>After an eviction: one claim fewer, none added.\<close>

lemma evict_effect:
  assumes C: "claims_ok st" and f: "digs (friend_group_digests st) f \<noteq> []"
  shows "claims_ok (evict_oldest_of f st)"
    "total_len (friend_group_digests (evict_oldest_of f st)) + 1 = total_len (friend_group_digests st)"
    "length (digs (friend_group_digests (evict_oldest_of f st)) f) + 1 = length (digs (friend_group_digests st) f)"
    "length (digs (friend_group_digests (evict_oldest_of f st)) g) \<le> length (digs (friend_group_digests st) g)"
    "um_find (digs (friend_group_digests st) g) e = None \<Longrightarrow> um_find (digs (friend_group_digests (evict_oldest_of f st)) g) e = None"
    "length (digs (digest_claimants (evict_oldest_of f st)) e) \<le> length (digs (digest_claimants st) e)"
proof -
  note D = claims_okD [OF C]
  obtain d where eq: "evict_oldest_of f st = EraseIdentityClaimLocked f d st"
    and d: "um_find (digs (friend_group_digests st) f) d \<noteq> None" using evict_claim [OF C f] by blast
  have len: "length (um_erase d (digs (friend_group_digests st) f)) + 1 = length (digs (friend_group_digests st) f)"
    using length_um_erase [OF D(5) d] .
  have F: "friend_group_digests (evict_oldest_of f st) = set_digs f (um_erase d (digs (friend_group_digests st) f)) (friend_group_digests st)"
    and L: "digest_claimants (evict_oldest_of f st) = set_digs d (remove1 f (digs (digest_claimants st) d)) (digest_claimants st)"
    by (simp_all add: eq erase_claim_eq [OF C])
  show "claims_ok (evict_oldest_of f st)" unfolding eq by (rule claims_ok_erase [OF C])
  show "total_len (friend_group_digests (evict_oldest_of f st)) + 1 = total_len (friend_group_digests st)"
    using total_set [OF D(1), of f "um_erase d (digs (friend_group_digests st) f)"] len unfolding F by linarith
  show "length (digs (friend_group_digests (evict_oldest_of f st)) f) + 1 = length (digs (friend_group_digests st) f)"
    using len by (simp add: F)
  show "length (digs (friend_group_digests (evict_oldest_of f st)) g) \<le> length (digs (friend_group_digests st) g)"
    using len by (simp add: F)
  show "um_find (digs (friend_group_digests st) g) e = None \<Longrightarrow> um_find (digs (friend_group_digests (evict_oldest_of f st)) g) e = None"
    by (auto simp: F umap_simps)
  show "length (digs (digest_claimants (evict_oldest_of f st)) e) \<le> length (digs (digest_claimants st) e)"
    by (simp add: L length_remove1)
qed

lemma heaviest_fold:
  "let r = fold (\<lambda>(ow, ds) best. if length ds > snd best then (ow, length ds) else best) m b in
   snd r \<ge> snd b \<and> (\<forall>e\<in>set m. length (snd e) \<le> snd r) \<and> (r = b \<or> (\<exists>ds. (fst r, ds) \<in> set m \<and> length ds = snd r))"
proof (induction m arbitrary: b)
  case (Cons e m)
  obtain ow ds where e: "e = (ow, ds)" by (cases e)
  let ?b = "if length ds > snd b then (ow, length ds) else b"
  show ?case using Cons.IH [of ?b] e by (fastforce simp: Let_def)
qed simp

lemma heaviest_has:
  assumes C: "claims_ok st" and "total_len (friend_group_digests st) > 0"
  shows "heaviest st \<noteq> [] \<and> digs (friend_group_digests st) (heaviest st) \<noteq> []"
proof -
  let ?F = "friend_group_digests st"
  let ?r = "fold (\<lambda>(ow, ds) best. if length ds > snd best then (ow, length ds) else best) ?F ('''', 0)"
  have h: "heaviest st = fst ?r" by (simp add: heaviest_def)
  have "?F \<noteq> []" using assms(2) by (auto simp: total_len_def)
  then obtain e where "e \<in> set ?F" "snd e \<noteq> []" using claims_okD(3) [OF C] by (fastforce simp: no_empty_def neq_Nil_conv)
  then have "length (snd e) \<le> snd ?r" "length (snd e) > 0" using heaviest_fold [of ?F "('''', 0)"] by (auto simp: Let_def)
  then have pos: "snd ?r > 0" by linarith
  then obtain ds where ds: "(fst ?r, ds) \<in> set ?F" "length ds = snd ?r"
    using heaviest_fold [of ?F "('''', 0)"] by (fastforce simp: Let_def)
  then have "digs ?F (fst ?r) = ds" using claims_okD(1) [OF C] by (simp add: digs_def um_in_set_iff)
  then show ?thesis using ds(2) pos claims_okD(10) [OF C] h by fastforce
qed

text \<open>Inserting a claim where there is room.\<close>

lemma claims_ok_insert:
  assumes C: "claims_ok st" and f: "f \<noteq> []" and new: "um_find (digs (friend_group_digests st) f) d = None"
    and room: "length (digs (friend_group_digests st) f) < kMaxClaimsPerFriend"
      "length (digs (digest_claimants st) d) < kMaxClaimantsPerDigest" "identity_claim_count st < kMaxIdentityClaims"
  shows "claims_ok (st\<lparr>
    friend_group_digests := um_put f (um_emplace d now (digs (friend_group_digests st) f)) (friend_group_digests st),
    identity_claim_count := identity_claim_count st + 1,
    digest_claimants := um_put d (digs (digest_claimants st) d @ [f]) (digest_claimants st)\<rparr>)"
proof -
  note D = claims_okD [OF C]
  let ?F = "friend_group_digests st" and ?D = "digest_claimants st"
  let ?ds = "digs ?F f @ [(d, now)]" and ?fs = "digs ?D d @ [f]"
  have F': "um_put f (um_emplace d now (digs ?F f)) ?F = set_digs f ?ds ?F"
    using new by (simp add: set_digs_def emplace_absent)
  have D': "um_put d ?fs ?D = set_digs d ?fs ?D" by (simp add: set_digs_def)
  have tot: "total_len (set_digs f ?ds ?F) = total_len ?F + 1" using total_set [OF D(1), of f ?ds] by simp
  have nf: "f \<notin> set (digs ?D d)" using D(9) [of f d] new by simp
  have link: "um_find (digs (set_digs f ?ds ?F) g) e \<noteq> None \<longleftrightarrow> g \<in> set (digs (set_digs d ?fs ?D) e)" for g e
    using D(9) [of g e] D(9) [of f e] D(9) [of g d] new by (auto simp: map_add_def split: option.splits)
  have ok: "um_ok ?ds" using D(5) [of f] new by (auto simp: um_ok_def map_of_eq_None_iff)
  have "um_ok (digs (set_digs f ?ds ?F) g)" "length (digs (set_digs f ?ds ?F) g) \<le> kMaxClaimsPerFriend" for g
    using D(5,6) [of g] ok room(1) by auto
  moreover have "distinct (digs (set_digs d ?fs ?D) e)" "length (digs (set_digs d ?fs ?D) e) \<le> kMaxClaimantsPerDigest" for e
    using D(7,8) [of e] D(7) [of d] nf room(2) by auto
  moreover have "digs (set_digs f ?ds ?F) [] = []" using f D(10) by simp
  moreover have "total_len ?F + 1 \<le> kMaxIdentityClaims" using room(3) D(11) by simp
  ultimately show ?thesis using D(1-4,11) link tot
    unfolding F' D' claims_ok_def Let_def by (simp add: no_empty_set)
qed

lemma claims_ok_add:
  assumes C: "claims_ok st" and f: "f \<noteq> []" and new: "um_find (digs (friend_group_digests st) f) d = None"
    and room: "length (digs (digest_claimants st) d) < kMaxClaimantsPerDigest"
  shows "claims_ok (add_claim now f d st)"
proof -
  define st1 where "st1 = (if length (digs (friend_group_digests st) f) \<ge> kMaxClaimsPerFriend then evict_oldest_of f st else st)"
  define st2 where "st2 = (if identity_claim_count st1 \<ge> kMaxIdentityClaims
    then (if heaviest st1 \<noteq> [] then evict_oldest_of (heaviest st1) st1 else st1) else st1)"
  have ne: "digs (friend_group_digests st) f \<noteq> []" if "length (digs (friend_group_digests st) f) \<ge> kMaxClaimsPerFriend"
    using that by (auto simp: kMaxClaimsPerFriend_def)
  note e = evict_effect [OF C ne]
  have C1: "claims_ok st1" using C e(1) by (auto simp: st1_def)
  have r1: "length (digs (friend_group_digests st1) f) < kMaxClaimsPerFriend"
    using e(3) claims_okD(6) [OF C, of f] by (auto simp: st1_def)
  have n1: "um_find (digs (friend_group_digests st1) f) d = None" using new e(5) by (auto simp: st1_def)
  have l1: "length (digs (digest_claimants st1) d) < kMaxClaimantsPerDigest"
    using room e(6) [of d] by (fastforce simp: st1_def)
  have h: "heaviest st1 \<noteq> [] \<and> digs (friend_group_digests st1) (heaviest st1) \<noteq> []"
    if "identity_claim_count st1 \<ge> kMaxIdentityClaims"
    using that claims_okD(11) [OF C1] by (intro heaviest_has [OF C1]) (simp add: kMaxIdentityClaims_def)
  note e2 = evict_effect [OF C1 conjunct2 [OF h]]
  have C2: "claims_ok st2" using C1 e2(1) h by (auto simp: st2_def)
  have r2: "length (digs (friend_group_digests st2) f) < kMaxClaimsPerFriend"
    using r1 e2(4) [of f] h by (fastforce simp: st2_def)
  have n2: "um_find (digs (friend_group_digests st2) f) d = None" using n1 e2(5) h by (auto simp: st2_def)
  have l2: "length (digs (digest_claimants st2) d) < kMaxClaimantsPerDigest" using l1 e2(6) [of d] h by (fastforce simp: st2_def)
  have c2: "identity_claim_count st2 < kMaxIdentityClaims"
    using claims_okD(11) [OF C2] claims_okD(11,12) [OF C1] e2(2) h by (auto simp: st2_def)
  have nf: "f \<notin> set (digs (digest_claimants st2) d)" using claims_okD(9) [OF C2, of f d] n2 by simp
  have full: "(case um_find (friend_group_digests st) f of None \<Rightarrow> False | Some ds \<Rightarrow> kMaxClaimsPerFriend \<le> length ds) =
      (kMaxClaimsPerFriend \<le> length (digs (friend_group_digests st) f))"
    by (simp add: digs_def kMaxClaimsPerFriend_def split: option.split)
  have "add_claim now f d st = st2\<lparr>
    friend_group_digests := um_put f (um_emplace d now (digs (friend_group_digests st2) f)) (friend_group_digests st2),
    identity_claim_count := identity_claim_count st2 + 1,
    digest_claimants := um_put d (digs (digest_claimants st2) d @ [f]) (digest_claimants st2)\<rparr>"
    unfolding add_claim_def Let_def full digs_def [symmetric] st1_def [symmetric] st2_def [symmetric] using n2 nf by simp
  then show ?thesis using claims_ok_insert [OF C2 f n2 r2 l2 c2] by simp
qed

section \<open>Challenges\<close>

text \<open>
  At any moment \<open>T\<close> at most \<open>n\<close> of the challenges with property \<open>P\<close> are open (sent, and not older
  than the limit).
\<close>

definition open_at :: "int \<Rightarrow> identity_challenge \<Rightarrow> bool" where
  "open_at T p \<longleftrightarrow> ic_sent_at p \<le> T \<and> T - ic_sent_at p \<le> kIdentityChallengeTtl"

definition at_most_open :: "nat \<Rightarrow> (identity_challenge \<Rightarrow> bool) \<Rightarrow> (string, identity_challenge) umap \<Rightarrow> bool" where
  "at_most_open n P m \<longleftrightarrow> (\<forall>T. length (filter (\<lambda>e. P (snd e) \<and> open_at T (snd e)) m) \<le> n)"

abbreviation about_member :: "u32 \<Rightarrow> string \<Rightarrow> identity_challenge \<Rightarrow> bool" where
  "about_member g k p \<equiv> ic_group p = g \<and> ic_member_key p = k"

abbreviation of_friend :: "string \<Rightarrow> identity_challenge \<Rightarrow> bool" where
  "of_friend f p \<equiv> ic_friend_hex p = f"

definition pending_ok :: "(string, identity_challenge) umap \<Rightarrow> bool" where
  "pending_ok m \<longleftrightarrow> um_ok m \<and> length m \<le> kMaxPendingIdentityChallenges \<and> (\<forall>e\<in>set m. lower (ic_member_key (snd e))) \<and>
     (\<forall>g k. at_most_open kMaxClaimantsPerDigest (about_member g k) m) \<and>
     (\<forall>f. at_most_open kMaxPendingChallengesPerFriend (of_friend f) m)"

lemma length_filter_filter: "length (filter A (filter B xs)) \<le> length (filter A xs)"
  by (induction xs) auto

lemma length_filter_mono: "(\<And>x. x \<in> set xs \<Longrightarrow> A x \<Longrightarrow> B x) \<Longrightarrow> length (filter A xs) \<le> length (filter B xs)"
  by (induction xs) (auto simp: le_SucI)

lemma length_filter_put: "length (filter A (um_put k v m)) \<le> length (filter A m) + of_bool (A (k, v))"
  by (induction m) auto

lemma at_most_open_filter: "at_most_open n P m \<Longrightarrow> at_most_open n P (filter B m)"
  unfolding at_most_open_def using length_filter_filter order_trans by blast

lemma pending_ok_filter: "pending_ok m \<Longrightarrow> pending_ok (filter B m)"
  unfolding pending_ok_def
  by (auto simp: at_most_open_filter intro: order_trans [OF length_filter_le])

lemma at_most_open_put:
  assumes m: "at_most_open n P m"
    and guard: "P c \<Longrightarrow> length (filter (\<lambda>p. P p \<and> \<not> now - ic_sent_at p > kIdentityChallengeTtl) (map snd m)) < n"
    and now: "ic_sent_at c = now"
  shows "at_most_open n P (um_put k c m)"
  unfolding at_most_open_def
proof
  fix T
  let ?A = "\<lambda>e :: string \<times> identity_challenge. P (snd e) \<and> open_at T (snd e)"
  note put = length_filter_put [of ?A k c m]
  have le: "length (filter ?A m) \<le> n" using m by (simp add: at_most_open_def)
  show "length (filter ?A (um_put k c m)) \<le> n"
  proof (cases "P c \<and> now \<le> T")
    case True
    have "length (filter ?A m) \<le> length (filter (\<lambda>e. P (snd e) \<and> \<not> now - ic_sent_at (snd e) > kIdentityChallengeTtl) m)"
      by (rule length_filter_mono) (use True in \<open>auto simp: open_at_def\<close>)
    also have "\<dots> < n" using guard True by (simp add: filter_map comp_def)
    finally show ?thesis using put le_trans [OF put] by auto
  next
    case False
    then show ?thesis using put le now by (auto simp: open_at_def)
  qed
qed

lemma pending_ok_record:
  assumes m: "pending_ok (pending_challenges st)" and l: "lower (cand_member c)"
  shows "pending_ok (pending_challenges (fst (record_challenge now c nonce st)))"
proof (cases "snd (record_challenge now c nonce st)")
  case False
  then show ?thesis using m by (auto simp: record_challenge_def Let_def split: if_splits)
next
  case True
  let ?m = "pending_challenges st"
  let ?p = "\<lparr>ic_friend_hex = cand_friend c, ic_group = cand_group c, ic_member_key = LowerHex (cand_member c), ic_sent_at = now\<rparr>"
  define m1 where "m1 = (if length ?m \<ge> kMaxPendingIdentityChallenges
    then case oldest_by ic_sent_at ?m of None \<Rightarrow> ?m | Some oldest \<Rightarrow> um_erase (fst oldest) ?m else ?m)"
  have st: "pending_challenges (fst (record_challenge now c nonce st)) = um_put (tox_bytes_to_hex nonce) ?p m1"
    and gf: "pending_for_friend now c st < kMaxPendingChallengesPerFriend" and gm: "pending_for_member now c st < kMaxClaimantsPerDigest"
    using True by (auto simp: record_challenge_def m1_def Let_def split: if_splits)
  define B :: "string \<times> identity_challenge \<Rightarrow> bool" where "B = (\<lambda>e. \<not> (length ?m \<ge> kMaxPendingIdentityChallenges \<and>
    oldest_by ic_sent_at ?m \<noteq> None \<and> fst e = fst (the (oldest_by ic_sent_at ?m))))"
  have B: "m1 = filter B ?m"
    by (cases "oldest_by ic_sent_at ?m") (auto simp: m1_def B_def um_erase_filter)
  have m1: "pending_ok m1" unfolding B by (rule pending_ok_filter [OF m])
  have ok: "um_ok ?m" "length ?m \<le> kMaxPendingIdentityChallenges" using m by (auto simp: pending_ok_def)
  have len: "length m1 < kMaxPendingIdentityChallenges"
  proof (cases "length ?m \<ge> kMaxPendingIdentityChallenges")
    case True
    then obtain e where e: "oldest_by ic_sent_at ?m = Some e" by (cases ?m) (auto simp: kMaxPendingIdentityChallenges_def)
    then have "um_find ?m (fst e) \<noteq> None" using oldest_by_mem [OF e] ok(1) by (metis option.distinct(1) prod.collapse um_in_set_iff)
    then show ?thesis using length_um_erase [OF ok(1), of "fst e"] ok(2) e True by (simp add: m1_def)
  qed (simp add: m1_def)
  have shrink: "length (filter A (map snd m1)) \<le> length (filter A (map snd ?m))" for A
    unfolding B by (simp add: filter_map comp_def length_filter_filter del: filter_filter)
  have "at_most_open kMaxClaimantsPerDigest (about_member g k) (um_put (tox_bytes_to_hex nonce) ?p m1)" for g k
  proof (rule at_most_open_put [where now = now])
    show "at_most_open kMaxClaimantsPerDigest (about_member g k) m1" using m1 by (simp add: pending_ok_def)
    assume "about_member g k ?p"
    then have "g = cand_group c" "k = cand_member c" using l by auto
    then show "length (filter (\<lambda>p. about_member g k p \<and> \<not> now - ic_sent_at p > kIdentityChallengeTtl) (map snd m1)) < kMaxClaimantsPerDigest"
      using le_less_trans [OF shrink] gm by (simp add: pending_for_member_def open_challenges_def same_member_def conj_ac)
  qed simp
  moreover have "at_most_open kMaxPendingChallengesPerFriend (of_friend f) (um_put (tox_bytes_to_hex nonce) ?p m1)" for f
  proof (rule at_most_open_put [where now = now])
    show "at_most_open kMaxPendingChallengesPerFriend (of_friend f) m1" using m1 by (simp add: pending_ok_def)
    assume "of_friend f ?p"
    then show "length (filter (\<lambda>p. of_friend f p \<and> \<not> now - ic_sent_at p > kIdentityChallengeTtl) (map snd m1)) < kMaxPendingChallengesPerFriend"
      using le_less_trans [OF shrink] gf by (simp add: pending_for_friend_def open_challenges_def conj_ac)
  qed simp
  moreover have "\<forall>e\<in>set (um_put (tox_bytes_to_hex nonce) ?p m1). lower (ic_member_key (snd e))"
    using m1 set_um_put [of "tox_bytes_to_hex nonce" ?p m1] by (fastforce simp: pending_ok_def)
  ultimately show ?thesis using m1 len unfolding st pending_ok_def by (auto simp: length_um_put)
qed

section \<open>Replay caches\<close>

text \<open>The deque holds the keys of the map, each once.\<close>

definition cache_ok :: "nat \<Rightarrow> (int \<times> string) list \<Rightarrow> (string, int) umap \<Rightarrow> bool" where
  "cache_ok cap q m \<longleftrightarrow> um_ok m \<and> distinct (map snd q) \<and> snd ` set q = fst ` set m \<and> length m \<le> cap"

lemma cache_ok_pop: "cache_ok cap (e # q) m \<Longrightarrow> cache_ok cap q (um_erase (snd e) m)"
proof -
  assume C: "cache_ok cap (e # q) m"
  then have "snd e \<notin> snd ` set q" "insert (snd e) (snd ` set q) = fst ` set m" by (auto simp: cache_ok_def)
  then have "snd ` set q = fst ` set m - {snd e}" by blast
  then show ?thesis using C length_delete_le [of "snd e" m] by (simp add: cache_ok_def)
qed

lemma cache_ok_expire:
  "cache_ok cap q m \<Longrightarrow> cache_ok cap (fst (expire_front now ttl q m)) (snd (expire_front now ttl q m))"
  by (induction now ttl q m rule: expire_front.induct) (auto dest: cache_ok_pop)

lemma cache_ok_room:
  "cache_ok cap q m \<Longrightarrow> cap > 0 \<Longrightarrow> case make_room cap q m of (q1, m1) \<Rightarrow>
     cache_ok cap q1 m1 \<and> length m1 < cap \<and> fst ` set m1 \<subseteq> fst ` set m"
proof (induction cap q m rule: make_room.induct)
  case (1 cap m)
  then show ?case by (auto simp: cache_ok_def)
next
  case (2 cap e q m)
  show ?case
  proof (cases "length m \<ge> cap")
    case True
    obtain q1 m1 where r: "make_room cap q (um_erase (snd e) m) = (q1, m1)" by (metis surj_pair)
    have "cache_ok cap q1 m1 \<and> length m1 < cap \<and> fst ` set m1 \<subseteq> fst ` set m - {snd e}"
      using 2(1) [OF True cache_ok_pop [OF 2(2)] 2(3)] r by simp
    then show ?thesis using True r by auto
  next
    case False
    then show ?thesis using 2 by simp
  qed
qed

lemma cache_ok_add:
  assumes "cache_ok cap q m" "cap > 0" "um_find m k = None" "make_room cap q m = (q1, m1)"
  shows "cache_ok cap (q1 @ [(now, k)]) (um_emplace k now m1)"
proof -
  have c: "cache_ok cap q1 m1" "length m1 < cap" "fst ` set m1 \<subseteq> fst ` set m" using cache_ok_room [OF assms(1,2)] assms(4) by auto
  then have "um_find m1 k = None" using assms(3) by (auto simp: map_of_eq_None_iff)
  then show ?thesis using c(1,2) by (auto simp: cache_ok_def emplace_absent um_ok_def map_of_eq_None_iff)
qed

section \<open>The invariant\<close>

definition id_inv :: "identity_state \<Rightarrow> bool" where
  "id_inv st \<longleftrightarrow> claims_ok st \<and> pending_ok (pending_challenges st) \<and>
     um_ok (member_key_to_friend st) \<and> length (member_key_to_friend st) \<le> kMaxProvenMembers \<and>
     cache_ok kMaxAnsweredChallenges (answered_order st) (answered_challenges st) \<and>
     cache_ok kMaxSeenGroupReceipts (seen_order st) (seen_receipts st) \<and>
     um_ok (rate_by_group_sender st) \<and> length (rate_by_group_sender st) \<le> kMaxProofVerifySenders \<and>
     um_ok (receipt_rate_by_sender st) \<and> length (receipt_rate_by_sender st) \<le> kMaxGroupReceiptSenders \<and>
     lower_cache (peer_cache st) \<and> lower_index (member_digest_index st)"

text \<open>What is asked of toxcore: its public keys are not empty.\<close>

definition keys_env :: "tox_env \<Rightarrow> bool" where
  "keys_env env \<longleftrightarrow> (\<forall>n k. friend_key_of env n = Some k \<longrightarrow> k \<noteq> [])"

lemma claims_ok_cong:
  "friend_group_digests s = friend_group_digests t \<Longrightarrow> digest_claimants s = digest_claimants t \<Longrightarrow>
   identity_claim_count s = identity_claim_count t \<Longrightarrow> claims_ok s = claims_ok t"
  by (simp add: claims_ok_def Let_def)

text \<open>A change of the other fields.\<close>

lemma id_inv_cong:
  assumes "friend_group_digests s = friend_group_digests t" "digest_claimants s = digest_claimants t"
    "identity_claim_count s = identity_claim_count t" "pending_challenges s = pending_challenges t"
    "member_key_to_friend s = member_key_to_friend t" "answered_order s = answered_order t"
    "answered_challenges s = answered_challenges t" "seen_order s = seen_order t" "seen_receipts s = seen_receipts t"
    "rate_by_group_sender s = rate_by_group_sender t" "receipt_rate_by_sender s = receipt_rate_by_sender t"
    "peer_cache s = peer_cache t" "member_digest_index s = member_digest_index t"
  shows "id_inv s = id_inv t"
  using assms claims_ok_cong [of s t] by (simp add: id_inv_def)

text \<open>A change of the claims only.\<close>

lemma id_inv_claims:
  assumes "id_inv st" "claims_ok s" "pending_challenges s = pending_challenges st"
    "member_key_to_friend s = member_key_to_friend st" "answered_order s = answered_order st"
    "answered_challenges s = answered_challenges st" "seen_order s = seen_order st" "seen_receipts s = seen_receipts st"
    "rate_by_group_sender s = rate_by_group_sender st" "receipt_rate_by_sender s = receipt_rate_by_sender st"
    "peer_cache s = peer_cache st" "member_digest_index s = member_digest_index st"
  shows "id_inv s"
  using assms by (simp add: id_inv_def)

lemma id_inv_erase_claim: "id_inv st \<Longrightarrow> id_inv (EraseIdentityClaimLocked f d st)"
  by (rule id_inv_claims, assumption, simp add: claims_ok_erase id_inv_def)
    (simp_all add: EraseIdentityClaimLocked_def Let_def split: option.split)

lemma id_inv_drop_claims: "id_inv st \<Longrightarrow> id_inv (DropFriendIdentityClaimsLocked f st)"
  by (rule id_inv_claims, assumption, simp add: claims_ok_drop id_inv_def)
    (simp_all add: DropFriendIdentityClaimsLocked_def split: option.split)

lemma id_inv_prune: "id_inv st \<Longrightarrow> id_inv (PruneIdentityStateLocked now force st)"
proof -
  assume I: "id_inv st"
  define st1 where "st1 = fold (\<lambda>(f, d). EraseIdentityClaimLocked f d) (expired_claims now st) (st\<lparr>last_prune := now\<rparr>)"
  have "id_inv (st\<lparr>last_prune := now\<rparr>)" using I id_inv_cong [of "st\<lparr>last_prune := now\<rparr>" st] by simp
  then have I1: "id_inv st1"
    unfolding st1_def by (rule fold_invariant [where Q = "\<lambda>_. True", OF TrueI]) (auto simp: id_inv_erase_claim)
  then have "claims_ok st1" "pending_ok (pending_challenges st1)" by (auto simp: id_inv_def)
  then show ?thesis using I I1
    by (auto simp: PruneIdentityStateLocked_def Let_def st1_def [symmetric] case_prod_beta id_inv_def pending_ok_filter
        cache_ok_expire intro: order_trans [OF length_filter_le] claims_ok_cong [THEN iffD1, rotated 3])
qed

lemma id_inv_friend_budget: "id_inv st \<Longrightarrow> id_inv (fst (take_friend_budget now c l f st))"
  using id_inv_cong [of "fst (take_friend_budget now c l f st)" st] by (simp add: take_friend_budget_def case_prod_beta)

lemma id_inv_global_budget: "id_inv st \<Longrightarrow> id_inv (fst (take_global_budget now c l st))"
  using id_inv_cong [of "fst (take_global_budget now c l st)" st] by (simp add: take_global_budget_def case_prod_beta)

lemma id_inv_both_budgets: "id_inv st \<Longrightarrow> id_inv (fst (take_both_budgets now c l g f st))"
  by (simp add: take_both_budgets_def case_prod_beta id_inv_friend_budget id_inv_global_budget split: bool.split)

lemma both_budgets_answered:
  "answered_order (fst (take_both_budgets now c l g f st)) = answered_order st"
  "answered_challenges (fst (take_both_budgets now c l g f st)) = answered_challenges st"
  by (simp_all add: take_both_budgets_def take_friend_budget_def take_global_budget_def case_prod_beta split: bool.split)

lemma id_inv_admit: "id_inv st \<Longrightarrow> id_inv (fst (admit_challenge now f data st))"
proof -
  assume I: "id_inv st"
  let ?k = "challenge_replay_key f data" and ?p = "PruneIdentityStateLocked now False st"
  have Ip: "id_inv ?p" using I by (rule id_inv_prune)
  obtain st2 b where b: "take_both_budgets now ProofsSent kMaxProofsPerFriend kMaxProofsGlobal f ?p = (st2, b)" by (metis surj_pair)
  have I2: "id_inv st2" using id_inv_both_budgets [OF Ip] b by (metis fst_conv)
  have same: "answered_order st2 = answered_order ?p" "answered_challenges st2 = answered_challenges ?p"
    using both_budgets_answered [of now ProofsSent kMaxProofsPerFriend kMaxProofsGlobal f ?p] b by simp_all
  obtain q m where r: "make_room kMaxAnsweredChallenges (answered_order st2) (answered_challenges st2) = (q, m)" by (metis surj_pair)
  have "cache_ok kMaxAnsweredChallenges (q @ [(now, ?k)]) (um_emplace ?k now m)" if "um_find (answered_challenges ?p) ?k = None"
    by (rule cache_ok_add [OF _ _ _ r]) (use I2 that same in \<open>simp_all add: id_inv_def kMaxAnsweredChallenges_def\<close>)
  then have "id_inv (st2\<lparr>answered_challenges := um_emplace ?k now m, answered_order := q @ [(now, ?k)]\<rparr>)"
    if "um_find (answered_challenges ?p) ?k = None"
    using I2 that claims_ok_cong [of "st2\<lparr>answered_challenges := um_emplace ?k now m, answered_order := q @ [(now, ?k)]\<rparr>" st2]
    by (simp add: id_inv_def)
  then show ?thesis using Ip I2 b r by (auto simp: admit_challenge_def Let_def split: bool.split)
qed

lemma id_inv_sender: "id_inv st \<Longrightarrow> id_inv (fst (TakeGroupSenderProofBudgetLocked k now st))"
proof -
  assume I: "id_inv st"
  have "id_inv (st\<lparr>rate_by_group_sender := um_put k w (rate_by_group_sender st)\<rparr>)"
    if "\<not> (um_find (rate_by_group_sender st) k = None \<and> length (rate_by_group_sender st) \<ge> kMaxProofVerifySenders)" for w
    using I that claims_ok_cong [of "st\<lparr>rate_by_group_sender := um_put k w (rate_by_group_sender st)\<rparr>" st]
    by (auto simp: id_inv_def length_um_put)
  then show ?thesis using I by (auto simp: TakeGroupSenderProofBudgetLocked_def Let_def case_prod_beta)
qed

lemma length_put_evict:
  assumes "um_ok m" "length m \<le> cap" "cap > 0"
  shows "um_ok (if um_find m k = None \<and> length m \<ge> cap then case oldest_by h m of None \<Rightarrow> m | Some e \<Rightarrow> um_erase (fst e) m else m) \<and>
    length (um_put k v (if um_find m k = None \<and> length m \<ge> cap then case oldest_by h m of None \<Rightarrow> m | Some e \<Rightarrow> um_erase (fst e) m else m)) \<le> cap"
proof (cases "um_find m k = None \<and> length m \<ge> cap")
  case True
  then obtain e where e: "oldest_by h m = Some e" using assms(3) by (cases m) auto
  then have "um_find m (fst e) \<noteq> None" using oldest_by_mem [OF e] assms(1) by (metis option.distinct(1) prod.collapse um_in_set_iff)
  from length_um_erase [OF assms(1) this] show ?thesis using e True assms(1,2) by (auto simp: length_um_put)
next
  case False
  then show ?thesis using assms by (auto simp: length_um_put)
qed

lemma id_inv_accept: "id_inv st \<Longrightarrow> id_inv (accept_proof now g s f st)"
proof -
  assume I: "id_inv st"
  let ?st = "accept_proof now g s f st"
  have "um_ok (member_key_to_friend ?st)" "length (member_key_to_friend ?st) \<le> kMaxProvenMembers"
    using I length_put_evict [of "member_key_to_friend st" kMaxProvenMembers s pm_proven_at]
    by (auto simp: accept_proof_def Let_def id_inv_def kMaxProvenMembers_def)
  moreover have "pending_ok (pending_challenges ?st)"
    using I by (simp add: accept_proof_def Let_def id_inv_def pending_ok_filter)
  moreover have "claims_ok ?st" using I claims_ok_cong [of ?st st] by (simp add: accept_proof_def Let_def id_inv_def)
  ultimately show ?thesis using I by (simp add: id_inv_def) (simp add: accept_proof_def Let_def)
qed

lemma id_inv_record: "id_inv st \<Longrightarrow> lower (cand_member c) \<Longrightarrow> id_inv (fst (record_challenge now c nonce st))"
proof -
  assume I: "id_inv st" and l: "lower (cand_member c)"
  let ?st = "fst (record_challenge now c nonce st)"
  have "pending_ok (pending_challenges ?st)" using I l by (simp add: id_inv_def pending_ok_record)
  moreover have "claims_ok ?st" using I claims_ok_cong [of ?st st] by (simp add: record_challenge_def Let_def id_inv_def)
  ultimately show ?thesis using I by (simp add: id_inv_def) (simp add: record_challenge_def Let_def)
qed

lemma evict_fields [simp]:
  "pending_challenges (evict_oldest_of x s) = pending_challenges s"
  "member_key_to_friend (evict_oldest_of x s) = member_key_to_friend s"
  "answered_order (evict_oldest_of x s) = answered_order s" "answered_challenges (evict_oldest_of x s) = answered_challenges s"
  "seen_order (evict_oldest_of x s) = seen_order s" "seen_receipts (evict_oldest_of x s) = seen_receipts s"
  "rate_by_group_sender (evict_oldest_of x s) = rate_by_group_sender s"
  "receipt_rate_by_sender (evict_oldest_of x s) = receipt_rate_by_sender s"
  "peer_cache (evict_oldest_of x s) = peer_cache s" "member_digest_index (evict_oldest_of x s) = member_digest_index s"
  by (simp_all add: evict_oldest_of_def EraseIdentityClaimLocked_def Let_def split: option.split)

lemma id_inv_add_claim:
  assumes I: "id_inv st" and f: "f \<noteq> []" and new: "\<And>ds. um_find (friend_group_digests st) f = Some ds \<Longrightarrow> um_find ds d = None"
    and room: "\<And>fs. um_find (digest_claimants st) d = Some fs \<Longrightarrow> length fs < kMaxClaimantsPerDigest"
  shows "id_inv (add_claim now f d st)"
proof (rule id_inv_claims [OF I])
  show "claims_ok (add_claim now f d st)"
    using I f new room by (intro claims_ok_add) (auto simp: id_inv_def digs_def kMaxClaimantsPerDigest_def split: option.split)
qed (simp_all add: add_claim_def Let_def)

lemma id_inv_refresh:
  assumes "id_inv st" "um_find (friend_group_digests st) f = Some ds" "um_find ds d \<noteq> None"
  shows "id_inv (st\<lparr>friend_group_digests := um_put f (um_put d now ds) (friend_group_digests st)\<rparr>)"
  by (rule id_inv_claims [OF assms(1) claims_ok_refresh [OF _ assms(2,3)]]) (use assms(1) in \<open>simp_all add: id_inv_def\<close>)

lemma id_inv_frames:
  "id_inv (st\<lparr>friend_frames := a\<rparr>) = id_inv st" "id_inv (st\<lparr>group_packets := b\<rparr>) = id_inv st" "id_inv (st\<lparr>diag := c\<rparr>) = id_inv st"
  "id_inv (st\<lparr>nonces_drawn := n\<rparr>) = id_inv st" "id_inv (st\<lparr>online_identity_friends := d\<rparr>) = id_inv st"
  "id_inv (st\<lparr>rate_global := w\<rparr>) = id_inv st" "id_inv (st\<lparr>rate_by_friend := e\<rparr>) = id_inv st"
  "id_inv (st\<lparr>member_digest_by_slot := s\<rparr>) = id_inv st" "id_inv (st\<lparr>group_actions := g\<rparr>) = id_inv st"
  "id_inv (st\<lparr>receipt_rate_global := v\<rparr>) = id_inv st" "id_inv (st\<lparr>group_ids := i, group_numbers := j\<rparr>) = id_inv st"
  by (rule id_inv_cong; simp)+

lemma id_inv_lower: "id_inv st \<Longrightarrow> lower_cache (peer_cache st)" "id_inv st \<Longrightarrow> lower_index (member_digest_index st)"
  by (simp_all add: id_inv_def)

lemma id_inv_clear: "id_inv (clear_identity st)"
  by (simp add: id_inv_def clear_identity_def claims_ok_def pending_ok_def cache_ok_def lower_cache_def lower_index_def at_most_open_def
      digs_def total_len_def no_empty_def Let_def)

lemma id_inv_init: "id_inv identity_init"
  by (simp add: id_inv_def identity_init_def claims_ok_def pending_ok_def cache_ok_def lower_cache_def lower_index_def at_most_open_def
      digs_def total_len_def no_empty_def Let_def)

lemma id_inv_receipt_sender: "id_inv st \<Longrightarrow> id_inv (fst (TakeGroupSenderReceiptBudgetLocked k now st))"
proof -
  assume I: "id_inv st"
  have "id_inv (st\<lparr>receipt_rate_by_sender := um_put k w (receipt_rate_by_sender st)\<rparr>)"
    if "\<not> (um_find (receipt_rate_by_sender st) k = None \<and> length (receipt_rate_by_sender st) \<ge> kMaxGroupReceiptSenders)" for w
    using I that claims_ok_cong [of "st\<lparr>receipt_rate_by_sender := um_put k w (receipt_rate_by_sender st)\<rparr>" st]
    by (auto simp: id_inv_def length_um_put um_ok_put)
  then show ?thesis using I
    by (auto simp: TakeGroupSenderReceiptBudgetLocked_def Let_def split: prod.split)
qed

lemma id_inv_receipt: "id_inv st \<Longrightarrow> id_inv (fst (admit_receipt now g k r st))"
proof -
  assume I: "id_inv st"
  let ?p = "PruneIdentityStateLocked now False (st\<lparr>diag := (diag st)\<lparr>d_receipts_in := d_receipts_in (diag st) + 1\<rparr>\<rparr>)"
  obtain st2 b where b: "TakeGroupSenderReceiptBudgetLocked k now ?p = (st2, b)" by (metis surj_pair)
  have "id_inv ?p" using I by (intro id_inv_prune) (simp add: id_inv_frames)
  then have I2: "id_inv st2" using id_inv_receipt_sender [of ?p k now] b by simp
  have "id_inv (st2\<lparr>receipt_rate_global := w, seen_receipts := um_emplace key now m, seen_order := q @ [(now, key)], diag := d\<rparr>)"
    if "um_find (seen_receipts st2) key = None" "make_room kMaxSeenGroupReceipts (seen_order st2) (seen_receipts st2) = (q, m)" for key q m w d
  proof -
    have "cache_ok kMaxSeenGroupReceipts (q @ [(now, key)]) (um_emplace key now m)"
      by (rule cache_ok_add [OF _ _ that]) (use I2 in \<open>simp_all add: id_inv_def kMaxSeenGroupReceipts_def\<close>)
    then show ?thesis
      using I2 claims_ok_cong [of "st2\<lparr>receipt_rate_global := w, seen_receipts := um_emplace key now m, seen_order := q @ [(now, key)], diag := d\<rparr>" st2]
      by (simp add: id_inv_def)
  qed
  then show ?thesis using I2 b
    by (auto simp: admit_receipt_def Let_def id_inv_frames split: bool.split prod.split option.split)
qed

interpretation bounded: identity_invariant id_inv keys_env
proof
  show "id_inv (st\<lparr>pending_challenges := filter P (pending_challenges st)\<rparr>)" if "id_inv st" for st P
    using that claims_ok_cong [of "st\<lparr>pending_challenges := filter P (pending_challenges st)\<rparr>" st]
    by (simp add: id_inv_def pending_ok_filter)
  show "id_inv (st\<lparr>member_key_to_friend := filter P (member_key_to_friend st)\<rparr>)" if "id_inv st" for st P
    using that claims_ok_cong [of "st\<lparr>member_key_to_friend := filter P (member_key_to_friend st)\<rparr>" st]
    by (auto simp: id_inv_def intro: order_trans [OF length_filter_le])
  show "id_inv (st\<lparr>peer_cache := pc\<rparr>)" if "id_inv st" "lower_cache pc" for st pc
    using that claims_ok_cong [of "st\<lparr>peer_cache := pc\<rparr>" st] by (simp add: id_inv_def)
  show "id_inv (st\<lparr>member_digest_index := mi\<rparr>)" if "id_inv st" "lower_index mi" for st mi
    using that claims_ok_cong [of "st\<lparr>member_digest_index := mi\<rparr>" st] by (simp add: id_inv_def)
qed (auto simp: keys_env_def id_inv_init id_inv_clear id_inv_receipt id_inv_frames id_inv_lower id_inv_prune id_inv_drop_claims id_inv_refresh id_inv_add_claim
      id_inv_record id_inv_admit id_inv_sender id_inv_accept)

end
