(* ===== verification/IdentityProperties.thy ===== *)
theory IdentityProperties
  imports IdentityBounds
begin

text \<open>
  The properties of the group identity protocol: the tables stay within their limits, an open
  challenge is never lost to the limit on candidates, a member is mapped to a friend only on a
  box that friend sealed for us about that member, and an honest answer is accepted.
\<close>

section \<open>Bounds\<close>

text \<open>
  C8. In every state the object can reach, under any interleaving of its handlers, the identity
  tables stay within their limits: at most 256 open challenges, at most 8 of them open at any
  moment about one member and 32 to one friend, at most 256 claims per friend, 8 claimants per
  digest and 4096 claims in all (which is what the running count says), at most 4096 proven
  members, 1024 answered challenges and 4096 seen receipts, and at most 1024 metered senders of
  proofs and of receipts. The two indexes of the claims agree.
\<close>

theorem identity_tables_bounded:
  assumes "identity_reach keys_env st"
  shows "length (pending_challenges st) \<le> 256 \<and>
    (\<forall>T g k. length (filter (\<lambda>e. about_member g k (snd e) \<and> open_at T (snd e)) (pending_challenges st)) \<le> 8) \<and>
    (\<forall>T f. length (filter (\<lambda>e. of_friend f (snd e) \<and> open_at T (snd e)) (pending_challenges st)) \<le> 32) \<and>
    (\<forall>f. length (digs (friend_group_digests st) f) \<le> 256) \<and> (\<forall>d. length (digs (digest_claimants st) d) \<le> 8) \<and>
    (\<forall>f d. um_find (digs (friend_group_digests st) f) d \<noteq> None \<longleftrightarrow> f \<in> set (digs (digest_claimants st) d)) \<and>
    identity_claim_count st = total_len (friend_group_digests st) \<and> identity_claim_count st \<le> 4096 \<and>
    length (member_key_to_friend st) \<le> 4096 \<and> length (answered_challenges st) \<le> 1024 \<and> length (seen_receipts st) \<le> 4096 \<and>
    length (rate_by_group_sender st) \<le> 1024 \<and> length (receipt_rate_by_sender st) \<le> 1024"
proof -
  have I: "id_inv st" using assms by (rule bounded.reach_keeps)
  then have "claims_ok st" by (simp add: id_inv_def)
  note D = claims_okD [OF this]
  show ?thesis using I D(6,8,9,11,12)
    by (simp add: id_inv_def pending_ok_def at_most_open_def cache_ok_def identity_limits)
qed

definition quiet_env :: tox_env where
  "quiet_env =
     \<lparr>tox_alive = True, sdk_running = True, clock = 1, friend_key_of = (\<lambda>n. Some (replicate 32 7)),
      friend_by_key = (\<lambda>k. 3), chat_id_of = (\<lambda>g. Some (replicate 32 1)), self_group_key_of = (\<lambda>g. Some (replicate 32 2)),
      group_peer_key = (\<lambda>g p. Some (replicate 32 5)), group_by_chat_id = (\<lambda>c. 0), rendezvous_owns = (\<lambda>g. False),
      self_public_key = replicate 32 9, self_secret_key = replicate 32 9, crypto_sha256 = (\<lambda>b. drop 32 b),
      encrypt_data = (\<lambda>k s n p. Some (p @ replicate 16 0)), decrypt_data = (\<lambda>k s n c. if k = replicate 32 7 then Some (take (length c - 16) c) else None),
      random_bytes = (\<lambda>n. Some (replicate 16 6)), box_nonce = Some (replicate 24 0), private_packet_sent = True,
      max_custom = 1373, others = (\<lambda>i. id)\<rparr>"

lemma quiet_admissible: "C quiet_env \<Longrightarrow> admissible C quiet_env"
  by (simp add: admissible_def quiet_env_def gap_run.idle)

lemma quiet_keys: "keys_env quiet_env"
  by (simp add: keys_env_def quiet_env_def)

theorem identity_tables_bounded_witness:
  "length (pending_challenges (HandleGroupIdentityAnnouncement quiet_env 0 (Some (1 # replicate 32 4)) identity_init)) \<le> 256"
  using identity_tables_bounded [OF identity_reach.more [OF identity_reach.fresh identity_step.friend_packet_step
    [OF quiet_admissible [of keys_env, OF quiet_keys], of identity_init 0 "Some (1 # replicate 32 4)"]]] by blast

lemma pending_is_candidate:
  assumes I: "pending_ok (pending_challenges st)" and p: "(nonce_hex, p) \<in> set (pending_challenges st)"
    "ic_group p = g" "ic_member_key p = sender_hex" "now - ic_sent_at p \<le> kIdentityChallengeTtl"
    and steady: "list_all (\<lambda>e. ic_sent_at (snd e) \<le> now) (pending_challenges st)"
  shows "(nonce_hex, ic_friend_hex p) \<in> set (proof_candidates now g sender_hex st)"
proof -
  have low: "lower (ic_member_key (snd e))" if "e \<in> set (pending_challenges st)" for e using I that by (simp add: pending_ok_def)
  let ?P = "\<lambda>(n, p). \<not> (ic_group p \<noteq> g \<or> now - ic_sent_at p > kIdentityChallengeTtl \<or> LowerHex (ic_member_key p) \<noteq> sender_hex)"
  let ?Q = "\<lambda>e. about_member g sender_hex (snd e) \<and> open_at now (snd e)"
  have "filter ?P (pending_challenges st) = filter ?Q (pending_challenges st)"
    using low steady by (intro filter_cong) (auto simp: open_at_def list_all_iff)
  moreover have "length (filter ?Q (pending_challenges st)) \<le> kMaxClaimantsPerDigest"
    using I by (simp add: pending_ok_def at_most_open_def)
  ultimately have "proof_candidates now g sender_hex st = map (\<lambda>(n, p). (n, ic_friend_hex p)) (filter ?Q (pending_challenges st))"
    by (simp add: proof_candidates_def)
  moreover have "(nonce_hex, p) \<in> set (filter ?Q (pending_challenges st))"
    using p steady by (auto simp: open_at_def list_all_iff)
  ultimately show ?thesis by force
qed

text \<open>
  No open challenge is lost to the limit on candidates: in every reachable state, when a proof
  from a group member arrives, each challenge that is open about that member is among the
  candidates its box is tried against (the clock is steady: no challenge was sent in the future).
\<close>

theorem open_challenge_is_candidate:
  assumes "identity_reach keys_env st" "(nonce_hex, p) \<in> set (pending_challenges st)"
    and "ic_group p = g" "ic_member_key p = sender_hex" "now - ic_sent_at p \<le> kIdentityChallengeTtl"
    and "list_all (\<lambda>e. ic_sent_at (snd e) \<le> now) (pending_challenges st)"
  shows "(nonce_hex, ic_friend_hex p) \<in> set (proof_candidates now g sender_hex st)"
  using bounded.reach_keeps [OF assms(1)] assms(2-) by (intro pending_is_candidate) (simp_all add: id_inv_def)

definition sample_candidate :: candidate where
  "sample_candidate = \<lparr>cand_friend = tox_bytes_to_hex (replicate 32 7), cand_group = 4, cand_member = replicate 64 CHR ''a''\<rparr>"

definition challenged_state :: identity_state where
  "challenged_state = fst (record_challenge 10 sample_candidate (replicate 16 6) identity_init)"

lemma challenged_reach: "identity_reach C challenged_state"
proof -
  have "lower (cand_member sample_candidate)" by (simp add: sample_candidate_def LowerHex_def tolower_def in_range_def code_def)
  from identity_step.others_step [OF gap_run.ask [OF this]] show ?thesis
    unfolding challenged_state_def by (rule identity_reach.more [OF identity_reach.fresh])
qed

lemma challenged_pending:
  "pending_challenges challenged_state =
     [(tox_bytes_to_hex (replicate 16 6),
       \<lparr>ic_friend_hex = tox_bytes_to_hex (replicate 32 7), ic_group = 4, ic_member_key = replicate 64 CHR ''a'', ic_sent_at = 10\<rparr>)]"
  by (simp add: challenged_state_def record_challenge_def sample_candidate_def identity_init_def already_pending_def
      open_challenges_def pending_for_friend_def pending_for_member_def identity_limits LowerHex_def tolower_def in_range_def code_def)

theorem open_challenge_is_candidate_witness:
  "(tox_bytes_to_hex (replicate 16 6), tox_bytes_to_hex (replicate 32 7)) \<in>
     set (proof_candidates 20 4 (replicate 64 CHR ''a'') challenged_state)"
  using open_challenge_is_candidate [OF challenged_reach, of "tox_bytes_to_hex (replicate 16 6)"
    "\<lparr>ic_friend_hex = tox_bytes_to_hex (replicate 32 7), ic_group = 4, ic_member_key = replicate 64 CHR ''a'', ic_sent_at = 10\<rparr>"
    4 "replicate 64 CHR ''a''" 20]
  by (simp add: challenged_pending kIdentityChallengeTtl_def)

section \<open>Authenticity\<close>

text \<open>
  The authenticated box: what opens with a friend's public key and our secret key was sealed by
  that friend for us. \<open>sealed fk plain\<close> says that the holder of \<open>fk\<close> sealed \<open>plain\<close> for the owner
  of \<open>pk\<close>.
\<close>

definition box_env :: "bytes \<Rightarrow> (bytes \<Rightarrow> bytes \<Rightarrow> bool) \<Rightarrow> tox_env \<Rightarrow> bool" where
  "box_env pk sealed env \<longleftrightarrow>
     keys_env env \<and> self_public_key env = pk \<and>
     (\<forall>fk nonce c plain. decrypt_data env fk (self_secret_key env) nonce c = Some plain \<longrightarrow> sealed fk plain)"

definition authentic :: "bytes \<Rightarrow> (bytes \<Rightarrow> bytes \<Rightarrow> bool) \<Rightarrow> string \<Rightarrow> proven_member \<Rightarrow> bool" where
  "authentic pk sealed k p \<longleftrightarrow>
     (\<exists>env chat_id my_key member_key nonce fk.
        box_env pk sealed env \<and> chat_id_of env (pm_group p) = Some chat_id \<and> self_group_key_of env (pm_group p) = Some my_key \<and>
        k = LowerHex (tox_bytes_to_hex member_key) \<and> tox_hex_to_bytes (pm_friend_hex p) TOX_PUBLIC_KEY_SIZE = Some fk \<and>
        length nonce = kIdentityNonceSize \<and> sealed fk (proof_plain chat_id my_key member_key nonce pk))"

definition all_authentic :: "bytes \<Rightarrow> (bytes \<Rightarrow> bytes \<Rightarrow> bool) \<Rightarrow> identity_state \<Rightarrow> bool" where
  "all_authentic pk sealed st \<longleftrightarrow>
     id_inv st \<and> (\<forall>e\<in>set (member_key_to_friend st). authentic pk sealed (fst e) (snd e))"

text \<open>The fields of a plain text of the right length that passes the comparison are its parts.\<close>

lemma proof_bound_parts:
  assumes "proof_bound plain chat_id my_key member_key pk" "length plain = kIdentityProofPlainSize"
  shows "plain = proof_plain chat_id my_key member_key
      (take kIdentityNonceSize (drop (16 + TOX_GROUP_CHAT_ID_SIZE + TOX_PUBLIC_KEY_SIZE + TOX_PUBLIC_KEY_SIZE) plain)) pk"
proof -
  have cut: "take a (drop n xs) @ drop (n + a) xs = drop n xs" for a n and xs :: bytes
    by (metis append_take_drop_id drop_drop add.commute)
  have split: "xs = take a xs @ take b (drop a xs) @ take c (drop (a + b) xs) @ take d (drop (a + b + c) xs) @
      take e (drop (a + b + c + d) xs) @ take f (drop (a + b + c + d + e) xs)"
    if "length xs \<le> a + b + c + d + e + f" for xs :: bytes and a b c d e f
    using that cut [of f "a + b + c + d + e" xs] cut [of e "a + b + c + d" xs] cut [of d "a + b + c" xs] cut [of c "a + b" xs]
      cut [of b a xs] by simp
  show ?thesis
    using split [of plain 16 TOX_GROUP_CHAT_ID_SIZE TOX_PUBLIC_KEY_SIZE TOX_PUBLIC_KEY_SIZE kIdentityNonceSize TOX_PUBLIC_KEY_SIZE] assms
    by (simp add: proof_bound_def proof_plain_def kIdentityProofPlainSize_def)
qed

lemma all_authentic_mono:
  "all_authentic pk sealed st \<Longrightarrow> id_inv s \<Longrightarrow> set (member_key_to_friend s) \<subseteq> set (member_key_to_friend st) \<Longrightarrow> all_authentic pk sealed s"
  by (auto simp: all_authentic_def)

lemma erase_claim_proven [simp]: "member_key_to_friend (EraseIdentityClaimLocked f d st) = member_key_to_friend st"
  by (simp add: EraseIdentityClaimLocked_def Let_def split: option.split)

lemma prune_proven: "set (member_key_to_friend (PruneIdentityStateLocked now force st)) \<subseteq> set (member_key_to_friend st)"
proof -
  have "member_key_to_friend (fold (\<lambda>(f, d). EraseIdentityClaimLocked f d) xs s) = member_key_to_friend s" for xs s
    by (induction xs arbitrary: s) auto
  then show ?thesis by (auto simp: PruneIdentityStateLocked_def Let_def split: prod.splits)
qed

lemma section_proven:
  "member_key_to_friend (DropFriendIdentityClaimsLocked f st) = member_key_to_friend st"
  "member_key_to_friend (add_claim now f d st) = member_key_to_friend st"
  "member_key_to_friend (fst (record_challenge now c nonce st)) = member_key_to_friend st"
  "member_key_to_friend (fst (TakeGroupSenderProofBudgetLocked k now st)) = member_key_to_friend st"
  "member_key_to_friend (fst (TakeGroupSenderReceiptBudgetLocked k now st)) = member_key_to_friend st"
  "member_key_to_friend (fst (take_both_budgets now ct l gl f st)) = member_key_to_friend st"
  by (simp_all add: DropFriendIdentityClaimsLocked_def add_claim_def record_challenge_def TakeGroupSenderProofBudgetLocked_def
      TakeGroupSenderReceiptBudgetLocked_def take_both_budgets_def take_friend_budget_def take_global_budget_def Let_def case_prod_beta
      split: option.split bool.split)

lemma admit_proven: "set (member_key_to_friend (fst (admit_challenge now f data st))) \<subseteq> set (member_key_to_friend st)"
  using prune_proven [of now False st] section_proven(6) [of now ProofsSent kMaxProofsPerFriend kMaxProofsGlobal f "PruneIdentityStateLocked now False st"]
  by (auto simp: admit_challenge_def Let_def case_prod_beta split: bool.split)

lemma receipt_proven: "set (member_key_to_friend (fst (admit_receipt now g k r st))) \<subseteq> set (member_key_to_friend st)"
proof -
  let ?p = "PruneIdentityStateLocked now False (st\<lparr>diag := (diag st)\<lparr>d_receipts_in := d_receipts_in (diag st) + 1\<rparr>\<rparr>)"
  have "set (member_key_to_friend (fst (TakeGroupSenderReceiptBudgetLocked k now ?p))) \<subseteq> set (member_key_to_friend st)"
    using prune_proven [of now False "st\<lparr>diag := (diag st)\<lparr>d_receipts_in := d_receipts_in (diag st) + 1\<rparr>\<rparr>"] by (simp add: section_proven)
  then show ?thesis
    by (auto simp: admit_receipt_def Let_def case_prod_beta split: bool.split option.split)
qed

lemma proof_opens_sealed:
  assumes "box_env pk sealed env" "proof_opens env data chat_id my_key member_key (nonce_hex, f)"
  shows "\<exists>fk nonce. tox_hex_to_bytes f TOX_PUBLIC_KEY_SIZE = Some fk \<and> length nonce = kIdentityNonceSize \<and>
    sealed fk (proof_plain chat_id my_key member_key nonce pk) \<and> LowerHex (tox_bytes_to_hex nonce) = LowerHex nonce_hex"
proof -
  obtain fk plain where d: "tox_hex_to_bytes f TOX_PUBLIC_KEY_SIZE = Some fk"
    "decrypt_data env fk (self_secret_key env) (take CRYPTO_NONCE_SIZE data) (drop CRYPTO_NONCE_SIZE data) = Some plain"
    "length plain = kIdentityProofPlainSize" "proof_bound plain chat_id my_key member_key pk"
    "LowerHex (tox_bytes_to_hex (take kIdentityNonceSize
       (drop (16 + TOX_GROUP_CHAT_ID_SIZE + TOX_PUBLIC_KEY_SIZE + TOX_PUBLIC_KEY_SIZE) plain))) = LowerHex nonce_hex"
    using assms by (auto simp: proof_opens_def box_env_def split: option.splits)
  have "sealed fk plain" using assms(1) d(2) by (auto simp: box_env_def)
  then show ?thesis using d proof_bound_parts [OF d(4,3)] by (auto simp: identity_sizes intro!: exI)
qed

lemma accept_proven:
  "set (member_key_to_friend (accept_proof now g k f st)) \<subseteq>
     insert (k, \<lparr>pm_friend_hex = f, pm_group = g, pm_proven_at = now\<rparr>) (set (member_key_to_friend st))"
proof -
  have "set (um_erase j m) \<subseteq> set m" for j and m :: "(string, proven_member) umap" by (auto simp: um_erase_filter)
  then show ?thesis
    by (auto simp: accept_proof_def Let_def dest!: set_um_put [THEN subsetD] split: option.splits if_splits)
qed

interpretation authenticated: identity_invariant "all_authentic pk sealed" "box_env pk sealed" for pk sealed
proof
  show "all_authentic pk sealed (accept_proof now g (LowerHex (tox_bytes_to_hex sender_key)) f st)"
    if E: "box_env pk sealed env" and A: "all_authentic pk sealed st" and ids: "chat_id_of env g = Some chat_id" "self_group_key_of env g = Some self_key"
      and o: "proof_opens env data chat_id self_key sender_key (nonce_hex, f)" for env st g chat_id self_key data sender_key nonce_hex f now
  proof -
    let ?k = "LowerHex (tox_bytes_to_hex sender_key)" and ?p = "\<lparr>pm_friend_hex = f, pm_group = g, pm_proven_at = now\<rparr>"
    have "authentic pk sealed ?k ?p" using proof_opens_sealed [OF E o] E ids unfolding authentic_def proven_member.simps by blast
    then show ?thesis using A id_inv_accept [of st now g ?k f] accept_proven [of now g ?k f st] by (auto simp: all_authentic_def)
  qed
  show "all_authentic pk sealed identity_init" using id_inv_init by (simp add: all_authentic_def identity_init_def)
  show "all_authentic pk sealed (clear_identity st)" for st using id_inv_clear by (simp add: all_authentic_def clear_identity_def)
  show "all_authentic pk sealed (PruneIdentityStateLocked now force st)" if "all_authentic pk sealed st" for now force st
    using that by (rule all_authentic_mono) (use that prune_proven in \<open>simp_all add: all_authentic_def id_inv_prune\<close>)
  show "all_authentic pk sealed (fst (admit_challenge now f data st))" if "all_authentic pk sealed st" for now f data st
    using that by (rule all_authentic_mono) (use that admit_proven in \<open>simp_all add: all_authentic_def id_inv_admit\<close>)
  show "all_authentic pk sealed (fst (admit_receipt now g k r st))" if "all_authentic pk sealed st" for now g k r st
    using that by (rule all_authentic_mono) (use that receipt_proven in \<open>simp_all add: all_authentic_def id_inv_receipt\<close>)
qed (auto simp: all_authentic_def box_env_def keys_env_def bounded.frame bounded.lower_tables section_proven bounded.drop_claims
      bounded.refresh bounded.claim bounded.challenges bounded.challenge bounded.proven bounded.sender)

end
