(* ===== verification/IdentityHandshake.thy ===== *)
theory IdentityHandshake
  imports IdentityProperties
begin

text \<open>
  The end of the handshake: the answer of an honest friend to an open challenge is accepted.
\<close>

section \<open>Pruning keeps what is fresh\<close>

lemma erase_other_claim:
  assumes "claims_ok st" "(f, d) \<noteq> (f', d')"
  shows "um_find (digs (friend_group_digests (EraseIdentityClaimLocked f' d' st)) f) d = um_find (digs (friend_group_digests st) f) d"
  using assms by (auto simp: erase_claim_eq umap_simps)

lemma fold_erase_other:
  assumes "claims_ok st" "(f, d) \<notin> set xs"
  shows "claims_ok (fold (\<lambda>(f, d). EraseIdentityClaimLocked f d) xs st) \<and>
    um_find (digs (friend_group_digests (fold (\<lambda>(f, d). EraseIdentityClaimLocked f d) xs st)) f) d = um_find (digs (friend_group_digests st) f) d"
  using assms
proof (induction xs arbitrary: st)
  case (Cons x xs)
  obtain f' d' where x: "x = (f', d')" by (cases x)
  show ?case using Cons.IH [OF claims_ok_erase [OF Cons.prems(1), of f' d']] Cons.prems erase_other_claim [OF Cons.prems(1), of f d f' d'] x by auto
qed simp

lemma fresh_not_expired:
  assumes "claims_ok st" "um_find (digs (friend_group_digests st) f) d = Some t" "now - t \<le> kIdentityClaimTtl"
  shows "(f, d) \<notin> set (expired_claims now st)"
proof
  assume "(f, d) \<in> set (expired_claims now st)"
  then obtain ds s where ds: "(f, ds) \<in> set (friend_group_digests st)" "(d, s) \<in> set ds" "now - s > kIdentityClaimTtl"
    by (auto simp: expired_claims_def)
  note D = claims_okD [OF assms(1)]
  have "um_find (friend_group_digests st) f = Some ds" using D(1) ds(1) by (simp add: um_ok_def)
  then have "digs (friend_group_digests st) f = ds" by (simp add: digs_def)
  moreover from this D(5) [of f] ds(2) have "um_find ds d = Some s" by (simp add: um_ok_def)
  ultimately show False using assms(2,3) ds(3) by simp
qed

lemma prune_keeps_claim:
  assumes "id_inv st" "um_find (digs (friend_group_digests st) f) d = Some t" "now - t \<le> kIdentityClaimTtl"
  shows "f \<in> set (digs (digest_claimants (PruneIdentityStateLocked now force st)) d)"
proof -
  have C: "claims_ok st" using assms(1) by (simp add: id_inv_def)
  then have "claims_ok (st\<lparr>last_prune := now\<rparr>)" using claims_ok_cong [of "st\<lparr>last_prune := now\<rparr>" st] by simp
  note E = fold_erase_other [OF this, of f d "expired_claims now st"] fresh_not_expired [OF C assms(2,3)]
  then have "um_find (digs (friend_group_digests (PruneIdentityStateLocked now force st)) f) d = Some t"
    using assms(2) by (simp add: PruneIdentityStateLocked_def Let_def case_prod_beta)
  moreover have "claims_ok (PruneIdentityStateLocked now force st)" using id_inv_prune [OF assms(1)] by (simp add: id_inv_def)
  ultimately show ?thesis using claims_okD(9) [of "PruneIdentityStateLocked now force st" f d] by simp
qed

lemma fold_erase_pending: "pending_challenges (fold (\<lambda>(f, d). EraseIdentityClaimLocked f d) xs st) = pending_challenges st"
  by (induction xs arbitrary: st) (auto simp: EraseIdentityClaimLocked_def Let_def split: option.split)

lemma prune_keeps_challenge:
  "(n, p) \<in> set (pending_challenges st) \<Longrightarrow> now - ic_sent_at p \<le> kIdentityChallengeTtl \<Longrightarrow>
   (n, p) \<in> set (pending_challenges (PruneIdentityStateLocked now force st))"
  by (simp add: PruneIdentityStateLocked_def Let_def case_prod_beta fold_erase_pending)

lemma prune_pending_sub: "set (pending_challenges (PruneIdentityStateLocked now force st)) \<subseteq> set (pending_challenges st)"
  by (auto simp: PruneIdentityStateLocked_def Let_def case_prod_beta fold_erase_pending)

section \<open>Budgets\<close>

definition budget_left :: "int \<Rightarrow> rate_counter \<Rightarrow> u32 \<Rightarrow> rate_window \<Rightarrow> bool" where
  "budget_left now c limit w \<longleftrightarrow> snd (TakeIdentityBudgetLocked now c limit w)"

text \<open>A sender may still be verified: it has a window with budget left, or there is room for a new one.\<close>

definition sender_budget_left :: "int \<Rightarrow> string \<Rightarrow> identity_state \<Rightarrow> bool" where
  "sender_budget_left now k st \<longleftrightarrow>
     (case um_find (rate_by_group_sender st) k of
        None \<Rightarrow> length (rate_by_group_sender st) < kMaxProofVerifySenders
      | Some w \<Rightarrow> budget_left now ProofVerifies kMaxProofVerifiesPerSender w)"

lemma new_window_left: "limit > 0 \<Longrightarrow> budget_left now c limit new_window"
  by (cases c) (auto simp: budget_left_def TakeIdentityBudgetLocked_def Let_def new_window_def word_gt_0)

lemma sender_budget_granted:
  assumes I: "id_inv st" and left: "sender_budget_left now k st"
  shows "snd (TakeGroupSenderProofBudgetLocked k now (PruneIdentityStateLocked now force st))"
proof -
  let ?m = "rate_by_group_sender st" and ?p = "PruneIdentityStateLocked now force st"
  have f: "rate_by_group_sender (fold (\<lambda>(f, d). EraseIdentityClaimLocked f d) xs s) = rate_by_group_sender s" for xs s
    by (induction xs arbitrary: s) (auto simp: EraseIdentityClaimLocked_def Let_def split: option.split)
  have "rate_by_group_sender ?p = ?m \<or> rate_by_group_sender ?p = filter (live_window now) ?m"
    by (simp add: PruneIdentityStateLocked_def Let_def case_prod_beta f)
  then consider "rate_by_group_sender ?p = ?m" | "rate_by_group_sender ?p = filter (live_window now) ?m" by blast
  then have "case um_find (rate_by_group_sender ?p) k of
      None \<Rightarrow> length (rate_by_group_sender ?p) < kMaxProofVerifySenders
    | Some w \<Rightarrow> budget_left now ProofVerifies kMaxProofVerifiesPerSender w"
  proof cases
    case 2
    have m: "um_ok ?m" "length ?m \<le> kMaxProofVerifySenders" using I by (simp_all add: id_inv_def)
    show ?thesis
    proof (cases "um_find ?m k")
      case None
      then show ?thesis using left 2 um_find_filter [OF m(1), of "live_window now" k]
        by (auto simp: sender_budget_left_def intro: le_less_trans [OF length_filter_le])
    next
      case (Some w)
      have "length (filter (live_window now) ?m) < length ?m" if "\<not> live_window now (k, w)"
        using that map_of_SomeD [OF Some] length_filter_less by fastforce
      then show ?thesis using left 2 um_find_filter [OF m(1), of "live_window now" k] Some m(2)
        by (auto simp: sender_budget_left_def)
    qed
  next
    case 1
    then show ?thesis using left unfolding sender_budget_left_def by (cases "um_find ?m k") simp_all
  qed
  then show ?thesis
    using new_window_left [of kMaxProofVerifiesPerSender now ProofVerifies]
    by (auto simp: TakeGroupSenderProofBudgetLocked_def Let_def case_prod_beta budget_left_def identity_limits split: option.splits)
qed

section \<open>The answer is accepted\<close>

lemma admit_granted:
  assumes I: "id_inv st" and c: "(n, p) \<in> set (pending_challenges st)" "ic_group p = g" "ic_member_key p = k"
    "now - ic_sent_at p \<le> kIdentityChallengeTtl" and b: "sender_budget_left now k st"
    and claim: "um_find (digs (friend_group_digests st) f) d = Some t" "now - t \<le> kIdentityClaimTtl"
  obtains st1 where "admit_proof now g k data st = (st1, True)" "id_inv st1"
    "(n, p) \<in> set (pending_challenges st1)" "set (pending_challenges st1) \<subseteq> set (pending_challenges st)"
    "f \<in> set (digs (digest_claimants st1) d)" "rate_global st1 = rate_global st"
proof -
  define st0 where "st0 = st\<lparr>diag := (diag st)\<lparr>d_proofs_in := d_proofs_in (diag st) + 1, d_last_payload := tox_bytes_to_hex data\<rparr>\<rparr>"
  let ?p = "PruneIdentityStateLocked now False st0"
  have I0: "id_inv st0" using I by (simp add: st0_def id_inv_frames)
  have f: "f \<in> set (digs (digest_claimants ?p) d)"
    by (rule prune_keeps_claim [OF I0 _ claim(2)]) (use claim(1) in \<open>simp add: st0_def\<close>)
  have np: "(n, p) \<in> set (pending_challenges ?p)"
    by (rule prune_keeps_challenge) (use c in \<open>simp_all add: st0_def\<close>)
  have sub: "set (pending_challenges ?p) \<subseteq> set (pending_challenges st)"
    using prune_pending_sub [of now False st0] by (simp add: st0_def)
  have pend: "HasPendingChallengeForSenderLocked g k now ?p"
    using np c by (auto simp: HasPendingChallengeForSenderLocked_def list_ex_iff)
  have rg: "rate_global (fold (\<lambda>(f, d). EraseIdentityClaimLocked f d) xs s) = rate_global s" for xs s
    by (induction xs arbitrary: s) (auto simp: EraseIdentityClaimLocked_def Let_def split: option.split)
  have r0: "rate_global ?p = rate_global st" by (simp add: PruneIdentityStateLocked_def Let_def case_prod_beta rg st0_def)
  have "sender_budget_left now k st0" using b unfolding sender_budget_left_def st0_def by (cases "um_find (rate_by_group_sender st) k") simp_all
  from sender_budget_granted [OF I0 this, of False] obtain st1 where st1: "TakeGroupSenderProofBudgetLocked k now ?p = (st1, True)"
    by (metis prod.collapse)
  have same: "pending_challenges st1 = pending_challenges ?p" "digest_claimants st1 = digest_claimants ?p" "rate_global st1 = rate_global ?p"
    using st1 by (auto simp: TakeGroupSenderProofBudgetLocked_def Let_def split: prod.splits if_splits)
  have "id_inv st1" using id_inv_sender [OF id_inv_prune [OF I0], of k now now False] st1 by simp
  moreover have "admit_proof now g k data st = (st1, True)"
    using pend st1 by (simp add: admit_proof_def Let_def st0_def)
  ultimately show thesis using np sub f r0 same by (intro that [of st1]) simp_all
qed

lemma tox_hex_of_bytes: "length bs \<le> n \<Longrightarrow> tox_hex_to_bytes (tox_bytes_to_hex bs) n = Some bs"
  by (simp add: tox_hex_to_bytes_def strtol_loop_upper)

lemma proof_plain_bound:
  assumes "length chat_id = TOX_GROUP_CHAT_ID_SIZE" "length my_key = TOX_PUBLIC_KEY_SIZE" "length member_key = TOX_PUBLIC_KEY_SIZE"
    "length nonce = kIdentityNonceSize" "length pk = TOX_PUBLIC_KEY_SIZE"
  shows "proof_bound (proof_plain chat_id my_key member_key nonce pk) chat_id my_key member_key pk"
    "length (proof_plain chat_id my_key member_key nonce pk) = kIdentityProofPlainSize"
    "take kIdentityNonceSize (drop (16 + TOX_GROUP_CHAT_ID_SIZE + TOX_PUBLIC_KEY_SIZE + TOX_PUBLIC_KEY_SIZE)
      (proof_plain chat_id my_key member_key nonce pk)) = nonce"
  using assms by (simp_all add: proof_bound_def proof_plain_def identity_sizes kIdentityProofDomain_def)

lemma verify_accepts:
  assumes P: "pending_ok (pending_challenges st)" and c: "(n, p) \<in> set (pending_challenges st)" "ic_group p = g" "ic_member_key p = k"
      "clock env - ic_sent_at p \<le> kIdentityChallengeTtl"
    and steady: "list_all (\<lambda>e. ic_sent_at (snd e) \<le> clock env) (pending_challenges st)"
    and claim: "ic_friend_hex p \<in> set (digs (digest_claimants st) (GroupIdentityDigestHex env chat_id member_key))"
    and budget: "budget_left (clock env) ProofVerifies kMaxProofVerifiesGlobal (rate_global st)"
    and opens: "proof_opens env data chat_id my_key member_key (n, ic_friend_hex p)"
    and only: "\<And>n' f'. proof_opens env data chat_id my_key member_key (n', f') \<Longrightarrow> f' \<noteq> [] \<and> tox_hex_to_bytes f' TOX_PUBLIC_KEY_SIZE = Some fk"
  shows "\<exists>p'. um_find (member_key_to_friend (verify_proof env g k member_key data chat_id my_key st)) k = Some p' \<and>
    pm_group p' = g \<and> tox_hex_to_bytes (pm_friend_hex p') TOX_PUBLIC_KEY_SIZE = Some fk"
proof -
  let ?st1 = "DropStaleChallengesForMemberLocked g k (GroupIdentityDigestHex env chat_id member_key) st"
  have in1: "(n, p) \<in> set (pending_challenges ?st1)"
    using c claim by (auto simp: DropStaleChallengesForMemberLocked_def digs_def Let_def split: option.splits)
  have P1: "pending_ok (pending_challenges ?st1)" using P by (simp add: DropStaleChallengesForMemberLocked_def pending_ok_filter)
  have s1: "list_all (\<lambda>e. ic_sent_at (snd e) \<le> clock env) (pending_challenges ?st1)"
    using steady by (auto simp: DropStaleChallengesForMemberLocked_def list_all_iff)
  let ?cands = "proof_candidates (clock env) g k ?st1"
  have cand: "(n, ic_friend_hex p) \<in> set ?cands" by (rule pending_is_candidate [OF P1 in1 c(2-4) s1])
  then obtain n' f' where find: "List.find (proof_opens env data chat_id my_key member_key) ?cands = Some (n', f')"
    using opens by (cases "List.find (proof_opens env data chat_id my_key member_key) ?cands") (auto simp: find_None_iff)
  then have "proof_opens env data chat_id my_key member_key (n', f')" by (auto simp: find_Some_iff)
  note f' = only [OF this]
  obtain st2 where "take_global_budget (clock env) ProofVerifies kMaxProofVerifiesGlobal ?st1 = (st2, True)"
    using budget by (auto simp: take_global_budget_def budget_left_def DropStaleChallengesForMemberLocked_def case_prod_beta)
  then have "verify_proof env g k member_key data chat_id my_key st = accept_proof (clock env) g k f' st2"
    using cand find f' by (auto simp: verify_proof_def Let_def)
  then show ?thesis using f' by (simp add: accept_proof_def Let_def update_conv')
qed

text \<open>
  C7. The handshake completes. In a reachable state with an open challenge to a friend about a
  group member, and a claim of that friend on the member's digest that has not expired, the proof
  which that friend seals for this challenge (\<open>SealIdentityProof\<close> on its side) and sends as that
  member is accepted: afterwards the member's key resolves to that friend. Asked of the box: what
  the friend seals opens with the friend's public key, and with no other; and there is budget left.
\<close>

theorem honest_proof_accepted:
  assumes reach: "identity_reach keys_env st"
    and up: "tox_alive env" "sdk_running env" "\<not> rendezvous_owns env g" "others env 10 = id"
    and group: "group_peer_key env g peer = Some member_key" "chat_id_of env g = Some chat_id" "self_group_key_of env g = Some my_key"
    and sizes: "length chat_id = TOX_GROUP_CHAT_ID_SIZE" "length my_key = TOX_PUBLIC_KEY_SIZE" "length member_key = TOX_PUBLIC_KEY_SIZE"
      "length nonce = kIdentityNonceSize" "length (self_public_key env) = TOX_PUBLIC_KEY_SIZE" "length friend_key = TOX_PUBLIC_KEY_SIZE"
      "map_option length (box_nonce friend_env) = Some CRYPTO_NONCE_SIZE"
    and challenge: "(tox_bytes_to_hex nonce, p) \<in> set (pending_challenges st)" "ic_group p = g"
      "ic_member_key p = LowerHex (tox_bytes_to_hex member_key)" "ic_friend_hex p = tox_bytes_to_hex friend_key"
      "clock env - ic_sent_at p \<le> kIdentityChallengeTtl"
    and steady: "list_all (\<lambda>e. ic_sent_at (snd e) \<le> clock env) (pending_challenges st)"
    and claim: "um_find (digs (friend_group_digests st) (tox_bytes_to_hex friend_key)) (GroupIdentityDigestHex env chat_id member_key) = Some t"
      "clock env - t \<le> kIdentityClaimTtl"
    and budget: "sender_budget_left (clock env) (LowerHex (tox_bytes_to_hex member_key)) st"
      "budget_left (clock env) ProofVerifies kMaxProofVerifiesGlobal (rate_global st)"
    and answer: "SealIdentityProof friend_env chat_id my_key member_key nonce (self_public_key env) = Some packet"
    and box: "\<And>n plain c. encrypt_data friend_env (self_public_key env) (self_secret_key friend_env) n plain = Some c \<Longrightarrow>
        decrypt_data env friend_key (self_secret_key env) n c = Some plain"
      "\<And>n plain c k. encrypt_data friend_env (self_public_key env) (self_secret_key friend_env) n plain = Some c \<Longrightarrow>
        decrypt_data env k (self_secret_key env) n c \<noteq> None \<Longrightarrow> k = friend_key"
  shows "tox_hex_to_bytes (FriendForGroupMemberKey (tox_bytes_to_hex member_key) (HandleGroupCustomPrivatePacket env g peer (Some packet) st))
    TOX_PUBLIC_KEY_SIZE = Some friend_key"
proof -
  let ?k = "LowerHex (tox_bytes_to_hex member_key)" and ?plain = "proof_plain chat_id my_key member_key nonce (self_public_key env)"
  have I: "id_inv st" using reach by (rule bounded.reach_keeps)
  obtain bn c where bn: "length bn = CRYPTO_NONCE_SIZE" "packet = Wrap kIdentityProof (Some (bn @ c))"
    "encrypt_data friend_env (self_public_key env) (self_secret_key friend_env) bn ?plain = Some c"
    "length c = kIdentityProofPlainSize + CRYPTO_MAC_SIZE"
    using answer sizes(7) by (auto simp: SealIdentityProof_def split: option.splits if_splits)
  note plain = proof_plain_bound [OF sizes(1-5)]
  have opens: "proof_opens env (bn @ c) chat_id my_key member_key (tox_bytes_to_hex nonce, ic_friend_hex p)"
    using box(1) [OF bn(3)] bn(1) plain sizes(6) challenge(4) by (simp add: proof_opens_def tox_hex_of_bytes)
  have only: "f' \<noteq> [] \<and> tox_hex_to_bytes f' TOX_PUBLIC_KEY_SIZE = Some friend_key"
    if o: "proof_opens env (bn @ c) chat_id my_key member_key (n', f')" for n' f'
  proof -
    obtain fk where fk: "tox_hex_to_bytes f' TOX_PUBLIC_KEY_SIZE = Some fk" "decrypt_data env fk (self_secret_key env) bn c \<noteq> None"
      using o bn(1) by (auto simp: proof_opens_def split: option.splits)
    with box(2) [OF bn(3)] have "fk = friend_key" by blast
    moreover have "friend_key \<noteq> []" using sizes(6) by (auto simp: identity_sizes)
    ultimately show ?thesis using fk(1) by (auto simp: tox_hex_to_bytes_def)
  qed
  obtain st1 where st1: "admit_proof (clock env) g ?k (bn @ c) st = (st1, True)" "id_inv st1"
    "(tox_bytes_to_hex nonce, p) \<in> set (pending_challenges st1)" "set (pending_challenges st1) \<subseteq> set (pending_challenges st)"
    "ic_friend_hex p \<in> set (digs (digest_claimants st1) (GroupIdentityDigestHex env chat_id member_key))" "rate_global st1 = rate_global st"
    using admit_granted [OF I challenge(1-3,5) budget(1) claim] challenge(4) by metis
  have "\<exists>p'. um_find (member_key_to_friend (verify_proof env g ?k member_key (bn @ c) chat_id my_key st1)) ?k = Some p' \<and>
      pm_group p' = g \<and> tox_hex_to_bytes (pm_friend_hex p') TOX_PUBLIC_KEY_SIZE = Some friend_key"
    by (rule verify_accepts [OF _ st1(3) challenge(2,3,5) _ st1(5) _ opens only])
      (use st1 steady budget(2) in \<open>auto simp: id_inv_def list_all_iff\<close>)
  moreover have "HandleGroupCustomPrivatePacket env g peer (Some packet) st = verify_proof env g ?k member_key (bn @ c) chat_id my_key st1"
    using up group bn st1(1) by (simp add: HandleGroupCustomPrivatePacket_def HandleGroupIdentityProof_def kIdentityProofPacketSize_def)
  ultimately show ?thesis using sizes(3) by (auto simp: FriendForGroupMemberKey_def)
qed

section \<open>A run\<close>

text \<open>A friend has claimed the digest of a member, and was challenged about it.\<close>

definition paired_state :: identity_state where
  "paired_state =
     fst (record_challenge 1 \<lparr>cand_friend = tox_bytes_to_hex (replicate 32 7), cand_group = 4, cand_member = LowerHex (tox_bytes_to_hex (replicate 32 5))\<rparr>
       (replicate 16 6) (hint_section 1 (tox_bytes_to_hex (replicate 32 7)) [tox_bytes_to_hex (replicate 32 5)] identity_init))"

lemma paired_reach: "identity_reach C paired_state"
proof -
  have "tox_bytes_to_hex (replicate 32 7) \<noteq> []" by (simp flip: length_0_conv)
  then have "identity_reach C (hint_section 1 (tox_bytes_to_hex (replicate 32 7)) [tox_bytes_to_hex (replicate 32 5)] identity_init)"
    by (intro identity_reach.more [OF identity_reach.fresh] identity_step.others_step gap_run.hints)
  from identity_reach.more [OF this identity_step.others_step [OF gap_run.ask]] show ?thesis
    unfolding paired_state_def by simp
qed

lemma hint_section_first:
  "hint_section 1 f [d] identity_init =
     identity_init\<lparr>last_prune := 1, friend_group_digests := [(f, [(d, 1)])], digest_claimants := [(d, [f])], identity_claim_count := 1,
       rate_by_friend := [(f, \<lparr>window_start = 1, hint_packets = 1, new_digests = 1, proofs_out = 0, proof_verifies = 0, receipts_in = 0\<rparr>)],
       rate_global := \<lparr>window_start = 1, hint_packets = 0, new_digests = 1, proofs_out = 0, proof_verifies = 0, receipts_in = 0\<rparr>\<rparr>"
  by (simp add: hint_section_def PruneIdentityStateLocked_def identity_init_def take_friend_budget_def take_both_budgets_def
      take_global_budget_def TakeIdentityBudgetLocked_def new_window_def identity_limits expired_claims_def Let_def add_claim_def um_emplace_def)

lemma paired_fields:
  "pending_challenges paired_state =
     [(tox_bytes_to_hex (replicate 16 6),
       \<lparr>ic_friend_hex = tox_bytes_to_hex (replicate 32 7), ic_group = 4, ic_member_key = LowerHex (tox_bytes_to_hex (replicate 32 5)), ic_sent_at = 1\<rparr>)]"
  "friend_group_digests paired_state = [(tox_bytes_to_hex (replicate 32 7), [(tox_bytes_to_hex (replicate 32 5), 1)])]"
  "rate_by_group_sender paired_state = []"
  "rate_global paired_state = \<lparr>window_start = 1, hint_packets = 0, new_digests = 1, proofs_out = 0, proof_verifies = 0, receipts_in = 0\<rparr>"
  unfolding paired_state_def hint_section_first
  by (simp_all add: record_challenge_def identity_init_def already_pending_def
      open_challenges_def pending_for_friend_def pending_for_member_def identity_limits)

definition sample_packet :: bytes where
  "sample_packet =
     Wrap kIdentityProof (Some (replicate 24 0 @
       proof_plain (replicate 32 1) (replicate 32 2) (replicate 32 5) (replicate 16 6) (replicate 32 9) @ replicate 16 0))"

lemma sample_sealed:
  "SealIdentityProof quiet_env (replicate 32 1) (replicate 32 2) (replicate 32 5) (replicate 16 6) (replicate 32 9) = Some sample_packet"
  by (simp add: SealIdentityProof_def quiet_env_def sample_packet_def proof_plain_def kIdentityProofDomain_def identity_sizes)

theorem honest_proof_accepted_witness:
  "tox_hex_to_bytes (FriendForGroupMemberKey (tox_bytes_to_hex (replicate 32 5))
      (HandleGroupCustomPrivatePacket quiet_env 4 0 (Some sample_packet) paired_state)) TOX_PUBLIC_KEY_SIZE = Some (replicate 32 7)"
proof (rule honest_proof_accepted [where friend_env = quiet_env and nonce = "replicate 16 6" and t = 1, OF paired_reach])
  show "SealIdentityProof quiet_env (replicate 32 1) (replicate 32 2) (replicate 32 5) (replicate 16 6) (self_public_key quiet_env) = Some sample_packet"
    using sample_sealed by (simp add: quiet_env_def)
  show "sender_budget_left (clock quiet_env) (LowerHex (tox_bytes_to_hex (replicate 32 5))) paired_state"
    by (simp add: sender_budget_left_def paired_fields identity_limits)
  show "budget_left (clock quiet_env) ProofVerifies kMaxProofVerifiesGlobal (rate_global paired_state)"
    by (simp add: budget_left_def paired_fields TakeIdentityBudgetLocked_def identity_limits quiet_env_def)
  show "um_find (digs (friend_group_digests paired_state) (tox_bytes_to_hex (replicate 32 7)))
      (GroupIdentityDigestHex quiet_env (replicate 32 1) (replicate 32 5)) = Some 1"
    by (simp add: paired_fields digs_def GroupIdentityDigestHex_def quiet_env_def)
qed (auto simp: paired_fields quiet_env_def identity_limits identity_sizes split: if_splits)

section \<open>Only such answers are accepted\<close>


definition verified_state :: identity_state where
  "verified_state =
     verify_proof quiet_env 4 (LowerHex (tox_bytes_to_hex (replicate 32 5))) (replicate 32 5) (drop group_kHeaderSize sample_packet)
       (replicate 32 1) (replicate 32 2) paired_state"

lemma verified_reach: "C quiet_env \<Longrightarrow> identity_reach C verified_state"
  unfolding verified_state_def
  by (intro identity_reach.more [OF paired_reach] identity_step.others_step gap_run.verify)
    (simp_all add: quiet_env_def sample_packet_def Wrap_def proof_plain_def group_kHeaderSize_def group_kMagic_def kIdentityProofDomain_def identity_sizes)

lemma verified_member:
  "\<exists>p. um_find (member_key_to_friend verified_state) (LowerHex (tox_bytes_to_hex (replicate 32 5))) = Some p \<and>
     pm_group p = 4 \<and> tox_hex_to_bytes (pm_friend_hex p) TOX_PUBLIC_KEY_SIZE = Some (replicate 32 7)"
proof -
  have inv: "id_inv paired_state" using paired_reach by (rule bounded.reach_keeps)
  have data: "take CRYPTO_NONCE_SIZE (drop group_kHeaderSize sample_packet) = replicate 24 0"
    "drop CRYPTO_NONCE_SIZE (drop group_kHeaderSize sample_packet) =
       proof_plain (replicate 32 1) (replicate 32 2) (replicate 32 5) (replicate 16 6) (replicate 32 9) @ replicate 16 0"
    by (simp_all add: sample_packet_def Wrap_def group_kHeaderSize_def group_kMagic_def identity_sizes)
  note plain = proof_plain_bound [of "replicate 32 1" "replicate 32 2" "replicate 32 5" "replicate 16 6" "replicate 32 9"]
  have friend: "tox_hex_to_bytes (tox_bytes_to_hex (replicate 32 7)) TOX_PUBLIC_KEY_SIZE = Some (replicate 32 7)"
    by (simp add: tox_hex_of_bytes identity_sizes)
  have only: "f' \<noteq> [] \<and> tox_hex_to_bytes f' TOX_PUBLIC_KEY_SIZE = Some (replicate 32 7)"
    if "proof_opens quiet_env (drop group_kHeaderSize sample_packet) (replicate 32 1) (replicate 32 2) (replicate 32 5) (n', f')" for n' f'
    using that by (auto simp: proof_opens_def quiet_env_def tox_hex_to_bytes_def split: option.splits if_splits)
  have opens: "proof_opens quiet_env (drop group_kHeaderSize sample_packet) (replicate 32 1) (replicate 32 2) (replicate 32 5)
      (tox_bytes_to_hex (replicate 16 6), tox_bytes_to_hex (replicate 32 7))"
    using plain friend data by (simp add: proof_opens_def quiet_env_def identity_sizes)
  show ?thesis unfolding verified_state_def
    by (rule verify_accepts [where n = "tox_bytes_to_hex (replicate 16 6)" and
          p = "\<lparr>ic_friend_hex = tox_bytes_to_hex (replicate 32 7), ic_group = 4, ic_member_key = LowerHex (tox_bytes_to_hex (replicate 32 5)), ic_sent_at = 1\<rparr>"])
      (use inv only opens claims_okD(9) [of paired_state "tox_bytes_to_hex (replicate 32 7)" "tox_bytes_to_hex (replicate 32 5)"] in
       \<open>auto simp: id_inv_def paired_fields quiet_env_def identity_limits digs_def GroupIdentityDigestHex_def budget_left_def TakeIdentityBudgetLocked_def\<close>)
qed


end
