(* ===== verification/IdentityMeters.thy ===== *)
theory IdentityMeters
  imports IdentityHandshake
begin

text \<open>
  The meters of the identity protocol: what a rate window grants over time, and the replay
  filters of challenges and receipts.
\<close>

section \<open>Rate windows\<close>

text \<open>The answers of one counter to a sequence of requests at the given times.\<close>

fun budget_run :: "rate_counter \<Rightarrow> u32 \<Rightarrow> int list \<Rightarrow> rate_window \<Rightarrow> bool list" where
  "budget_run c limit [] w = []"
| "budget_run c limit (t # ts) w =
     (case TakeIdentityBudgetLocked t c limit w of (w1, b) \<Rightarrow> b # budget_run c limit ts w1)"

abbreviation grants :: "bool list \<Rightarrow> nat" where
  "grants bs \<equiv> length (filter (\<lambda>b. b) bs)"

lemma counter_set [simp]: "counter_of c (set_counter c n w) = n" "window_start (set_counter c n w) = window_start w"
  by (cases c; simp)+

lemma unat_inc: "x < y \<Longrightarrow> unat (x + 1) = unat x + 1 \<and> unat x < unat (y :: u32)"
proof -
  assume "x < y"
  then have "1 + x \<noteq> 0" using word_order.extremum_strict [of y] by (metis add.commute add_eq_0_iff)
  then show ?thesis using \<open>x < y\<close> by (simp add: unatSuc add.commute word_less_nat_alt)
qed

lemma budget_same_window:
  assumes "window_start w \<noteq> 0" "\<forall>t\<in>set ts. t - window_start w < kIdentityRateWindow"
  shows "grants (budget_run c limit ts w) \<le> unat limit - unat (counter_of c w)"
  using assms
proof (induction ts arbitrary: w)
  case (Cons t ts)
  let ?w1 = "set_counter c (counter_of c w + 1) w"
  show ?case
  proof (cases "counter_of c w \<ge> limit")
    case True
    then show ?thesis using Cons.IH [of w] Cons.prems by (simp add: TakeIdentityBudgetLocked_def)
  next
    case False
    then have "unat (counter_of c w + 1) = unat (counter_of c w) + 1" "unat (counter_of c w) < unat limit"
      using unat_inc [of "counter_of c w" limit] by simp_all
    then show ?thesis using Cons.IH [of ?w1] Cons.prems False by (simp add: TakeIdentityBudgetLocked_def)
  qed
qed simp

lemma budget_two_windows:
  assumes "sorted ts" "\<forall>t\<in>set ts. 0 < t \<and> T \<le> t \<and> t < T + kIdentityRateWindow"
  shows "grants (budget_run c limit ts w) \<le> unat limit - unat (counter_of c w) + unat limit"
  using assms
proof (induction ts arbitrary: w)
  case (Cons t ts)
  have later: "\<forall>t'\<in>set (t # ts). t' - t < kIdentityRateWindow" using Cons.prems by fastforce
  show ?case
  proof (cases "window_start w = 0 \<or> t - window_start w \<ge> kIdentityRateWindow")
    case True
    let ?w1 = "new_window\<lparr>window_start := t\<rparr>"
    have "0 < t" using Cons.prems by simp
    then have "TakeIdentityBudgetLocked t c limit w = TakeIdentityBudgetLocked t c limit ?w1"
      using True by (auto simp: TakeIdentityBudgetLocked_def kIdentityRateWindow_def Let_def)
    then have "budget_run c limit (t # ts) w = budget_run c limit (t # ts) ?w1" by simp
    then show ?thesis using budget_same_window [of ?w1 "t # ts" c limit] later \<open>0 < t\<close> by simp
  next
    case False
    note IH = Cons.IH [of w] Cons.IH [of "set_counter c (counter_of c w + 1) w"]
    show ?thesis
      using IH Cons.prems False unat_inc [of "counter_of c w" limit]
      by (cases "counter_of c w < limit") (auto simp: TakeIdentityBudgetLocked_def Let_def not_less [symmetric])
  qed
qed simp

text \<open>
  The meter holds whatever the arrival times: of requests at non-decreasing times of the steady
  clock within any span of 60 seconds, a counter grants at most twice its limit, whatever the
  window was before; and at most its limit when they all fall into one window.
\<close>

theorem budget_rate_limited:
  assumes "sorted ts" "\<forall>t\<in>set ts. 0 < t \<and> T \<le> t \<and> t < T + kIdentityRateWindow"
  shows "grants (budget_run c limit ts w) \<le> 2 * unat limit \<and>
    (w = new_window \<longrightarrow> grants (budget_run c limit ts w) \<le> unat limit)"
proof
  show "grants (budget_run c limit ts w) \<le> 2 * unat limit"
    using budget_two_windows [OF assms, of c limit w] by linarith
  have "grants (budget_run c limit ts new_window) \<le> unat limit"
  proof (cases ts)
    case (Cons t ts1)
    let ?w1 = "new_window\<lparr>window_start := t\<rparr>"
    have t: "0 < t" "\<forall>t'\<in>set ts. t' - t < kIdentityRateWindow" using assms Cons by fastforce+
    have "TakeIdentityBudgetLocked t c limit new_window = TakeIdentityBudgetLocked t c limit ?w1"
      by (simp add: TakeIdentityBudgetLocked_def Let_def new_window_def kIdentityRateWindow_def)
    then have "budget_run c limit ts new_window = budget_run c limit ts ?w1" by (simp add: Cons)
    then show ?thesis using budget_same_window [of ?w1 ts c limit] t by simp
  qed simp
  then show "w = new_window \<longrightarrow> grants (budget_run c limit ts w) \<le> unat limit" by blast
qed

theorem budget_rate_limited_witness:
  "budget_run HintPackets 1 [5, 6, 7] new_window = [True, False, False] \<and> grants (budget_run HintPackets 1 [5, 6, 7] new_window) \<le> 1"
  using budget_rate_limited [of "[5, 6, 7]" 5 HintPackets 1 new_window]
  by (simp add: kIdentityRateWindow_def TakeIdentityBudgetLocked_def new_window_def Let_def)

section \<open>Replay filters\<close>

lemma cache_ok_length: "cache_ok cap q m \<Longrightarrow> length m = length q"
proof -
  assume "cache_ok cap q m"
  then have "distinct (map fst m)" "distinct (map snd q)" "set (map snd q) = set (map fst m)" by (auto simp: cache_ok_def um_ok_def)
  then show ?thesis by (metis distinct_card length_map)
qed

lemma expire_front_suffix: "\<forall>e\<in>set new. now - fst e \<le> ttl \<Longrightarrow> \<exists>old'. fst (expire_front now ttl (old @ new) m) = old' @ new"
proof (induction old arbitrary: m)
  case Nil
  then show ?case by (cases new) auto
next
  case (Cons e old)
  then show ?case by (cases "now - fst e > ttl") (auto intro: exI [of _ "e # old"])
qed

lemma make_room_suffix: "cache_ok cap (old @ new) m \<Longrightarrow> length new < cap \<Longrightarrow> \<exists>old'. fst (make_room cap (old @ new) m) = old' @ new"
proof (induction old arbitrary: m)
  case Nil
  then show ?case using cache_ok_length [OF Nil(1)] by (cases new) auto
next
  case (Cons e old)
  then show ?case using cache_ok_pop [of cap e "old @ new" m] by (cases "length m \<ge> cap") (auto intro: exI [of _ "e # old"])
qed

text \<open>The keys a filter admits in a sequence of requests.\<close>

fun admitted :: "('c \<Rightarrow> 's \<Rightarrow> 's \<times> string option) \<Rightarrow> 'c list \<Rightarrow> 's \<Rightarrow> string list" where
  "admitted admit [] s = []"
| "admitted admit (c # cs) s =
     (case admit c s of (s1, None) \<Rightarrow> admitted admit cs s1 | (s1, Some k) \<Rightarrow> k # admitted admit cs s1)"

text \<open>
  A filter that admits a key once: \<open>admit c s\<close> is one request at \<open>time_of c\<close>; it may first expire old
  keys, refuses a key that is still remembered, and remembers the key it admits.
\<close>

locale replay_filter =
  fixes admit :: "'c \<Rightarrow> 's \<Rightarrow> 's \<times> string option" and time_of :: "'c \<Rightarrow> int" and order :: "'s \<Rightarrow> (int \<times> string) list"
    and seen :: "'s \<Rightarrow> (string, int) umap" and inv :: "'s \<Rightarrow> bool" and cap :: nat and ttl :: int
  assumes inv_kept: "inv s \<Longrightarrow> inv (fst (admit c s))"
    and cache: "inv s \<Longrightarrow> cache_ok cap (order s) (seen s)"
    and pruned: "inv s \<Longrightarrow> \<exists>q m. ((q, m) = (order s, seen s) \<or> (q, m) = expire_front (time_of c) ttl (order s) (seen s)) \<and>
      (case snd (admit c s) of
         None \<Rightarrow> order (fst (admit c s)) = q
       | Some k \<Rightarrow> um_find m k = None \<and> order (fst (admit c s)) = fst (make_room cap q m) @ [(time_of c, k)])"
begin

lemma admit_suffix:
  assumes I: "inv s" and o: "order s = old @ new" and t: "\<forall>e\<in>set new. time_of c - fst e \<le> ttl" and n: "length new < cap"
  shows "case snd (admit c s) of
      None \<Rightarrow> \<exists>old'. order (fst (admit c s)) = old' @ new
    | Some k \<Rightarrow> k \<notin> snd ` set new \<and> (\<exists>old'. order (fst (admit c s)) = old' @ new @ [(time_of c, k)])"
proof -
  obtain q m where qm: "(q, m) = (order s, seen s) \<or> (q, m) = expire_front (time_of c) ttl (order s) (seen s)"
    "case snd (admit c s) of None \<Rightarrow> order (fst (admit c s)) = q
     | Some k \<Rightarrow> um_find m k = None \<and> order (fst (admit c s)) = fst (make_room cap q m) @ [(time_of c, k)]"
    using pruned [OF I] by blast
  have ok: "cache_ok cap q m" using qm(1) cache [OF I] cache_ok_expire [OF cache [OF I], of "time_of c" ttl] by (auto dest: sym)
  obtain old' where q: "q = old' @ new"
    using qm(1) expire_front_suffix [OF t, of old "seen s"] o by (auto dest: sym [of "(q, m)"])
  have "k \<notin> snd ` set new" if "um_find m k = None" for k
    using ok that q by (auto simp: cache_ok_def map_of_eq_None_iff)
  then show ?thesis using qm(2) make_room_suffix [of cap old' new m] ok q n by (auto split: option.splits)
qed

lemma admitted_once:
  assumes "inv s" "order s = old @ new" "\<forall>e\<in>set new. T \<le> fst e" "\<forall>c\<in>set cs. T \<le> time_of c \<and> time_of c \<le> T + ttl"
    "length new + length cs \<le> cap"
  shows "distinct (admitted admit cs s) \<and> set (admitted admit cs s) \<inter> snd ` set new = {}"
  using assms
proof (induction cs arbitrary: s old new)
  case (Cons c cs)
  have t: "\<forall>e\<in>set new. time_of c - fst e \<le> ttl" using Cons.prems by fastforce
  note step = admit_suffix [OF Cons.prems(1,2) t] inv_kept [OF Cons.prems(1), of c]
  show ?case
  proof (cases "snd (admit c s)")
    case None
    then show ?thesis using step Cons.IH [of "fst (admit c s)" _ new] Cons.prems by (cases "admit c s") auto
  next
    case (Some k)
    then obtain old' where "k \<notin> snd ` set new" "order (fst (admit c s)) = old' @ new @ [(time_of c, k)]" using step Cons.prems by auto
    then show ?thesis using Some step Cons.IH [of "fst (admit c s)" old' "new @ [(time_of c, k)]"] Cons.prems by (cases "admit c s") auto
  qed
qed simp

end

lemma prune_caches:
  "(seen_order (PruneIdentityStateLocked now force st), seen_receipts (PruneIdentityStateLocked now force st)) = (seen_order st, seen_receipts st) \<or>
   (seen_order (PruneIdentityStateLocked now force st), seen_receipts (PruneIdentityStateLocked now force st)) =
     expire_front now kSeenGroupReceiptTtl (seen_order st) (seen_receipts st)"
  "(answered_order (PruneIdentityStateLocked now force st), answered_challenges (PruneIdentityStateLocked now force st)) = (answered_order st, answered_challenges st) \<or>
   (answered_order (PruneIdentityStateLocked now force st), answered_challenges (PruneIdentityStateLocked now force st)) =
     expire_front now kAnsweredChallengeTtl (answered_order st) (answered_challenges st)"
proof -
  have f: "seen_order (fold (\<lambda>(f, d). EraseIdentityClaimLocked f d) xs s) = seen_order s"
    "seen_receipts (fold (\<lambda>(f, d). EraseIdentityClaimLocked f d) xs s) = seen_receipts s"
    "answered_order (fold (\<lambda>(f, d). EraseIdentityClaimLocked f d) xs s) = answered_order s"
    "answered_challenges (fold (\<lambda>(f, d). EraseIdentityClaimLocked f d) xs s) = answered_challenges s" for xs s
    by (induction xs arbitrary: s) (auto simp: EraseIdentityClaimLocked_def Let_def split: option.split)
  show "(seen_order (PruneIdentityStateLocked now force st), seen_receipts (PruneIdentityStateLocked now force st)) = (seen_order st, seen_receipts st) \<or>
   (seen_order (PruneIdentityStateLocked now force st), seen_receipts (PruneIdentityStateLocked now force st)) =
     expire_front now kSeenGroupReceiptTtl (seen_order st) (seen_receipts st)"
    by (simp add: PruneIdentityStateLocked_def Let_def case_prod_beta f)
  show "(answered_order (PruneIdentityStateLocked now force st), answered_challenges (PruneIdentityStateLocked now force st)) = (answered_order st, answered_challenges st) \<or>
   (answered_order (PruneIdentityStateLocked now force st), answered_challenges (PruneIdentityStateLocked now force st)) =
     expire_front now kAnsweredChallengeTtl (answered_order st) (answered_challenges st)"
    by (simp add: PruneIdentityStateLocked_def Let_def case_prod_beta f)
qed

text \<open>The two filters: the requests are the arguments of the section under the lock.\<close>

definition receipt_admit :: "int \<times> u32 \<times> string \<times> strict_receipt \<Rightarrow> identity_state \<Rightarrow> identity_state \<times> string option" where
  "receipt_admit c st =
     (case c of (now, g, sender, r) \<Rightarrow>
        case admit_receipt now g sender r st of (st1, x) \<Rightarrow> (st1, map_option (\<lambda>group_id. replay_key group_id sender r) x))"

definition challenge_admit :: "int \<times> string \<times> bytes \<Rightarrow> identity_state \<Rightarrow> identity_state \<times> string option" where
  "challenge_admit c st =
     (case c of (now, f, data) \<Rightarrow>
        case admit_challenge now f data st of (st1, b) \<Rightarrow> (st1, if b then Some (challenge_replay_key f data) else None))"

interpretation receipts: replay_filter receipt_admit fst seen_order seen_receipts id_inv kMaxSeenGroupReceipts kSeenGroupReceiptTtl
proof
  fix st and c :: "int \<times> u32 \<times> string \<times> strict_receipt"
  assume I: "id_inv st"
  obtain now g k r where c: "c = (now, g, k, r)" by (metis prod_cases4)
  show "id_inv (fst (receipt_admit c st))" using id_inv_receipt [OF I] by (simp add: receipt_admit_def c case_prod_beta)
  show "cache_ok kMaxSeenGroupReceipts (seen_order st) (seen_receipts st)" using I by (simp add: id_inv_def)
  let ?p = "PruneIdentityStateLocked now False (st\<lparr>diag := (diag st)\<lparr>d_receipts_in := d_receipts_in (diag st) + 1\<rparr>\<rparr>)"
  obtain st2 b where b: "TakeGroupSenderReceiptBudgetLocked k now ?p = (st2, b)" by (metis surj_pair)
  then have same: "seen_order st2 = seen_order ?p" "seen_receipts st2 = seen_receipts ?p"
    by (auto simp: TakeGroupSenderReceiptBudgetLocked_def Let_def split: prod.splits if_splits)
  have "case snd (receipt_admit c st) of
      None \<Rightarrow> seen_order (fst (receipt_admit c st)) = seen_order ?p
    | Some key \<Rightarrow> um_find (seen_receipts ?p) key = None \<and>
        seen_order (fst (receipt_admit c st)) = fst (make_room kMaxSeenGroupReceipts (seen_order ?p) (seen_receipts ?p)) @ [(fst c, key)]"
    using b same by (auto simp: receipt_admit_def admit_receipt_def c Let_def split: prod.splits bool.splits option.splits if_splits)
  moreover have "(seen_order ?p, seen_receipts ?p) = (seen_order st, seen_receipts st) \<or>
      (seen_order ?p, seen_receipts ?p) = expire_front (fst c) kSeenGroupReceiptTtl (seen_order st) (seen_receipts st)"
    using prune_caches(1) [of now False "st\<lparr>diag := (diag st)\<lparr>d_receipts_in := d_receipts_in (diag st) + 1\<rparr>\<rparr>"] by (simp add: c)
  ultimately show "\<exists>q m. ((q, m) = (seen_order st, seen_receipts st) \<or> (q, m) = expire_front (fst c) kSeenGroupReceiptTtl (seen_order st) (seen_receipts st)) \<and>
      (case snd (receipt_admit c st) of
         None \<Rightarrow> seen_order (fst (receipt_admit c st)) = q
       | Some key \<Rightarrow> um_find m key = None \<and> seen_order (fst (receipt_admit c st)) = fst (make_room kMaxSeenGroupReceipts q m) @ [(fst c, key)])"
    by blast
qed

interpretation answers: replay_filter challenge_admit fst answered_order answered_challenges id_inv kMaxAnsweredChallenges kAnsweredChallengeTtl
proof
  fix st and c :: "int \<times> string \<times> bytes"
  assume I: "id_inv st"
  obtain now f data where c: "c = (now, f, data)" by (metis prod_cases3)
  show "id_inv (fst (challenge_admit c st))" using id_inv_admit [OF I] by (simp add: challenge_admit_def c case_prod_beta)
  show "cache_ok kMaxAnsweredChallenges (answered_order st) (answered_challenges st)" using I by (simp add: id_inv_def)
  let ?p = "PruneIdentityStateLocked now False st"
  have "case snd (challenge_admit c st) of
      None \<Rightarrow> answered_order (fst (challenge_admit c st)) = answered_order ?p
    | Some key \<Rightarrow> um_find (answered_challenges ?p) key = None \<and>
        answered_order (fst (challenge_admit c st)) = fst (make_room kMaxAnsweredChallenges (answered_order ?p) (answered_challenges ?p)) @ [(fst c, key)]"
    using both_budgets_answered [of now ProofsSent kMaxProofsPerFriend kMaxProofsGlobal f ?p]
    by (auto simp: challenge_admit_def admit_challenge_def c Let_def split: prod.splits bool.splits option.splits if_splits)
  then show "\<exists>q m. ((q, m) = (answered_order st, answered_challenges st) \<or> (q, m) = expire_front (fst c) kAnsweredChallengeTtl (answered_order st) (answered_challenges st)) \<and>
      (case snd (challenge_admit c st) of
         None \<Rightarrow> answered_order (fst (challenge_admit c st)) = q
       | Some key \<Rightarrow> um_find m key = None \<and> answered_order (fst (challenge_admit c st)) = fst (make_room kMaxAnsweredChallenges q m) @ [(fst c, key)])"
    using prune_caches(2) [of now False st] by (simp add: c) blast
qed

text \<open>
  C32. A receipt is forwarded once: of any 4096 receipts that arrive within ten minutes (the time a
  receipt is remembered) in a reachable state, those that are handed on are pairwise different in
  group, sender, kind or message, however often each was sent.
\<close>

theorem receipt_forwarded_once:
  assumes "identity_reach keys_env st" "length cs \<le> 4096" "\<forall>c\<in>set cs. T \<le> fst c \<and> fst c \<le> T + kSeenGroupReceiptTtl"
  shows "distinct (admitted receipt_admit cs st)"
  using receipts.admitted_once [of st "seen_order st" "[]" T cs] bounded.reach_keeps [OF assms(1)] assms(2,3)
  by (simp add: kMaxSeenGroupReceipts_def)

definition grouped_state :: identity_state where
  "grouped_state = identity_init\<lparr>group_ids := [(4, ''g'')], group_numbers := []\<rparr>"

definition sample_receipt :: "int \<times> u32 \<times> string \<times> strict_receipt" where
  "sample_receipt = (5, 4, ''k'', \<lparr>rc_msg_id = ''m'', rc_type = ''read'', rc_sender = ''k''\<rparr>)"

theorem receipt_forwarded_once_witness:
  "distinct (admitted receipt_admit [sample_receipt, sample_receipt] grouped_state) \<and>
   admitted receipt_admit [sample_receipt, sample_receipt] grouped_state = [''g|k|read|m'']"
proof
  have "identity_reach keys_env grouped_state"
    using identity_reach.more [OF identity_reach.fresh identity_step.others_step [OF gap_run.groups [of _ "\<lambda>_. []" "\<lambda>_. [(4, ''g'')]"]]]
    by (simp add: grouped_state_def)
  then show "distinct (admitted receipt_admit [sample_receipt, sample_receipt] grouped_state)"
    by (rule receipt_forwarded_once [where T = 0]) (simp_all add: sample_receipt_def kSeenGroupReceiptTtl_def)
  show "admitted receipt_admit [sample_receipt, sample_receipt] grouped_state = [''g|k|read|m'']"
    by (simp add: sample_receipt_def grouped_state_def identity_init_def receipt_admit_def admit_receipt_def PruneIdentityStateLocked_def
        expired_claims_def TakeGroupSenderReceiptBudgetLocked_def TakeIdentityBudgetLocked_def new_window_def EffectiveReceiptCap_def
        identity_limits Let_def um_emplace_def replay_key_def)
qed

text \<open>
  A challenge is answered once: of any 1024 challenges that arrive within ten minutes in a
  reachable state, those a proof is prepared for are pairwise different in friend, chat or nonce,
  so a recorded challenge cannot be replayed for a second sealed answer.
\<close>

theorem challenge_answered_once:
  assumes "identity_reach keys_env st" "length cs \<le> 1024" "\<forall>c\<in>set cs. T \<le> fst c \<and> fst c \<le> T + kAnsweredChallengeTtl"
  shows "distinct (admitted challenge_admit cs st)"
  using answers.admitted_once [of st "answered_order st" "[]" T cs] bounded.reach_keeps [OF assms(1)] assms(2,3)
  by (simp add: kMaxAnsweredChallenges_def)

theorem challenge_answered_once_witness:
  "distinct (admitted challenge_admit [(5, ''F'', []), (5, ''F'', [])] identity_init) \<and>
   admitted challenge_admit [(5, ''F'', []), (5, ''F'', [])] identity_init = [''F||'']"
proof
  show "distinct (admitted challenge_admit [(5, ''F'', []), (5, ''F'', [])] identity_init)"
    by (rule challenge_answered_once [where T = 0, OF identity_reach.fresh]) (simp_all add: kAnsweredChallengeTtl_def)
  show "admitted challenge_admit [(5, ''F'', []), (5, ''F'', [])] identity_init = [''F||'']"
    by (simp add: identity_init_def challenge_admit_def admit_challenge_def PruneIdentityStateLocked_def expired_claims_def take_both_budgets_def
        take_friend_budget_def take_global_budget_def TakeIdentityBudgetLocked_def new_window_def
        identity_limits Let_def um_emplace_def challenge_replay_key_def)
qed

end
