(* ===== verification/ReceiptText.thy ===== *)
theory ReceiptText
  imports IdentityMeters QToxFragmenter
begin

unbundle bit_operations_syntax

text \<open>
  The text of a receipt: the two UTF-8 checks of the program (the decoder of
  \<open>source/V2TIMManagerImpl.cpp\<close>, the byte ranges of \<open>source/QToxMessageFragmenter.cpp\<close>) agree, and
  the body \<open>SendGroupReceipt\<close> writes is the one \<open>ParseStrictReceiptJson\<close> reads.
\<close>

section \<open>Bytes of a character\<close>

lemma unat_high: "unat ((c :: u8) AND NOT (mask n)) = unat c div 2 ^ n * 2 ^ n"
proof -
  have l: "unat c < 256" using unsigned_less [of c] by simp
  moreover have "unat c div 2 ^ n * 2 ^ n \<le> unat c" by simp
  ultimately have "unat c div 2 ^ n * 2 ^ n < 256" by linarith
  moreover have "c AND NOT (mask n) = push_bit n (drop_bit n c)" by (rule bit_word_eqI) (auto simp: bit_simps)
  ultimately show ?thesis using l
    by (simp only: unsigned_push_bit_eq unsigned_drop_bit_eq) (simp add: push_bit_eq_mult drop_bit_eq_div take_bit_eq_mod)
qed

lemma lead_masks:
  "((c :: u8) AND 0xE0) = 0xC0 \<longleftrightarrow> 0xC0 \<le> c \<and> c \<le> 0xDF" "(c AND 0xF0) = 0xE0 \<longleftrightarrow> 0xE0 \<le> c \<and> c \<le> 0xEF"
  "(c AND 0xF8) = 0xF0 \<longleftrightarrow> 0xF0 \<le> c \<and> c \<le> 0xF7" "(c AND 0xC0) = 0x80 \<longleftrightarrow> 0x80 \<le> c \<and> c \<le> 0xBF"
proof -
  have m: "(0xE0 :: u8) = NOT (mask 5)" "(0xF0 :: u8) = NOT (mask 4)" "(0xF8 :: u8) = NOT (mask 3)" "(0xC0 :: u8) = NOT (mask 6)"
    by (simp_all add: mask_eq_exp_minus_1)
  show "((c :: u8) AND 0xE0) = 0xC0 \<longleftrightarrow> 0xC0 \<le> c \<and> c \<le> 0xDF"
    unfolding m(1) word_unat_eq_iff unat_high by (simp add: word_le_nat_alt) arith
  show "(c AND 0xF0) = 0xE0 \<longleftrightarrow> 0xE0 \<le> c \<and> c \<le> 0xEF"
    using unat_high [of c 4] unfolding m(2) [symmetric] word_unat_eq_iff by (simp add: word_le_nat_alt) arith
  show "(c AND 0xF8) = 0xF0 \<longleftrightarrow> 0xF0 \<le> c \<and> c \<le> 0xF7"
    using unat_high [of c 3] unfolding m(3) [symmetric] word_unat_eq_iff by (simp add: word_le_nat_alt) arith
  show "(c AND 0xC0) = 0x80 \<longleftrightarrow> 0x80 \<le> c \<and> c \<le> 0xBF"
    using unat_high [of c 6] unfolding m(4) [symmetric] word_unat_eq_iff by (simp add: word_le_nat_alt) arith
qed
lemma unat_mod_word: "unat (c :: u8) mod 4294967296 = unat c"
proof -
  have "unat c < 256" using unsigned_less [of c] by simp
  then show ?thesis by simp
qed

lemma unat_ucast_take: "unat (ucast (take_bit n (c :: u8)) :: u32) = unat c mod 2 ^ n"
  by (simp only: unsigned_ucast_eq unsigned_take_bit_eq) (simp add: take_bit_eq_mod unat_mod_word mod_mod_cancel)

lemma cp_step: "unat x < 2 ^ 26 \<Longrightarrow> unat (push_bit 6 x OR ucast (cc AND 0x3F :: u8) :: u32) = unat x * 64 + unat cc mod 64"
proof -
  assume x: "unat x < 2 ^ 26"
  have m: "cc AND 0x3F = take_bit 6 cc" by (simp add: take_bit_eq_mask mask_eq_exp_minus_1)
  have "push_bit 6 x AND (ucast (take_bit 6 cc) :: u32) = 0"
    by (rule bit_word_eqI) (auto simp: bit_simps)
  then have "push_bit 6 x OR ucast (cc AND 0x3F :: u8) = push_bit 6 x + (ucast (take_bit 6 cc) :: u32)"
    using m by (simp add: disjunctive_add_eq_or)
  moreover have "unat (push_bit 6 x) = unat x * 64" using x
    by (simp only: unsigned_push_bit_eq) (simp add: push_bit_eq_mult take_bit_eq_mod)
  moreover have "unat cc mod 64 < 64" by simp
  then have "unat x * 64 + unat cc mod 64 < 4294967296" using x by simp
  ultimately show ?thesis using unat_ucast_take [of 6 cc] by (simp add: unat_plus_if')
qed

lemma lead_bits:
  "unat (ucast (c AND 0x1F :: u8) :: u32) = unat c mod 32" "unat (ucast (c AND 0x0F :: u8) :: u32) = unat c mod 16"
  "unat (ucast (c AND 0x07 :: u8) :: u32) = unat c mod 8"
proof -
  have m: "c AND 0x1F = take_bit 5 c" "c AND 0x0F = take_bit 4 c" "c AND 0x07 = take_bit 3 c"
    by (simp_all add: take_bit_eq_mask mask_eq_exp_minus_1)
  show "unat (ucast (c AND 0x1F :: u8) :: u32) = unat c mod 32" "unat (ucast (c AND 0x0F :: u8) :: u32) = unat c mod 16"
    "unat (ucast (c AND 0x07 :: u8) :: u32) = unat c mod 8"
    unfolding m unat_ucast_take by simp_all
qed

definition bad_cp :: "u32 \<Rightarrow> u32 \<Rightarrow> bool" where
  "bad_cp mn cp \<longleftrightarrow> cp < mn \<or> cp > 0x10FFFF \<or> (cp \<ge> 0xD800 \<and> cp \<le> 0xDFFF)"

abbreviation next_cp :: "u32 \<Rightarrow> u8 \<Rightarrow> u32" where
  "next_cp x cc \<equiv> push_bit 6 x OR ucast (cc AND 0x3F)"

definition bad_nat :: "nat \<Rightarrow> nat \<Rightarrow> bool" where
  "bad_nat mn v \<longleftrightarrow> v < mn \<or> v > 0x10FFFF \<or> (v \<ge> 0xD800 \<and> v \<le> 0xDFFF)"

lemma bad_cp_nat: "bad_cp mn cp \<longleftrightarrow> bad_nat (unat mn) (unat cp)"
  by (simp add: bad_cp_def bad_nat_def word_less_nat_alt word_le_nat_alt)

lemma less_times_64: "r < 64 \<Longrightarrow> x * 64 + r < n * 64 \<longleftrightarrow> x < (n :: nat)"
  by (cases "x < n") linarith+

lemma bad_nat_64: "r < 64 \<Longrightarrow> bad_nat (n * 64) (x * 64 + r) \<longleftrightarrow> x < n \<or> \<not> x < 17408 \<or> (\<not> x < 864 \<and> x < 896)"
proof -
  assume r: "r < 64"
  have k: "v > 0x10FFFF \<longleftrightarrow> \<not> v < 17408 * 64" "v \<ge> 0xD800 \<longleftrightarrow> \<not> v < 864 * 64" "v \<le> 0xDFFF \<longleftrightarrow> v < 896 * 64" for v :: nat
    by auto
  show ?thesis unfolding bad_nat_def k less_times_64 [OF r] by simp
qed

lemma bad_nat_three: "b < 64 \<Longrightarrow> r < 64 \<Longrightarrow> a < 16 \<Longrightarrow>
  bad_nat (32 * 64) ((a * 64 + b) * 64 + r) \<longleftrightarrow> (a = 0 \<and> b < 32) \<or> (a = 13 \<and> b > 31)"
proof -
  assume l: "b < 64" "r < 64" "a < 16"
  have "a * 64 + b < 32 \<longleftrightarrow> a = 0 \<and> b < 32" using l by (cases "a = 0") auto
  moreover have "a * 64 + b < 17408" using l by linarith
  moreover have "\<not> a * 64 + b < 864 \<and> a * 64 + b < 896 \<longleftrightarrow> a = 13 \<and> b > 31"
    using l by (cases a "13 :: nat" rule: linorder_cases) auto
  ultimately show ?thesis unfolding bad_nat_64 [OF l(2)] by blast
qed

lemma bad_nat_four: "b < 64 \<Longrightarrow> q < 64 \<Longrightarrow> r < 64 \<Longrightarrow> a < 8 \<Longrightarrow>
  bad_nat (1024 * 64) (((a * 64 + b) * 64 + q) * 64 + r) \<longleftrightarrow> (a = 0 \<and> b < 16) \<or> a > 4 \<or> (a = 4 \<and> b > 15)"
proof -
  assume l: "b < 64" "q < 64" "r < 64" "a < 8"
  have k: "(a * 64 + b) * 64 + q < 1024 \<longleftrightarrow> a * 64 + b < 16" "(a * 64 + b) * 64 + q < 17408 \<longleftrightarrow> a * 64 + b < 272"
    using less_times_64 [OF l(2), of "a * 64 + b" 16] less_times_64 [OF l(2), of "a * 64 + b" 272] by simp_all
  have "a * 64 + b < 16 \<longleftrightarrow> a = 0 \<and> b < 16" using l by (cases "a = 0") auto
  moreover have "\<not> a * 64 + b < 272 \<longleftrightarrow> a > 4 \<or> (a = 4 \<and> b > 15)" using l by (cases a "4 :: nat" rule: linorder_cases) auto
  moreover have "(a * 64 + b) * 64 + q < 896 \<longrightarrow> a * 64 + b < 16" using less_times_64 [OF l(2), of "a * 64 + b" 14] by simp
  ultimately show ?thesis unfolding bad_nat_64 [OF l(3)] k by blast
qed

lemma byte_range:
  assumes "lo \<le> (b :: u8)" "b \<le> hi" "unat lo = k * m" "unat hi = k * m + (m - 1)" "m > 0"
  obtains x where "x < m" "unat b = k * m + x" "unat b mod m = x"
proof -
  have "k * m \<le> unat b" "unat b \<le> k * m + (m - 1)" using assms(1-4) by (simp_all add: word_le_nat_alt)
  then have "unat b = k * m + (unat b - k * m)" "unat b - k * m < m" using assms(5) by linarith+
  then show thesis by (intro that [of "unat b - k * m"]) (simp_all, metis mod_less mod_mult_self3)
qed

lemma two_bytes:
  assumes "(0xC0 :: u8) \<le> c" "c \<le> 0xDF"
  shows "bad_cp 0x80 (next_cp (ucast (c AND 0x1F)) c1) \<longleftrightarrow> \<not> 0xC2 \<le> c"
proof -
  obtain a where a: "a < 32" "unat c = 192 + a" "unat c mod 32 = a" using byte_range [OF assms(1,2), of 6 32] by auto
  have v: "unat (next_cp (ucast (c AND 0x1F)) c1) = a * 64 + unat c1 mod 64"
    using a by (subst cp_step) (simp_all add: lead_bits)
  have "bad_nat (2 * 64) (a * 64 + unat c1 mod 64) \<longleftrightarrow> a < 2" using bad_nat_64 [of "unat c1 mod 64" 2 a] a by auto
  then show ?thesis using a by (simp add: bad_cp_nat v word_le_nat_alt) linarith
qed

lemma three_bytes:
  assumes "0xE0 \<le> c" "c \<le> 0xEF" "0x80 \<le> c1" "c1 \<le> 0xBF"
  shows "bad_cp 0x800 (next_cp (next_cp (ucast (c AND 0x0F)) c1) c2) \<longleftrightarrow> \<not> second_ok c c1"
proof -
  obtain a where a: "a < 16" "unat c = 224 + a" "unat c mod 16 = a" using byte_range [OF assms(1,2), of 14 16] by auto
  obtain b where b: "b < 64" "unat c1 = 128 + b" "unat c1 mod 64 = b" using byte_range [OF assms(3,4), of 2 64] by auto
  have i: "unat (next_cp (ucast (c AND 0x0F)) c1) = a * 64 + b"
    using a b by (subst cp_step) (simp_all add: lead_bits)
  have "unat (next_cp (next_cp (ucast (c AND 0x0F)) c1) c2) = (a * 64 + b) * 64 + unat c2 mod 64"
    using a b by (subst cp_step) (simp_all only: i, simp)
  moreover have "second_ok c c1 \<longleftrightarrow> \<not> (a = 0 \<and> b < 32) \<and> \<not> (a = 13 \<and> b > 31)"
    using a b by (simp add: second_ok_def word_unat_eq_iff word_less_nat_alt)
  ultimately show ?thesis using bad_nat_three [of b "unat c2 mod 64" a] a b by (simp add: bad_cp_nat)
qed

lemma four_bytes:
  assumes "0xF0 \<le> c" "c \<le> 0xF7" "0x80 \<le> c1" "c1 \<le> 0xBF"
  shows "bad_cp 0x10000 (next_cp (next_cp (next_cp (ucast (c AND 0x07)) c1) c2) c3) \<longleftrightarrow> \<not> (c \<le> 0xF4 \<and> second_ok c c1)"
proof -
  obtain a where a: "a < 8" "unat c = 240 + a" "unat c mod 8 = a" using byte_range [OF assms(1,2), of 30 8] by auto
  obtain b where b: "b < 64" "unat c1 = 128 + b" "unat c1 mod 64 = b" using byte_range [OF assms(3,4), of 2 64] by auto
  have i: "unat (next_cp (ucast (c AND 0x07)) c1) = a * 64 + b"
    using a b by (subst cp_step) (simp_all add: lead_bits)
  have q: "unat c2 mod 64 < 64" by simp
  have j: "unat (next_cp (next_cp (ucast (c AND 0x07)) c1) c2) = (a * 64 + b) * 64 + unat c2 mod 64"
    using a b by (subst cp_step) (simp_all only: i, simp)
  have "unat (next_cp (next_cp (next_cp (ucast (c AND 0x07)) c1) c2) c3) = ((a * 64 + b) * 64 + unat c2 mod 64) * 64 + unat c3 mod 64"
    using a b q by (subst cp_step) (simp_all only: j, simp)
  moreover have "c \<le> 0xF4 \<and> second_ok c c1 \<longleftrightarrow> \<not> a > 4 \<and> \<not> (a = 0 \<and> b < 16) \<and> \<not> (a = 4 \<and> b > 15)"
    using a b by (auto simp add: second_ok_def word_unat_eq_iff word_less_nat_alt word_le_nat_alt)
  ultimately show ?thesis using bad_nat_four [of b "unat c2 mod 64" "unat c3 mod 64" a] a b by (auto simp add: bad_cp_nat)
qed
section \<open>One character\<close>

definition utf8_step :: "bytes \<Rightarrow> nat" where
  "utf8_step data =
     (case data of
        [] \<Rightarrow> 0
      | c # rest \<Rightarrow>
          if c < 0x80 then 1
          else case utf8_lead c of
                 None \<Rightarrow> 0
               | Some (extra, cp0, min_cp) \<Rightarrow>
                   if length (c # rest) \<le> extra then 0
                   else case cont_loop extra cp0 rest of
                          None \<Rightarrow> 0
                        | Some cp \<Rightarrow> if bad_cp min_cp cp then 0 else Suc extra)"

lemma IsValidUtf8Bytes_step:
  "IsValidUtf8Bytes data \<longleftrightarrow> data = [] \<or> (utf8_step data \<noteq> 0 \<and> IsValidUtf8Bytes (drop (utf8_step data) data))"
  by (cases data) (auto simp: IsValidUtf8Bytes.simps utf8_step_def bad_cp_def split: option.split prod.split)

lemma cont_bytes: "IsContinuation b \<longleftrightarrow> 0x80 \<le> b \<and> b \<le> 0xBF"
  by (simp add: IsContinuation_def lead_masks)

lemma lead_cases:
  "c < 0x80 \<Longrightarrow> lead_width c = 1"
  "0x80 \<le> c \<Longrightarrow> c \<le> 0xBF \<Longrightarrow> lead_width c = 0 \<and> utf8_lead c = None"
  "0xC0 \<le> c \<Longrightarrow> c \<le> 0xDF \<Longrightarrow> lead_width c = (if 0xC2 \<le> c then 2 else 0) \<and> utf8_lead c = Some (1, ucast (c AND 0x1F), 0x80) \<and> (\<forall>b. second_ok c b)"
  "0xE0 \<le> c \<Longrightarrow> c \<le> 0xEF \<Longrightarrow> lead_width c = 3 \<and> utf8_lead c = Some (2, ucast (c AND 0x0F), 0x800)"
  "0xF0 \<le> c \<Longrightarrow> c \<le> 0xF7 \<Longrightarrow> lead_width c = (if c \<le> 0xF4 then 4 else 0) \<and> utf8_lead c = Some (3, ucast (c AND 0x07), 0x10000)"
  "0xF8 \<le> c \<Longrightarrow> lead_width c = 0 \<and> utf8_lead c = None"
  unfolding lead_width_def utf8_lead_def lead_masks second_ok_def
  unfolding word_le_nat_alt word_less_nat_alt word_unat_eq_iff by auto

lemma not_ascii: "0x80 \<le> c \<Longrightarrow> \<not> c < (0x80 :: u8)" "0xC0 \<le> c \<Longrightarrow> \<not> c < (0x80 :: u8)" "0xE0 \<le> c \<Longrightarrow> \<not> c < (0x80 :: u8)"
  "0xF0 \<le> c \<Longrightarrow> \<not> c < (0x80 :: u8)" "0xF8 \<le> c \<Longrightarrow> \<not> c < (0x80 :: u8)"
  unfolding word_le_nat_alt word_less_nat_alt by auto

lemma cont_loop_simps:
  "cont_loop 1 x (b1 # r) = (if IsContinuation b1 then Some (next_cp x b1) else None)"
  "cont_loop 2 x (b1 # b2 # r) = (if IsContinuation b1 \<and> IsContinuation b2 then Some (next_cp (next_cp x b1) b2) else None)"
  "cont_loop 3 x (b1 # b2 # b3 # r) =
     (if IsContinuation b1 \<and> IsContinuation b2 \<and> IsContinuation b3 then Some (next_cp (next_cp (next_cp x b1) b2) b3) else None)"
  by (simp_all add: IsContinuation_def numeral_eq_Suc)

lemma utf8_step_lead_step: "utf8_step (map byte_of s) = lead_step s"
proof (cases s)
  case Nil
  then show ?thesis by (simp add: utf8_step_def lead_step_def)
next
  case (Cons ch t)
  define c where "c = byte_of ch"
  note defs = Cons c_def [symmetric] utf8_step_def lead_step_def well_formed_char_def HasContinuationBytes_def
  consider (one) "c < 0x80" | (trail) "0x80 \<le> c" "c \<le> 0xBF" | (two) "0xC0 \<le> c" "c \<le> 0xDF" | (three) "0xE0 \<le> c" "c \<le> 0xEF"
    | (four) "0xF0 \<le> c" "c \<le> 0xF7" | (none) "0xF8 \<le> c"
    unfolding word_le_nat_alt word_less_nat_alt by simp linarith
  then show ?thesis
  proof cases
    case one
    then show ?thesis using lead_cases(1) [OF one] by (simp add: defs)
  next
    case trail
    then show ?thesis using lead_cases(2) [OF trail] not_ascii by (simp add: defs)
  next
    case two
    show ?thesis
    proof (cases t)
      case (Cons x1 t1)
      then show ?thesis using lead_cases(3) [OF two] not_ascii(2) [OF two(1)] two_bytes [OF two, of "byte_of x1"]
        by (simp add: defs cont_loop_simps IsContinuation_def)
    qed (use lead_cases(3) [OF two] not_ascii(2) [OF two(1)] in \<open>simp add: defs\<close>)
  next
    case three
    note facts = lead_cases(4) [OF three] not_ascii(3) [OF three(1)]
    show ?thesis
    proof (cases "\<exists>x1 x2 t2. t = x1 # x2 # t2")
      case True
      then obtain x1 x2 t2 where t: "t = x1 # x2 # t2" by blast
      then show ?thesis using facts three_bytes [OF three, of "byte_of x1" "byte_of x2"]
        by (auto simp: defs cont_loop_simps cont_bytes)
    next
      case False
      then have "length t < 2" by (cases t; cases "tl t") auto
      then show ?thesis using facts by (simp add: defs)
    qed
  next
    case four
    note facts = lead_cases(5) [OF four] not_ascii(4) [OF four(1)]
    show ?thesis
    proof (cases "\<exists>x1 x2 x3 t3. t = x1 # x2 # x3 # t3")
      case True
      then obtain x1 x2 x3 t3 where t: "t = x1 # x2 # x3 # t3" by blast
      then show ?thesis using facts four_bytes [OF four, of "byte_of x1" "byte_of x2" "byte_of x3"]
        by (auto simp: defs cont_loop_simps cont_bytes)
    next
      case False
      then have "length t < 3" by (cases t; cases "tl t"; cases "tl (tl t)") auto
      then show ?thesis using facts by (simp add: defs)
    qed
  next
    case none
    then show ?thesis using lead_cases(6) [OF none] not_ascii by (simp add: defs)
  qed
qed

lemma utf8_checks_eq: "IsValidUtf8Bytes (map byte_of s) = IsValidUtf8 s"
proof (induction s rule: measure_induct_rule [where f = length])
  case (less s)
  show ?case
  proof (cases "s = [] \<or> lead_step s = 0")
    case True
    then show ?thesis using IsValidUtf8Bytes_step [of "map byte_of s"] IsValidUtf8_step [of s] by (auto simp: utf8_step_lead_step)
  next
    case False
    then have "length (drop (lead_step s) s) < length s" by (cases s) auto
    from less [OF this] show ?thesis
      using IsValidUtf8Bytes_step [of "map byte_of s"] IsValidUtf8_step [of s] False by (simp add: utf8_step_lead_step drop_map)
  qed
qed

text \<open>
  The two UTF-8 checks of the program agree: a text passes the decoder used for receipts (code
  points with their lower bounds, surrogates and the upper end) exactly when it passes the byte
  ranges used by the message fragmenter.
\<close>

theorem utf8_checks_agree: "IsValidUtf8Bytes data = IsValidUtf8 (map char_at data)"
  using utf8_checks_eq [of "map char_at data"] by simp

section \<open>Escaping keeps a text well formed\<close>

lemma IsValidUtf8_ascii: "list_all (\<lambda>c. byte_of c < 0x80) s \<Longrightarrow> IsValidUtf8 s"
proof (induction s)
  case (Cons c s)
  then have "lead_step (c # s) = 1" using lead_cases(1) [of "byte_of c"] HasContinuationBytes_0 [of "c # s"]
    by (simp add: lead_step_def well_formed_char_def)
  then show ?case using Cons IsValidUtf8_step [of "c # s"] by simp
qed simp

abbreviation escape_char :: "char \<Rightarrow> string" where
  "escape_char c \<equiv> if c = CHR 0x22 then [CHR 0x5C, CHR 0x22] else if c = CHR 0x5C then [CHR 0x5C, CHR 0x5C]
     else if byte_of c \<ge> 0x20 then [c] else []"

lemma Escape_simps [simp]:
  "EscapeJsonForReceipt [] = []" "EscapeJsonForReceipt (c # s) = escape_char c @ EscapeJsonForReceipt s"
  "EscapeJsonForReceipt (a @ b) = EscapeJsonForReceipt a @ EscapeJsonForReceipt b"
  by (simp_all add: EscapeJsonForReceipt_def)

lemma Escape_high: "list_all (\<lambda>c. \<not> byte_of c < 0x80) s \<Longrightarrow> EscapeJsonForReceipt s = s"
proof (induction s)
  case (Cons c s)
  have "byte_of (CHR 0x22) < 0x80" "byte_of (CHR 0x5C) < 0x80" by (simp_all add: byte_of_def)
  moreover have "\<not> byte_of c < 0x80 \<Longrightarrow> 0x20 \<le> byte_of c" by (simp add: word_less_nat_alt word_le_nat_alt)
  ultimately show ?case using Cons by auto
qed simp

lemma escape_char_ascii: "byte_of c < 0x80 \<Longrightarrow> list_all (\<lambda>c. byte_of c < 0x80) (escape_char c)"
  by (auto simp: byte_of_def)

lemma first_char_high:
  assumes "lead_step s \<noteq> 0" "lead_step s \<noteq> 1"
  shows "list_all (\<lambda>c. \<not> byte_of c < 0x80) (take (lead_step s) s)"
proof -
  let ?n = "lead_step s"
  have s: "s \<noteq> []" "HasContinuationBytes s 1 (?n - 1)" "lead_width (byte_of (s ! 0)) = ?n"
    using assms by (auto simp: lead_step_def well_formed_char_def split: if_splits)
  then obtain c t where t: "s = c # t" by (cases s) auto
  have c: "\<not> byte_of c < 0x80" using s(3) assms(2) lead_cases(1) [of "byte_of c"] t by auto
  have "list_all (\<lambda>c. IsContinuation (byte_of c)) (take (?n - 1) t)"
    using s(2) by (simp add: t HasContinuationBytes_def split: if_splits)
  then have "list_all (\<lambda>c. \<not> byte_of c < 0x80) (take (?n - 1) t)"
    by (auto simp: list_all_iff cont_bytes not_less)
  moreover have "take ?n s = c # take (?n - 1) t" using assms(1) t by (cases ?n) simp_all
  ultimately show ?thesis using c by simp
qed

lemma Escape_valid: "IsValidUtf8 s \<Longrightarrow> IsValidUtf8 (EscapeJsonForReceipt s)"
proof (induction s rule: measure_induct_rule [where f = length])
  case (less s)
  show ?case
  proof (cases "s = []")
    case False
    let ?n = "lead_step s"
    have n: "?n \<noteq> 0" "IsValidUtf8 (drop ?n s)" using less.prems False IsValidUtf8_step [of s] by auto
    with False have "length (drop ?n s) < length s" by (cases s) auto
    from less.IH [OF this n(2)] have tail: "IsValidUtf8 (EscapeJsonForReceipt (drop ?n s))" .
    have head: "IsValidUtf8 (EscapeJsonForReceipt (take ?n s))"
    proof (cases "?n = 1")
      case True
      from False obtain c t where t: "s = c # t" by (cases s) auto
      have "byte_of c < 0x80"
      proof (rule ccontr)
        assume "\<not> byte_of c < 0x80"
        then have "lead_width (byte_of c) \<noteq> 1"
          unfolding lead_width_def word_le_nat_alt word_less_nat_alt by auto
        then show False using True t by (simp add: lead_step_def split: if_splits)
      qed
      then show ?thesis using True t escape_char_ascii [of c] IsValidUtf8_ascii [of "escape_char c"] by simp
    next
      case high: False
      have "?n < length s \<Longrightarrow> \<not> cont (s ! ?n)"
        using IsValidUtf8_no_leading_continuation [OF n(2)] by simp
      then have "IsValidUtf8 (take ?n s)" using IsValidUtf8_cut [OF less.prems lead_step_le_length] by blast
      then show ?thesis using Escape_high [OF first_char_high [OF n(1) high]] by simp
    qed
    show ?thesis using IsValidUtf8_append [OF head] tail by (metis Escape_simps(3) append_take_drop_id)
  qed simp
qed

section \<open>The parser reads what was written\<close>

text \<open>\<open>enc\<close> is read as the string \<open>s\<close>, up to the closing quote.\<close>

definition reads :: "string \<Rightarrow> string \<Rightarrow> bool" where
  "reads enc s \<longleftrightarrow> (\<forall>out rest. string_loop out (map byte_of enc @ 0x22 # rest) = Some (out @ s, rest))"

definition plain_char :: "char \<Rightarrow> bool" where
  "plain_char c \<longleftrightarrow> byte_of c \<ge> 0x20 \<and> c \<noteq> CHR 0x22 \<and> c \<noteq> CHR 0x5C"

lemma byte_of_quote: "byte_of c = 0x22 \<longleftrightarrow> c = CHR 0x22" "byte_of c = 0x5C \<longleftrightarrow> c = CHR 0x5C"
  using byte_of_inject [of c "CHR 0x22"] byte_of_inject [of c "CHR 0x5C"] by (simp_all add: byte_of_def del: byte_of_inject)

lemma reads_Nil: "reads [] []"
  by (simp add: reads_def string_loop.simps)

lemma reads_plain: "plain_char c \<Longrightarrow> reads enc s \<Longrightarrow> reads (c # enc) (c # s)"
  by (auto simp: reads_def plain_char_def string_loop.simps(2) byte_of_quote not_le [symmetric])

lemma reads_escape: "reads enc s \<Longrightarrow> reads (CHR 0x5C # CHR 0x22 # enc) (CHR 0x22 # s)" "reads enc s \<Longrightarrow> reads (CHR 0x5C # CHR 0x5C # enc) (CHR 0x5C # s)"
  by (auto simp: reads_def string_loop.simps(2) json_escape_def byte_of_def)

lemma reads_plain_string: "list_all plain_char s \<Longrightarrow> reads s s"
  by (induction s) (simp_all add: reads_Nil reads_plain)

lemma reads_Escape: "reads (EscapeJsonForReceipt s) (filter (\<lambda>c. byte_of c \<ge> 0x20) s)"
proof (induction s)
  case (Cons c s)
  consider "c = CHR 0x22" | "c = CHR 0x5C" | "plain_char c" | "\<not> byte_of c \<ge> 0x20" by (auto simp: plain_char_def)
  then show ?case
  proof cases
    case 1
    then show ?thesis using reads_escape(1) [OF Cons] by (simp add: byte_of_def)
  next
    case 2
    then show ?thesis using reads_escape(2) [OF Cons] by (simp add: byte_of_def)
  next
    case 3
    then show ?thesis using reads_plain [OF 3 Cons] by (simp add: plain_char_def)
  next
    case 4
    moreover have "byte_of (CHR 0x22) \<ge> 0x20" "byte_of (CHR 0x5C) \<ge> 0x20" by (simp_all add: byte_of_def)
    ultimately show ?thesis using Cons by auto
  qed
qed (simp add: reads_Nil)

lemma parse_field_reads:
  assumes "reads ke k" "reads ve v" "\<not> json_ws c"
  shows "parse_field (0x22 # map byte_of ke @ 0x22 # 0x3A # 0x22 # map byte_of ve @ 0x22 # c # rest) = Some (k, v, c # rest)"
  using assms by (simp add: parse_field_def parse_string_def skip_ws_def json_ws_def reads_def)

lemma fields_comma:
  assumes "reads ke k" "reads ve v" "um_find fs k = None"
  shows "fields_loop fs (0x22 # map byte_of ke @ 0x22 # 0x3A # 0x22 # map byte_of ve @ 0x22 # 0x2C # rest) = fields_loop (um_put k v fs) rest"
  using assms by (subst fields_loop.simps) (simp add: parse_field_reads json_ws_def Let_def)

lemma fields_close:
  assumes "reads ke k" "reads ve v" "um_find fs k = None"
  shows "fields_loop fs (0x22 # map byte_of ke @ 0x22 # 0x3A # 0x22 # map byte_of ve @ 0x22 # 0x7D # rest) = Some (um_put k v fs, rest)"
  using assms by (subst fields_loop.simps) (simp add: parse_field_reads json_ws_def Let_def)

lemma hex_all: "(\<And>c. c \<in> set hex_chars \<Longrightarrow> P c) \<Longrightarrow> list_all P (tox_bytes_to_hex key)"
proof -
  assume P: "\<And>c. c \<in> set hex_chars \<Longrightarrow> P c"
  have "unat (b AND 0xF :: u8) < length hex_chars" for b
    using word_and_le1 [of b "0xF"] by (auto simp: word_le_nat_alt hex_chars_def)
  then have "P (hex_chars ! unat (b AND 0xF :: u8))" for b using P nth_mem by blast
  then show ?thesis by (induction key) simp_all
qed

lemma hex_plain: "list_all plain_char (tox_bytes_to_hex key)"
  by (rule hex_all) (auto simp: hex_chars_def plain_char_def byte_of_def)

lemma hex_ascii: "list_all (\<lambda>c. byte_of c < 0x80) (tox_bytes_to_hex key)"
  by (rule hex_all) (auto simp: hex_chars_def byte_of_def)

lemma body_bytes:
  "map byte_of (receipt_body m t key) =
     0x7B # 0x22 # map byte_of ''type'' @ 0x22 # 0x3A # 0x22 # map byte_of ''receipt'' @ 0x22 # 0x2C #
     0x22 # map byte_of ''msgID'' @ 0x22 # 0x3A # 0x22 # map byte_of (EscapeJsonForReceipt m) @ 0x22 # 0x2C #
     0x22 # map byte_of ''receiptType'' @ 0x22 # 0x3A # 0x22 # map byte_of t @ 0x22 # 0x2C #
     0x22 # map byte_of ''sender'' @ 0x22 # 0x3A # 0x22 # map byte_of (tox_bytes_to_hex key) @ 0x22 # [0x7D]"
  by (simp add: receipt_body_def byte_of_def)

lemma body_parses:
  assumes m: "IsValidUtf8 m" "\<exists>c\<in>set m. byte_of c \<ge> 0x20" and t: "t = ''received'' \<or> t = ''read''" and key: "length key = TOX_PUBLIC_KEY_SIZE"
  shows "ParseStrictReceiptJson (map byte_of (receipt_body m t key)) =
    Some \<lparr>rc_msg_id = filter (\<lambda>c. byte_of c \<ge> 0x20) m, rc_type = t, rc_sender = tox_bytes_to_hex key\<rparr>"
proof -
  have plain: "list_all plain_char t" "list_all plain_char ''type''" "list_all plain_char ''receipt''" "list_all plain_char ''msgID''"
    "list_all plain_char ''receiptType''" "list_all plain_char ''sender''"
    using t by (auto simp: plain_char_def byte_of_def)
  note r = plain [THEN reads_plain_string] reads_Escape [of m] reads_plain_string [OF hex_plain [of key]]
  let ?f1 = "um_put ''type'' ''receipt'' []"
  let ?f2 = "um_put ''msgID'' (filter (\<lambda>c. byte_of c \<ge> 0x20) m) ?f1"
  have "fields_loop [] (tl (map byte_of (receipt_body m t key))) =
      Some (um_put ''sender'' (tox_bytes_to_hex key) (um_put ''receiptType'' t ?f2), [])"
    unfolding body_bytes list.sel
    by (subst fields_comma [OF r(2) r(3)], simp, subst fields_comma [OF r(4) r(7)], simp, subst fields_comma [OF r(5) r(1)], simp,
        subst fields_close [OF r(6) r(8)], simp, rule refl)
  then have fields: "fields_loop [] (tl (map byte_of (receipt_body m t key))) =
      Some ([(''type'', ''receipt''), (''msgID'', filter (\<lambda>c. byte_of c \<ge> 0x20) m), (''receiptType'', t), (''sender'', tox_bytes_to_hex key)], [])"
    by simp
  have ascii: "list_all (\<lambda>c. byte_of c < 0x80) t" using t by (auto simp: byte_of_def)
  have pre: "receipt_body m t key = pre @ EscapeJsonForReceipt m @ post"
    if "pre = [CHR 0x7B, CHR 0x22] @ ''type'' @ [CHR 0x22, CHR '':'', CHR 0x22] @ ''receipt'' @ [CHR 0x22, CHR '','', CHR 0x22] @ ''msgID'' @ [CHR 0x22, CHR '':'', CHR 0x22]"
      "post = [CHR 0x22, CHR '','', CHR 0x22] @ ''receiptType'' @ [CHR 0x22, CHR '':'', CHR 0x22] @ t @ [CHR 0x22, CHR '','', CHR 0x22] @
        ''sender'' @ [CHR 0x22, CHR '':'', CHR 0x22] @ tox_bytes_to_hex key @ [CHR 0x22, CHR 0x7D]" for pre post
    using that by (simp add: receipt_body_def)
  have "IsValidUtf8 (receipt_body m t key)"
    unfolding pre [OF refl refl]
    by (subst IsValidUtf8_append [OF IsValidUtf8_ascii], simp add: byte_of_def,
        subst IsValidUtf8_append [OF Escape_valid [OF m(1)]], rule IsValidUtf8_ascii, use ascii hex_ascii [of key] in \<open>simp add: byte_of_def\<close>)
  then have valid: "IsValidUtf8Bytes (map byte_of (receipt_body m t key))" using utf8_checks_eq by blast
  obtain c where c: "c \<in> set m" "byte_of c \<ge> 0x20" using m(2) by blast
  then have "filter (\<lambda>c. byte_of c \<ge> 0x20) m \<noteq> []" by (auto simp: filter_empty_conv)
  moreover have "skip_ws (map byte_of (receipt_body m t key)) = map byte_of (receipt_body m t key)" "map byte_of (receipt_body m t key) \<noteq> []"
    "map byte_of (receipt_body m t key) ! 0 = 0x7B"
    unfolding body_bytes by (simp_all add: skip_ws_def json_ws_def)
  ultimately show ?thesis
    using valid fields t key isxdigit_tox_bytes_to_hex [of key]
    by (simp add: ParseStrictReceiptJson_def Let_def drop_Suc receipt_fields_def skip_ws_def)
qed

section \<open>From the sender to the receiver\<close>

lemma send_receipt_packet:
  assumes "SendGroupReceipt env gid author m t st = (st1, 1)"
  obtains g peer key where "um_find (group_numbers st) gid = Some g" "self_group_key_of env g = Some key"
    "t = ''received'' \<or> t = ''read''"
    "last (group_packets st1) = (g, peer, Wrap kGroupReceipt (Some (map byte_of (receipt_body m t key))))" "group_packets st1 \<noteq> []"
  using assms by (auto simp: SendGroupReceipt_def Let_def split: if_splits option.splits prod.splits)

text \<open>
  C31. A receipt that was sent arrives. When \<open>SendGroupReceipt\<close> reports success for a well-formed
  message id with a printable character, the last packet it sent carries a body which the receiving
  side parses to that kind of receipt, that message id (without control characters) and our key in
  the group; and a running receiver to which toxcore names that key as the sender hands exactly
  this body on, under its own name of the group, when its meters and its replay filter admit it,
  provided it is at most 1024 bytes long.
\<close>

theorem receipt_roundtrip:
  assumes "SendGroupReceipt env gid author m t st = (st1, 1)" "IsValidUtf8 m" "\<exists>c\<in>set m. byte_of c \<ge> 0x20"
    and "\<And>g key. self_group_key_of env g = Some key \<Longrightarrow> length key = TOX_PUBLIC_KEY_SIZE"
  shows "\<exists>g peer key payload. last (group_packets st1) = (g, peer, Wrap kGroupReceipt (Some payload)) \<and> self_group_key_of env g = Some key \<and>
    (let r = \<lparr>rc_msg_id = filter (\<lambda>c. byte_of c \<ge> 0x20) m, rc_type = t, rc_sender = tox_bytes_to_hex key\<rparr> in
     ParseStrictReceiptJson payload = Some r \<and>
     (\<forall>env' g' peer' st'. length payload \<le> 1024 \<and> tox_alive env' \<and> sdk_running env' \<and> \<not> rendezvous_owns env' g' \<and> group_peer_key env' g' peer' = Some key \<longrightarrow>
        HandleGroupCustomPrivatePacket env' g' peer' (Some (Wrap kGroupReceipt (Some payload))) st' =
          (case admit_receipt (clock env') g' (LowerHex (tox_bytes_to_hex key)) r st' of
             (st2, None) \<Rightarrow> st2
           | (st2, Some group_id) \<Rightarrow> st2\<lparr>group_actions := group_actions st2 @ [(group_id, tox_bytes_to_hex key, payload)]\<rparr>)))"
proof -
  obtain g peer key where p: "self_group_key_of env g = Some key" "t = ''received'' \<or> t = ''read''"
    "last (group_packets st1) = (g, peer, Wrap kGroupReceipt (Some (map byte_of (receipt_body m t key))))"
    using send_receipt_packet [OF assms(1)] by metis
  let ?r = "\<lparr>rc_msg_id = filter (\<lambda>c. byte_of c \<ge> 0x20) m, rc_type = t, rc_sender = tox_bytes_to_hex key\<rparr>"
  let ?payload = "map byte_of (receipt_body m t key)"
  have parse: "ParseStrictReceiptJson ?payload = Some ?r" by (rule body_parses [OF assms(2,3) p(2) assms(4) [OF p(1)]])
  have kinds: "kGroupReceipt \<noteq> kIdentityProof" by (simp add: kGroupReceipt_def kIdentityProof_def)
  have "?payload \<noteq> []" by (simp add: receipt_body_def)
  then have handled: "HandleGroupCustomPrivatePacket env' g' peer' (Some (Wrap kGroupReceipt (Some ?payload))) st' =
      (case admit_receipt (clock env') g' (LowerHex (tox_bytes_to_hex key)) ?r st' of
         (st2, None) \<Rightarrow> st2
       | (st2, Some group_id) \<Rightarrow> st2\<lparr>group_actions := group_actions st2 @ [(group_id, tox_bytes_to_hex key, ?payload)]\<rparr>)"
    if "length ?payload \<le> 1024" "tox_alive env'" "sdk_running env'" "\<not> rendezvous_owns env' g'" "group_peer_key env' g' peer' = Some key" for env' g' peer' st'
    using that parse kinds by (simp add: HandleGroupCustomPrivatePacket_def Let_def)
  show ?thesis unfolding Let_def
    by (rule exI [of _ g], rule exI [of _ peer], rule exI [of _ key], rule exI [of _ ?payload]) (use p parse handled in blast)
qed

definition receipt_sender_state :: identity_state where
  "receipt_sender_state = identity_init\<lparr>group_numbers := [(''g'', 4)]\<rparr>"

lemma receipt_sent:
  "\<exists>st1. SendGroupReceipt quiet_env ''g'' (tox_bytes_to_hex (replicate 32 5)) ''m1'' ''read'' receipt_sender_state = (st1, 1)"
proof -
  have "tox_hex_to_bytes (tox_bytes_to_hex (replicate 32 5)) TOX_PUBLIC_KEY_SIZE = Some (replicate 32 5)"
    by (simp add: tox_hex_of_bytes identity_sizes)
  then have "ResolveGroupPeerIdForKey quiet_env 4 (tox_bytes_to_hex (replicate 32 5)) receipt_sender_state = (receipt_sender_state, 0)"
    by (simp add: ResolveGroupPeerIdForKey_def quiet_env_def receipt_sender_state_def identity_init_def peer_scan.simps)
  moreover have "\<not> IsConferenceMapKey 4" by (simp add: IsConferenceMapKey_def kConferenceMapKeyTag_def)
  ultimately show ?thesis
    by (simp add: SendGroupReceipt_def quiet_env_def receipt_sender_state_def identity_sizes)
qed

theorem receipt_roundtrip_witness:
  "\<exists>st1 g peer payload. SendGroupReceipt quiet_env ''g'' (tox_bytes_to_hex (replicate 32 5)) ''m1'' ''read'' receipt_sender_state = (st1, 1) \<and>
     last (group_packets st1) = (g, peer, Wrap kGroupReceipt (Some payload)) \<and>
     ParseStrictReceiptJson payload = Some \<lparr>rc_msg_id = ''m1'', rc_type = ''read'', rc_sender = tox_bytes_to_hex (replicate 32 2)\<rparr>"
proof -
  obtain st1 where s: "SendGroupReceipt quiet_env ''g'' (tox_bytes_to_hex (replicate 32 5)) ''m1'' ''read'' receipt_sender_state = (st1, 1)"
    using receipt_sent by blast
  have "IsValidUtf8 ''m1''" by (rule IsValidUtf8_ascii) (simp add: byte_of_def)
  moreover have "\<exists>c\<in>set ''m1''. byte_of c \<ge> 0x20" by (simp add: byte_of_def)
  moreover have key: "self_group_key_of quiet_env g = Some key \<longleftrightarrow> key = replicate 32 2" for g key by (auto simp: quiet_env_def)
  ultimately obtain g peer payload where "last (group_packets st1) = (g, peer, Wrap kGroupReceipt (Some payload))"
    "ParseStrictReceiptJson payload = Some \<lparr>rc_msg_id = filter (\<lambda>c. byte_of c \<ge> 0x20) ''m1'', rc_type = ''read'', rc_sender = tox_bytes_to_hex (replicate 32 2)\<rparr>"
    using receipt_roundtrip [OF s] unfolding Let_def key identity_sizes by auto
  moreover have "filter (\<lambda>c. byte_of c \<ge> 0x20) ''m1'' = ''m1''" by (simp add: byte_of_def)
  ultimately show ?thesis using s by metis
qed

end
