(* ===== verification/GroupWireReadiness.thy ===== *)
theory GroupWireReadiness
  imports Prelude
begin

text \<open>
  \<open>source/GroupWireReadiness.h\<close>: whether a lossless send to a group can reach anyone.

  The state is the class's two members: the set of groups whose sync is under way and the map
  from a group to its confirmed peers. The contract, \<open>wire_spec\<close>, is what toxcore's callbacks
  mean for one group at a time; \<open>wire_step\<close> refines it, and the map never keeps an empty set.
\<close>

record wire_readiness =
  awaiting_sync :: "u32 set"
  confirmed_peers :: "(u32, u32 set) umap"

definition wire_init :: wire_readiness where
  "wire_init = \<lparr>awaiting_sync = {}, confirmed_peers = []\<rparr>"

definition AwaitingSync :: "wire_readiness \<Rightarrow> u32 \<Rightarrow> bool" where
  "AwaitingSync s grp \<longleftrightarrow> grp \<in> awaiting_sync s"

definition Ready :: "wire_readiness \<Rightarrow> u32 \<Rightarrow> bool" where
  "Ready s grp =
     (if AwaitingSync s grp then False
      else case um_find (confirmed_peers s) grp of None \<Rightarrow> False | Some peers \<Rightarrow> peers \<noteq> {})"

definition BeginSync :: "u32 \<Rightarrow> wire_readiness \<Rightarrow> wire_readiness" where
  "BeginSync grp s =
     s\<lparr>awaiting_sync := insert grp (awaiting_sync s),
       confirmed_peers := um_erase grp (confirmed_peers s)\<rparr>"

definition SyncDone :: "u32 \<Rightarrow> wire_readiness \<Rightarrow> wire_readiness \<times> bool" where
  "SyncDone grp s =
     (let t = s\<lparr>awaiting_sync := awaiting_sync s - {grp}\<rparr> in (t, Ready t grp))"

definition PeerConfirmed :: "u32 \<Rightarrow> u32 \<Rightarrow> wire_readiness \<Rightarrow> wire_readiness \<times> bool" where
  "PeerConfirmed grp peer s =
     (let was_ready = Ready s grp;
          peers = (case um_find (confirmed_peers s) grp of None \<Rightarrow> {} | Some p \<Rightarrow> p);
          t = s\<lparr>confirmed_peers := um_put grp (insert peer peers) (confirmed_peers s)\<rparr> in
      (t, \<not> was_ready \<and> Ready t grp))"

definition PeerExited :: "u32 \<Rightarrow> u32 \<Rightarrow> wire_readiness \<Rightarrow> wire_readiness" where
  "PeerExited grp peer s =
     (case um_find (confirmed_peers s) grp of
        None \<Rightarrow> s
      | Some peers \<Rightarrow>
          let rest = peers - {peer} in
          if rest = {} then s\<lparr>confirmed_peers := um_erase grp (confirmed_peers s)\<rparr>
          else s\<lparr>confirmed_peers := um_put grp rest (confirmed_peers s)\<rparr>)"

definition Forget :: "u32 \<Rightarrow> wire_readiness \<Rightarrow> wire_readiness" where
  "Forget grp s =
     s\<lparr>awaiting_sync := awaiting_sync s - {grp},
       confirmed_peers := um_erase grp (confirmed_peers s)\<rparr>"

definition wire_Clear :: "wire_readiness \<Rightarrow> wire_readiness" where
  "wire_Clear s = s\<lparr>awaiting_sync := {}, confirmed_peers := []\<rparr>"

section \<open>The contract\<close>

datatype wire_event =
  EBegin u32 | EDone u32 | EJoin u32 u32 | EExit u32 u32 | EForget u32 | EClear

fun wire_step :: "wire_event \<Rightarrow> wire_readiness \<Rightarrow> wire_readiness" where
  "wire_step (EBegin g) s = BeginSync g s"
| "wire_step (EDone g) s = fst (SyncDone g s)"
| "wire_step (EJoin g p) s = fst (PeerConfirmed g p s)"
| "wire_step (EExit g p) s = PeerExited g p s"
| "wire_step (EForget g) s = Forget g s"
| "wire_step EClear s = wire_Clear s"

text \<open>One group: is its sync under way, and which peers does a lossless send reach.\<close>

fun wire_spec :: "u32 \<Rightarrow> wire_event \<Rightarrow> bool \<times> u32 set \<Rightarrow> bool \<times> u32 set" where
  "wire_spec g (EBegin h) (sync, peers) = (if h = g then (True, {}) else (sync, peers))"
| "wire_spec g (EDone h) (sync, peers) = (if h = g then (False, peers) else (sync, peers))"
| "wire_spec g (EJoin h p) (sync, peers) = (if h = g then (sync, insert p peers) else (sync, peers))"
| "wire_spec g (EExit h p) (sync, peers) = (if h = g then (sync, peers - {p}) else (sync, peers))"
| "wire_spec g (EForget h) (sync, peers) = (if h = g then (False, {}) else (sync, peers))"
| "wire_spec g EClear (sync, peers) = (False, {})"

definition wire_abs :: "wire_readiness \<Rightarrow> u32 \<Rightarrow> bool \<times> u32 set" where
  "wire_abs s g = (AwaitingSync s g, case um_find (confirmed_peers s) g of None \<Rightarrow> {} | Some p \<Rightarrow> p)"

definition wire_ok :: "wire_readiness \<Rightarrow> bool" where
  "wire_ok s \<longleftrightarrow> um_ok (confirmed_peers s) \<and> (\<forall>g. um_find (confirmed_peers s) g \<noteq> Some {})"

lemmas wire_ops = BeginSync_def SyncDone_def PeerConfirmed_def PeerExited_def Forget_def wire_Clear_def

lemma wire_abs_step: "wire_abs (wire_step e s) g = wire_spec g e (wire_abs s g)"
  by (cases e) (auto simp: wire_ops wire_abs_def AwaitingSync_def Let_def umap_simps split: option.splits)

lemma wire_ok_step: "wire_ok s \<Longrightarrow> wire_ok (wire_step e s)"
  by (cases e) (auto simp: wire_ops wire_ok_def Let_def umap_simps split: option.splits if_splits)

lemma Ready_abs: "Ready s g \<longleftrightarrow> (case wire_abs s g of (sync, peers) \<Rightarrow> \<not> sync \<and> peers \<noteq> {})"
  by (auto simp: Ready_def wire_abs_def split: option.splits)

interpretation wire_sys: state_system "\<lambda>s. s = wire_init" "\<lambda>s t. \<exists>e. t = wire_step e s" wire_ok
proof unfold_locales
  show "s = wire_init \<Longrightarrow> wire_ok s" for s by (simp add: wire_init_def wire_ok_def)
qed (auto simp: wire_ok_step)

lemma wire_abs_run: "wire_abs (fold wire_step es s) g = fold (wire_spec g) es (wire_abs s g)"
  by (induction es arbitrary: s) (simp_all add: wire_abs_step)

lemma wire_spec_run_sync:
  assumes "fst st" "\<And>e. e \<in> set es \<Longrightarrow> e \<noteq> EDone g \<and> e \<noteq> EForget g \<and> e \<noteq> EClear"
  shows "fst (fold (wire_spec g) es st)"
  using assms
proof (induction es arbitrary: st)
  case (Cons e es)
  obtain sync peers where st: "st = (sync, peers)" by (cases st)
  have "fst (wire_spec g e st)" using Cons.prems by (cases e) (auto simp: st)
  then show ?case using Cons by simp
qed simp


text \<open>
  From the start of a sync a group is not ready, whatever peers join or leave, until
  toxcore reports the sync done or the group is forgotten.
\<close>

theorem not_ready_while_syncing:
  assumes "\<And>e. e \<in> set es \<Longrightarrow> e \<noteq> EDone g \<and> e \<noteq> EForget g \<and> e \<noteq> EClear"
  shows "\<not> Ready (fold wire_step es (BeginSync g s)) g"
proof -
  have "fst (wire_abs (BeginSync g s) g)" by (simp add: wire_abs_def AwaitingSync_def BeginSync_def)
  then have "fst (fold (wire_spec g) es (wire_abs (BeginSync g s) g))"
    using assms by (rule wire_spec_run_sync)
  then show ?thesis by (simp add: Ready_abs wire_abs_run case_prod_beta)
qed

theorem not_ready_while_syncing_witness:
  "\<not> Ready (fold wire_step [EJoin 7 1, EExit 7 2, EDone 8] (BeginSync 7 wire_init)) 7"
  by (rule not_ready_while_syncing) auto

text \<open>
  \<open>PeerConfirmed\<close> and \<open>SyncDone\<close> report true exactly when the call leaves the group ready
  and, for a peer, when it was not ready before: queued sends are flushed once per transition.
\<close>

theorem readiness_edge:
  "(case PeerConfirmed g p s of (t, edge) \<Rightarrow> edge = (\<not> Ready s g \<and> \<not> AwaitingSync s g) \<and>
      Ready t g = (\<not> AwaitingSync s g)) \<and>
   (case SyncDone g s of (t, edge) \<Rightarrow> edge = Ready t g \<and> (edge \<longleftrightarrow> snd (wire_abs s g) \<noteq> {}))"
  by (auto simp: PeerConfirmed_def SyncDone_def Let_def Ready_def AwaitingSync_def wire_abs_def umap_simps
      split: option.splits)

end
