(* ===== verification/AudioQueue.thy ===== *)
theory AudioQueue
  imports Prelude
begin

text \<open>
  \<open>source/AVConferenceAudioQueue.{h,cpp}\<close>: the queue between toxcore's audio callback and the
  thread that plays it. Every method takes the mutex, so each is one atomic operation on the
  deque. It is a bounded log that drops from the front.
\<close>

record audio_frame =
  group_id :: string
  conference_number :: u32
  peer_number :: u32
  pcm :: "16 word list"
  sample_count :: nat
  channels :: u8
  sampling_rate :: u32

definition kMaxFrames :: nat where "kMaxFrames = 64"

function pop_excess :: "'a list \<Rightarrow> 'a list" where
  "pop_excess frames = (if length frames > kMaxFrames then pop_excess (tl frames) else frames)"
  by pat_completeness auto
termination
  by (relation "measure length") auto

declare pop_excess.simps [simp del]

definition Enqueue :: "audio_frame \<Rightarrow> audio_frame list \<Rightarrow> audio_frame list" where
  "Enqueue frame frames = pop_excess (frames @ [frame])"

fun drain_loop :: "audio_frame list \<Rightarrow> audio_frame list \<Rightarrow> audio_frame list \<times> audio_frame list" where
  "drain_loop [] drained = ([], drained)"
| "drain_loop (f # frames) drained = drain_loop frames (drained @ [f])"

text \<open>The queue left behind, and the frames handed out.\<close>

definition Drain :: "audio_frame list \<Rightarrow> audio_frame list \<times> audio_frame list" where
  "Drain frames = drain_loop frames []"

definition ClearGroup :: "string \<Rightarrow> audio_frame list \<Rightarrow> audio_frame list" where
  "ClearGroup gid frames = filter (\<lambda>frame. group_id frame \<noteq> gid) frames"

definition ClearAll :: "audio_frame list \<Rightarrow> audio_frame list" where
  "ClearAll frames = []"

lemma pop_excess_drop: "pop_excess xs = drop (length xs - kMaxFrames) xs"
proof (induction xs rule: pop_excess.induct)
  case (1 xs)
  then show ?case
    by (subst pop_excess.simps) (auto simp: drop_Suc [symmetric] Suc_diff_Suc)
qed

lemma drain_loop_all: "drain_loop xs acc = ([], acc @ xs)"
  by (induction xs arbitrary: acc) simp_all

lemma subseq_drop: "subseq (drop n xs) xs"
  by (metis append_take_drop_id list_emb_append2 subseq_order.order_refl)

interpretation audio: bounded_log Enqueue kMaxFrames
  by unfold_locales (simp add: Enqueue_def pop_excess_drop, unfold Enqueue_def pop_excess_drop, rule subseq_drop)

lemma drop_snoc_cap:
  "pop_excess (drop (length ys - kMaxFrames) ys @ [f]) = drop (Suc (length ys) - kMaxFrames) (ys @ [f])"
proof -
  let ?n = "length ys - kMaxFrames"
  have "drop ?n ys @ [f] = drop ?n (ys @ [f])" by simp
  then have "pop_excess (drop ?n ys @ [f]) = drop (length (drop ?n (ys @ [f])) - kMaxFrames + ?n) (ys @ [f])"
    by (simp only: pop_excess_drop drop_drop)
  moreover have "length (drop ?n (ys @ [f])) - kMaxFrames + ?n = Suc (length ys) - kMaxFrames"
    by (simp add: kMaxFrames_def)
  ultimately show ?thesis by (simp only:)
qed

lemma fold_Enqueue: "fold Enqueue fs [] = drop (length fs - kMaxFrames) fs"
proof (induction fs rule: rev_induct)
  case (snoc f fs)
  then show ?case by (simp only: fold_append comp_apply fold_simps id_apply Enqueue_def drop_snoc_cap
      length_append_singleton)
qed simp

text \<open>
  Whatever is enqueued between two drains, \<open>Drain\<close> hands out the newest 64 frames, in
  order, and leaves the queue empty.
\<close>

theorem drain_newest:
  "Drain (fold Enqueue fs []) = ([], drop (length fs - kMaxFrames) fs)"
  by (simp add: Drain_def drain_loop_all fold_Enqueue)

text \<open>
  Clearing a group removes exactly the frames of that group, keeps the order of the others,
  and an enqueue keeps the queue within its cap.
\<close>

theorem clear_group_exact:
  assumes "length q \<le> kMaxFrames"
  shows "length (Enqueue f (ClearGroup g q)) \<le> kMaxFrames \<and>
    subseq (ClearGroup g q) q \<and> set (ClearGroup g q) = {x \<in> set q. group_id x \<noteq> g}"
  using assms audio.push_bound [of "ClearGroup g q" f]
  by (auto simp: ClearGroup_def intro: order_trans [OF length_filter_le])

definition frame_of :: "string \<Rightarrow> audio_frame" where
  "frame_of g = \<lparr>group_id = g, conference_number = 1, peer_number = 2, pcm = [3], sample_count = 1, channels = 1,
     sampling_rate = 48000\<rparr>"

theorem clear_group_exact_witness:
  "set (ClearGroup ''a'' [frame_of ''a'', frame_of ''b'']) = {x \<in> {frame_of ''a'', frame_of ''b''}. group_id x \<noteq> ''a''}"
  using clear_group_exact [of "[frame_of ''a'', frame_of ''b'']" "frame_of ''c''" "''a''"] by (simp add: kMaxFrames_def)

end
