(* ===== verification/SignalingPacket.thy ===== *)
theory SignalingPacket
  imports HexCodec PacketCodec
begin

text \<open>
  The call-signalling packet of \<open>source/V2TIMUtils.{h,cpp}\<close>: \<open>SerializePacket\<close> and
  \<open>ParsePacket\<close>.

  Lengths are copied in host byte order (\<open>reinterpret_cast\<close>, \<open>memcpy\<close>); the model is the
  little-endian host every supported platform is. A read past the end of the buffer is
  undefined behaviour in the source and \<open>None\<close> here, so that "\<open>ParsePacket\<close> is never
  \<open>None\<close>" says that every read is in bounds. \<open>uninit\<close> is the indeterminate value of the
  \<open>timeout\<close> member of a packet that was declared and not assigned.
\<close>

definition SIGNALING_INVITE :: u8 where "SIGNALING_INVITE = 0x01"
definition SIGNALING_ACCEPT :: u8 where "SIGNALING_ACCEPT = 0x02"
definition SIGNALING_REJECT :: u8 where "SIGNALING_REJECT = 0x03"
definition SIGNALING_CANCEL :: u8 where "SIGNALING_CANCEL = 0x04"
definition SIGNALING_TIMEOUT :: u8 where "SIGNALING_TIMEOUT = 0x05"

record signaling_packet =
  sp_type :: u8
  sp_inviteID :: string
  sp_data :: string
  sp_timeout :: u32

definition host_bytes :: "u32 \<Rightarrow> bytes" where
  "host_bytes w = [byte_of_word w 0, byte_of_word w 1, byte_of_word w 2, byte_of_word w 3]"

definition host_word :: "bytes \<Rightarrow> u32" where
  "host_word bs =
     ucast (bs ! 0) OR push_bit 8 (ucast (bs ! 1)) OR push_bit 16 (ucast (bs ! 2)) OR
     push_bit 24 (ucast (bs ! 3))"

definition SerializePacket :: "signaling_packet \<Rightarrow> bytes" where
  "SerializePacket packet =
     [sp_type packet] @
     host_bytes (word_of_nat (length (sp_inviteID packet))) @
     map byte_of (sp_inviteID packet) @
     host_bytes (word_of_nat (length (sp_data packet))) @
     map byte_of (sp_data packet) @
     host_bytes (tim2tox_htonl (sp_timeout packet))"

text \<open>\<open>memcpy\<close> of four bytes, and \<open>assign\<close> of a run of bytes, at an offset.\<close>

definition read_u32 :: "bytes \<Rightarrow> nat \<Rightarrow> u32 option" where
  "read_u32 d off = (if off + 4 \<le> length d then Some (host_word (take 4 (drop off d))) else None)"

definition read_string :: "bytes \<Rightarrow> nat \<Rightarrow> nat \<Rightarrow> string option" where
  "read_string d off n = (if off + n \<le> length d then Some (map char_at (take n (drop off d))) else None)"

definition invalid_packet :: "u32 \<Rightarrow> string \<Rightarrow> string \<Rightarrow> signaling_packet" where
  "invalid_packet uninit iid dat = \<lparr>sp_type = 0xFF, sp_inviteID = iid, sp_data = dat, sp_timeout = uninit\<rparr>"

definition ParsePacket :: "u32 \<Rightarrow> bytes option \<Rightarrow> signaling_packet option" where
  "ParsePacket uninit data =
     (case data of
        None \<Rightarrow> Some (invalid_packet uninit [] [])
      | Some d \<Rightarrow>
          if length d < 13 then Some (invalid_packet uninit [] [])
          else
            case read_u32 d 1 of None \<Rightarrow> None | Some iid_len \<Rightarrow>
            let off = 1 + 4 in
            if off + unat iid_len > length d then Some (invalid_packet uninit [] [])
            else case read_string d off (unat iid_len) of None \<Rightarrow> None | Some iid \<Rightarrow>
            let off = off + unat iid_len in
            if off + 4 > length d then Some (invalid_packet uninit iid [])
            else case read_u32 d off of None \<Rightarrow> None | Some data_len \<Rightarrow>
            let off = off + 4 in
            if off + unat data_len > length d then Some (invalid_packet uninit iid [])
            else case read_string d off (unat data_len) of None \<Rightarrow> None | Some dat \<Rightarrow>
            let off = off + unat data_len in
            if off + 4 > length d then Some (invalid_packet uninit iid dat)
            else case read_u32 d off of None \<Rightarrow> None | Some timeoutBE \<Rightarrow>
            Some \<lparr>sp_type = d ! 0, sp_inviteID = iid, sp_data = dat,
                  sp_timeout = tim2tox_ntohl timeoutBE\<rparr>)"

section \<open>Lemmas\<close>

lemma length_host_bytes [simp]: "length (host_bytes w) = 4"
  by (simp add: host_bytes_def)

lemma host_word_bytes [simp]: "host_word (host_bytes w) = w"
proof (rule bit_word_eqI)
  fix n assume "n < LENGTH(32)"
  then consider "n < 8" | "8 \<le> n" "n < 16" | "16 \<le> n" "n < 24" | "24 \<le> n" "n < 32" by fastforce
  then show "bit (host_word (host_bytes w)) n = bit w n"
    by cases (auto simp: host_word_def host_bytes_def byte_of_word_def bit_simps)
qed

lemma read_u32_at: "length p = off \<Longrightarrow> read_u32 (p @ host_bytes w @ s) off = Some w"
  by (simp add: read_u32_def)

lemma read_string_at:
  "length p = off \<Longrightarrow> read_string (p @ map byte_of t @ s) off (length t) = Some t"
  by (simp add: read_string_def)

text \<open>Every read of the parser is in bounds.\<close>

lemma ParsePacket_defined: "\<exists>p. ParsePacket uninit data = Some p"
  by (auto simp: ParsePacket_def read_u32_def read_string_def Let_def split: option.splits)

lemma ParsePacket_Serialize_append:
  assumes iid: "length (sp_inviteID p) < 2 ^ 32" and dat: "length (sp_data p) < 2 ^ 32"
  shows "ParsePacket uninit (Some (SerializePacket p @ rest)) = Some p"
proof -
  let ?i = "sp_inviteID p" and ?t = "sp_data p"
  let ?d = "SerializePacket p @ rest"
  have ni: "unat (word_of_nat (length ?i) :: u32) = length ?i"
    and nt: "unat (word_of_nat (length ?t) :: u32) = length ?t"
    using iid dat by (simp_all add: unat_of_nat)
  have len: "length ?d = 13 + length ?i + length ?t + length rest" by (simp add: SerializePacket_def)
  have r1: "read_u32 ?d 1 = Some (word_of_nat (length ?i))"
    using read_u32_at [of "[sp_type p]" 1] by (simp add: SerializePacket_def)
  have r2: "read_string ?d (1 + 4) (length ?i) = Some ?i"
    using read_string_at [of "[sp_type p] @ host_bytes (word_of_nat (length ?i))" "1 + 4"]
    by (simp add: SerializePacket_def)
  have r3: "read_u32 ?d (1 + 4 + length ?i) = Some (word_of_nat (length ?t))"
    using read_u32_at [of "[sp_type p] @ host_bytes (word_of_nat (length ?i)) @ map byte_of ?i"
        "1 + 4 + length ?i"]
    by (simp add: SerializePacket_def)
  have r4: "read_string ?d (1 + 4 + length ?i + 4) (length ?t) = Some ?t"
    using read_string_at [of "[sp_type p] @ host_bytes (word_of_nat (length ?i)) @ map byte_of ?i @
        host_bytes (word_of_nat (length ?t))" "1 + 4 + length ?i + 4"]
    by (simp add: SerializePacket_def)
  have r5: "read_u32 ?d (1 + 4 + length ?i + 4 + length ?t) = Some (tim2tox_htonl (sp_timeout p))"
    using read_u32_at [of "[sp_type p] @ host_bytes (word_of_nat (length ?i)) @ map byte_of ?i @
        host_bytes (word_of_nat (length ?t)) @ map byte_of ?t" "1 + 4 + length ?i + 4 + length ?t"]
    by (simp add: SerializePacket_def)
  have d0: "?d ! 0 = sp_type p" by (simp add: SerializePacket_def)
  have g: "\<not> length ?d < 13" "\<not> length ?d < 1 + 4 + length ?i" "\<not> length ?d < 1 + 4 + length ?i + 4"
    "\<not> length ?d < 1 + 4 + length ?i + 4 + length ?t"
    "\<not> length ?d < 1 + 4 + length ?i + 4 + length ?t + 4"
    by (simp_all add: SerializePacket_def)
  show ?thesis
    by (simp only: ParsePacket_def option.case Let_def g if_False r1 r2 r3 r4 r5 ni nt d0
          tim2tox_ntohl_def htonl_htonl) simp
qed

text \<open>
  The framing as a codec: one kind of packet, lengths that fit their 32-bit fields. It is not
  strict, since the parser accepts trailing bytes.
\<close>

definition encode_signaling :: "signaling_packet \<Rightarrow> bytes option" where
  "encode_signaling p =
     (if length (sp_inviteID p) < 2 ^ 32 \<and> length (sp_data p) < 2 ^ 32
      then Some (SerializePacket p) else None)"

interpretation signaling_wire: wire_codec encode_signaling "\<lambda>d. ParsePacket uninit (Some d)" for uninit
  using ParsePacket_Serialize_append [where rest = "[]"]
  by unfold_locales (auto simp: encode_signaling_def split: if_splits)

end
