(* ===== verification/SignalingManager.thy ===== *)
theory SignalingManager
  imports SignalingPacket PacketCodec MessageUtils
begin

text \<open>
  \<open>source/V2TIMSignalingManagerImpl.{h,cpp}\<close>: call invitations over Tox lossless packets.

  \<^item> \<open>sig_state\<close> holds the members of the class: listeners, the invites sent and received, the
    manager it belongs to and the id counter. It also records what leaves the object: the tasks
    posted to each manager's event thread, the packets sent, the conference invitations and the
    listener calls, each with whether the mutex was held during the call.
  \<^item> \<open>sig_api\<close> is what the object can ask of its surroundings at one moment: the managers and
    toxcore handles that exist, the clocks, toxcore's friend list. Every operation takes its own,
    so clock and friend list may change between operations.
  \<^item> Managers, toxcore handles and listeners are pointers, here numbers; \<open>None\<close> is null.
  \<^item> \<open>SignalingPacket.timeout\<close> is left uninitialised by some senders: the value is the parameter
    \<open>uninit\<close>.
  \<^item> Each function body under \<open>mutex_\<close> is one step. \<open>RunOnEventThread\<close> runs its task inline or
    after queueing it, or cancels it; the caller is blocked meanwhile.
  \<^item> The callback result of an operation is returned; a null callback only means nobody sees it.
\<close>

section \<open>State\<close>

record sig_api =
  default_manager :: "nat option"
  manager_tox_manager :: "nat \<Rightarrow> nat option"
  getTox :: "nat \<Rightarrow> nat option"
  getAddress :: "nat \<Rightarrow> string"
  isTestMode :: "nat \<Rightarrow> bool"
  virtual_time :: u64
  steady_clock :: u64
  wall_time :: int
  tox_friend_get_public_key :: "nat \<Rightarrow> u32 \<Rightarrow> bytes option"
  tox_friend_by_public_key :: "nat \<Rightarrow> bytes \<Rightarrow> u32 option"
  friend_connected :: "nat \<Rightarrow> u32 \<Rightarrow> bool"

record invite_info =
  i_inviteID :: string
  i_inviter :: string
  i_groupID :: string
  i_data :: string
  i_timeout :: u32
  i_isOnlineOnly :: bool
  sender_friend_number :: u32
  i_deadline :: u64

record received_info =
  inviter_friend_number :: u32
  r_deadline :: u64

datatype sig_event =
    OnReceiveNewInvitation string string string string
  | OnInviteeAccepted string string string
  | OnInviteeRejected string string string
  | OnInvitationCancelled string string string
  | OnInvitationTimeout string

datatype sig_task =
    InviteTask string u32 string u32 nat
  | AcceptTask string string u32
  | RejectTask string string u32
  | CancelTask string string u32
  | TimeoutTask string u32

datatype cb_result = NotCalled | OnSuccess | OnError int

record sig_state =
  listeners :: "nat list"
  active_invites :: "(string, invite_info) umap"
  received_invites :: "(string, received_info) umap"
  manager_impl :: "nat option"
  unique_id_counter :: int
  task_queue :: "(nat \<times> sig_task) list"
  sent :: "(nat \<times> u32 \<times> bytes) list"
  conference_invites :: "(nat \<times> u32 \<times> u32) list"
  delivered :: "(nat \<times> sig_event \<times> bool) list"

definition new_sig :: sig_state where
  "new_sig = \<lparr>listeners = [], active_invites = [], received_invites = [], manager_impl = None,
     unique_id_counter = 0, task_queue = [], sent = [], conference_invites = [], delivered = []\<rparr>"

definition ERR_USER_OFFLINE :: int where "ERR_USER_OFFLINE = 10001"
definition ERR_INVITE_NOT_FOUND :: int where "ERR_INVITE_NOT_FOUND = 10002"

definition NowMonoMs :: "sig_api \<Rightarrow> nat option \<Rightarrow> u64" where
  "NowMonoMs api m =
     (case m of
        Some i \<Rightarrow> if isTestMode api i then virtual_time api else steady_clock api
      | None \<Rightarrow> steady_clock api)"

section \<open>Helpers\<close>

definition GetToxManager :: "sig_api \<Rightarrow> sig_state \<Rightarrow> nat option" where
  "GetToxManager api s =
     (case (case manager_impl s of None \<Rightarrow> default_manager api | Some m \<Rightarrow> Some m) of
        None \<Rightarrow> None
      | Some m \<Rightarrow> manager_tox_manager api m)"

definition current_tox :: "sig_api \<Rightarrow> sig_state \<Rightarrow> nat option" where
  "current_tox api s = (case GetToxManager api s of None \<Rightarrow> None | Some tm \<Rightarrow> getTox api tm)"

definition tox_send :: "nat \<Rightarrow> u32 \<Rightarrow> bytes \<Rightarrow> sig_state \<Rightarrow> sig_state" where
  "tox_send t fn payload s = s\<lparr>sent := sent s @ [(t, fn, payload)]\<rparr>"

definition SendToxPacket :: "sig_api \<Rightarrow> u32 \<Rightarrow> signaling_packet \<Rightarrow> sig_state \<Rightarrow> sig_state" where
  "SendToxPacket api fn p s =
     (case current_tox api s of
        None \<Rightarrow> s
      | Some t \<Rightarrow> tox_send t fn (kSignaling # SerializePacket p) s)"

definition PostToEventThread :: "nat \<Rightarrow> sig_task \<Rightarrow> sig_state \<Rightarrow> sig_state" where
  "PostToEventThread m t s = s\<lparr>task_queue := task_queue s @ [(m, t)]\<rparr>"

text \<open>
  \<open>on_thread\<close>: the caller is the event thread; \<open>started\<close>: the event thread took the task before
  the caller's patience ended. A task that was not taken is cancelled and a default returned.
\<close>

definition RunOnEventThread ::
  "bool \<Rightarrow> bool \<Rightarrow> bool \<Rightarrow> bool \<Rightarrow> (sig_state \<Rightarrow> sig_state \<times> 'r) \<Rightarrow> 'r \<Rightarrow> sig_state \<Rightarrow> sig_state \<times> 'r" where
  "RunOnEventThread on_thread test_mode running started f dflt s =
     (if on_thread then f s
      else if test_mode then f s
      else if \<not> running then f s
      else if started then f s
      else (s, dflt))"

definition dispatch :: "bool \<Rightarrow> sig_event \<Rightarrow> nat list \<Rightarrow> sig_state \<Rightarrow> sig_state" where
  "dispatch locked e ls s = s\<lparr>delivered := delivered s @ map (\<lambda>l. (l, e, locked)) ls\<rparr>"

definition GetUserIDFromFriendNumber :: "sig_api \<Rightarrow> sig_state \<Rightarrow> u32 \<Rightarrow> string" where
  "GetUserIDFromFriendNumber api s fn =
     (case current_tox api s of
        None \<Rightarrow> ''''
      | Some t \<Rightarrow>
          (case tox_friend_get_public_key api t fn of
             None \<Rightarrow> ''''
           | Some pk \<Rightarrow> tox_bytes_to_hex (take TOX_PUBLIC_KEY_SIZE pk)))"

definition GetFriendNumber :: "sig_api \<Rightarrow> sig_state \<Rightarrow> string \<Rightarrow> u32" where
  "GetFriendNumber api s userID =
     (let use = CString userID in
      case current_tox api s of
        None \<Rightarrow> UINT32_MAX
      | Some t \<Rightarrow>
          if length use < TOX_PUBLIC_KEY_SIZE * 2 then UINT32_MAX
          else
            (case tox_hex_to_bytes (take (TOX_PUBLIC_KEY_SIZE * 2) use) TOX_PUBLIC_KEY_SIZE of
               None \<Rightarrow> UINT32_MAX
             | Some pk \<Rightarrow> (case tox_friend_by_public_key api t pk of None \<Rightarrow> UINT32_MAX | Some n \<Rightarrow> n)))"

definition sig_GenerateUniqueID :: "sig_api \<Rightarrow> sig_state \<Rightarrow> sig_state \<times> string" where
  "sig_GenerateUniqueID api s =
     (s\<lparr>unique_id_counter := unique_id_counter s + 1\<rparr>,
      ''inv_'' @ dec_int (wall_time api) @ ''_'' @ dec_int (unique_id_counter s))"

section \<open>Incoming packets\<close>

text \<open>What a Tox callback does: it only queues a task.\<close>

definition OnToxMessage :: "u32 \<Rightarrow> u32 \<Rightarrow> bytes \<Rightarrow> sig_state \<Rightarrow> sig_state" where
  "OnToxMessage uninit fn data s =
     (if length data < 2 then s
      else
        case ParsePacket uninit (Some (drop 1 data)) of
          None \<Rightarrow> s
        | Some p \<Rightarrow>
            if sp_type p > SIGNALING_TIMEOUT then s
            else
              (case manager_impl s of
                 None \<Rightarrow> s
               | Some m \<Rightarrow>
                   if sp_type p = SIGNALING_INVITE
                   then PostToEventThread m (InviteTask (sp_inviteID p) fn (sp_data p) (sp_timeout p) m) s
                   else if sp_type p = SIGNALING_ACCEPT
                   then PostToEventThread m (AcceptTask (sp_inviteID p) (sp_data p) fn) s
                   else if sp_type p = SIGNALING_REJECT
                   then PostToEventThread m (RejectTask (sp_inviteID p) (sp_data p) fn) s
                   else if sp_type p = SIGNALING_CANCEL
                   then PostToEventThread m (CancelTask (sp_inviteID p) (sp_data p) fn) s
                   else if sp_type p = SIGNALING_TIMEOUT
                   then PostToEventThread m (TimeoutTask (sp_inviteID p) fn) s
                   else s))"

definition parse_gid :: "string \<Rightarrow> string \<times> string" where
  "parse_gid data =
     (if length data \<ge> 4 \<and> prefix ''GID:'' data
      then (case find_from '';'' data 4 of
              Some semicolon \<Rightarrow> (substr data 4 (semicolon - 4), drop (semicolon + 1) data)
            | None \<Rightarrow> (drop 4 data, data))
      else ('''', data))"

definition deadline_after :: "u64 \<Rightarrow> u32 \<Rightarrow> u64" where
  "deadline_after now seconds = (if seconds > 0 then now + ucast seconds * 1000 else 0)"

fun run_task :: "sig_api \<Rightarrow> sig_task \<Rightarrow> sig_state \<Rightarrow> sig_state" where
  "run_task api (InviteTask iid fn data timeout_s m) s =
     (let inviter = GetUserIDFromFriendNumber api s fn;
          (gid, payload) = parse_gid data;
          received = \<lparr>inviter_friend_number = fn, r_deadline = deadline_after (NowMonoMs api (Some m)) timeout_s\<rparr>;
          s1 = s\<lparr>received_invites := um_put iid received (received_invites s)\<rparr> in
      dispatch True (OnReceiveNewInvitation (CString iid) (CString inviter) (CString gid) (CString payload)) (listeners s1) s1)"
| "run_task api (AcceptTask iid data fn) s =
     (let invitee = GetUserIDFromFriendNumber api s fn;
          s1 = s\<lparr>active_invites := um_erase iid (active_invites s)\<rparr> in
      dispatch True (OnInviteeAccepted (CString iid) (CString invitee) (CString data)) (listeners s1) s1)"
| "run_task api (RejectTask iid data fn) s =
     (let invitee = GetUserIDFromFriendNumber api s fn;
          s1 = s\<lparr>active_invites := um_erase iid (active_invites s)\<rparr> in
      dispatch True (OnInviteeRejected (CString iid) (CString invitee) (CString data)) (listeners s1) s1)"
| "run_task api (CancelTask iid data fn) s =
     (let inviter = GetUserIDFromFriendNumber api s fn;
          s1 = s\<lparr>received_invites := um_erase iid (received_invites s)\<rparr> in
      dispatch True (OnInvitationCancelled (CString iid) (CString inviter) (CString data)) (listeners s1) s1)"
| "run_task api (TimeoutTask iid fn) s =
     (case um_find (received_invites s) iid of
        None \<Rightarrow> s
      | Some info \<Rightarrow>
          if inviter_friend_number info \<noteq> fn then s
          else
            let s1 = s\<lparr>received_invites := um_erase iid (received_invites s)\<rparr> in
            dispatch False (OnInvitationTimeout (CString iid)) (listeners s1) s1)"

text \<open>The event thread of manager \<open>m\<close> takes its oldest task.\<close>

definition run_next :: "sig_api \<Rightarrow> nat \<Rightarrow> sig_state \<Rightarrow> sig_state" where
  "run_next api m s =
     (case List.find (\<lambda>e. fst e = m) (task_queue s) of
        None \<Rightarrow> s
      | Some e \<Rightarrow> run_task api (snd e) (s\<lparr>task_queue := remove1 e (task_queue s)\<rparr>))"

section \<open>Lifecycle and listeners\<close>

definition ResetSessionState :: "sig_state \<Rightarrow> sig_state" where
  "ResetSessionState s = s\<lparr>active_invites := [], received_invites := []\<rparr>"

definition SetManagerImpl :: "nat option \<Rightarrow> sig_state \<Rightarrow> sig_state" where
  "SetManagerImpl m s =
     (let s1 = (if m \<noteq> manager_impl s then ResetSessionState s else s) in s1\<lparr>manager_impl := m\<rparr>)"

definition AddSignalingListener :: "nat option \<Rightarrow> sig_state \<Rightarrow> sig_state" where
  "AddSignalingListener l s =
     (case l of
        None \<Rightarrow> s
      | Some x \<Rightarrow> if x \<in> set (listeners s) then s else s\<lparr>listeners := listeners s @ [x]\<rparr>)"

definition RemoveSignalingListener :: "nat option \<Rightarrow> sig_state \<Rightarrow> sig_state" where
  "RemoveSignalingListener l s = s\<lparr>listeners := filter (\<lambda>x. Some x \<noteq> l) (listeners s)\<rparr>"

section \<open>Operations\<close>

text \<open>The lambda of \<open>Invite\<close>; \<open>timeout\<close> holds the bits of the \<open>int\<close>.\<close>

definition invite_task ::
  "sig_api \<Rightarrow> string \<Rightarrow> string \<Rightarrow> string \<Rightarrow> bool \<Rightarrow> u32 \<Rightarrow> nat \<Rightarrow> sig_state \<Rightarrow> sig_state \<times> string \<times> cb_result" where
  "invite_task api iid invitee data online_only timeout m s =
     (let fn = GetFriendNumber api s invitee in
      if fn = UINT32_MAX then (s, '''', OnError ERR_USER_OFFLINE)
      else if online_only \<and> current_tox api s = None then (s, '''', OnError ERR_USER_OFFLINE)
      else if online_only \<and> \<not> friend_connected api (the (current_tox api s)) fn
      then (s, iid, OnError ERR_USER_OFFLINE)
      else
        let packet = \<lparr>sp_type = SIGNALING_INVITE, sp_inviteID = iid, sp_data = CString data, sp_timeout = timeout\<rparr> in
        case GetToxManager api s of
          None \<Rightarrow> (s, '''', OnError ERR_USER_OFFLINE)
        | Some tm \<Rightarrow>
            (case getTox api tm of
               None \<Rightarrow> (s, '''', OnError ERR_USER_OFFLINE)
             | Some t \<Rightarrow>
                 let s1 = tox_send t fn (kSignaling # SerializePacket packet) s;
                     now = NowMonoMs api (Some m);
                     info = \<lparr>i_inviteID = iid, i_inviter = getAddress api tm, i_groupID = '''', i_data = data,
                             i_timeout = timeout, i_isOnlineOnly = online_only, sender_friend_number = fn,
                             i_deadline = (if sint timeout > 0 then now + word_of_int (sint timeout) * 1000 else 0)\<rparr> in
                 (s1\<lparr>active_invites := um_put iid info (active_invites s1)\<rparr>, iid, OnSuccess)))"

definition Invite ::
  "sig_api \<Rightarrow> bool \<Rightarrow> bool \<Rightarrow> bool \<Rightarrow> string \<Rightarrow> string \<Rightarrow> bool \<Rightarrow> u32 \<Rightarrow> sig_state \<Rightarrow> sig_state \<times> string \<times> cb_result" where
  "Invite api on_thread running started invitee data online_only timeout s =
     (case manager_impl s of
        None \<Rightarrow> (s, '''', OnError ERR_USER_OFFLINE)
      | Some m \<Rightarrow>
          (case sig_GenerateUniqueID api s of (s1, iid) \<Rightarrow>
             RunOnEventThread on_thread (isTestMode api m) running started
               (invite_task api iid invitee data online_only timeout m) ('''', NotCalled) s1))"

definition expired_sent :: "u64 \<Rightarrow> sig_state \<Rightarrow> (string \<times> u32) list" where
  "expired_sent now s =
     map (\<lambda>(k, i). (k, sender_friend_number i))
       (filter (\<lambda>(k, i). i_deadline i \<noteq> 0 \<and> now \<ge> i_deadline i) (active_invites s))"

definition expired_received :: "u64 \<Rightarrow> sig_state \<Rightarrow> string list" where
  "expired_received now s =
     map fst (filter (\<lambda>(k, r). r_deadline r \<noteq> 0 \<and> now \<ge> r_deadline r) (received_invites s))"

definition CheckTimeouts :: "sig_api \<Rightarrow> sig_state \<Rightarrow> sig_state" where
  "CheckTimeouts api s =
     (let now = NowMonoMs api (manager_impl s);
          es = expired_sent now s;
          er = expired_received now s in
      if active_invites s = [] \<and> received_invites s = [] then s
      else if es = [] \<and> er = [] then s
      else
        let s1 = s\<lparr>active_invites := fold (\<lambda>e. um_erase (fst e)) es (active_invites s),
                   received_invites := fold um_erase er (received_invites s)\<rparr>;
            ls = listeners s1;
            s2 = fold (\<lambda>e. SendToxPacket api (snd e)
                   \<lparr>sp_type = SIGNALING_CANCEL, sp_inviteID = fst e, sp_data = '''', sp_timeout = 0\<rparr>) es s1;
            s3 = fold (\<lambda>e. dispatch False (OnInvitationTimeout (CString (fst e))) ls) es s2 in
        fold (\<lambda>k. dispatch False (OnInvitationTimeout (CString k)) ls) er s3)"

definition GetOrCreateConference :: "string \<Rightarrow> u32" where
  "GetOrCreateConference groupID = 0"

definition invite_member ::
  "sig_api \<Rightarrow> u32 \<Rightarrow> string \<Rightarrow> string \<Rightarrow> u32 \<Rightarrow> string \<Rightarrow> sig_state \<Rightarrow> sig_state" where
  "invite_member api conference iid data timeout invitee s =
     (if CString invitee = [] then s
      else
        let fn = GetFriendNumber api s invitee in
        case GetToxManager api s of
          None \<Rightarrow> s
        | Some tm \<Rightarrow>
            if fn = UINT32_MAX then s
            else SendToxPacket api fn
              \<lparr>sp_type = SIGNALING_INVITE, sp_inviteID = iid, sp_data = data, sp_timeout = timeout\<rparr>
              (s\<lparr>conference_invites := conference_invites s @ [(tm, fn, conference)]\<rparr>))"

definition InviteInGroup ::
  "sig_api \<Rightarrow> string \<Rightarrow> string list \<Rightarrow> string \<Rightarrow> u32 \<Rightarrow> sig_state \<Rightarrow> sig_state \<times> string \<times> cb_result" where
  "InviteInGroup api groupID inviteeList data timeout s =
     (case sig_GenerateUniqueID api s of (s1, iid) \<Rightarrow>
        let data_with_gid = ''GID:'' @ CString groupID @ '';'' @ CString data;
            conference = GetOrCreateConference groupID in
        (fold (invite_member api conference iid data_with_gid timeout) inviteeList s1, iid, OnSuccess))"

text \<open>The packets of these three leave \<open>timeout\<close> uninitialised.\<close>

definition answer :: "u8 \<Rightarrow> string \<Rightarrow> string \<Rightarrow> u32 \<Rightarrow> signaling_packet" where
  "answer ty iid data uninit = \<lparr>sp_type = ty, sp_inviteID = iid, sp_data = CString data, sp_timeout = uninit\<rparr>"

definition Cancel :: "sig_api \<Rightarrow> u32 \<Rightarrow> string \<Rightarrow> string \<Rightarrow> sig_state \<Rightarrow> sig_state \<times> cb_result" where
  "Cancel api uninit inviteID data s =
     (let iid = CString inviteID in
      case um_find (active_invites s) iid of
        None \<Rightarrow> (s, OnError ERR_INVITE_NOT_FOUND)
      | Some i \<Rightarrow>
          let s1 = SendToxPacket api (sender_friend_number i) (answer SIGNALING_CANCEL iid data uninit) s in
          (s1\<lparr>active_invites := um_erase iid (active_invites s1)\<rparr>, OnSuccess))"

definition Accept :: "sig_api \<Rightarrow> u32 \<Rightarrow> string \<Rightarrow> string \<Rightarrow> sig_state \<Rightarrow> sig_state \<times> cb_result" where
  "Accept api uninit inviteID data s =
     (let iid = CString inviteID in
      case um_find (received_invites s) iid of
        Some r \<Rightarrow>
          let s1 = SendToxPacket api (inviter_friend_number r) (answer SIGNALING_ACCEPT iid data uninit) s in
          (s1\<lparr>received_invites := um_erase iid (received_invites s1)\<rparr>, OnSuccess)
      | None \<Rightarrow>
          (case um_find (active_invites s) iid of
             None \<Rightarrow> (s, OnError ERR_INVITE_NOT_FOUND)
           | Some i \<Rightarrow>
               let s1 = SendToxPacket api (sender_friend_number i) (answer SIGNALING_ACCEPT iid data uninit) s in
               (s1\<lparr>active_invites := um_erase iid (active_invites s1)\<rparr>, OnSuccess)))"

definition Reject :: "sig_api \<Rightarrow> u32 \<Rightarrow> string \<Rightarrow> string \<Rightarrow> sig_state \<Rightarrow> sig_state \<times> cb_result" where
  "Reject api uninit inviteID data s =
     (let iid = CString inviteID in
      case um_find (received_invites s) iid of
        Some r \<Rightarrow>
          let s1 = SendToxPacket api (inviter_friend_number r) (answer SIGNALING_REJECT iid data uninit) s in
          (s1\<lparr>received_invites := um_erase iid (received_invites s1)\<rparr>, OnSuccess)
      | None \<Rightarrow> (s, OnError ERR_INVITE_NOT_FOUND))"

end
