(* ===== verification/SignalingProperties.thy ===== *)
theory SignalingProperties
  imports SignalingManager
begin

text \<open>
  Properties of the signalling manager: its invariant over every sequence of operations, who gets
  which event and under which lock, the deadlines, and the invitation protocol between two
  instances, composed with the packet format.
\<close>

section \<open>Frame lemmas\<close>

lemma SendToxPacket_frame [simp]:
  "listeners (SendToxPacket api fn p s) = listeners s"
  "active_invites (SendToxPacket api fn p s) = active_invites s"
  "received_invites (SendToxPacket api fn p s) = received_invites s"
  "manager_impl (SendToxPacket api fn p s) = manager_impl s"
  "unique_id_counter (SendToxPacket api fn p s) = unique_id_counter s"
  "task_queue (SendToxPacket api fn p s) = task_queue s"
  "delivered (SendToxPacket api fn p s) = delivered s"
  "conference_invites (SendToxPacket api fn p s) = conference_invites s"
  by (simp_all add: SendToxPacket_def tox_send_def split: option.split)

lemma dispatch_frame [simp]:
  "listeners (dispatch b e ls s) = listeners s"
  "active_invites (dispatch b e ls s) = active_invites s"
  "received_invites (dispatch b e ls s) = received_invites s"
  "manager_impl (dispatch b e ls s) = manager_impl s"
  "unique_id_counter (dispatch b e ls s) = unique_id_counter s"
  "sent (dispatch b e ls s) = sent s"
  "task_queue (dispatch b e ls s) = task_queue s"
  "conference_invites (dispatch b e ls s) = conference_invites s"
  "delivered (dispatch b e ls s) = delivered s @ map (\<lambda>l. (l, e, b)) ls"
  by (simp_all add: dispatch_def)

lemma current_tox_cong: "manager_impl s = manager_impl s' \<Longrightarrow> current_tox api s = current_tox api s'"
  by (simp add: current_tox_def GetToxManager_def)

lemma sent_SendToxPacket:
  "sent (SendToxPacket api fn p s) =
     sent s @ (case current_tox api s of None \<Rightarrow> [] | Some t \<Rightarrow> [(t, fn, kSignaling # SerializePacket p)])"
  by (simp add: SendToxPacket_def tox_send_def split: option.split)

lemma um_ok_fold_erase [simp]: "um_ok m \<Longrightarrow> um_ok (fold um_erase ks m)"
  by (induction ks arbitrary: m) simp_all

lemma um_find_fold_erase: "um_find (fold um_erase ks m) k = (if k \<in> set ks then None else um_find m k)"
  by (induction ks arbitrary: m) (simp_all add: umap_simps)

lemma fold_erase_fst: "fold (\<lambda>e. um_erase (fst e)) es m = fold um_erase (map fst es) m"
  by (induction es arbitrary: m) simp_all

lemma um_keys_fold_erase: "fst ` set (fold um_erase ks m) = fst ` set m - set ks"
  by (induction ks arbitrary: m) auto

lemma fold_SendToxPacket_frame [simp]:
  "listeners (fold (\<lambda>e. SendToxPacket api (f e) (g e)) es s) = listeners s"
  "active_invites (fold (\<lambda>e. SendToxPacket api (f e) (g e)) es s) = active_invites s"
  "received_invites (fold (\<lambda>e. SendToxPacket api (f e) (g e)) es s) = received_invites s"
  "manager_impl (fold (\<lambda>e. SendToxPacket api (f e) (g e)) es s) = manager_impl s"
  "unique_id_counter (fold (\<lambda>e. SendToxPacket api (f e) (g e)) es s) = unique_id_counter s"
  "delivered (fold (\<lambda>e. SendToxPacket api (f e) (g e)) es s) = delivered s"
  "task_queue (fold (\<lambda>e. SendToxPacket api (f e) (g e)) es s) = task_queue s"
  "conference_invites (fold (\<lambda>e. SendToxPacket api (f e) (g e)) es s) = conference_invites s"
  by (induction es arbitrary: s) simp_all

lemma fold_dispatch_frame [simp]:
  "listeners (fold (\<lambda>e. dispatch b (f e) ls) es s) = listeners s"
  "active_invites (fold (\<lambda>e. dispatch b (f e) ls) es s) = active_invites s"
  "received_invites (fold (\<lambda>e. dispatch b (f e) ls) es s) = received_invites s"
  "manager_impl (fold (\<lambda>e. dispatch b (f e) ls) es s) = manager_impl s"
  "unique_id_counter (fold (\<lambda>e. dispatch b (f e) ls) es s) = unique_id_counter s"
  "sent (fold (\<lambda>e. dispatch b (f e) ls) es s) = sent s"
  "task_queue (fold (\<lambda>e. dispatch b (f e) ls) es s) = task_queue s"
  "conference_invites (fold (\<lambda>e. dispatch b (f e) ls) es s) = conference_invites s"
  by (induction es arbitrary: s) simp_all

lemma fold_dispatch_delivered:
  "delivered (fold (\<lambda>e. dispatch b (f e) ls) es s) = delivered s @ concat (map (\<lambda>e. map (\<lambda>l. (l, f e, b)) ls) es)"
  by (induction es arbitrary: s) simp_all

lemma fold_SendToxPacket_sent:
  "sent (fold (\<lambda>e. SendToxPacket api (f e) (g e)) es s) =
     sent s @ (case current_tox api s of None \<Rightarrow> [] | Some t \<Rightarrow> map (\<lambda>e. (t, f e, kSignaling # SerializePacket (g e))) es)"
proof (induction es arbitrary: s)
  case (Cons e es)
  have "current_tox api (SendToxPacket api (f e) (g e) s) = current_tox api s" by (rule current_tox_cong) simp
  then show ?case by (simp add: Cons.IH sent_SendToxPacket split: option.split)
qed (simp split: option.split)

section \<open>Every sequence of operations\<close>

datatype sig_op =
    OpTox u32 u32 bytes
  | OpRun sig_api nat
  | OpReset
  | OpSetManager "nat option"
  | OpAdd "nat option"
  | OpRemove "nat option"
  | OpInvite sig_api bool bool bool string string bool u32
  | OpTimeouts sig_api
  | OpGroup sig_api string "string list" string u32
  | OpCancel sig_api u32 string string
  | OpAccept sig_api u32 string string
  | OpReject sig_api u32 string string

fun sig_apply :: "sig_op \<Rightarrow> sig_state \<Rightarrow> sig_state" where
  "sig_apply (OpTox u fn d) s = OnToxMessage u fn d s"
| "sig_apply (OpRun api m) s = run_next api m s"
| "sig_apply OpReset s = ResetSessionState s"
| "sig_apply (OpSetManager m) s = SetManagerImpl m s"
| "sig_apply (OpAdd l) s = AddSignalingListener l s"
| "sig_apply (OpRemove l) s = RemoveSignalingListener l s"
| "sig_apply (OpInvite api ot rn st i d oo t) s = fst (Invite api ot rn st i d oo t s)"
| "sig_apply (OpTimeouts api) s = CheckTimeouts api s"
| "sig_apply (OpGroup api g is d t) s = fst (InviteInGroup api g is d t s)"
| "sig_apply (OpCancel api u k d) s = fst (Cancel api u k d s)"
| "sig_apply (OpAccept api u k d) s = fst (Accept api u k d s)"
| "sig_apply (OpReject api u k d) s = fst (Reject api u k d s)"

text \<open>An invite id that this object made before its counter reached \<open>n\<close>.\<close>

definition own_id :: "int \<Rightarrow> string \<Rightarrow> bool" where
  "own_id n k \<longleftrightarrow> (\<exists>t i. i < n \<and> k = ''inv_'' @ dec_int t @ ''_'' @ dec_int i)"

text \<open>Listener calls: a timeout is delivered with the mutex free, every other event under it.\<close>

definition lock_ok :: "nat \<times> sig_event \<times> bool \<Rightarrow> bool" where
  "lock_ok d = (case d of (l, e, locked) \<Rightarrow> (case e of OnInvitationTimeout k \<Rightarrow> \<not> locked | _ \<Rightarrow> locked))"

definition sig_inv :: "sig_state \<Rightarrow> bool" where
  "sig_inv s \<longleftrightarrow> um_ok (active_invites s) \<and> um_ok (received_invites s) \<and> distinct (listeners s) \<and>
     fst ` set (active_invites s) \<subseteq> Collect (own_id (unique_id_counter s)) \<and>
     list_all lock_ok (delivered s)"

lemma own_id_mono: "own_id n k \<Longrightarrow> n \<le> n' \<Longrightarrow> own_id n' k"
  unfolding own_id_def by (elim exE conjE) (intro exI conjI, erule (1) less_le_trans)

lemma own_id_new: "own_id (unique_id_counter s + 1) (snd (sig_GenerateUniqueID api s))"
  by (auto simp: own_id_def sig_GenerateUniqueID_def)

lemma underscore_free: "CHR ''_'' \<notin> set (dec_int i)"
  using dec_int_chars [of "CHR ''_''" i] by (auto simp: is_digit_def)

lemma own_id_fresh: "\<not> own_id (unique_id_counter s) (snd (sig_GenerateUniqueID api s))"
proof
  assume "own_id (unique_id_counter s) (snd (sig_GenerateUniqueID api s))"
  then obtain t i where i: "i < unique_id_counter s"
    and eq: "dec_int (wall_time api) @ CHR ''_'' # dec_int (unique_id_counter s) = dec_int t @ CHR ''_'' # dec_int i"
    by (auto simp: own_id_def sig_GenerateUniqueID_def)
  have "dec_int (unique_id_counter s) = dec_int i"
    using eq append_Cons_eq_iff [OF underscore_free underscore_free] by blast
  with i show False by simp
qed

lemma sig_inv_frame:
  "sig_inv s \<Longrightarrow> active_invites t = active_invites s \<Longrightarrow> received_invites t = received_invites s \<Longrightarrow>
     listeners t = listeners s \<Longrightarrow> unique_id_counter t = unique_id_counter s \<Longrightarrow> delivered t = delivered s \<Longrightarrow> sig_inv t"
  by (simp add: sig_inv_def)

lemma sig_inv_dispatch: "sig_inv s \<Longrightarrow> lock_ok (0, e, b) \<Longrightarrow> sig_inv (dispatch b e ls s)"
  by (auto simp: sig_inv_def list_all_iff lock_ok_def)

lemma sig_inv_fold_dispatch: "sig_inv s \<Longrightarrow> (\<And>e. lock_ok (0, f e, b)) \<Longrightarrow> sig_inv (fold (\<lambda>e. dispatch b (f e) ls) es s)"
  by (induction es arbitrary: s) (simp_all add: sig_inv_dispatch)

lemma sig_inv_received: "sig_inv s \<Longrightarrow> um_ok m \<Longrightarrow> sig_inv (s\<lparr>received_invites := m\<rparr>)"
  by (simp add: sig_inv_def)

lemma sig_inv_active_sub:
  "sig_inv s \<Longrightarrow> um_ok m \<Longrightarrow> fst ` set m \<subseteq> fst ` set (active_invites s) \<Longrightarrow> sig_inv (s\<lparr>active_invites := m\<rparr>)"
  by (simp add: sig_inv_def) (meson subset_trans)

lemma sig_inv_parts: "sig_inv s \<Longrightarrow> um_ok (active_invites s)" "sig_inv s \<Longrightarrow> um_ok (received_invites s)"
  "sig_inv s \<Longrightarrow> distinct (listeners s)"
  by (simp_all add: sig_inv_def)

lemma sig_inv_erase:
  "sig_inv s \<Longrightarrow> sig_inv (s\<lparr>active_invites := um_erase k (active_invites s)\<rparr>)"
  "sig_inv s \<Longrightarrow> sig_inv (s\<lparr>received_invites := um_erase k (received_invites s)\<rparr>)"
  "sig_inv s \<Longrightarrow> sig_inv (s\<lparr>received_invites := um_put k r (received_invites s)\<rparr>)"
  by (intro sig_inv_active_sub sig_inv_received; simp add: sig_inv_parts)+

lemma sig_inv_send: "sig_inv s \<Longrightarrow> sig_inv (SendToxPacket api fn p s)"
  by (erule sig_inv_frame) simp_all

lemma sig_inv_run_task: "sig_inv s \<Longrightarrow> sig_inv (run_task api t s)"
  by (cases t) (auto simp: Let_def case_prod_beta lock_ok_def intro!: sig_inv_dispatch sig_inv_erase split: option.split)

lemma sig_inv_run_next: "sig_inv s \<Longrightarrow> sig_inv (run_next api m s)"
  by (auto simp: run_next_def intro!: sig_inv_run_task elim!: sig_inv_frame split: option.split)

lemma sig_inv_OnToxMessage: "sig_inv s \<Longrightarrow> sig_inv (OnToxMessage u fn d s)"
  by (auto simp: OnToxMessage_def PostToEventThread_def elim!: sig_inv_frame split: option.split)

lemma sig_inv_listeners:
  "sig_inv s \<Longrightarrow> sig_inv (AddSignalingListener l s)" "sig_inv s \<Longrightarrow> sig_inv (RemoveSignalingListener l s)"
  "sig_inv s \<Longrightarrow> sig_inv (ResetSessionState s)" "sig_inv s \<Longrightarrow> sig_inv (SetManagerImpl m s)"
  by (auto simp: AddSignalingListener_def RemoveSignalingListener_def ResetSessionState_def SetManagerImpl_def
      sig_inv_def Let_def split: option.split)

lemma sig_inv_answers:
  "sig_inv s \<Longrightarrow> sig_inv (fst (Cancel api u k d s))" "sig_inv s \<Longrightarrow> sig_inv (fst (Accept api u k d s))"
  "sig_inv s \<Longrightarrow> sig_inv (fst (Reject api u k d s))"
  using sig_inv_erase [OF sig_inv_send]
  by (auto simp: Cancel_def Accept_def Reject_def Let_def split: option.split)

lemma sig_inv_new_id: "sig_inv s \<Longrightarrow> sig_inv (fst (sig_GenerateUniqueID api s))"
  using own_id_mono by (fastforce simp: sig_inv_def sig_GenerateUniqueID_def)

lemma sig_inv_invite_task:
  "sig_inv s \<Longrightarrow> own_id (unique_id_counter s) iid \<Longrightarrow> sig_inv (fst (invite_task api iid i d oo t m s))"
  by (simp add: invite_task_def Let_def tox_send_def sig_inv_def split: option.split)

lemma sig_inv_Invite: "sig_inv s \<Longrightarrow> sig_inv (fst (Invite api ot rn st i d oo t s))"
proof -
  assume s: "sig_inv s"
  obtain s1 iid where g: "sig_GenerateUniqueID api s = (s1, iid)" by (cases "sig_GenerateUniqueID api s")
  have "sig_inv s1" using sig_inv_new_id [OF s, of api] g by simp
  moreover have "own_id (unique_id_counter s1) iid"
    using own_id_new [of s api] g by (auto simp: sig_GenerateUniqueID_def)
  ultimately show ?thesis
    using s sig_inv_invite_task by (auto simp: Invite_def g RunOnEventThread_def split: option.split)
qed

lemma sig_inv_InviteInGroup: "sig_inv s \<Longrightarrow> sig_inv (fst (InviteInGroup api g is d t s))"
proof -
  assume s: "sig_inv s"
  have m: "sig_inv v \<Longrightarrow> sig_inv (invite_member api c iid dd t i v)" for v c iid dd i
    by (auto simp: invite_member_def Let_def intro!: sig_inv_send elim!: sig_inv_frame split: option.split)
  have "sig_inv v \<Longrightarrow> sig_inv (fold (invite_member api c iid dd t) is v)" for v c iid dd
    by (induction "is" arbitrary: v) (simp_all add: m)
  then show ?thesis using sig_inv_new_id [OF s, of api] by (simp add: InviteInGroup_def case_prod_beta Let_def)
qed

lemma sig_inv_CheckTimeouts: "sig_inv s \<Longrightarrow> sig_inv (CheckTimeouts api s)"
proof -
  assume s: "sig_inv s"
  define es where "es = expired_sent (NowMonoMs api (manager_impl s)) s"
  define er where "er = expired_received (NowMonoMs api (manager_impl s)) s"
  let ?s1 = "s\<lparr>active_invites := fold um_erase (map fst es) (active_invites s),
      received_invites := fold um_erase er (received_invites s)\<rparr>"
  have "sig_inv (s\<lparr>active_invites := fold um_erase (map fst es) (active_invites s)\<rparr>)"
    using s sig_inv_active_sub um_keys_fold_erase sig_inv_parts by (metis Diff_subset um_ok_fold_erase)
  then have "sig_inv ?s1" using s sig_inv_received sig_inv_parts(2) um_ok_fold_erase by fastforce
  then have "sig_inv (fold (\<lambda>e. SendToxPacket api (snd e)
      \<lparr>sp_type = SIGNALING_CANCEL, sp_inviteID = fst e, sp_data = '''', sp_timeout = 0\<rparr>) es ?s1)"
    by (rule sig_inv_frame) simp_all
  then show ?thesis using s
    by (simp add: CheckTimeouts_def Let_def fold_erase_fst es_def er_def sig_inv_fold_dispatch lock_ok_def)
qed

lemma sig_inv_apply: "sig_inv s \<Longrightarrow> sig_inv (sig_apply op s)"
  by (cases op) (simp_all add: sig_inv_OnToxMessage sig_inv_run_next sig_inv_listeners sig_inv_Invite
      sig_inv_CheckTimeouts sig_inv_InviteInGroup sig_inv_answers)

lemma sig_inv_new: "sig_inv new_sig"
  by (simp add: new_sig_def sig_inv_def)

interpretation signaling: state_system "\<lambda>s. s = new_sig" "\<lambda>s t. \<exists>op. t = sig_apply op s" sig_inv
  by unfold_locales (auto intro: sig_inv_apply sig_inv_new)

abbreviation sig_reachable :: "sig_state \<Rightarrow> bool" where
  "sig_reachable \<equiv> (\<lambda>s t. \<exists>op. t = sig_apply op s)\<^sup>*\<^sup>* new_sig"

lemma reachable_inv: "sig_reachable s \<Longrightarrow> sig_inv s"
  using signaling.inv_reachable by blast

section \<open>Who is told what\<close>

text \<open>
  One delivery per listener: whatever registrations and removals came before, a task of the
  event thread delivers at most one event, to every registered listener exactly once and in
  order of registration; only a timeout is delivered with the mutex free.
\<close>

theorem events_once_per_listener:
  assumes "sig_reachable s"
  shows "distinct (listeners s) \<and>
    (delivered (run_task api t s) = delivered s \<or>
     (\<exists>e. delivered (run_task api t s) =
        delivered s @ map (\<lambda>l. (l, e, \<forall>k. e \<noteq> OnInvitationTimeout k)) (listeners s)))"
  using sig_inv_parts(3) [OF reachable_inv [OF assms]]
  by (cases t) (auto simp: Let_def case_prod_unfold split: option.split)

text \<open>
  Fresh ids: in every reachable state the id that the next invitation gets, whatever the
  clock says, is not the id of an invitation still open, so no invitation overwrites another.
\<close>

theorem new_invite_id_fresh:
  assumes "sig_reachable s"
  shows "um_find (active_invites s) (snd (sig_GenerateUniqueID api s)) = None"
proof -
  have "snd (sig_GenerateUniqueID api s) \<notin> fst ` set (active_invites s)"
    using reachable_inv [OF assms] own_id_fresh [of s api] by (auto simp: sig_inv_def)
  then show ?thesis by (simp add: map_of_eq_None_iff)
qed

section \<open>Deadlines\<close>

abbreviation due :: "u64 \<Rightarrow> u64 \<Rightarrow> bool" where
  "due now deadline \<equiv> deadline \<noteq> 0 \<and> deadline \<le> now"

definition cancel_packet :: "string \<Rightarrow> signaling_packet" where
  "cancel_packet k = \<lparr>sp_type = SIGNALING_CANCEL, sp_inviteID = k, sp_data = '''', sp_timeout = 0\<rparr>"

definition timeouts_spec :: "sig_api \<Rightarrow> sig_state \<Rightarrow> sig_state" where
  "timeouts_spec api s =
     (let now = NowMonoMs api (manager_impl s);
          gone = filter (\<lambda>(k, i). due now (i_deadline i)) (active_invites s);
          rung = filter (\<lambda>(k, r). due now (r_deadline r)) (received_invites s) in
      s\<lparr>active_invites := filter (\<lambda>(k, i). \<not> due now (i_deadline i)) (active_invites s),
        received_invites := filter (\<lambda>(k, r). \<not> due now (r_deadline r)) (received_invites s),
        sent := sent s @ (case current_tox api s of None \<Rightarrow> []
          | Some t \<Rightarrow> map (\<lambda>(k, i). (t, sender_friend_number i, kSignaling # SerializePacket (cancel_packet k))) gone),
        delivered := delivered s @
          [(l, OnInvitationTimeout (CString k), False). k \<leftarrow> map fst gone @ map fst rung, l \<leftarrow> listeners s]\<rparr>)"

lemma fold_erase_filter:
  assumes "um_ok m"
  shows "fold um_erase (map fst (filter P m)) m = filter (\<lambda>e. \<not> P e) m"
proof -
  have "fold um_erase ks m = filter (\<lambda>e. fst e \<notin> set ks) m" for ks
    by (induction ks arbitrary: m) (simp_all add: AList.delete_eq conj_commute case_prod_beta eq_commute)
  moreover have "fst e \<notin> set (map fst (filter P m)) \<longleftrightarrow> \<not> P e" if "e \<in> set m" for e
    using that assms by (auto simp: um_ok_def distinct_map inj_on_def)
  ultimately show ?thesis by (simp cong: filter_cong)
qed

lemma filter_none: "filter P xs = [] \<Longrightarrow> filter (\<lambda>x. \<not> P x) xs = xs"
  by (induction xs) (auto split: if_splits)

lemma timeouts_spec_idle:
  assumes "filter (\<lambda>(k, i). due (NowMonoMs api (manager_impl s)) (i_deadline i)) (active_invites s) = []"
    and "filter (\<lambda>(k, r). due (NowMonoMs api (manager_impl s)) (r_deadline r)) (received_invites s) = []"
  shows "timeouts_spec api s = s"
  using assms filter_none [OF assms(1)] filter_none [OF assms(2)]
  by (simp add: timeouts_spec_def Let_def case_prod_unfold split: option.split)

lemma CheckTimeouts_spec:
  assumes "sig_inv s"
  shows "CheckTimeouts api s = timeouts_spec api s"
proof -
  define now where "now = NowMonoMs api (manager_impl s)"
  let ?P = "\<lambda>(k, i). due now (i_deadline i)" and ?R = "\<lambda>(k, r). due now (r_deadline r)"
  let ?g = "filter ?P (active_invites s)" and ?r = "filter ?R (received_invites s)"
  have es: "expired_sent now s = map (\<lambda>(k, i). (k, sender_friend_number i)) ?g"
    and er: "expired_received now s = map fst ?r"
    by (simp_all add: expired_sent_def expired_received_def)
  have fst: "map fst (map (\<lambda>(k, i). (k, sender_friend_number i)) ?g) = map fst ?g" by (simp add: comp_def case_prod_beta)
  have a: "fold um_erase (map fst ?g) (active_invites s) = filter (\<lambda>e. \<not> ?P e) (active_invites s)"
    and r: "fold um_erase (map fst ?r) (received_invites s) = filter (\<lambda>e. \<not> ?R e) (received_invites s)"
    using sig_inv_parts [OF assms] by (simp_all only: fold_erase_filter)
  show ?thesis
  proof (cases "?g = [] \<and> ?r = []")
    case True
    then have c: "CheckTimeouts api s = s" by (simp add: CheckTimeouts_def now_def [symmetric] es er)
    then show ?thesis using timeouts_spec_idle [of api s] True by (simp add: now_def)
  next
    case False
    then have ne: "\<not> (active_invites s = [] \<and> received_invites s = [])" by auto
    have ct: "current_tox api (s\<lparr>active_invites := x, received_invites := y\<rparr>) = current_tox api s" for x y
      by (rule current_tox_cong) simp
    show ?thesis
      using False ne a r
      by (intro sig_state.equality)
        (auto simp: CheckTimeouts_def timeouts_spec_def now_def [symmetric] es er Let_def fold_erase_fst fst
          fold_SendToxPacket_sent fold_dispatch_delivered ct cancel_packet_def case_prod_unfold comp_def
          split: option.split)
  qed
qed


lemma filter_twice: "filter P (filter (\<lambda>x. \<not> P x) xs) = []"
  by (induction xs) simp_all

lemma timeouts_spec_fields:
  "manager_impl (timeouts_spec api s) = manager_impl s"
  "active_invites (timeouts_spec api s) =
     filter (\<lambda>e. \<not> (case e of (k, i) \<Rightarrow> due (NowMonoMs api (manager_impl s)) (i_deadline i))) (active_invites s)"
  "received_invites (timeouts_spec api s) =
     filter (\<lambda>e. \<not> (case e of (k, r) \<Rightarrow> due (NowMonoMs api (manager_impl s)) (r_deadline r))) (received_invites s)"
  by (simp_all add: timeouts_spec_def Let_def case_prod_unfold)

lemma timeouts_spec_twice: "timeouts_spec api (timeouts_spec api s) = timeouts_spec api s"
  by (rule timeouts_spec_idle; simp only: timeouts_spec_fields filter_twice)

text \<open>
  A deadline fires once: a second pass at the same clock reading changes nothing, so no
  invitation is ever timed out twice.
\<close>

theorem timeout_fires_once:
  assumes "sig_reachable s"
  shows "CheckTimeouts api (CheckTimeouts api s) = CheckTimeouts api s"
proof -
  have "sig_inv (CheckTimeouts api s)" by (rule sig_inv_CheckTimeouts [OF reachable_inv [OF assms]])
  then show ?thesis
    using CheckTimeouts_spec reachable_inv [OF assms] timeouts_spec_twice by simp
qed

text \<open>
  A timeout packet ends a ring only when it comes from the inviter: from anyone else, or for
  an invitation that is not pending, it has no effect at all; from the inviter it removes that
  invitation and leaves every other one in place.
\<close>

theorem timeout_only_from_inviter:
  "run_task api (TimeoutTask iid fn) s =
     (case um_find (received_invites s) iid of
        None \<Rightarrow> s
      | Some r \<Rightarrow>
          if inviter_friend_number r = fn
          then s\<lparr>received_invites := um_erase iid (received_invites s),
                 delivered := delivered s @ map (\<lambda>l. (l, OnInvitationTimeout (CString iid), False)) (listeners s)\<rparr>
          else s)"
  by (simp add: Let_def dispatch_def split: option.split)

section \<open>Answers\<close>

lemma answered_received:
  "um_find (received_invites (fst (Accept api u k d s))) (CString k) = None"
  "um_find (received_invites (fst (Reject api u k d s))) (CString k) = None"
  by (simp_all add: Accept_def Reject_def Let_def umap_simps split: option.split)

text \<open>
  An invitation is answered once: after an accept or a reject, a reject of the same id is
  refused with "invite not found" and sends nothing, and so is an accept unless this side also
  has an open invitation of its own under that id.
\<close>

theorem answered_once:
  assumes "t = fst (Accept api u k d s) \<or> t = fst (Reject api u k d s)"
  shows "Reject api' u' k d' t = (t, OnError ERR_INVITE_NOT_FOUND) \<and>
    (if um_find (active_invites t) (CString k) = None
     then Accept api' u' k d' t = (t, OnError ERR_INVITE_NOT_FOUND) else True)"
proof -
  have "um_find (received_invites t) (CString k) = None" using assms answered_received by auto
  then show ?thesis by (simp add: Accept_def Reject_def Let_def)
qed

text \<open>
  A new session starts clean: once the object is handed to another manager, no invitation of
  the old session can be cancelled, accepted or rejected, so none reaches a friend number of the
  new profile.
\<close>

theorem session_change_drops_invites:
  assumes "manager_impl s \<noteq> m"
  shows "Cancel api u k d (SetManagerImpl m s) = (SetManagerImpl m s, OnError ERR_INVITE_NOT_FOUND) \<and>
    Accept api u k d (SetManagerImpl m s) = (SetManagerImpl m s, OnError ERR_INVITE_NOT_FOUND) \<and>
    Reject api u k d (SetManagerImpl m s) = (SetManagerImpl m s, OnError ERR_INVITE_NOT_FOUND)"
  using assms by (simp add: SetManagerImpl_def ResetSessionState_def Cancel_def Accept_def Reject_def Let_def)

section \<open>The protocol between two instances\<close>

lemma parse_gid_build: "CHR '';'' \<notin> set g \<Longrightarrow> parse_gid (''GID:'' @ g @ '';'' @ d) = (g, d)"
proof -
  assume "CHR '';'' \<notin> set g"
  then have "\<not> sublist '';'' g" by (meson list.set_intros(1) set_mono_sublist subsetD)
  then have "find_str '';'' (g @ '';'' @ d) = Some (length g)"
    using find_str_before_copy [of "CHR '';''" "[]" g d] by simp
  then show ?thesis by (simp add: parse_gid_def find_from_def substr_def numeral_eq_Suc)
qed

text \<open>A packet on the wire, received by an instance that has a manager.\<close>

lemma receive_packet:
  assumes "length (sp_inviteID p) < 2 ^ 32" "length (sp_data p) < 2 ^ 32"
  shows "OnToxMessage u fn (kSignaling # SerializePacket p) s =
    (if sp_type p > SIGNALING_TIMEOUT then s
     else case manager_impl s of None \<Rightarrow> s | Some m \<Rightarrow>
       if sp_type p = SIGNALING_INVITE
       then PostToEventThread m (InviteTask (sp_inviteID p) fn (sp_data p) (sp_timeout p) m) s
       else if sp_type p = SIGNALING_ACCEPT then PostToEventThread m (AcceptTask (sp_inviteID p) (sp_data p) fn) s
       else if sp_type p = SIGNALING_REJECT then PostToEventThread m (RejectTask (sp_inviteID p) (sp_data p) fn) s
       else if sp_type p = SIGNALING_CANCEL then PostToEventThread m (CancelTask (sp_inviteID p) (sp_data p) fn) s
       else if sp_type p = SIGNALING_TIMEOUT then PostToEventThread m (TimeoutTask (sp_inviteID p) fn) s
       else s)"
proof -
  have "SerializePacket p \<noteq> []" by (simp add: SerializePacket_def)
  then have "\<not> length (kSignaling # SerializePacket p) < 2" by (cases "SerializePacket p") simp_all
  then show ?thesis
    using ParsePacket_Serialize_append [OF assms, of u "[]"] by (simp add: OnToxMessage_def)
qed

lemma find_last: "(\<And>e. e \<in> set q \<Longrightarrow> fst e \<noteq> m) \<Longrightarrow> List.find (\<lambda>e. fst e = m) (q @ [(m, t)]) = Some (m, t)"
  by (induction q) auto

lemma run_posted:
  assumes "\<And>e. e \<in> set (task_queue s) \<Longrightarrow> fst e \<noteq> m"
  shows "run_next api m (PostToEventThread m t s) = run_task api t s"
proof -
  have "remove1 (m, t) (task_queue s @ [(m, t)]) = task_queue s"
    using assms by (force simp: remove1_append)
  then show ?thesis using find_last [OF assms] by (simp add: run_next_def PostToEventThread_def)
qed

lemma CString_no_nul: "CHR 0x00 \<notin> set s \<Longrightarrow> CString s = s"
  by (auto simp: CString_def takeWhile_eq_all_conv)

lemma CString_unique_id [simp]: "CString (snd (sig_GenerateUniqueID api s)) = snd (sig_GenerateUniqueID api s)"
proof (rule CString_no_nul)
  have "CHR 0x00 \<notin> set (dec_int i)" for i using dec_int_chars [of "CHR 0x00" i] by (auto simp: is_digit_def)
  then show "CHR 0x00 \<notin> set (snd (sig_GenerateUniqueID api s))" by (simp add: sig_GenerateUniqueID_def)
qed

lemma length_CString: "length (CString s) \<le> length s"
  by (simp add: CString_def length_takeWhile_le)

lemma sig_types [simp]:
  "\<not> SIGNALING_INVITE > SIGNALING_TIMEOUT" "\<not> SIGNALING_ACCEPT > SIGNALING_TIMEOUT"
  "SIGNALING_ACCEPT \<noteq> SIGNALING_INVITE"
  by (simp_all add: SIGNALING_INVITE_def SIGNALING_ACCEPT_def SIGNALING_TIMEOUT_def)

definition idle :: "nat \<Rightarrow> sig_state \<Rightarrow> bool" where
  "idle m s \<longleftrightarrow> list_all (\<lambda>e. fst e \<noteq> m) (task_queue s)"

lemma idleD: "idle m s \<Longrightarrow> e \<in> set (task_queue s) \<Longrightarrow> fst e \<noteq> m"
  by (simp add: idle_def list_all_iff)

text \<open>The caller's side of a call: what \<open>Invite\<close> sends and records.\<close>

lemma Invite_sends:
  assumes "manager_impl a = Some m" "GetToxManager api a = Some tm" "getTox api tm = Some t"
    and "GetFriendNumber api a invitee = fn" "fn \<noteq> UINT32_MAX" "ot \<or> st"
  defines "iid \<equiv> snd (sig_GenerateUniqueID api a)"
  obtains a1 info where "Invite api ot rn st invitee data False timeout a = (a1, iid, OnSuccess)"
    "sent a1 = sent a @ [(t, fn, kSignaling # SerializePacket
       \<lparr>sp_type = SIGNALING_INVITE, sp_inviteID = iid, sp_data = CString data, sp_timeout = timeout\<rparr>)]"
    "active_invites a1 = um_put iid info (active_invites a)" "sender_friend_number info = fn"
    "manager_impl a1 = Some m" "task_queue a1 = task_queue a" "listeners a1 = listeners a" "delivered a1 = delivered a"
proof -
  let ?s = "fst (sig_GenerateUniqueID api a)"
  have f: "manager_impl ?s = manager_impl a" "sent ?s = sent a" "active_invites ?s = active_invites a"
    "task_queue ?s = task_queue a" "listeners ?s = listeners a" "delivered ?s = delivered a"
    by (simp_all add: sig_GenerateUniqueID_def)
  have g: "GetToxManager api ?s = Some tm" "GetFriendNumber api ?s invitee = fn"
    using assms(2,4) f(1) by (simp_all add: GetToxManager_def GetFriendNumber_def current_tox_def)
  define r where "r = invite_task api iid invitee data False timeout m ?s"
  have r: "Invite api ot rn st invitee data False timeout a = r"
    using assms(1,6) by (auto simp: Invite_def RunOnEventThread_def case_prod_beta iid_def r_def)
  obtain info where "fst r = (tox_send t fn (kSignaling # SerializePacket
       \<lparr>sp_type = SIGNALING_INVITE, sp_inviteID = iid, sp_data = CString data, sp_timeout = timeout\<rparr>) ?s)
       \<lparr>active_invites := um_put iid info (active_invites ?s)\<rparr>" "snd r = (iid, OnSuccess)" "sender_friend_number info = fn"
    using g assms(3,5) by (auto simp: r_def invite_task_def Let_def tox_send_def)
  then show thesis
    using that [of "fst r" info] r f assms(1) by (simp add: tox_send_def prod_eq_iff)
qed

text \<open>The callee's side: the packet rings, and accepting it sends the answer to the inviter.\<close>

lemma Invitation_rings:
  fixes timeout fn u :: u32
  assumes "manager_impl b = Some m" "idle m b" "current_tox api b = Some t"
    and len: "length iid < 2 ^ 32" "length (CString data) < 2 ^ 32" and nul: "CString iid = iid"
  defines "b2 \<equiv> run_next api m (OnToxMessage u fn (kSignaling # SerializePacket
      \<lparr>sp_type = SIGNALING_INVITE, sp_inviteID = iid, sp_data = CString data, sp_timeout = timeout\<rparr>) b)"
  shows "um_find (received_invites b2) iid =
      Some \<lparr>inviter_friend_number = fn, r_deadline = deadline_after (NowMonoMs api (Some m)) timeout\<rparr>"
    and "delivered b2 = delivered b @ map (\<lambda>l. (l, OnReceiveNewInvitation iid (CString (GetUserIDFromFriendNumber api b fn))
      (CString (fst (parse_gid (CString data)))) (CString (snd (parse_gid (CString data)))), True)) (listeners b)"
    and "manager_impl b2 = Some m" "sent b2 = sent b" "current_tox api b2 = Some t" "listeners b2 = listeners b"
proof -
  have run: "b2 = run_task api (InviteTask iid fn (CString data) timeout m) b"
    using assms(1) len run_posted [OF idleD [OF assms(2)]] by (simp add: b2_def receive_packet)
  show "um_find (received_invites b2) iid =
      Some \<lparr>inviter_friend_number = fn, r_deadline = deadline_after (NowMonoMs api (Some m)) timeout\<rparr>"
    by (simp add: run Let_def case_prod_beta umap_simps)
  show "delivered b2 = delivered b @ map (\<lambda>l. (l, OnReceiveNewInvitation iid (CString (GetUserIDFromFriendNumber api b fn))
      (CString (fst (parse_gid (CString data)))) (CString (snd (parse_gid (CString data)))), True)) (listeners b)"
    by (simp add: run Let_def case_prod_beta nul)
  show "manager_impl b2 = Some m" "sent b2 = sent b" "listeners b2 = listeners b"
    using assms(1) by (simp_all add: run Let_def case_prod_beta)
  then show "current_tox api b2 = Some t" using assms(1,3) current_tox_cong [of b2 b] by simp
qed

text \<open>
  C35. A call is set up end to end: when A invites B and B's instance receives the packet, B rings
  with A's id and payload and remembers A's friend number with a deadline from the invite's own
  timeout; when B accepts, the answer goes to A and to nobody else, B's invitation is closed, and
  once A has processed the answer its invitation is closed and every listener of A was told once.
\<close>

theorem call_setup:
  assumes a: "manager_impl a = Some ma" "idle ma a" "GetToxManager apiA a = Some tm" "getTox apiA tm = Some ta"
      "GetFriendNumber apiA a invitee = fb" "fb \<noteq> UINT32_MAX" "ot \<or> st"
    and b: "manager_impl b = Some mb" "idle mb b" "current_tox apiB b = Some tb"
    and len: "length (snd (sig_GenerateUniqueID apiA a)) < 2 ^ 32" "length data < 2 ^ 32" "length reply < 2 ^ 32"
  shows "case Invite apiA ot rn st invitee data False timeout a of (a1, iid, cb) \<Rightarrow>
    (let b2 = run_next apiB mb (OnToxMessage u fa (snd (snd (last (sent a1)))) b) in
     case Accept apiB u' iid reply b2 of (b3, cb') \<Rightarrow>
      let a2 = run_next apiA' ma (OnToxMessage u'' fb (snd (snd (last (sent b3)))) a1) in
        cb = OnSuccess \<and> cb' = OnSuccess \<and>
        map (\<lambda>(t, n, p). (t, n)) (sent a1) = map (\<lambda>(t, n, p). (t, n)) (sent a) @ [(ta, fb)] \<and>
        map (\<lambda>(t, n, p). (t, n)) (sent b3) = map (\<lambda>(t, n, p). (t, n)) (sent b) @ [(tb, fa)] \<and>
        um_find (received_invites b2) iid =
          Some \<lparr>inviter_friend_number = fa, r_deadline = deadline_after (NowMonoMs apiB (Some mb)) timeout\<rparr> \<and>
        um_find (active_invites a1) iid \<noteq> None \<and>
        um_find (received_invites b3) iid = None \<and> um_find (active_invites a2) iid = None \<and>
        delivered b3 = delivered b @ map (\<lambda>l. (l, OnReceiveNewInvitation iid (CString (GetUserIDFromFriendNumber apiB b fa))
          (CString (fst (parse_gid (CString data)))) (CString (snd (parse_gid (CString data)))), True)) (listeners b) \<and>
        delivered a2 = delivered a @ map (\<lambda>l. (l, OnInviteeAccepted iid
          (CString (GetUserIDFromFriendNumber apiA' a fb)) (CString reply), True)) (listeners a))"
proof -
  define iid where "iid = snd (sig_GenerateUniqueID apiA a)"
  have nul: "CString iid = iid" and liid: "length iid < 2 ^ 32" using len(1) by (simp_all add: iid_def)
  have ld: "length (CString data) < 2 ^ 32" "length (CString reply) < 2 ^ 32"
    using len(2,3) length_CString le_less_trans by blast+
  obtain a1 info where inv: "Invite apiA ot rn st invitee data False timeout a = (a1, iid, OnSuccess)"
    and sent: "sent a1 = sent a @ [(ta, fb, kSignaling # SerializePacket
       \<lparr>sp_type = SIGNALING_INVITE, sp_inviteID = iid, sp_data = CString data, sp_timeout = timeout\<rparr>)]"
    and act: "active_invites a1 = um_put iid info (active_invites a)"
    and fr: "manager_impl a1 = Some ma" "task_queue a1 = task_queue a" "listeners a1 = listeners a" "delivered a1 = delivered a"
    using Invite_sends [OF a(1,3-7)] unfolding iid_def by blast
  define b2 where "b2 = run_next apiB mb (OnToxMessage u fa (snd (snd (last (sent a1)))) b)"
  note ring = Invitation_rings [OF b liid ld(1) nul, of u fa timeout, folded b2_def [unfolded sent last_snoc snd_conv]]
  define b3 where "b3 = fst (Accept apiB u' iid reply b2)"
  have acc: "Accept apiB u' iid reply b2 = (b3, OnSuccess)"
    and sb: "sent b3 = sent b @ [(tb, fa, kSignaling # SerializePacket (answer SIGNALING_ACCEPT iid reply u'))]"
    and rb: "um_find (received_invites b3) iid = None" and db: "delivered b3 = delivered b2"
    using ring(1,4,5) by (simp_all add: b3_def Accept_def Let_def nul sent_SendToxPacket umap_simps)
  have ia: "idle ma a1" using a(2) fr(2) by (simp add: idle_def)
  define a2 where "a2 = run_next apiA' ma (OnToxMessage u'' fb (snd (snd (last (sent b3)))) a1)"
  have a2: "a2 = run_task apiA' (AcceptTask iid (CString reply) fb) a1"
    using fr(1) liid ld(2) run_posted [OF idleD [OF ia]] by (simp add: a2_def sb receive_packet answer_def)
  have uid: "GetUserIDFromFriendNumber apiA' a1 fb = GetUserIDFromFriendNumber apiA' a fb"
    using fr(1) a(1) current_tox_cong [of a1 a apiA'] by (simp add: GetUserIDFromFriendNumber_def)
  have idem: "CString (CString reply) = CString reply" by simp
  have "delivered a2 = delivered a @ map (\<lambda>l. (l, OnInviteeAccepted iid
          (CString (GetUserIDFromFriendNumber apiA' a fb)) (CString reply), True)) (listeners a)"
    "um_find (active_invites a2) iid = None"
    by (simp_all add: a2 Let_def fr nul uid idem umap_simps)
  moreover have "um_find (active_invites a1) iid \<noteq> None" by (simp add: act umap_simps)
  ultimately show ?thesis
    unfolding inv prod.case Let_def b2_def [symmetric] acc a2_def [symmetric]
    using rb ring(1,2) db sb sent by simp
qed

section \<open>Witnesses\<close>

text \<open>Two connected instances; a friend's public key repeats its number.\<close>

definition api1 :: sig_api where
  "api1 = \<lparr>default_manager = None, manager_tox_manager = Some, getTox = Some, getAddress = \<lambda>t. ''AA'',
     isTestMode = \<lambda>m. False, virtual_time = 0, steady_clock = 5000, wall_time = 7,
     tox_friend_get_public_key = \<lambda>t n. Some (replicate 32 (ucast n)),
     tox_friend_by_public_key = \<lambda>t pk. Some (ucast (hd pk)), friend_connected = \<lambda>t n. True\<rparr>"

definition sA :: sig_state where
  "sA = fold sig_apply [OpAdd (Some 9), OpAdd (Some 9), OpSetManager (Some 1)] new_sig"

lemma reachable_fold: "sig_reachable s \<Longrightarrow> sig_reachable (fold sig_apply ops s)"
proof (induction ops arbitrary: s)
  case (Cons op ops)
  have "sig_reachable (sig_apply op s)" using Cons.prems by (rule rtranclp.rtrancl_into_rtrancl) blast
  then show ?case using Cons.IH by simp
qed simp

lemma sA_reachable: "sig_reachable sA"
  unfolding sA_def by (rule reachable_fold) simp

lemma sA_fields: "manager_impl sA = Some 1" "task_queue sA = []" "received_invites sA = []"
  by code_simp+

theorem events_once_per_listener_witness: "distinct (listeners sA)"
  using events_once_per_listener [OF sA_reachable] by blast

theorem new_invite_id_fresh_witness: "um_find (active_invites sA) (snd (sig_GenerateUniqueID api1 sA)) = None"
  by (rule new_invite_id_fresh [OF sA_reachable])


theorem timeout_fires_once_witness: "CheckTimeouts api1 (CheckTimeouts api1 sA) = CheckTimeouts api1 sA"
  by (rule timeout_fires_once [OF sA_reachable])

theorem answered_once_witness:
  "snd (Reject api1 0 ''i'' ''no'' (fst (Accept api1 0 ''i'' ''yes'' sA))) = OnError ERR_INVITE_NOT_FOUND"
  using answered_once [of "fst (Accept api1 0 ''i'' ''yes'' sA)" api1 0 "''i''" "''yes''" sA api1 0 "''no''"] by simp

theorem session_change_drops_invites_witness:
  "snd (Cancel api1 0 ''i'' ''bye'' (SetManagerImpl (Some 2) sA)) = OnError ERR_INVITE_NOT_FOUND"
  using session_change_drops_invites [of sA "Some 2" api1 0 "''i''" "''bye''"] sA_fields(1) by simp

definition userB :: string where
  "userB = replicate 64 CHR ''4''"

theorem call_setup_witness: "snd (snd (Invite api1 True True True userB ''hi'' False 30 sA)) = OnSuccess"
proof -
  have g: "GetToxManager api1 sA = Some 1" and t: "getTox api1 1 = Some 1" and c: "current_tox api1 sA = Some 1"
    by (simp_all add: GetToxManager_def current_tox_def sA_fields api1_def)
  have f: "GetFriendNumber api1 sA userB = 0x44" by code_simp
  have n: "(0x44 :: u32) \<noteq> UINT32_MAX" "True \<or> True" by simp_all
  have "length (snd (sig_GenerateUniqueID api1 sA)) = 7" by code_simp
  then have l: "length (snd (sig_GenerateUniqueID api1 sA)) < 2 ^ 32" by simp
  have m: "length ''hi'' < 2 ^ 32" "length ''ok'' < 2 ^ 32" by simp_all
  have i: "idle 1 sA" by (simp add: idle_def sA_fields)
  note call_setup [OF sA_fields(1) i g t f n sA_fields(1) i c l m, where rn = True and timeout = 30 and u = 0 and fa = 5 and u' = 0 and apiA' = api1 and u'' = 0]
  from this [unfolded case_prod_beta Let_def] show ?thesis by (rule conjunct1)
qed

end
