(* ===== verification/IrcParser.thy ===== *)
theory IrcParser
  imports HexCodec
begin

text \<open>
  The text half of \<open>source/IrcClientManager.cpp\<close>: the message parser, nicknames, the channel
  test, the words of a NAMES reply and the base64 encoder of SASL.

  Blank handling follows the C locale. The parameter loop of \<open>parse_irc_message\<close> works on the
  rest of the line; each round takes a non-empty piece off, so it ends. The accumulator of
  \<open>base64Encode\<close> is a 32-bit \<open>int\<close> that is shifted without being masked: it is a word here, its
  right shift is arithmetic, and the characters depend on its low bits only.
\<close>

record parsed_message =
  prefix_of :: string
  pcommand :: string
  params :: "string list"
  trailing :: string
  has_trailing :: bool

definition blank :: "char \<Rightarrow> bool" where
  "blank c \<longleftrightarrow> c = CHR '' '' \<or> c = CHR 0x09 \<or> c = CHR 0x0D \<or> c = CHR 0x0A"

definition trim_copy :: "string \<Rightarrow> string" where
  "trim_copy s = rev (dropWhile blank (rev (dropWhile blank s)))"

definition toupper :: "char \<Rightarrow> char" where
  "toupper c = (if in_range CHR ''a'' CHR ''z'' c then char_of ((of_char c :: nat) - 32) else c)"

definition upper_copy :: "string \<Rightarrow> string" where
  "upper_copy s = map toupper s"

lemma length_trim_copy: "length (trim_copy s) \<le> length s"
  by (metis length_dropWhile_le length_rev order_trans trim_copy_def)

text \<open>The parameter loop: the parameters, and the trailing text when there is one.\<close>

function params_loop :: "string \<Rightarrow> string list \<Rightarrow> string list \<times> string option" where
  "params_loop rest acc =
     (if rest = [] then (acc, None)
      else if rest ! 0 = CHR '':'' then (acc, Some (drop 1 rest))
      else
        (case find_str '' '' rest of
           None \<Rightarrow> (acc @ [rest], None)
         | Some space \<Rightarrow> params_loop (trim_copy (drop (space + 1) rest)) (acc @ [take space rest])))"
  by pat_completeness auto
termination
proof (relation "measure (\<lambda>(rest, acc). length rest)")
  fix rest :: string and acc :: "string list" and space
  assume "rest \<noteq> []"
  then show "((trim_copy (drop (space + 1) rest), acc @ [take space rest]), rest, acc) \<in>
      measure (\<lambda>(rest, acc). length rest)"
    using length_trim_copy [of "drop (space + 1) rest"] by (cases rest) auto
qed simp

declare params_loop.simps [simp del]

definition empty_message :: parsed_message where
  "empty_message = \<lparr>prefix_of = '''', pcommand = '''', params = [], trailing = '''', has_trailing = False\<rparr>"

text \<open>What follows the prefix.\<close>

definition parse_command :: "string \<Rightarrow> string \<Rightarrow> parsed_message" where
  "parse_command pre rest =
     (case find_str '' '' rest of
        None \<Rightarrow> empty_message\<lparr>prefix_of := pre, pcommand := upper_copy rest\<rparr>
      | Some command_end \<Rightarrow>
          (case params_loop (trim_copy (drop (command_end + 1) rest)) [] of (ps, tr) \<Rightarrow>
             \<lparr>prefix_of = pre, pcommand = upper_copy (take command_end rest), params = ps,
              trailing = (case tr of None \<Rightarrow> '''' | Some t \<Rightarrow> t), has_trailing = (tr \<noteq> None)\<rparr>))"

definition parse_irc_message :: "string \<Rightarrow> parsed_message" where
  "parse_irc_message raw_line =
     (let rest = trim_copy raw_line in
      if rest = [] then empty_message
      else if rest ! 0 = CHR '':'' then
        (case find_str '' '' rest of
           None \<Rightarrow> empty_message\<lparr>prefix_of := drop 1 rest\<rparr>
         | Some space \<Rightarrow> parse_command (substr rest 1 (space - 1)) (trim_copy (drop (space + 1) rest)))
      else parse_command '''' rest)"

definition nickname_from_prefix :: "string \<Rightarrow> string" where
  "nickname_from_prefix pre =
     (case find_str ''!'' pre of
        Some bang \<Rightarrow> take bang pre
      | None \<Rightarrow> (case find_str ''@'' pre of Some at \<Rightarrow> take at pre | None \<Rightarrow> pre))"

definition params_contain_channel :: "parsed_message \<Rightarrow> string \<Rightarrow> bool" where
  "params_contain_channel p channel \<longleftrightarrow>
     (if has_trailing p \<and> trailing p = channel then True else list_ex (\<lambda>param. param = channel) (params p))"

text \<open>\<open>while (iss >> name)\<close>: the words of a text.\<close>

fun words_loop :: "string \<Rightarrow> string \<Rightarrow> string list" where
  "words_loop word [] = (if word = [] then [] else [word])"
| "words_loop word (c # cs) =
     (if is_space c then (if word = [] then words_loop [] cs else word # words_loop [] cs)
      else words_loop (word @ [c]) cs)"

definition words :: "string \<Rightarrow> string list" where
  "words s = words_loop [] s"

definition is_mode :: "char \<Rightarrow> bool" where
  "is_mode c \<longleftrightarrow> c = CHR ''@'' \<or> c = CHR ''+'' \<or> c = CHR ''%'' \<or> c = CHR ''&'' \<or> c = CHR ''~''"

definition names_of :: "string \<Rightarrow> string list" where
  "names_of names_str = filter (\<lambda>n. n \<noteq> []) (map (dropWhile is_mode) (words names_str))"

section \<open>Base64\<close>

definition base64_chars :: string where
  "base64_chars = ''ABCDEFGHIJKLMNOPQRSTUVWXYZabcdefghijklmnopqrstuvwxyz0123456789+/''"

definition b64 :: "u32 \<Rightarrow> char" where
  "b64 v = base64_chars ! unat (v AND 0x3F)"

text \<open>The inner loop, while \<open>valb >= 0\<close>.\<close>

function b64_emit :: "u32 \<Rightarrow> int \<Rightarrow> string \<Rightarrow> int \<times> string" where
  "b64_emit val valb encoded =
     (if valb \<ge> 0 then b64_emit val (valb - 6) (encoded @ [b64 (signed_drop_bit (nat valb) val)])
      else (valb, encoded))"
  by pat_completeness auto
termination
  by (relation "measure (\<lambda>(val, valb, encoded). nat (valb + 1))") auto

declare b64_emit.simps [simp del]

fun b64_loop :: "bytes \<Rightarrow> u32 \<Rightarrow> int \<Rightarrow> string \<Rightarrow> u32 \<times> int \<times> string" where
  "b64_loop [] val valb encoded = (val, valb, encoded)"
| "b64_loop (c # cs) val valb encoded =
     (let val = push_bit 8 val + ucast c in
      case b64_emit val (valb + 8) encoded of (valb, encoded) \<Rightarrow> b64_loop cs val valb encoded)"

function pad4 :: "string \<Rightarrow> string" where
  "pad4 encoded = (if length encoded mod 4 \<noteq> 0 then pad4 (encoded @ ''='') else encoded)"
  by pat_completeness auto
termination
  by (relation "measure (\<lambda>s. (4 - length s mod 4) mod 4)") (auto simp: mod_Suc)

declare pad4.simps [simp del]

definition base64Encode :: "bytes \<Rightarrow> string" where
  "base64Encode data =
     (case b64_loop data 0 (-6) '''' of (val, valb, encoded) \<Rightarrow>
        pad4 (if valb > -6 then encoded @ [b64 (signed_drop_bit (nat (valb + 8)) (push_bit 8 val))] else encoded))"

end
