(* ===== verification/IrcClient.thy ===== *)
theory IrcClient
  imports IrcParser
begin

text \<open>
  \<open>source/IrcClientManager.{h,cpp}\<close>: the IRC bridge. One thread per channel runs
  \<open>channelThread\<close>; the manager's methods run on the caller's thread under \<open>mutex_\<close>.

  \<^item> \<open>irc_channel\<close> is the struct of that name. Its mutexes have no counterpart: a handler is one
    step on the channel and on the list of what left the object (\<open>irc_out\<close>): commands written,
    callbacks called, sockets closed or shut down.
  \<^item> \<open>irc_callbacks\<close> says which callbacks are installed. \<open>ok\<close> is the operating system: whether
    writing this text to this socket succeeds.
  \<^item> DNS, \<open>connect\<close>, the TLS handshake and \<open>recv\<close> are the operating system and OpenSSL: the
    descriptors a connect returns, the results of the handshakes and what a read gives are
    arguments (\<open>irc_io\<close>, \<open>irc_round\<close>, \<open>irc_read\<close>).
  \<^item> \<open>std::string::substr\<close> past the end throws; \<open>Thrown\<close> is that outcome.
  \<^item> Commands are never empty, so \<open>cmd.back()\<close> is defined.
\<close>

datatype irc_status = Disconnected | Connecting | Connected | Authenticating | Reconnecting | Error

record irc_channel =
  server :: string
  port :: int
  channel :: string
  password :: string
  ch_group_id :: string
  sasl_username :: string
  sasl_password :: string
  custom_nickname :: string
  use_sasl :: bool
  use_ssl :: bool
  sasl_authenticated :: bool
  join_sent :: bool
  sock_fd :: int
  ssl :: bool
  connected :: bool
  should_stop :: bool
  status :: irc_status
  reconnect_attempts :: int
  last_reconnect_time :: int
  user_list :: "string list"
  base_nickname :: string
  nickname_suffix :: int

datatype irc_out =
    Sent int string
  | ToxMessage string string string
  | ToxGroupMessage string string string
  | Status string irc_status string
  | UserList string "string list"
  | JoinPart string string bool
  | ShutdownSocket int
  | CloseSocket int

record irc_callbacks =
  tox_message_callback :: bool
  tox_group_message_callback :: bool
  connection_status_callback :: bool
  user_list_callback :: bool
  user_join_part_callback :: bool

type_synonym irc_st = "irc_channel \<times> irc_out list"
type_synonym os_send = "int \<Rightarrow> string \<Rightarrow> bool"

abbreviation newline :: char where "newline \<equiv> CHR 0x0A"
abbreviation creturn :: char where "creturn \<equiv> CHR 0x0D"

definition new_channel :: irc_channel where
  "new_channel = \<lparr>server = '''', port = 6667, channel = '''', password = '''', ch_group_id = '''',
     sasl_username = '''', sasl_password = '''', custom_nickname = '''', use_sasl = False, use_ssl = False,
     sasl_authenticated = False, join_sent = False, sock_fd = -1, ssl = False, connected = False,
     should_stop = False, status = Disconnected, reconnect_attempts = 0, last_reconnect_time = 0,
     user_list = [], base_nickname = '''', nickname_suffix = 0\<rparr>"

definition max_reconnect_attempts :: int where "max_reconnect_attempts = 10"
definition reconnect_delay_seconds :: int where "reconnect_delay_seconds = 5"
definition kMaxLineBufferBytes :: nat where "kMaxLineBufferBytes = 65536"

section \<open>Commands and status\<close>

definition sendIrcCommand :: "os_send \<Rightarrow> string \<Rightarrow> irc_st \<Rightarrow> irc_st \<times> bool" where
  "sendIrcCommand ok command st =
     (case st of (ch, out) \<Rightarrow>
        if sock_fd ch < 0 then (st, False)
        else
          let cmd = (if last command \<noteq> newline then command @ [newline] else command) in
          if ok (sock_fd ch) cmd then ((ch, out @ [Sent (sock_fd ch) cmd]), True) else (st, False))"

text \<open>The calls that ignore the result.\<close>

definition cmd :: "os_send \<Rightarrow> string \<Rightarrow> irc_st \<Rightarrow> irc_st" where
  "cmd ok command st = fst (sendIrcCommand ok command st)"

definition updateConnectionStatus :: "irc_callbacks \<Rightarrow> irc_status \<Rightarrow> string \<Rightarrow> irc_st \<Rightarrow> irc_st" where
  "updateConnectionStatus cb new message st =
     (case st of (ch, out) \<Rightarrow>
        (ch\<lparr>status := new\<rparr>, out @ (if connection_status_callback cb then [Status (channel ch) new message] else [])))"

definition generateNickname :: "irc_channel \<Rightarrow> string" where
  "generateNickname ch =
     (if custom_nickname ch \<noteq> [] \<and> nickname_suffix ch = 0 then custom_nickname ch
      else if nickname_suffix ch = 0 then base_nickname ch
      else base_nickname ch @ ''_'' @ dec_int (nickname_suffix ch))"

definition cleanupChannelSocket :: "irc_st \<Rightarrow> irc_st" where
  "cleanupChannelSocket st =
     (case st of (ch, out) \<Rightarrow>
        if sock_fd ch \<ge> 0 then (ch\<lparr>ssl := False, sock_fd := -1\<rparr>, out @ [CloseSocket (sock_fd ch)])
        else (ch\<lparr>ssl := False\<rparr>, out))"

section \<open>Handlers\<close>

definition handlePing :: "os_send \<Rightarrow> string \<Rightarrow> irc_st \<Rightarrow> irc_st" where
  "handlePing ok line st =
     (if length line > 4 \<and> substr line 0 4 = ''PING'' then cmd ok (''PONG'' @ drop 4 line) st else st)"

definition sendJoinIfNeeded :: "os_send \<Rightarrow> irc_st \<Rightarrow> irc_st" where
  "sendJoinIfNeeded ok st =
     (case st of (ch, out) \<Rightarrow>
        if join_sent ch then st
        else
          let join_cmd = ''JOIN '' @ channel ch @ (if password ch \<noteq> [] then '' '' @ password ch else '''') in
          cmd ok join_cmd (ch\<lparr>join_sent := True\<rparr>, out))"

definition handlePrivmsg :: "irc_callbacks \<Rightarrow> string \<Rightarrow> irc_st \<Rightarrow> irc_st" where
  "handlePrivmsg cb line st =
     (case st of (ch, out) \<Rightarrow>
        let p = parse_irc_message line in
        if pcommand p \<noteq> ''PRIVMSG'' \<or> params p = [] \<or> \<not> has_trailing p then st
        else
          let sender_nick = nickname_from_prefix (prefix_of p) in
          if params p ! 0 \<noteq> channel ch then st
          else (ch, out @ (if tox_message_callback cb then [ToxMessage (ch_group_id ch) sender_nick (trailing p)] else [])))"

definition handleNickConflict :: "os_send \<Rightarrow> irc_st \<Rightarrow> irc_st" where
  "handleNickConflict ok st =
     (case st of (ch, out) \<Rightarrow>
        let ch1 = ch\<lparr>nickname_suffix := nickname_suffix ch + 1\<rparr> in
        cmd ok (''NICK '' @ generateNickname ch1) (ch1, out))"

text \<open>
  The authentication data of SASL PLAIN. The literal \<open>"\0"\<close> is an empty C string, so the
  concatenation has no separators.
\<close>

definition handleSaslAuth :: "os_send \<Rightarrow> string \<Rightarrow> irc_st \<Rightarrow> irc_st" where
  "handleSaslAuth ok line st =
     (case st of (ch, out) \<Rightarrow>
        if find_str ''AUTHENTICATE +'' line \<noteq> None
        then cmd ok (''AUTHENTICATE '' @ base64Encode (map byte_of (sasl_username ch @ sasl_password ch))) st
        else st)"

definition handleNamesResponse :: "irc_callbacks \<Rightarrow> string \<Rightarrow> irc_st \<Rightarrow> irc_st" where
  "handleNamesResponse cb line st =
     (case st of (ch, out) \<Rightarrow>
        let p = parse_irc_message line in
        if pcommand p \<noteq> ''353'' \<or> \<not> has_trailing p then st
        else if \<not> params_contain_channel p (channel ch) then st
        else
          let users = names_of (trailing p) in
          (ch\<lparr>user_list := users\<rparr>, out @ (if user_list_callback cb then [UserList (channel ch) users] else [])))"

definition handleJoinPart :: "irc_callbacks \<Rightarrow> string \<Rightarrow> bool \<Rightarrow> irc_st \<Rightarrow> irc_st" where
  "handleJoinPart cb line is_join st =
     (case st of (ch, out) \<Rightarrow>
        let p = parse_irc_message line in
        if (pcommand p = ''JOIN'' \<or> pcommand p = ''PART'') \<and> \<not> params_contain_channel p (channel ch) then st
        else
          let nickname = nickname_from_prefix (prefix_of p) in
          if nickname = [] then st
          else
            let out1 = out @ (if user_join_part_callback cb then [JoinPart (channel ch) nickname is_join] else []);
                users = (if is_join
                         then (if nickname \<in> set (user_list ch) then user_list ch else user_list ch @ [nickname])
                         else filter (\<lambda>u. u \<noteq> nickname) (user_list ch)) in
            (ch\<lparr>user_list := users\<rparr>, out1 @ (if user_list_callback cb then [UserList (channel ch) users] else [])))"

definition has :: "string \<Rightarrow> string \<Rightarrow> bool" where
  "has line sub \<longleftrightarrow> find_str sub line \<noteq> None"

definition handleCap :: "os_send \<Rightarrow> string \<Rightarrow> irc_st \<Rightarrow> irc_st" where
  "handleCap ok line st =
     (if has line ''ACK :sasl'' \<or> has line ''ACK sasl'' then cmd ok ''AUTHENTICATE PLAIN'' st
      else if has line ''NAK'' then st
      else if has line ''LS'' \<and> has line ''sasl'' then cmd ok ''CAP REQ :sasl'' st
      else st)"

definition handleNumeric :: "os_send \<Rightarrow> irc_callbacks \<Rightarrow> string \<Rightarrow> string \<Rightarrow> irc_st \<Rightarrow> irc_st" where
  "handleNumeric ok cb num line st =
     (case st of (ch, out) \<Rightarrow>
        if num = ''001'' \<or> num = ''002'' \<or> num = ''003'' then
          (if \<not> use_sasl ch \<or> sasl_authenticated ch then sendJoinIfNeeded ok st else st)
        else if num = ''900'' \<or> num = ''903'' then
          sendJoinIfNeeded ok (cmd ok ''CAP END'' (ch\<lparr>sasl_authenticated := True\<rparr>, out))
        else if num = ''904'' \<or> num = ''905'' then
          (case updateConnectionStatus cb Error ''SASL authentication failed'' st of (ch1, out1) \<Rightarrow>
             (ch1\<lparr>should_stop := True\<rparr>, out1))
        else if num = ''433'' then handleNickConflict ok st
        else if num = ''004'' \<or> num = ''005'' then st
        else if num = ''471'' \<or> num = ''473'' \<or> num = ''474'' \<or> num = ''475'' then
          updateConnectionStatus cb Error (''Channel error: '' @ line) st
        else st)"

definition processIrcMessage :: "os_send \<Rightarrow> irc_callbacks \<Rightarrow> string \<Rightarrow> irc_st \<Rightarrow> irc_st" where
  "processIrcMessage ok cb line st =
     (if line = [] then st
      else
        let p = parse_irc_message line; ch = fst st in
        if pcommand p = [] then st
        else if pcommand p = ''PING'' then handlePing ok line st
        else if pcommand p = ''PRIVMSG'' then handlePrivmsg cb line st
        else if pcommand p = ''JOIN'' \<and> params_contain_channel p (channel ch) then
          (let nick = nickname_from_prefix (prefix_of p) in
           if nick \<noteq> [] \<and> nick = generateNickname ch
           then cmd ok (''NAMES '' @ channel ch)
                  (updateConnectionStatus cb Connected ''Connected to channel'' (ch\<lparr>connected := True\<rparr>, snd st))
           else handleJoinPart cb line True st)
        else if (pcommand p = ''PART'' \<or> pcommand p = ''QUIT'') \<and>
                (pcommand p = ''QUIT'' \<or> params_contain_channel p (channel ch)) then
          handleJoinPart cb line False st
        else if pcommand p = ''353'' then handleNamesResponse cb line st
        else if pcommand p = ''366'' then st
        else if has line ''CAP'' then handleCap ok line st
        else if pcommand p = ''AUTHENTICATE'' then handleSaslAuth ok line st
        else if length (pcommand p) = 3 \<and> in_range CHR ''0'' CHR ''9'' (pcommand p ! 0) then
          handleNumeric ok cb (pcommand p) line st
        else st)"

section \<open>Reading\<close>

text \<open>The line loop: what is processed, and the rest that stays in the buffer.\<close>

definition chop_cr :: "string \<Rightarrow> string" where
  "chop_cr line = (if line \<noteq> [] \<and> last line = creturn then butlast line else line)"

function line_loop :: "os_send \<Rightarrow> irc_callbacks \<Rightarrow> string \<Rightarrow> irc_st \<Rightarrow> string \<times> irc_st" where
  "line_loop ok cb line_buffer st =
     (case find_str [newline] line_buffer of
        None \<Rightarrow> (line_buffer, st)
      | Some pos \<Rightarrow>
          line_loop ok cb (drop (pos + 1) line_buffer)
            (processIrcMessage ok cb (chop_cr (substr line_buffer 0 pos)) st))"
  by pat_completeness auto
termination
proof (relation "measure (\<lambda>(ok, cb, buf, st). length buf)")
  fix ok :: os_send and cb :: irc_callbacks and buf :: string and st :: irc_st and pos
  assume "find_str [newline] buf = Some pos"
  then have "pos + 1 \<le> length buf" using find_str_Some_bound by fastforce
  then show "((ok, cb, drop (pos + 1) buf, processIrcMessage ok cb (chop_cr (substr buf 0 pos)) st), ok, cb, buf, st) \<in>
      measure (\<lambda>(ok, cb, buf, st). length buf)" by simp
qed simp

declare line_loop.simps [simp del]

definition read_chunk :: "os_send \<Rightarrow> irc_callbacks \<Rightarrow> string \<Rightarrow> string \<times> irc_st \<Rightarrow> string \<times> irc_st" where
  "read_chunk ok cb data bs =
     (case line_loop ok cb (fst bs @ data) (snd bs) of (buf, st) \<Rightarrow>
        (if length buf > kMaxLineBufferBytes then [] else buf, st))"

section \<open>The channel thread\<close>

text \<open>
  What the world answers to the connection attempts of a thread: the descriptor (negative for a
  failure), the outcome of the handshake, and whether a stop request is visible before attempt
  \<open>n\<close>.
\<close>

record irc_io =
  connectToServer :: "nat \<Rightarrow> int"
  performSslHandshake :: "nat \<Rightarrow> bool"
  stop_requested :: "nat \<Rightarrow> bool"

text \<open>The connect loop; the flag is the early return when the attempts are used up.\<close>

function connect_loop :: "irc_io \<Rightarrow> irc_callbacks \<Rightarrow> nat \<Rightarrow> irc_st \<Rightarrow> irc_st \<times> bool" where
  "connect_loop io cb n (ch, out) =
     (let ch0 = (if stop_requested io n then ch\<lparr>should_stop := True\<rparr> else ch) in
      if should_stop ch0 then ((ch0, out), False)
      else
        let fd = connectToServer io n; ch1 = ch0\<lparr>sock_fd := fd\<rparr> in
        if fd \<ge> 0 \<and> (\<not> use_ssl ch1 \<or> performSslHandshake io n)
        then ((ch1\<lparr>ssl := use_ssl ch1, reconnect_attempts := 0, join_sent := False\<rparr>, out), False)
        else
          let st2 = (if fd \<ge> 0 then (ch1\<lparr>sock_fd := -1\<rparr>, out @ [CloseSocket fd]) else (ch1, out));
              attempts = reconnect_attempts ch + 1;
              st3 = (fst st2\<lparr>reconnect_attempts := attempts\<rparr>, snd st2) in
          if attempts \<ge> max_reconnect_attempts then
            (case updateConnectionStatus cb Error ''Max reconnect attempts reached'' st3 of (ch4, out4) \<Rightarrow>
               ((ch4\<lparr>should_stop := True\<rparr>, out4), True))
          else
            connect_loop io cb (Suc n)
              (updateConnectionStatus cb Reconnecting (''Reconnecting (attempt '' @ dec_int attempts @ '')'') st3))"
  by pat_completeness auto
termination
proof (relation "measure (\<lambda>(io, cb, n, ch, out). nat (max_reconnect_attempts - reconnect_attempts ch))")
  fix io :: irc_io and cb :: irc_callbacks and n fd attempts and ch ch0 ch1 :: irc_channel and out :: "irc_out list" and st2 st3 :: irc_st
  assume "attempts = reconnect_attempts ch + 1" "st3 = (fst st2\<lparr>reconnect_attempts := attempts\<rparr>, snd st2)"
    "\<not> max_reconnect_attempts \<le> attempts"
  then show "((io, cb, Suc n, updateConnectionStatus cb Reconnecting (''Reconnecting (attempt '' @ dec_int attempts @ '')'') st3),
      io, cb, n, ch, out) \<in> measure (\<lambda>(io, cb, n, ch, out). nat (max_reconnect_attempts - reconnect_attempts ch))"
    by (simp add: updateConnectionStatus_def max_reconnect_attempts_def)
qed simp

declare connect_loop.simps [simp del]

definition register_nick :: "os_send \<Rightarrow> irc_st \<Rightarrow> irc_st" where
  "register_nick ok st =
     (let nick = generateNickname (fst st) in
      cmd ok (''USER '' @ nick @ '' 8 * :'' @ nick) (cmd ok (''NICK '' @ nick) st))"

text \<open>From the connect loop to the read loop; the flag tells whether the read loop runs.\<close>

definition thread_start :: "os_send \<Rightarrow> irc_io \<Rightarrow> irc_callbacks \<Rightarrow> irc_st \<Rightarrow> irc_st \<times> bool" where
  "thread_start ok io cb st0 =
     (case connect_loop io cb 0 (updateConnectionStatus cb Connecting ''Connecting to server'' st0) of
        (st, True) \<Rightarrow> (st, False)
      | (st, False) \<Rightarrow>
          if should_stop (fst st) \<or> sock_fd (fst st) < 0 then
            (case cleanupChannelSocket st of (ch, out) \<Rightarrow> ((ch\<lparr>connected := False\<rparr>, out), False))
          else
            let st1 = (if use_sasl (fst st)
                       then updateConnectionStatus cb Authenticating ''Starting SASL authentication''
                              (cmd ok ''CAP REQ :sasl'' st)
                       else st) in
            (register_nick ok st1, True))"

text \<open>One call of \<open>attemptReconnect\<close>: the clock in seconds, and what a connect would give.\<close>

record irc_round =
  now_s :: int
  round_fd :: int
  round_ssl :: bool
  round_stop :: bool

definition attemptReconnect :: "os_send \<Rightarrow> irc_callbacks \<Rightarrow> irc_round \<Rightarrow> irc_st \<Rightarrow> irc_st" where
  "attemptReconnect ok cb rnd st =
     (case st of (ch, out) \<Rightarrow>
        if reconnect_attempts ch \<ge> max_reconnect_attempts then
          (case updateConnectionStatus cb Error ''Max reconnect attempts reached'' st of (ch1, out1) \<Rightarrow>
             (ch1\<lparr>should_stop := True\<rparr>, out1))
        else if now_s rnd - last_reconnect_time ch < reconnect_delay_seconds then st
        else
          let attempts = reconnect_attempts ch + 1;
              st1 = updateConnectionStatus cb Reconnecting (''Reconnecting (attempt '' @ dec_int attempts @ '')'')
                      (ch\<lparr>reconnect_attempts := attempts, last_reconnect_time := now_s rnd\<rparr>, out);
              (ch2, out2) = cleanupChannelSocket (fst st1\<lparr>connected := False\<rparr>, snd st1);
              ch3 = ch2\<lparr>sock_fd := round_fd rnd\<rparr> in
          if round_fd rnd < 0 then (ch3, out2)
          else if use_ssl ch3 \<and> \<not> round_ssl rnd then (ch3\<lparr>sock_fd := -1\<rparr>, out2 @ [CloseSocket (round_fd rnd)])
          else
            let ch4 = ch3\<lparr>ssl := use_ssl ch3, reconnect_attempts := 0, sasl_authenticated := False, join_sent := False\<rparr>;
                st5 = (if use_sasl ch4 then cmd ok ''CAP REQ :sasl'' (ch4, out2) else (ch4, out2)) in
            updateConnectionStatus cb Connecting ''Reconnected, authenticating'' (register_nick ok st5))"

text \<open>
  The retry loop after a lost connection, over the rounds the world gives it; it is still
  waiting when the rounds are used up. Another thread may ask for a stop in any round.
\<close>

fun reconnect_loop :: "os_send \<Rightarrow> irc_callbacks \<Rightarrow> irc_round list \<Rightarrow> irc_st \<Rightarrow> irc_st" where
  "reconnect_loop ok cb [] st = st"
| "reconnect_loop ok cb (rnd # rnds) st =
     (let st0 = (if round_stop rnd then (fst st\<lparr>should_stop := True\<rparr>, snd st) else st) in
      if should_stop (fst st0) \<or> sock_fd (fst st0) \<ge> 0 then st0
      else
        let st1 = attemptReconnect ok cb rnd st0 in
        if sock_fd (fst st1) \<ge> 0 then st1 else reconnect_loop ok cb rnds st1)"

text \<open>What one round of the read loop meets.\<close>

datatype irc_read =
    Chunk string
  | Idle
  | SelectFailed
  | PeerClosed "irc_round list"
  | RecvFailed int "irc_round list"

definition lost_connection :: "os_send \<Rightarrow> irc_callbacks \<Rightarrow> irc_round list \<Rightarrow> irc_st \<Rightarrow> irc_st \<times> bool" where
  "lost_connection ok cb rnds st =
     (if should_stop (fst st) then (st, False)
      else
        let st1 = reconnect_loop ok cb rnds (cleanupChannelSocket st) in
        (st1, \<not> should_stop (fst st1)))"

text \<open>One round: the buffer and the state, and whether the loop goes on.\<close>

fun read_round :: "os_send \<Rightarrow> irc_callbacks \<Rightarrow> irc_read \<Rightarrow> string \<times> irc_st \<Rightarrow> (string \<times> irc_st) \<times> bool" where
  "read_round ok cb (Chunk data) bs = (read_chunk ok cb data bs, True)"
| "read_round ok cb Idle bs = (bs, True)"
| "read_round ok cb SelectFailed bs = (bs, False)"
| "read_round ok cb (PeerClosed rnds) (buf, st) =
     (case lost_connection ok cb rnds (updateConnectionStatus cb Disconnected ''Connection closed'' st) of
        (st1, b) \<Rightarrow> ((buf, st1), b))"
| "read_round ok cb (RecvFailed err rnds) (buf, st) =
     (case lost_connection ok cb rnds (updateConnectionStatus cb Error (''Recv error: '' @ dec_int err) st) of
        (st1, b) \<Rightarrow> ((buf, st1), b))"

fun read_loop :: "os_send \<Rightarrow> irc_callbacks \<Rightarrow> irc_read list \<Rightarrow> string \<times> irc_st \<Rightarrow> string \<times> irc_st" where
  "read_loop ok cb [] bs = bs"
| "read_loop ok cb (r # rs) bs =
     (if should_stop (fst (snd bs)) \<or> sock_fd (fst (snd bs)) < 0 then bs
      else case read_round ok cb r bs of (bs1, b) \<Rightarrow> if b then read_loop ok cb rs bs1 else bs1)"

definition thread_end :: "irc_callbacks \<Rightarrow> irc_st \<Rightarrow> irc_st" where
  "thread_end cb st =
     (case cleanupChannelSocket st of (ch, out) \<Rightarrow>
        updateConnectionStatus cb Disconnected ''Thread ended'' (ch\<lparr>connected := False\<rparr>, out))"

definition channelThread :: "os_send \<Rightarrow> irc_io \<Rightarrow> irc_callbacks \<Rightarrow> irc_read list \<Rightarrow> irc_st \<Rightarrow> irc_st" where
  "channelThread ok io cb reads st =
     (case thread_start ok io cb st of
        (st1, False) \<Rightarrow> st1
      | (st1, True) \<Rightarrow> thread_end cb (snd (read_loop ok cb reads ('''', st1))))"

section \<open>The manager\<close>

text \<open>A \<open>shared_ptr<IrcChannel>\<close> is a pointer and the channel it points to.\<close>

record irc_manager =
  irc_channels :: "(string, nat \<times> irc_channel) umap"
  next_ptr :: nat
  shutting_down :: bool
  callbacks :: irc_callbacks
  irc_log :: "irc_out list"

datatype irc_result = Returned bool | Thrown

definition default_nickname :: "string \<Rightarrow> string option" where
  "default_nickname name =
     (if length name < 1 then None
      else Some (map (\<lambda>c. if c = CHR ''#'' then CHR ''x'' else c) (''ToxUser_'' @ substr name 1 5)))"

definition connectChannel ::
  "string \<Rightarrow> int \<Rightarrow> string \<Rightarrow> string \<Rightarrow> string \<Rightarrow> string \<Rightarrow> string \<Rightarrow> bool \<Rightarrow> string \<Rightarrow> irc_manager \<Rightarrow>
   irc_manager \<times> irc_result" where
  "connectChannel srv prt name pw gid su sp tls nick m =
     (if shutting_down m then (m, Returned False)
      else if um_find (irc_channels m) name \<noteq> None then (m, Returned False)
      else
        case (if nick = [] then default_nickname name else Some nick) of
          None \<Rightarrow> (m, Thrown)
        | Some base \<Rightarrow>
            let ch = new_channel\<lparr>server := srv, port := prt, channel := name, password := pw, ch_group_id := gid,
                       sasl_username := su, sasl_password := sp, custom_nickname := nick, use_ssl := tls,
                       use_sasl := (su \<noteq> []), status := Connecting, base_nickname := base\<rparr> in
            (m\<lparr>irc_channels := um_put name (next_ptr m, ch) (irc_channels m), next_ptr := Suc (next_ptr m)\<rparr>,
             Returned True))"

text \<open>\<open>got_lock\<close>: the bounded attempts to take the channel's I/O mutex succeeded.\<close>

definition sendQuitBestEffort :: "os_send \<Rightarrow> bool \<Rightarrow> irc_st \<Rightarrow> irc_st" where
  "sendQuitBestEffort ok got_lock st =
     (case st of (ch, out) \<Rightarrow>
        if \<not> connected ch \<or> sock_fd ch < 0 then st
        else if \<not> got_lock then st
        else
          let quit = ''QUIT :Disconnecting from IRC'' @ [creturn, newline] in
          if ok (sock_fd ch) quit then (ch, out @ [Sent (sock_fd ch) quit]) else st)"

definition stop_channel :: "irc_st \<Rightarrow> irc_st" where
  "stop_channel st =
     (case st of (ch, out) \<Rightarrow>
        (ch\<lparr>should_stop := True, connected := False\<rparr>,
         out @ (if sock_fd ch \<ge> 0 then [ShutdownSocket (sock_fd ch)] else [])))"

text \<open>
  \<open>disconnectChannel\<close> in its two critical sections, with the join of the thread between them;
  the first gives the pointer that the second may erase.
\<close>

definition disconnect_begin :: "os_send \<Rightarrow> bool \<Rightarrow> string \<Rightarrow> irc_manager \<Rightarrow> irc_manager \<times> nat option" where
  "disconnect_begin ok got_lock name m =
     (case um_find (irc_channels m) name of
        None \<Rightarrow> (m, None)
      | Some (p, ch) \<Rightarrow>
          (case stop_channel (sendQuitBestEffort ok got_lock (ch, irc_log m)) of (ch1, out) \<Rightarrow>
             (m\<lparr>irc_channels := um_put name (p, ch1) (irc_channels m), irc_log := out\<rparr>, Some p)))"

definition disconnect_finish :: "string \<Rightarrow> nat \<Rightarrow> irc_manager \<Rightarrow> irc_manager" where
  "disconnect_finish name p m =
     (case um_find (irc_channels m) name of
        None \<Rightarrow> m
      | Some (q, ch) \<Rightarrow> if q = p then m\<lparr>irc_channels := um_erase name (irc_channels m)\<rparr> else m)"

definition sendMessage :: "os_send \<Rightarrow> string \<Rightarrow> string \<Rightarrow> irc_manager \<Rightarrow> irc_manager \<times> bool" where
  "sendMessage ok name message m =
     (case um_find (irc_channels m) name of
        None \<Rightarrow> (m, False)
      | Some (p, ch) \<Rightarrow>
          if \<not> connected ch \<or> sock_fd ch < 0 then (m, False)
          else
            (case sendIrcCommand ok (''PRIVMSG '' @ name @ '' :'' @ message) (ch, irc_log m) of
               ((ch1, out), b) \<Rightarrow> (m\<lparr>irc_log := out\<rparr>, b)))"

definition isChannelConnected :: "irc_manager \<Rightarrow> string \<Rightarrow> bool" where
  "isChannelConnected m name =
     (case um_find (irc_channels m) name of None \<Rightarrow> False | Some (p, ch) \<Rightarrow> connected ch)"

definition set_callbacks :: "irc_callbacks \<Rightarrow> irc_manager \<Rightarrow> irc_manager" where
  "set_callbacks cb m = m\<lparr>callbacks := cb\<rparr>"

definition onToxGroupMessage :: "os_send \<Rightarrow> string \<Rightarrow> string \<Rightarrow> string \<Rightarrow> irc_manager \<Rightarrow> irc_manager" where
  "onToxGroupMessage ok gid sender message m =
     (if tox_group_message_callback (callbacks m)
      then m\<lparr>irc_log := irc_log m @ [ToxGroupMessage gid sender message]\<rparr>
      else case List.find (\<lambda>(name, p, ch). ch_group_id ch = gid) (irc_channels m) of
             None \<Rightarrow> m
           | Some (name, p, ch) \<Rightarrow> fst (sendMessage ok name message m))"

text \<open>\<open>shutdown\<close>: the marking of every channel, then the clearing once their threads ended.\<close>

fun stop_all :: "(string, nat \<times> irc_channel) umap \<Rightarrow> irc_out list \<Rightarrow> (string, nat \<times> irc_channel) umap \<times> irc_out list" where
  "stop_all [] out = ([], out)"
| "stop_all ((name, p, ch) # cs) out =
     (case stop_channel (ch, out) of (ch1, out1) \<Rightarrow>
        case stop_all cs out1 of (cs1, out2) \<Rightarrow> ((name, p, ch1) # cs1, out2))"

definition shutdown_begin :: "irc_manager \<Rightarrow> irc_manager" where
  "shutdown_begin m =
     (case stop_all (irc_channels m) (irc_log m) of (cs, out) \<Rightarrow>
        m\<lparr>shutting_down := True, irc_channels := cs, irc_log := out\<rparr>)"

definition shutdown_finish :: "irc_manager \<Rightarrow> irc_manager" where
  "shutdown_finish m = m\<lparr>irc_channels := [], shutting_down := False\<rparr>"

definition setCustomNickname :: "string \<Rightarrow> string \<Rightarrow> irc_manager \<Rightarrow> irc_manager \<times> irc_result" where
  "setCustomNickname name nick m =
     (case um_find (irc_channels m) name of
        None \<Rightarrow> (m, Returned True)
      | Some (p, ch) \<Rightarrow>
          let ch1 = ch\<lparr>custom_nickname := nick\<rparr> in
          (case (if nick = [] then default_nickname name
                 else Some (map (\<lambda>c. if c = CHR ''#'' then CHR ''x'' else c) nick)) of
             None \<Rightarrow> (m\<lparr>irc_channels := um_put name (p, ch1) (irc_channels m)\<rparr>, Thrown)
           | Some base \<Rightarrow>
               (m\<lparr>irc_channels := um_put name (p, ch1\<lparr>base_nickname := base, nickname_suffix := 0\<rparr>) (irc_channels m)\<rparr>,
                Returned True)))"

definition getUserList :: "irc_manager \<Rightarrow> string \<Rightarrow> string list" where
  "getUserList m name =
     (case um_find (irc_channels m) name of None \<Rightarrow> [] | Some (p, ch) \<Rightarrow> user_list ch)"

end
