(* ===== verification/IrcText.thy ===== *)
theory IrcText
  imports IrcClient
begin

text \<open>
  Properties of the text half of the IRC bridge: the base64 encoder against RFC 4648, the line
  splitter against the stream it reads, and the message parser against the messages the bridge
  writes.
\<close>

section \<open>Base64\<close>

abbreviation b64_digit :: "nat \<Rightarrow> char" where
  "b64_digit n \<equiv> base64_chars ! n"

text \<open>RFC 4648, section 4: groups of three octets, the last one padded.\<close>

fun rfc4648 :: "bytes \<Rightarrow> string" where
  "rfc4648 [] = []"
| "rfc4648 [a] = [b64_digit (unat a div 4), b64_digit (unat a mod 4 * 16), CHR ''='', CHR ''='']"
| "rfc4648 [a, b] =
     [b64_digit (unat a div 4), b64_digit (unat a mod 4 * 16 + unat b div 16), b64_digit (unat b mod 16 * 4), CHR ''='']"
| "rfc4648 (a # b # c # cs) =
     [b64_digit (unat a div 4), b64_digit (unat a mod 4 * 16 + unat b div 16),
      b64_digit (unat b mod 16 * 4 + unat c div 64), b64_digit (unat c mod 64)] @ rfc4648 cs"

lemma b64_eq:
  assumes "k \<le> 26"
  shows "b64 (signed_drop_bit k v) = b64_digit (unat v div 2 ^ k mod 64)"
proof -
  have m: "(0x3F :: u32) = mask 6" by (simp add: mask_eq_exp_minus_1)
  have "signed_drop_bit k v AND 0x3F = take_bit 6 (drop_bit k v)"
    unfolding m by (rule bit_word_eqI) (use assms in \<open>auto simp: bit_simps\<close>)
  moreover have "unat v < 2 ^ 32" using unsigned_less [of v] by simp
  ultimately show ?thesis
    by (simp add: b64_def unsigned_take_bit_eq unsigned_drop_bit_eq take_bit_nat_def drop_bit_nat_def)
qed

lemma low_bits:
  assumes "k \<le> 6"
  shows "x div 2 ^ k mod 64 = (x mod 4096) div 2 ^ k mod (64 :: nat)"
proof -
  have "take_bit 6 (drop_bit k x) = take_bit 6 (drop_bit k (take_bit 12 x))"
    by (rule bit_eqI) (use assms in \<open>auto simp: bit_simps\<close>)
  then show ?thesis by (simp add: take_bit_nat_def drop_bit_nat_def)
qed

lemma unat_accumulate: "unat (push_bit 8 v + ucast c :: u32) mod 4096 = unat v mod 16 * 256 + unat (c :: u8)"
proof -
  have c: "unat c < 256" using unsigned_less [of c] by simp
  have "unat (push_bit 8 v + ucast c :: u32) = (unat v * 256 + unat c) mod 4294967296"
    by (simp add: unat_word_ariths push_bit_eq_mult unsigned_ucast_eq take_bit_nat_def mod_simps mult.commute)
  then have "unat (push_bit 8 v + ucast c :: u32) mod 4096 = (unat v * 256 + unat c) mod 4096"
    by (simp add: mod_mod_cancel)
  also have "unat v * 256 + unat c = 4096 * (unat v div 16) + (unat v mod 16 * 256 + unat c)"
    using mult_div_mod_eq [of 16 "unat v"] by linarith
  also have "\<dots> mod 4096 = unat v mod 16 * 256 + unat c" using c by simp
  finally show ?thesis .
qed

lemma b64_after:
  "k \<le> 6 \<Longrightarrow> b64 (signed_drop_bit k (push_bit 8 v + ucast c)) =
     b64_digit ((unat v mod 16 * 256 + unat (c :: u8)) div 2 ^ k mod 64)"
  using low_bits [of k "unat (push_bit 8 v + ucast c :: u32)"] by (simp add: b64_eq unat_accumulate)

lemma low_byte: "unat (push_bit 8 v + ucast c :: u32) mod 16 = unat (c :: u8) mod 16"
proof -
  have "unat (push_bit 8 v + ucast c :: u32) mod 16 = unat (push_bit 8 v + ucast c :: u32) mod 4096 mod 16"
    by (simp add: mod_mod_cancel)
  also have "\<dots> = (16 * (unat v mod 16 * 16) + unat c) mod 16" by (simp add: unat_accumulate mult.commute)
  also have "\<dots> = unat c mod 16" by (simp only: mod_mult_self4)
  finally show ?thesis .
qed

lemma b64_emit_steps:
  "b64_emit v (-6 + 8) e = (-4, e @ [b64 (signed_drop_bit 2 v)])"
  "b64_emit v (-4 + 8) e = (-2, e @ [b64 (signed_drop_bit 4 v)])"
  "b64_emit v (-2 + 8) e = (-6, e @ [b64 (signed_drop_bit 6 v), b64 (signed_drop_bit 0 v)])"
  by (simp_all add: b64_emit.simps)

lemma sextet: "r < n \<Longrightarrow> q < 64 \<Longrightarrow> x = n * (64 * m + q) + r \<Longrightarrow> x div n mod 64 = q" for x n q r m :: nat
  by simp

lemma sextets:
  fixes a b c :: u8
  shows "(n mod 16 * 256 + unat a) div 2 ^ 2 mod 64 = unat a div 4"
    "(unat a mod 16 * 256 + unat b) div 2 ^ 4 mod 64 = unat a mod 4 * 16 + unat b div 16"
    "(unat b mod 16 * 256 + unat c) div 2 ^ 6 mod 64 = unat b mod 16 * 4 + unat c div 64"
    "(unat b mod 16 * 256 + unat c) div 2 ^ 0 mod 64 = unat c mod 64"
proof -
  have l: "unat a < 256" "unat b < 256" "unat c < 256"
    using unsigned_less [of a] unsigned_less [of b] unsigned_less [of c] by simp_all
  note d = mult_div_mod_eq [of 4 "unat a"] mult_div_mod_eq [of 16 "unat b"] mult_div_mod_eq [of 64 "unat c"]
  have q: "unat a div 4 < 64" "unat b div 16 < 16" "unat c div 64 < 4" using l by simp_all
  have m: "unat a mod 4 < 4" "unat b mod 16 < 16" "unat c mod 64 < 64" by simp_all
  have a16: "unat a mod 16 = 4 * (unat a mod 16 div 4) + unat a mod 4"
    using mult_div_mod_eq [of 4 "unat a mod 16"] by (simp add: mod_mod_cancel)
  show "(n mod 16 * 256 + unat a) div 2 ^ 2 mod 64 = unat a div 4"
    by (rule sextet [where r = "unat a mod 4" and m = "n mod 16"]) (use d(1) q in \<open>simp_all; linarith\<close>)+
  show "(unat a mod 16 * 256 + unat b) div 2 ^ 4 mod 64 = unat a mod 4 * 16 + unat b div 16"
    by (rule sextet [where r = "unat b mod 16" and m = "unat a mod 16 div 4"])
      (use d(2) q m a16 in \<open>simp_all; linarith\<close>)+
  show "(unat b mod 16 * 256 + unat c) div 2 ^ 6 mod 64 = unat b mod 16 * 4 + unat c div 64"
    by (rule sextet [where r = "unat c mod 64" and m = 0]) (use d(3) q m in \<open>simp_all; linarith\<close>)+
  have "unat b mod 16 * 256 + unat c = 64 * (unat b mod 16 * 4) + unat c" by simp
  then show "(unat b mod 16 * 256 + unat c) div 2 ^ 0 mod 64 = unat c mod 64" by (simp only: div_by_1 power_0 mod_mult_self4)
qed

lemma pad4_done: "length e mod 4 = 0 \<Longrightarrow> pad4 e = e"
  by (simp add: pad4.simps)

lemma pad4_short:
  assumes "length e mod 4 = 0"
  shows "pad4 (e @ [x, y, z]) = e @ [x, y, z, CHR ''='']" "pad4 (e @ [x, y]) = e @ [x, y, CHR ''='', CHR ''='']"
proof -
  have l: "length (e @ [x, y]) mod 4 = 2" "length (e @ [x, y, z]) mod 4 = 3" "length (e @ [x, y, z, w]) mod 4 = 0"
    for x y z w using assms by (simp_all add: mod_Suc)
  show p: "pad4 (e @ [x, y, z]) = e @ [x, y, z, CHR ''='']" for x y z
    using pad4_done [OF l(3) [of x y z "CHR ''=''"]] by (subst pad4.simps) (simp only: l, simp)
  show "pad4 (e @ [x, y]) = e @ [x, y, CHR ''='', CHR ''='']"
    using p [of x y "CHR ''=''"] by (subst pad4.simps) (simp only: l, simp)
qed

definition b64_finish :: "u32 \<times> int \<times> string \<Rightarrow> string" where
  "b64_finish r =
     (case r of (val, valb, encoded) \<Rightarrow>
        pad4 (if valb > -6 then encoded @ [b64 (signed_drop_bit (nat (valb + 8)) (push_bit 8 val))] else encoded))"

lemma b64_last:
  "b64 (signed_drop_bit 4 (push_bit 8 (push_bit 8 v + ucast a))) = b64_digit (unat (a :: u8) mod 4 * 16)"
  "b64 (signed_drop_bit 6 (push_bit 8 (push_bit 8 v + ucast a))) = b64_digit (unat (a :: u8) mod 16 * 4)"
  using b64_after [of 4 "push_bit 8 v + ucast a" 0] b64_after [of 6 "push_bit 8 v + ucast a" 0]
    sextets(2) [of a 0] sextets(3) [of a 0] low_byte [of v a]
  by (simp_all add: mult.commute)

lemma b64_loop_rfc: "length e mod 4 = 0 \<Longrightarrow> b64_finish (b64_loop bs v (-6) e) = e @ rfc4648 bs"
proof (induction bs arbitrary: v e rule: rfc4648.induct)
  case 1
  then show ?case by (simp add: b64_finish_def pad4_done)
next
  case (2 a)
  have "b64_loop [a] v (-6) e = (push_bit 8 v + ucast a, -4, e @ [b64_digit (unat a div 4)])"
    by (simp only: b64_loop.simps Let_def b64_emit_steps prod.case) (simp add: b64_after sextets [simplified])
  then show ?case using pad4_short(2) [OF 2] by (simp add: b64_finish_def b64_last)
next
  case (3 a b)
  have "b64_loop [a, b] v (-6) e = (push_bit 8 (push_bit 8 v + ucast a) + ucast b, -2,
      e @ [b64_digit (unat a div 4), b64_digit (unat a mod 4 * 16 + unat b div 16)])"
    by (simp only: b64_loop.simps Let_def b64_emit_steps prod.case) (simp add: b64_after low_byte sextets [simplified])
  then show ?case using pad4_short(1) [OF 3] by (simp add: b64_finish_def b64_last)
next
  case (4 a b c cs)
  let ?v = "\<lambda>v x. push_bit 8 v + ucast x :: u32"
  let ?e = "e @ [b64 (signed_drop_bit 2 (?v v a)), b64 (signed_drop_bit 4 (?v (?v v a) b)),
    b64 (signed_drop_bit 6 (?v (?v (?v v a) b) c)), b64 (signed_drop_bit 0 (?v (?v (?v v a) b) c))]"
  have "b64_loop (a # b # c # cs) v (-6) e = b64_loop cs (?v (?v (?v v a) b) c) (-6) ?e"
    by (simp only: b64_loop.simps Let_def b64_emit_steps prod.case append_assoc append_Cons append_Nil)
  moreover have "?e = e @ take 4 (rfc4648 (a # b # c # cs))"
    by (simp add: b64_after low_byte sextets [simplified] b64_after [where k = 0, simplified])
  moreover have "length ?e mod 4 = 0" using 4(2) by simp
  ultimately show ?case using 4(1) [of ?e] by simp
qed

text \<open>
  The base64 encoder is RFC 4648: whatever the length of the data, and although its
  accumulator overflows, it gives the standard encoding, padding included.
\<close>

theorem base64_is_rfc4648: "base64Encode bs = rfc4648 bs"
  using b64_loop_rfc [of "[]" bs 0] by (simp add: base64Encode_def b64_finish_def)

section \<open>Lines\<close>

text \<open>The complete lines of a text, and what follows the last newline.\<close>

fun split_nl :: "string \<Rightarrow> string list \<times> string" where
  "split_nl [] = ([], [])"
| "split_nl (c # cs) =
     (case split_nl cs of (ls, rest) \<Rightarrow>
        if c = newline then ([] # ls, rest)
        else case ls of [] \<Rightarrow> ([], c # rest) | l # ls' \<Rightarrow> ((c # l) # ls', rest))"

lemma split_nl_append:
  "split_nl (s @ t) =
     (case split_nl s of (ls, r) \<Rightarrow> case split_nl (r @ t) of (ls', r') \<Rightarrow> (ls @ ls', r'))"
proof (induction s)
  case (Cons c s)
  obtain ls r where s: "split_nl s = (ls, r)" by (cases "split_nl s")
  obtain ls' r' where t: "split_nl (r @ t) = (ls', r')" by (cases "split_nl (r @ t)")
  show ?case using Cons s t by (cases ls) (auto split: list.split prod.split)
qed (simp split: prod.split)

lemma split_nl_none: "newline \<notin> set s \<Longrightarrow> split_nl s = ([], s)"
  by (induction s) auto

lemma split_nl_first: "newline \<notin> set l \<Longrightarrow> split_nl (l @ newline # s) = (l # fst (split_nl s), snd (split_nl s))"
  by (induction l) (auto split: prod.split)

lemma rest_no_newline: "newline \<notin> set (snd (split_nl s))"
  by (induction s) (auto split: prod.splits list.splits)

lemma split_nl_rest_twice: "split_nl (snd (split_nl s)) = ([], snd (split_nl s))"
  by (rule split_nl_none [OF rest_no_newline])

lemma find_newline: "find_str [newline] s = Some i \<Longrightarrow> newline \<notin> set (take i s) \<and> i < length s \<and> s ! i = newline"
proof (induction s arbitrary: i)
  case (Cons c s)
  then show ?case by (auto split: if_splits)
qed simp

lemma find_no_newline: "find_str [newline] s = None \<longleftrightarrow> newline \<notin> set s"
  by (induction s) auto

lemma line_loop_split:
  "line_loop ok cb buf st =
     (snd (split_nl buf), fold (\<lambda>l. processIrcMessage ok cb (chop_cr l)) (fst (split_nl buf)) st)"
proof (induction ok cb buf st rule: line_loop.induct)
  case (1 ok cb buf st)
  show ?case
  proof (cases "find_str [newline] buf")
    case None
    then show ?thesis using split_nl_none find_no_newline [of buf] by (simp add: line_loop.simps)
  next
    case (Some i)
    note f = find_newline [OF Some]
    have "buf = take i buf @ newline # drop (Suc i) buf" using f id_take_nth_drop [of i buf] by simp
    then have "split_nl buf = (take i buf # fst (split_nl (drop (Suc i) buf)), snd (split_nl (drop (Suc i) buf)))"
      using split_nl_first [of "take i buf" "drop (Suc i) buf"] f by simp
    then show ?thesis using 1 [OF Some] Some by (subst line_loop.simps) (simp add: substr_def)
  qed
qed

lemma line_loop_append:
  "line_loop ok cb (s @ t) st = (case line_loop ok cb s st of (r, st') \<Rightarrow> line_loop ok cb (r @ t) st')"
  by (simp add: line_loop_split split_nl_append [of s t] split: prod.split)


text \<open>A registered channel, for the witnesses.\<close>

definition cb0 :: irc_callbacks where
  "cb0 = \<lparr>tox_message_callback = True, tox_group_message_callback = False, connection_status_callback = True,
     user_list_callback = True, user_join_part_callback = True\<rparr>"

definition ch0 :: irc_channel where
  "ch0 = new_channel\<lparr>channel := ''#c'', ch_group_id := ''g'', sock_fd := 3, base_nickname := ''n''\<rparr>"

abbreviation writes :: os_send where
  "writes fd s \<equiv> True"


text \<open>
  The receive buffer is bounded: whatever the peer sends, in whatever pieces, and however
  often the connection is lost and made again, the unfinished line kept between reads never
  passes the cap.
\<close>

theorem line_buffer_bounded:
  assumes "length buf \<le> kMaxLineBufferBytes"
  shows "length (fst (read_loop ok cb rs (buf, st))) \<le> kMaxLineBufferBytes"
  using assms
proof (induction rs arbitrary: buf st)
  case (Cons r rs)
  have "length (fst (fst (read_round ok cb r (buf, st)))) \<le> kMaxLineBufferBytes"
    using Cons.prems by (cases r) (auto simp: read_chunk_def split: prod.split)
  then show ?case using Cons by (auto split: prod.splits)
qed simp

theorem line_buffer_bounded_witness:
  "length (fst (read_loop writes cb0 [Chunk ''abc'', Idle, PeerClosed []] ([], (ch0, [])))) \<le> kMaxLineBufferBytes"
  by (rule line_buffer_bounded) simp

section \<open>Messages\<close>

definition rtrim :: "string \<Rightarrow> string" where
  "rtrim s = rev (dropWhile blank (rev s))"

lemma trim_id:
  assumes "s \<noteq> []" "\<not> blank (hd s)" "\<not> blank (last s)"
  shows "trim_copy s = s"
proof -
  have "dropWhile blank s = s" using assms by (simp add: dropWhile_eq_self_iff)
  moreover have "dropWhile blank (rev s) = rev s" using assms by (simp add: dropWhile_eq_self_iff hd_rev)
  ultimately show ?thesis by (simp add: trim_copy_def)
qed

lemma trim_copy_rtrim: "\<not> blank (hd s) \<Longrightarrow> s \<noteq> [] \<Longrightarrow> trim_copy s = rtrim s"
  by (cases s) (simp_all add: trim_copy_def rtrim_def)

lemma last_rtrim: "rtrim s = [] \<or> \<not> blank (last (rtrim s))"
proof (cases "dropWhile blank (rev s) = []")
  case False
  then show ?thesis using hd_dropWhile [of blank "rev s"] by (simp add: rtrim_def last_rev del: dropWhile_eq_Nil_conv)
qed (simp add: rtrim_def)

lemma rtrim_snoc_nonblank: "\<not> blank c \<Longrightarrow> rtrim (s @ c # t) = s @ c # rtrim t"
proof -
  assume "\<not> blank c"
  then have "dropWhile blank (rev t @ c # rev s) = dropWhile blank (rev t) @ c # rev s"
    by (induction "rev t" arbitrary: t) (auto simp: dropWhile_append)
  then show ?thesis by (simp add: rtrim_def)
qed

lemma last_after_colon: "\<not> blank (last (s @ CHR '':'' # rtrim t))"
  using last_rtrim [of t] by (auto simp: blank_def)

lemma blank_facts [simp]: "blank CHR '' ''" "\<not> blank CHR '':''" "\<not> blank CHR ''P''"
  by (simp_all add: blank_def)

text \<open>A word: not empty and without blanks.\<close>

definition word_text :: "string \<Rightarrow> bool" where
  "word_text s \<longleftrightarrow> s \<noteq> [] \<and> list_all (\<lambda>c. \<not> blank c) s"

lemma find_space: "word_text w \<or> w = [] \<Longrightarrow> find_str '' '' (w @ CHR '' '' # s) = Some (length w)"
proof (induction w)
  case (Cons c w)
  then have "c \<noteq> CHR '' ''" "word_text w \<or> w = []" by (auto simp: word_text_def blank_def)
  then show ?case using Cons.IH by simp
qed simp

lemma parse_privmsg:
  assumes "word_text pre" "word_text name" "hd name \<noteq> CHR '':''"
  shows "parse_irc_message ('':'' @ pre @ '' PRIVMSG '' @ name @ '' :'' @ msg) =
    \<lparr>prefix_of = pre, pcommand = ''PRIVMSG'', params = [name], trailing = rtrim msg, has_trailing = True\<rparr>"
proof -
  let ?body = "name @ '' :'' @ rtrim msg"
  let ?line = "'':'' @ pre @ '' '' @ ''PRIVMSG '' @ ?body"
  have t1: "trim_copy ('':'' @ pre @ '' PRIVMSG '' @ name @ '' :'' @ msg) = ?line"
    using trim_copy_rtrim [of "'':'' @ pre @ '' PRIVMSG '' @ name @ '' :'' @ msg"]
      rtrim_snoc_nonblank [of "CHR '':''" "'':'' @ pre @ '' PRIVMSG '' @ name @ '' ''" msg] by simp
  have w: "word_text ('':'' @ pre)" using assms(1) by (simp add: word_text_def)
  have f1: "find_str '' '' ?line = Some (length ('':'' @ pre))" using find_space [of "'':'' @ pre"] w by simp
  have nb: "\<not> blank (hd name)" "name \<noteq> []" using assms(2) by (auto simp: word_text_def list_all_iff)
  have l: "\<not> blank (last (s @ '' :'' @ rtrim msg))" for s using last_after_colon [of "s @ '' ''" msg] by simp
  have t2: "trim_copy (''PRIVMSG '' @ ?body) = ''PRIVMSG '' @ ?body"
    by (rule trim_id) (use l [of "''PRIVMSG '' @ name"] in simp_all)
  have t3: "trim_copy ?body = ?body"
    by (rule trim_id) (use nb l [of name] in simp_all)
  have t4: "trim_copy ('':'' @ rtrim msg) = '':'' @ rtrim msg"
    by (rule trim_id) (use last_after_colon [of "[]" msg] in simp_all)
  have f2: "find_str '' '' (''PRIVMSG '' @ ?body) = Some 7"
    using find_space [of "''PRIVMSG''"] by (simp add: word_text_def blank_def)
  have f3: "find_str '' '' ?body = Some (length name)" using find_space [of name] assms(2) by simp
  have p: "params_loop ?body [] = ([name], Some (rtrim msg))"
    using nb assms(3) f3 t4
    by (subst params_loop.simps, subst params_loop.simps) (auto simp: hd_conv_nth nth_append)
  have u: "upper_copy ''PRIVMSG'' = ''PRIVMSG''" by code_simp
  have c: "parse_command pre (''PRIVMSG '' @ ?body) =
      \<lparr>prefix_of = pre, pcommand = ''PRIVMSG'', params = [name], trailing = rtrim msg, has_trailing = True\<rparr>"
    using f2 t3 p u by (simp add: parse_command_def numeral_eq_Suc)
  have "substr ?line 1 (length ('':'' @ pre) - 1) = pre" "drop (length ('':'' @ pre) + 1) ?line = ''PRIVMSG '' @ ?body"
    by (simp_all add: substr_def)
  then show ?thesis unfolding parse_irc_message_def t1 Let_def using f1 t2 c by simp
qed

lemma privmsg_relayed:
  assumes "word_text pre" "word_text name" "hd name \<noteq> CHR '':''"
  shows "processIrcMessage ok cb ('':'' @ pre @ '' PRIVMSG '' @ name @ '' :'' @ msg) (ch, out) =
    (if name = channel ch \<and> tox_message_callback cb
     then (ch, out @ [ToxMessage (ch_group_id ch) (nickname_from_prefix pre) (rtrim msg)]) else (ch, out))"
  using parse_privmsg [OF assms] by (simp add: processIrcMessage_def handlePrivmsg_def Let_def)

end
