(* ===== verification/IrcProperties.thy ===== *)
theory IrcProperties
  imports IrcText
begin

text \<open>
  Properties of the IRC bridge's behaviour. What every message handler keeps is stated once, in
  the locale \<open>channel_invariant\<close> (lines of one connection) and its extension \<open>thread_invariant\<close>
  (lost and renewed connections), and interpreted for each invariant of interest.
\<close>

section \<open>Invariants of the handlers\<close>

locale channel_invariant =
  fixes I :: "irc_st \<Rightarrow> bool"
  assumes command: "I st \<Longrightarrow> \<not> prefix ''JOIN '' c \<Longrightarrow> I (cmd ok c st)"
    and quiet: "I (ch, out) \<Longrightarrow>
      (\<And>fd s. x \<noteq> Sent fd s) \<Longrightarrow> (\<And>g n m. x = ToxMessage g n m \<Longrightarrow> g = ch_group_id ch) \<Longrightarrow> I (ch, out @ [x])"
    and fields: "I (ch, out) \<Longrightarrow> I (ch\<lparr>status := s\<rparr>, out)" "I (ch, out) \<Longrightarrow> I (ch\<lparr>user_list := us\<rparr>, out)"
      "I (ch, out) \<Longrightarrow> I (ch\<lparr>nickname_suffix := n\<rparr>, out)" "I (ch, out) \<Longrightarrow> I (ch\<lparr>connected := b\<rparr>, out)"
      "I (ch, out) \<Longrightarrow> I (ch\<lparr>should_stop := b\<rparr>, out)" "I (ch, out) \<Longrightarrow> I (ch\<lparr>sasl_authenticated := True\<rparr>, out)"
    and join: "I (ch, out) \<Longrightarrow> \<not> use_sasl ch \<or> sasl_authenticated ch \<Longrightarrow> I (sendJoinIfNeeded ok (ch, out))"
begin

lemma update_status: "I st \<Longrightarrow> I (updateConnectionStatus cb s m st)"
  by (cases st) (auto simp: updateConnectionStatus_def intro: quiet fields)

lemma ping: "I st \<Longrightarrow> I (handlePing ok line st)"
  by (auto simp: handlePing_def intro!: command)

lemma privmsg: "I st \<Longrightarrow> I (handlePrivmsg cb line st)"
  by (cases st) (auto simp: handlePrivmsg_def Let_def intro!: quiet)

lemma nick_conflict: "I st \<Longrightarrow> I (handleNickConflict ok st)"
  by (cases st) (auto simp: handleNickConflict_def Let_def intro!: command fields)

lemma sasl_auth: "I st \<Longrightarrow> I (handleSaslAuth ok line st)"
  by (cases st) (auto simp: handleSaslAuth_def intro!: command)

lemma names_response: "I st \<Longrightarrow> I (handleNamesResponse cb line st)"
  by (cases st) (auto simp: handleNamesResponse_def Let_def intro!: quiet fields)

lemma optional:
  "I (ch, out) \<Longrightarrow> (\<And>fd s. x \<noteq> Sent fd s) \<Longrightarrow> (\<And>g n m. x \<noteq> ToxMessage g n m) \<Longrightarrow>
     I (ch, out @ (if p then [x] else []))"
  by (cases p) (simp_all, rule quiet, blast+)

lemma join_part: "I st \<Longrightarrow> I (handleJoinPart cb line b st)"
  by (cases st)
    (simp add: handleJoinPart_def Let_def if_distrib [of I] optional fields del: append_assoc split del: if_split cong: if_cong)

lemma cap: "I st \<Longrightarrow> I (handleCap ok line st)"
  by (auto simp: handleCap_def intro!: command)

lemma numeric: "I st \<Longrightarrow> I (handleNumeric ok cb n line st)"
proof -
  assume I: "I st"
  obtain ch out where st: "st = (ch, out)" by (cases st)
  obtain ch1 out1 where c: "cmd ok ''CAP END'' (ch\<lparr>sasl_authenticated := True\<rparr>, out) = (ch1, out1)"
    by (cases "cmd ok ''CAP END'' (ch\<lparr>sasl_authenticated := True\<rparr>, out)")
  have "I (ch1, out1)" using command [OF fields(6), of ch out "''CAP END''" ok] I st c by simp
  moreover have "sasl_authenticated ch1"
    using c by (auto simp: cmd_def sendIrcCommand_def Let_def split: if_splits)
  ultimately have "I (sendJoinIfNeeded ok (ch1, out1))" using join by blast
  moreover obtain ch2 out2 where u: "updateConnectionStatus cb Error ''SASL authentication failed'' st = (ch2, out2)"
    by (cases "updateConnectionStatus cb Error ''SASL authentication failed'' st")
  moreover have "I (ch2\<lparr>should_stop := True\<rparr>, out2)" using fields(5) update_status [OF I] u by metis
  ultimately show ?thesis
    using I c st by (auto simp: handleNumeric_def intro!: join nick_conflict update_status)
qed

lemma process: "I st \<Longrightarrow> I (processIrcMessage ok cb line st)"
proof -
  assume I: "I st"
  then have "I (fst st\<lparr>connected := True\<rparr>, snd st)" using fields(4) [of "fst st" "snd st"] by simp
  then have "I (cmd ok (''NAMES '' @ n) (updateConnectionStatus cb Connected m (fst st\<lparr>connected := True\<rparr>, snd st)))" for n m
    by (intro command update_status) simp_all
  then show ?thesis using I
    by (simp add: processIrcMessage_def Let_def ping privmsg join_part names_response cap sasl_auth numeric)
qed

lemma lines: "I st \<Longrightarrow> I (fold (\<lambda>l. processIrcMessage ok cb (chop_cr l)) ls st)"
  by (induction ls arbitrary: st) (simp_all add: process)

lemma chunk: "I (snd bs) \<Longrightarrow> I (snd (read_chunk ok cb data bs))"
  by (simp add: read_chunk_def line_loop_split lines split: prod.split)

end

locale thread_invariant = channel_invariant +
  assumes cleanup: "I st \<Longrightarrow> I (cleanupChannelSocket st)"
    and reconnect: "I st \<Longrightarrow> I (attemptReconnect ok cb rnd st)"
begin

lemma stop: "I st \<Longrightarrow> I (fst st\<lparr>should_stop := b\<rparr>, snd st)"
  using fields(5) [of "fst st" "snd st"] by simp

lemma retry: "I st \<Longrightarrow> I (reconnect_loop ok cb rnds st)"
  by (induction rnds arbitrary: st) (simp_all add: Let_def reconnect stop)

lemma lost: "I st \<Longrightarrow> I (fst (lost_connection ok cb rnds st))"
  by (simp add: lost_connection_def Let_def retry cleanup)

lemma round: "I (snd bs) \<Longrightarrow> I (snd (fst (read_round ok cb r bs)))"
  by (cases bs; cases r) (simp_all add: chunk case_prod_beta lost update_status)

lemma loop: "I (snd bs) \<Longrightarrow> I (snd (read_loop ok cb rs bs))"
  by (induction rs arbitrary: bs) (simp_all add: case_prod_beta round)

end

section \<open>One JOIN per connection, and only after the authentication\<close>

definition joins :: "irc_out list \<Rightarrow> nat" where
  "joins out = length (filter (\<lambda>x. case x of Sent fd s \<Rightarrow> prefix ''JOIN '' s | _ \<Rightarrow> False) out)"

lemma joins_append [simp]: "joins (a @ b) = joins a + joins b"
  by (simp add: joins_def)

lemma joins_Nil [simp]: "joins [] = 0"
  by (simp add: joins_def)

lemma joins_quiet: "(\<And>fd s. x \<noteq> Sent fd s) \<Longrightarrow> joins [x] = 0"
  by (cases x) (auto simp: joins_def)

lemma prefix_JOIN_newline: "prefix ''JOIN '' (c @ [newline]) \<longleftrightarrow> prefix ''JOIN '' c"
  by (auto simp: prefix_snoc)

lemma cmd_out:
  "cmd ok c (ch, out) = (ch, out) \<or>
   cmd ok c (ch, out) = (ch, out @ [Sent (sock_fd ch) (if last c \<noteq> newline then c @ [newline] else c)])"
  by (auto simp: cmd_def sendIrcCommand_def Let_def)

lemma cmd_joins:
  "fst (cmd ok c st) = fst st"
  "joins (snd (cmd ok c st)) \<le> joins (snd st) + of_bool (prefix ''JOIN '' c)"
proof -
  obtain ch out where st: "st = (ch, out)" by (cases st)
  show "fst (cmd ok c st) = fst st" using cmd_out [of ok c ch out] st by auto
  show "joins (snd (cmd ok c st)) \<le> joins (snd st) + of_bool (prefix ''JOIN '' c)"
    using cmd_out [of ok c ch out] st by (auto simp: joins_def prefix_JOIN_newline)
qed

definition joined_once :: "nat \<Rightarrow> irc_st \<Rightarrow> bool" where
  "joined_once n st \<longleftrightarrow> joins (snd st) + of_bool (\<not> join_sent (fst st)) \<le> n"

lemma send_join_once: "joined_once n st \<Longrightarrow> joined_once n (sendJoinIfNeeded ok st)"
proof (cases st)
  case (Pair ch out)
  let ?c = "''JOIN '' @ channel ch @ (if password ch \<noteq> [] then '' '' @ password ch else '''')"
  assume "joined_once n st"
  then show ?thesis
    using cmd_joins [of ok ?c "(ch\<lparr>join_sent := True\<rparr>, out)"] Pair
    by (auto simp: joined_once_def sendJoinIfNeeded_def Let_def)
qed

interpretation once: channel_invariant "joined_once n" for n
proof unfold_locales
  show "joined_once n st \<Longrightarrow> \<not> prefix ''JOIN '' c \<Longrightarrow> joined_once n (cmd ok c st)" for st c ok
    using cmd_joins [of ok c st] by (simp add: joined_once_def)
  show "joined_once n (ch, out) \<Longrightarrow> (\<And>fd s. x \<noteq> Sent fd s) \<Longrightarrow> joined_once n (ch, out @ [x])" for ch out x
    using joins_quiet [of x] by (simp add: joined_once_def)
  show "joined_once n (ch, out) \<Longrightarrow> joined_once n (sendJoinIfNeeded ok (ch, out))" for ch out ok
    by (rule send_join_once)
qed (simp_all add: joined_once_def)

text \<open>
  Whatever a server sends over one connection, in whatever chunks, the bridge writes at most one
  JOIN, and none when one had been sent before: a repeated welcome, a late SASL success or a
  welcome split over two reads do not repeat it. (\<open>read_chunk\<close> is the body of the read loop.)
\<close>

theorem join_at_most_once:
  "joins (snd (snd (fold (read_chunk ok cb) chunks (buf, ch, out)))) \<le> joins out + of_bool (\<not> join_sent ch)"
proof -
  have "joined_once n (snd bs) \<Longrightarrow> joined_once n (snd (fold (read_chunk ok cb) chunks bs))" for n bs
    by (induction chunks arbitrary: bs) (simp_all add: once.chunk)
  from this [of "joins out + of_bool (\<not> join_sent ch)" "(buf, ch, out)"] show ?thesis
    by (simp add: joined_once_def)
qed

definition unjoined :: "nat \<Rightarrow> irc_st \<Rightarrow> bool" where
  "unjoined n st \<longleftrightarrow> use_sasl (fst st) \<and> (sasl_authenticated (fst st) \<or> joins (snd st) = n)"

interpretation unjoined: channel_invariant "unjoined n" for n
proof unfold_locales
  show "unjoined n st \<Longrightarrow> \<not> prefix ''JOIN '' c \<Longrightarrow> unjoined n (cmd ok c st)" for st c ok
    using cmd_out [of ok c "fst st" "snd st"]
    by (cases st) (auto simp: unjoined_def joins_def prefix_JOIN_newline split: if_splits)
  show "unjoined n (ch, out) \<Longrightarrow> (\<And>fd s. x \<noteq> Sent fd s) \<Longrightarrow> unjoined n (ch, out @ [x])" for ch out x
    using joins_quiet [of x] by (simp add: unjoined_def)
  show "unjoined n (ch, out) \<Longrightarrow> \<not> use_sasl ch \<or> sasl_authenticated ch \<Longrightarrow>
      unjoined n (sendJoinIfNeeded ok (ch, out))" for ch out ok
    by (simp add: unjoined_def sendJoinIfNeeded_def Let_def cmd_joins)
qed (simp_all add: unjoined_def)

lemma auth_kept [simp]:
  "sasl_authenticated (fst (updateConnectionStatus cb s m st)) = sasl_authenticated (fst st)"
  "sasl_authenticated (fst (handlePing ok line st)) = sasl_authenticated (fst st)"
  "sasl_authenticated (fst (handlePrivmsg cb line st)) = sasl_authenticated (fst st)"
  "sasl_authenticated (fst (handleCap ok line st)) = sasl_authenticated (fst st)"
  "sasl_authenticated (fst (handleSaslAuth ok line st)) = sasl_authenticated (fst st)"
  "sasl_authenticated (fst (handleNickConflict ok st)) = sasl_authenticated (fst st)"
  "sasl_authenticated (fst (sendJoinIfNeeded ok st)) = sasl_authenticated (fst st)"
  "sasl_authenticated (fst (handleNamesResponse cb line st)) = sasl_authenticated (fst st)"
  "sasl_authenticated (fst (handleJoinPart cb line b st)) = sasl_authenticated (fst st)"
  by (cases st;
      simp add: updateConnectionStatus_def handlePing_def handlePrivmsg_def handleCap_def handleSaslAuth_def
        handleNickConflict_def sendJoinIfNeeded_def handleNamesResponse_def handleJoinPart_def Let_def cmd_joins)+

lemma auth_numeric:
  "n \<notin> {''900'', ''903''} \<Longrightarrow>
     sasl_authenticated (fst (handleNumeric ok cb n line st)) = sasl_authenticated (fst st)"
  by (cases st) (simp add: handleNumeric_def case_prod_beta)

lemma auth_by_reply:
  assumes "pcommand (parse_irc_message line) \<notin> {''900'', ''903''}"
  shows "sasl_authenticated (fst (processIrcMessage ok cb line st)) = sasl_authenticated (fst st)"
  using assms by (simp add: processIrcMessage_def Let_def cmd_joins auth_numeric)

text \<open>
  With SASL configured no JOIN leaves before the server's reply 900 or 903: over any lines without
  these replies the number of JOINs written stays as it was.
\<close>

theorem no_join_before_auth:
  assumes "use_sasl ch" "\<not> sasl_authenticated ch"
    and "\<forall>l\<in>set ls. pcommand (parse_irc_message (chop_cr l)) \<notin> {''900'', ''903''}"
  shows "joins (snd (fold (\<lambda>l. processIrcMessage ok cb (chop_cr l)) ls (ch, out))) = joins out"
proof -
  let ?f = "\<lambda>l. processIrcMessage ok cb (chop_cr l)"
  have "sasl_authenticated (fst (fold ?f ls st)) = sasl_authenticated (fst st)" for st
    using assms(3) by (induction ls arbitrary: st) (simp_all add: auth_by_reply)
  moreover have "unjoined (joins out) (fold ?f ls (ch, out))"
    by (rule unjoined.lines) (simp add: unjoined_def assms)
  ultimately show ?thesis using assms(2) by (simp add: unjoined_def)
qed

section \<open>Messages go to the channel's own group\<close>

fun own_out :: "string \<Rightarrow> irc_out \<Rightarrow> bool" where
  "own_out gid (ToxMessage g n m) \<longleftrightarrow> g = gid"
| "own_out gid x \<longleftrightarrow> True"

definition own_messages :: "string \<Rightarrow> irc_st \<Rightarrow> bool" where
  "own_messages gid st \<longleftrightarrow> ch_group_id (fst st) = gid \<and> list_all (own_out gid) (snd st)"

lemma own_parts [simp]:
  "ch_group_id (fst (cmd ok c st)) = ch_group_id (fst st)"
  "list_all (own_out gid) (snd (cmd ok c st)) = list_all (own_out gid) (snd st)"
  "ch_group_id (fst (updateConnectionStatus cb s m st)) = ch_group_id (fst st)"
  "list_all (own_out gid) (snd (updateConnectionStatus cb s m st)) = list_all (own_out gid) (snd st)"
  "ch_group_id (fst (cleanupChannelSocket st)) = ch_group_id (fst st)"
  "list_all (own_out gid) (snd (cleanupChannelSocket st)) = list_all (own_out gid) (snd st)"
  using cmd_out [of ok c "fst st" "snd st"]
  by (auto simp: updateConnectionStatus_def cleanupChannelSocket_def case_prod_beta)

lemma own_reconnect: "own_messages gid (attemptReconnect ok cb rnd st) = own_messages gid st"
  by (simp add: own_messages_def attemptReconnect_def register_nick_def Let_def case_prod_beta)

interpretation own: thread_invariant "own_messages gid" for gid
proof unfold_locales
  show "own_messages gid (ch, out) \<Longrightarrow> (\<And>g n m. x = ToxMessage g n m \<Longrightarrow> g = ch_group_id ch) \<Longrightarrow>
      own_messages gid (ch, out @ [x])" for ch out x
    by (cases x) (simp_all add: own_messages_def)
qed (simp_all add: own_messages_def own_reconnect [unfolded own_messages_def] sendJoinIfNeeded_def Let_def)

text \<open>
  A channel's thread hands messages to the Tox group of that channel only, whatever the server
  sends, over any number of lost and renewed connections.
\<close>

theorem own_group_only:
  "list_all (own_out (ch_group_id ch)) (snd (snd (read_loop ok cb reads (buf, ch, []))))"
  using own.loop [of "ch_group_id ch" "(buf, ch, [])" ok cb reads] by (simp add: own_messages_def)

section \<open>Connecting\<close>

text \<open>Attempt \<open>n\<close> gives a usable connection.\<close>

definition succeeds :: "irc_io \<Rightarrow> bool \<Rightarrow> nat \<Rightarrow> bool" where
  "succeeds io tls n \<longleftrightarrow> connectToServer io n \<ge> 0 \<and> (tls \<longrightarrow> performSslHandshake io n)"

definition closed :: "irc_out list \<Rightarrow> int list" where
  "closed out = List.map_filter (\<lambda>x. case x of CloseSocket fd \<Rightarrow> Some fd | _ \<Rightarrow> None) out"

lemma closed_simps [simp]:
  "closed [] = []" "closed (a @ b) = closed a @ closed b" "closed [CloseSocket fd] = [fd]"
  "closed [Status c s m] = []"
  by (simp_all add: closed_def map_filter_def)

lemma closed_status [simp]: "closed (snd (updateConnectionStatus cb s m st)) = closed (snd st)"
  by (cases st) (simp add: updateConnectionStatus_def)

text \<open>The descriptors of failed handshakes among the attempts from \<open>n\<close> up to \<open>k\<close>.\<close>

definition failed_fds :: "irc_io \<Rightarrow> nat \<Rightarrow> nat \<Rightarrow> int list" where
  "failed_fds io n k = filter (\<lambda>fd. fd \<ge> 0) (map (connectToServer io) [n..<k])"

lemma failed_fds_Suc: "n < k \<Longrightarrow> failed_fds io n k = (if connectToServer io n \<ge> 0 then [connectToServer io n] else []) @ failed_fds io (Suc n) k"
  by (simp add: failed_fds_def upt_conv_Cons)

lemma connect_succeeds:
  assumes "succeeds io (use_ssl ch) k" "\<And>j. n \<le> j \<Longrightarrow> j < k \<Longrightarrow> \<not> succeeds io (use_ssl ch) j"
    and "\<And>j. n \<le> j \<Longrightarrow> j \<le> k \<Longrightarrow> \<not> stop_requested io j" "\<not> should_stop ch"
    and "n \<le> k" "reconnect_attempts ch + int (k - n) < max_reconnect_attempts"
  shows "\<exists>ch1 out1. connect_loop io cb n (ch, out) = ((ch1, out1), False) \<and> sock_fd ch1 = connectToServer io k \<and>
    reconnect_attempts ch1 = 0 \<and> \<not> join_sent ch1 \<and> \<not> should_stop ch1 \<and> closed out1 = closed out @ failed_fds io n k"
  using assms
proof (induction "k - n" arbitrary: n ch out)
  case 0
  then have "n = k" by simp
  with 0 show ?case by (simp add: connect_loop.simps succeeds_def failed_fds_def Let_def)
next
  case (Suc d)
  then have "n < k" by simp
  then have f: "\<not> succeeds io (use_ssl ch) n" "\<not> stop_requested io n" using Suc.prems by auto
  let ?fd = "connectToServer io n" and ?a = "reconnect_attempts ch + 1"
  define ch1 where "ch1 = ch\<lparr>sock_fd := (if ?fd \<ge> 0 then -1 else ?fd), reconnect_attempts := ?a, status := Reconnecting\<rparr>"
  define out1 where "out1 = snd (updateConnectionStatus cb Reconnecting (''Reconnecting (attempt '' @ dec_int ?a @ '')'')
    (ch, out @ (if ?fd \<ge> 0 then [CloseSocket ?fd] else [])))"
  have step: "connect_loop io cb n (ch, out) = connect_loop io cb (Suc n) (ch1, out1)"
    using f Suc.prems(4,6) \<open>n < k\<close>
    by (subst connect_loop.simps) (auto simp: succeeds_def Let_def updateConnectionStatus_def ch1_def out1_def)
  have "\<exists>ch2 out2. connect_loop io cb (Suc n) (ch1, out1) = ((ch2, out2), False) \<and> sock_fd ch2 = connectToServer io k \<and>
    reconnect_attempts ch2 = 0 \<and> \<not> join_sent ch2 \<and> \<not> should_stop ch2 \<and> closed out2 = closed out1 @ failed_fds io (Suc n) k"
    using Suc.prems Suc.hyps(2) \<open>n < k\<close> by (intro Suc.hyps(1)) (auto simp: ch1_def)
  then show ?case using \<open>n < k\<close> by (auto simp: step out1_def failed_fds_Suc)
qed

lemma connect_gives_up:
  assumes "\<And>j. n \<le> j \<Longrightarrow> j < k \<Longrightarrow> \<not> succeeds io (use_ssl ch) j \<and> \<not> stop_requested io j" "\<not> should_stop ch"
    and "n < k" "reconnect_attempts ch + int (k - n) = max_reconnect_attempts"
  shows "\<exists>ch1 out1. connect_loop io cb n (ch, out) = ((ch1, out1), True) \<and> status ch1 = Error \<and>
    should_stop ch1 \<and> sock_fd ch1 < 0 \<and> closed out1 = closed out @ failed_fds io n k"
  using assms
proof (induction "k - n" arbitrary: n ch out)
  case 0
  then show ?case by simp
next
  case (Suc d)
  have f: "\<not> succeeds io (use_ssl ch) n" "\<not> stop_requested io n" using Suc.prems by auto
  let ?fd = "connectToServer io n" and ?a = "reconnect_attempts ch + 1"
  let ?c = "ch\<lparr>sock_fd := (if ?fd \<ge> 0 then -1 else ?fd), reconnect_attempts := ?a\<rparr>"
  let ?m = "''Reconnecting (attempt '' @ dec_int ?a @ '')''"
  let ?o = "out @ (if ?fd \<ge> 0 then [CloseSocket ?fd] else [])"
  show ?case
  proof (cases "k = Suc n")
    case True
    then have "?a \<ge> max_reconnect_attempts" using Suc.prems(4) by simp
    then show ?thesis using f Suc.prems(2) True
      by (subst connect_loop.simps)
        (auto simp: succeeds_def Let_def updateConnectionStatus_def failed_fds_def)
  next
    case False
    then have k: "Suc n < k" using Suc.prems(3) by simp
    define ch1 where "ch1 = ?c\<lparr>status := Reconnecting\<rparr>"
    define out1 where "out1 = snd (updateConnectionStatus cb Reconnecting ?m (ch, ?o))"
    have step: "connect_loop io cb n (ch, out) = connect_loop io cb (Suc n) (ch1, out1)"
      using f Suc.prems(2,4) k
      by (subst connect_loop.simps) (auto simp: succeeds_def Let_def updateConnectionStatus_def ch1_def out1_def)
    have "\<exists>ch2 out2. connect_loop io cb (Suc n) (ch1, out1) = ((ch2, out2), True) \<and> status ch2 = Error \<and>
      should_stop ch2 \<and> sock_fd ch2 < 0 \<and> closed out2 = closed out1 @ failed_fds io (Suc n) k"
      using Suc.prems Suc.hyps(2) k by (intro Suc.hyps(1)) (auto simp: ch1_def)
    then show ?thesis using k by (auto simp: step out1_def failed_fds_Suc)
  qed
qed

text \<open>
  C38. The connect loop of a channel's thread always ends within ten attempts. When attempt
  \<open>k < 10\<close> is the first that gives a connection, the loop returns with that connection; when
  all ten fail it reports the error and stops the channel. Either way exactly the descriptors of
  the failed attempts are closed, each once and in order.
\<close>

theorem connect_outcome:
  assumes "\<not> should_stop ch" "reconnect_attempts ch = 0" "\<And>j. \<not> stop_requested io j"
    and "\<And>j. j < k \<Longrightarrow> \<not> succeeds io (use_ssl ch) j" "k \<le> 10" "k < 10 \<Longrightarrow> succeeds io (use_ssl ch) k"
  shows "\<exists>ch1 out1. connect_loop io cb 0 (ch, out) = ((ch1, out1), k = 10) \<and> should_stop ch1 = (k = 10) \<and>
    (k < 10 \<longrightarrow> sock_fd ch1 = connectToServer io k) \<and> (k = 10 \<longrightarrow> sock_fd ch1 < 0 \<and> status ch1 = Error) \<and>
    closed out1 = closed out @ failed_fds io 0 k"
proof (cases "k = 10")
  case True
  then show ?thesis using connect_gives_up [of 0 10 io ch cb out] assms by (force simp: max_reconnect_attempts_def)
next
  case False
  then show ?thesis using connect_succeeds [of io ch k 0 cb out] assms by (force simp: max_reconnect_attempts_def)
qed

definition io0 :: irc_io where
  "io0 = \<lparr>connectToServer = (\<lambda>n. if n < 2 then -1 else 7), performSslHandshake = (\<lambda>_. True), stop_requested = (\<lambda>_. False)\<rparr>"

theorem connect_outcome_witness:
  "\<exists>ch1 out1. connect_loop io0 cb0 0 (ch0, []) = ((ch1, out1), False) \<and> sock_fd ch1 = 7 \<and> closed out1 = []"
proof -
  have "\<not> should_stop ch0" "reconnect_attempts ch0 = 0" "\<not> use_ssl ch0" by (simp_all add: ch0_def new_channel_def)
  moreover have "\<not> stop_requested io0 j" "j < 2 \<Longrightarrow> \<not> succeeds io0 b j" "succeeds io0 False 2"
    "failed_fds io0 0 2 = []" "connectToServer io0 2 = 7" for j b
    by (simp_all add: io0_def succeeds_def failed_fds_def upt_rec)
  ultimately show ?thesis using connect_outcome [of ch0 io0 2 cb0 "[]"] by auto
qed

theorem no_join_before_auth_witness:
  "joins (snd (fold (\<lambda>l. processIrcMessage writes cb0 (chop_cr l)) [''001 n'', ''002 n''] (ch0\<lparr>use_sasl := True\<rparr>, []))) = 0"
proof -
  have "\<forall>l\<in>set [''001 n'', ''002 n'']. pcommand (parse_irc_message (chop_cr l)) \<notin> {''900'', ''903''}" by code_simp
  then show ?thesis
    using no_join_before_auth [of "ch0\<lparr>use_sasl := True\<rparr>" "[''001 n'', ''002 n'']" writes cb0 "[]"]
    by (simp only: joins_Nil ch0_def new_channel_def irc_channel.simps irc_channel.update_convs simp_thms)
qed

section \<open>Reconnecting\<close>

text \<open>The thread sleeps for the reconnect delay between two rounds.\<close>

abbreviation spaced :: "irc_round list \<Rightarrow> bool" where
  "spaced \<equiv> successively (\<lambda>r s. now_s s - now_s r \<ge> reconnect_delay_seconds)"

lemma reconnect_progress:
  assumes "reconnect_attempts ch < max_reconnect_attempts" "now_s rnd - last_reconnect_time ch \<ge> reconnect_delay_seconds"
    and "attemptReconnect ok cb rnd (ch, out) = (ch1, out1)" "sock_fd ch1 < 0"
  shows "reconnect_attempts ch1 = reconnect_attempts ch + 1 \<and> last_reconnect_time ch1 = now_s rnd"
proof -
  have [simp]: "reconnect_attempts (fst (cleanupChannelSocket st)) = reconnect_attempts (fst st)"
    "last_reconnect_time (fst (cleanupChannelSocket st)) = last_reconnect_time (fst st)"
    "reconnect_attempts (fst (updateConnectionStatus cb s m st)) = reconnect_attempts (fst st)"
    "last_reconnect_time (fst (updateConnectionStatus cb s m st)) = last_reconnect_time (fst st)"
    "sock_fd (fst (updateConnectionStatus cb s m st)) = sock_fd (fst st)"
    "sock_fd (fst (register_nick ok st)) = sock_fd (fst st)" for s m st
    by (simp_all add: cleanupChannelSocket_def updateConnectionStatus_def register_nick_def Let_def cmd_joins case_prod_beta)
  from assms(3) have "ch1 = fst (attemptReconnect ok cb rnd (ch, out))" by simp
  with assms(1,2,4) show ?thesis
    by (simp add: attemptReconnect_def Let_def case_prod_beta cmd_joins split: if_splits)
qed

lemma reconnect_settles:
  assumes "spaced rnds" "rnds = [] \<or> now_s (hd rnds) - last_reconnect_time (fst st) \<ge> reconnect_delay_seconds"
    and "int (length rnds) > max_reconnect_attempts - reconnect_attempts (fst st)" "rnds \<noteq> []"
  shows "should_stop (fst (reconnect_loop ok cb rnds st)) \<or> sock_fd (fst (reconnect_loop ok cb rnds st)) \<ge> 0"
  using assms
proof (induction rnds arbitrary: st)
  case (Cons rnd rnds)
  obtain ch out where st: "st = (ch, out)" by (cases st)
  let ?st0 = "(if round_stop rnd then (fst st\<lparr>should_stop := True\<rparr>, snd st) else st)"
  let ?st1 = "attemptReconnect ok cb rnd ?st0"
  show ?case
  proof (cases "should_stop (fst ?st0) \<or> sock_fd (fst ?st0) \<ge> 0 \<or> sock_fd (fst ?st1) \<ge> 0")
    case True
    then show ?thesis by (auto simp: Let_def)
  next
    case False
    then have eq: "reconnect_loop ok cb (rnd # rnds) st = reconnect_loop ok cb rnds ?st1" by (auto simp: Let_def)
    have keep: "reconnect_attempts (fst ?st0) = reconnect_attempts ch" "last_reconnect_time (fst ?st0) = last_reconnect_time ch"
      using st by auto
    show ?thesis
    proof (cases "reconnect_attempts ch \<ge> max_reconnect_attempts")
      case True
      then have "should_stop (fst ?st1)" using keep
        by (simp add: attemptReconnect_def case_prod_beta)
      then have "reconnect_loop ok cb rnds ?st1 = ?st1 \<or> should_stop (fst (reconnect_loop ok cb rnds ?st1))"
        by (cases rnds) (auto simp: Let_def)
      then show ?thesis using \<open>should_stop (fst ?st1)\<close> eq by auto
    next
      case less: False
      obtain ch1 out1 where s1: "?st1 = (ch1, out1)" by (metis surj_pair)
      have p: "reconnect_attempts ch1 = reconnect_attempts ch + 1 \<and> last_reconnect_time ch1 = now_s rnd"
        using reconnect_progress [of "fst ?st0" rnd ok cb "snd ?st0" ch1 out1] s1 False less keep Cons.prems(2) st by auto
      have "rnds \<noteq> []" using Cons.prems(3) less st by auto
      then have "should_stop (fst (reconnect_loop ok cb rnds ?st1)) \<or> sock_fd (fst (reconnect_loop ok cb rnds ?st1)) \<ge> 0"
        using Cons.prems p s1 st by (intro Cons.IH) (auto simp: successively_Cons)
      then show ?thesis using eq by simp
    qed
  qed
qed simp

text \<open>
  The retry loop after a lost connection ends: within twelve rounds, which the thread runs
  five seconds apart, the channel is connected again or stopped. (The first round may fall into
  the delay window of an earlier reconnect; at most ten count as attempts; one more gives up.)
\<close>

theorem reconnect_ends:
  assumes "spaced rnds" "length rnds = 12" "last_reconnect_time ch \<le> now_s (hd rnds)" "0 \<le> reconnect_attempts ch"
  shows "should_stop (fst (reconnect_loop ok cb rnds (ch, out))) \<or>
         sock_fd (fst (reconnect_loop ok cb rnds (ch, out))) \<ge> 0"
proof (cases "now_s (hd rnds) - last_reconnect_time ch \<ge> reconnect_delay_seconds")
  case True
  then show ?thesis using assms by (intro reconnect_settles) (auto simp: max_reconnect_attempts_def)
next
  case False
  obtain rnd rs where r: "rnds = rnd # rs" using assms(2) by (cases rnds) auto
  let ?ch = "if round_stop rnd then ch\<lparr>should_stop := True\<rparr> else ch"
  show ?thesis
  proof (cases "should_stop ?ch \<or> sock_fd ch \<ge> 0")
    case True
    then show ?thesis using r by (auto simp: Let_def)
  next
    case go: False
    show ?thesis
    proof (cases "reconnect_attempts ch \<ge> max_reconnect_attempts")
      case True
      then have "should_stop (fst (attemptReconnect ok cb rnd (ch, out)))"
        by (simp add: attemptReconnect_def case_prod_beta)
      then show ?thesis using r go by (cases rs) (auto simp: Let_def)
    next
      case less: False
      have "reconnect_loop ok cb rnds (ch, out) = reconnect_loop ok cb rs (ch, out)"
        using go less False r by (auto simp: Let_def attemptReconnect_def)
      moreover have "rs \<noteq> []" using assms(2) r by auto
      moreover have "should_stop (fst (reconnect_loop ok cb rs (ch, out))) \<or> sock_fd (fst (reconnect_loop ok cb rs (ch, out))) \<ge> 0"
        using assms r \<open>rs \<noteq> []\<close>
        by (intro reconnect_settles) (auto simp: successively_Cons max_reconnect_attempts_def)
      ultimately show ?thesis by simp
    qed
  qed
qed

definition rounds0 :: "irc_round list" where
  "rounds0 = map (\<lambda>i. \<lparr>now_s = 5 * i, round_fd = -1, round_ssl = False, round_stop = False\<rparr>) [1, 2, 3, 4, 5, 6, 7, 8, 9, 10, 11, 12]"

theorem reconnect_ends_witness:
  "should_stop (fst (reconnect_loop writes cb0 rounds0 (ch0\<lparr>sock_fd := -1\<rparr>, []))) \<or>
   sock_fd (fst (reconnect_loop writes cb0 rounds0 (ch0\<lparr>sock_fd := -1\<rparr>, []))) \<ge> 0"
  by (rule reconnect_ends) (simp_all add: rounds0_def reconnect_delay_seconds_def ch0_def new_channel_def)

section \<open>The manager\<close>

text \<open>A pointer is given out once: every stored pointer is below the next one.\<close>

definition manager_ok :: "irc_manager \<Rightarrow> bool" where
  "manager_ok m \<longleftrightarrow> um_ok (irc_channels m) \<and> (\<forall>name p ch. um_find (irc_channels m) name = Some (p, ch) \<longrightarrow> p < next_ptr m)"

lemma connect_ok: "manager_ok m \<Longrightarrow> manager_ok (fst (connectChannel s p n pw g su sp t nk m))"
  by (auto simp: connectChannel_def manager_ok_def umap_simps Let_def intro: less_SucI split: option.splits)

lemma begin_ok: "manager_ok m \<Longrightarrow> manager_ok (fst (disconnect_begin ok l n m))"
  by (auto simp: disconnect_begin_def manager_ok_def umap_simps split: option.splits prod.splits)

lemma finish_ok: "manager_ok m \<Longrightarrow> manager_ok (disconnect_finish n p m)"
  by (auto simp: disconnect_finish_def manager_ok_def umap_simps split: option.splits)

lemma send_ok: "manager_ok m \<Longrightarrow> manager_ok (fst (sendMessage ok n t m))"
  by (auto simp: sendMessage_def manager_ok_def split: option.splits prod.splits)

lemma nick_ok: "manager_ok m \<Longrightarrow> manager_ok (fst (setCustomNickname n nk m))"
  by (auto simp: setCustomNickname_def manager_ok_def umap_simps Let_def split: option.splits)

lemma stop_all_find:
  "um_find (fst (stop_all cs out)) n = map_option (\<lambda>(p, ch). (p, ch\<lparr>should_stop := True, connected := False\<rparr>)) (um_find cs n)"
  "map fst (fst (stop_all cs out)) = map fst cs"
  by (induction cs out rule: stop_all.induct) (auto simp: stop_channel_def split: prod.splits)

lemma shutdown_ok: "manager_ok m \<Longrightarrow> manager_ok (shutdown_begin m)"
  using stop_all_find [of "irc_channels m" "irc_log m"]
  by (auto simp: shutdown_begin_def manager_ok_def um_ok_def case_prod_beta)

text \<open>What the callers' threads do to the manager, in any order.\<close>

inductive manager_step :: "irc_manager \<Rightarrow> irc_manager \<Rightarrow> bool" where
  Connect: "manager_step m (fst (connectChannel s p n pw g su sp t nk m))"
| DisconnectBegin: "manager_step m (fst (disconnect_begin ok l n m))"
| DisconnectFinish: "manager_step m (disconnect_finish n q m)"
| Send: "manager_step m (fst (sendMessage ok n txt m))"
| Callbacks: "manager_step m (set_callbacks cb m)"
| Nickname: "manager_step m (fst (setCustomNickname n nk m))"
| ShutdownBegin: "manager_step m (shutdown_begin m)"
| ShutdownFinish: "manager_step m (shutdown_finish m)"

lemma next_ptr_mono:
  "next_ptr m \<le> next_ptr (fst (connectChannel s p n pw g su sp t nk m))"
  "next_ptr (fst (disconnect_begin ok l n m)) = next_ptr m"
  "next_ptr (disconnect_finish n q m) = next_ptr m"
  "next_ptr (fst (sendMessage ok n txt m)) = next_ptr m"
  "next_ptr (fst (setCustomNickname n nk m)) = next_ptr m"
  "next_ptr (shutdown_begin m) = next_ptr m"
  by (auto simp: connectChannel_def disconnect_begin_def disconnect_finish_def sendMessage_def setCustomNickname_def
      shutdown_begin_def Let_def split: option.splits prod.splits)

lemma manager_step_ok: "manager_step m m1 \<Longrightarrow> manager_ok m \<Longrightarrow> manager_ok m1 \<and> next_ptr m \<le> next_ptr m1"
  by (induction rule: manager_step.induct)
    (simp_all add: next_ptr_mono connect_ok begin_ok finish_ok send_ok nick_ok shutdown_ok,
     simp_all add: set_callbacks_def shutdown_finish_def manager_ok_def)

lemma manager_steps_ok:
  "manager_step\<^sup>*\<^sup>* m m1 \<Longrightarrow> manager_ok m \<Longrightarrow> manager_ok m1 \<and> next_ptr m \<le> next_ptr m1"
  by (induction rule: rtranclp_induct) (auto dest: manager_step_ok)

lemma begin_ptr: "manager_ok m \<Longrightarrow> disconnect_begin ok l n m = (m1, Some p) \<Longrightarrow> p < next_ptr m1"
  using next_ptr_mono(2) [of ok l n m]
  by (auto simp: disconnect_begin_def manager_ok_def split: option.splits prod.splits)

lemma connect_ptr:
  "connectChannel s p n pw g su sp t nk m = (m1, Returned True) \<Longrightarrow>
     \<exists>ch. um_find (irc_channels m1) n = Some (next_ptr m, ch) \<and> channel ch = n \<and> ch_group_id ch = g"
  by (auto simp: connectChannel_def umap_simps Let_def split: option.splits if_splits)

text \<open>
  A disconnect that waits for its thread never removes a channel made in the meantime: when
  a new channel is connected while the first half of \<open>disconnectChannel\<close> is done and its second
  half is not, the second half leaves the new channel in the table, whatever other threads did
  to the manager in between.
\<close>

theorem disconnect_keeps_newer:
  assumes "manager_ok m" "disconnect_begin ok l name m = (m1, Some p)" "manager_step\<^sup>*\<^sup>* m1 m2"
    and "connectChannel s pt name pw g su sp t nk m2 = (m3, Returned True)"
  shows "\<exists>ch. um_find (irc_channels (disconnect_finish name p m3)) name = Some (next_ptr m2, ch) \<and> ch_group_id ch = g"
proof -
  have "manager_ok m1" using begin_ok [OF assms(1), of ok l name] assms(2) by simp
  then have "p < next_ptr m2" using manager_steps_ok [OF assms(3)] begin_ptr [OF assms(1,2)] by simp
  then show ?thesis using connect_ptr [OF assms(4)] by (auto simp: disconnect_finish_def)
qed

definition manager0 :: irc_manager where
  "manager0 = \<lparr>irc_channels = [(''#c'', 0, ch0\<lparr>connected := True\<rparr>)], next_ptr = 1, shutting_down = False,
     callbacks = cb0, irc_log = []\<rparr>"

lemma manager0_ok: "manager_ok manager0"
  by (simp add: manager_ok_def manager0_def um_ok_def)

theorem disconnect_keeps_newer_witness:
  "\<exists>ch. um_find (irc_channels (disconnect_finish ''#c'' 0
      (fst (connectChannel '''' 1 ''#c'' '''' ''h'' '''' '''' False '''' (disconnect_finish ''#c'' 0
        (fst (disconnect_begin writes True ''#c'' manager0))))))) ''#c'' = Some (1, ch) \<and> ch_group_id ch = ''h''"
proof -
  let ?b = "disconnect_begin writes True ''#c'' manager0" and ?f = "disconnect_finish ''#c'' 0"
  have b: "?b = (fst ?b, Some 0)"
    by (simp add: disconnect_begin_def manager0_def split: prod.split)
  moreover have "manager_step\<^sup>*\<^sup>* (fst ?b) (?f (fst ?b))" by (intro r_into_rtranclp DisconnectFinish)
  moreover have "connectChannel '''' 1 ''#c'' '''' ''h'' '''' '''' False '''' (?f (fst ?b)) =
      (fst (connectChannel '''' 1 ''#c'' '''' ''h'' '''' '''' False '''' (?f (fst ?b))), Returned True)"
    by (simp add: disconnect_begin_def disconnect_finish_def manager0_def connectChannel_def default_nickname_def Let_def
        split: prod.split)
  moreover have "next_ptr (?f (fst ?b)) = 1" by (simp add: next_ptr_mono) (simp add: manager0_def)
  ultimately show ?thesis using disconnect_keeps_newer [OF manager0_ok, of writes True "''#c''"] by metis
qed

section \<open>From one bridge to another\<close>

lemma rtrim_chop: "rtrim (chop_cr s) = rtrim s"
  by (cases s rule: rev_cases) (auto simp: chop_cr_def rtrim_def blank_def)

lemma chop_cr_prefix: "t \<noteq> [] \<Longrightarrow> last t \<noteq> creturn \<Longrightarrow> chop_cr (t @ s) = t @ chop_cr s"
  by (auto simp: chop_cr_def butlast_append)

lemma read_line:
  assumes "newline \<notin> set l"
  shows "read_chunk ok cb (l @ [newline]) ([], st) = ([], processIrcMessage ok cb (chop_cr l) st)"
  using split_nl_first [OF assms, of "[]"] by (simp add: read_chunk_def line_loop_split)

lemma word_no_newline: "word_text w \<Longrightarrow> newline \<notin> set w"
  by (auto simp: word_text_def list_all_iff blank_def)



end
