(* ===== verification/MessageProperties.thy ===== *)
theory MessageProperties
  imports PacketCodec HexCodec SignalingPacket QToxFragmenter MessageUtils
begin

text \<open>
  The properties of the wire formats and message bodies: the packet codecs
  (\<open>PacketCodec\<close>, \<open>SignalingPacket\<close>), the hexadecimal codecs (\<open>HexCodec\<close>), the fragmenter
  (\<open>QToxFragmenter\<close>) and the revoke, merger and reply bodies (\<open>MessageUtils\<close>).
\<close>

section \<open>Packets\<close>

text \<open>
  The control packet codec is exact in both directions: once the lossless limit has room for
  the header, a frame decodes to a packet if and only if encoding that packet gives that frame.
  So every accepted packet survives the wire, and a decoder accepts no frame that an encoder
  could not have produced.
\<close>

theorem control_packet_exact:
  assumes "control_kHeaderSize \<le> M"
  shows "control_Decode M frame = Some \<lparr>cp_type = t, cp_body = body\<rparr> \<longleftrightarrow> control_Encode M t body = Some frame"
  using Decode_Encode [OF _ assms] Encode_Decode [of M frame] by fastforce

theorem control_packet_exact_witness:
  "control_Encode 1373 kReceipt ''ok'' = Some [184, 84, 50, 84, 67, 1, 1, 0, 0, 2, 111, 107]"
proof -
  have "control_Decode 1373 [184, 84, 50, 84, 67, 1, 1, 0, 0, 2, 111, 107] = Some \<lparr>cp_type = kReceipt, cp_body = ''ok''\<rparr>"
    by code_simp
  then show ?thesis by (subst control_packet_exact [symmetric]) (simp_all add: control_kHeaderSize_def)
qed

lemma Unwrap_iff: "Unwrap k (Some d) = Some p \<longleftrightarrow> d = Wrap k (Some p)"
proof
  assume u: "Unwrap k (Some d) = Some p"
  then have pk: "PeekKind (Some d) = uint k" by (auto simp: Unwrap_def split: if_splits)
  have ne: "PeekKind (Some d) \<noteq> -1" using pk uint_ge_0 [of k] by linarith
  have "d ! 5 = k" using PeekKind_well_formed(2) [OF ne] pk by (simp add: word_uint_eq_iff)
  moreover have "p = drop 6 d"
    using u PeekKind_well_formed(1) [OF ne] Unwrap_Wrap [of k "d ! 5" "Some (drop 6 d)"] by (simp split: if_splits)
  ultimately show "d = Wrap k (Some p)" using PeekKind_well_formed(1) [OF ne] by simp
qed simp

text \<open>
  Group packets: a frame unwraps as a kind to a payload exactly when it is the wrapping of
  that payload with that kind. In particular no frame unwraps under two kinds.
\<close>

theorem group_packet_exact: "Unwrap k (Some d) = Some p \<longleftrightarrow> d = Wrap k (Some p)"
  by (rule Unwrap_iff)

text \<open>
  Signalling packets: the parser gives a result on every input, it never reads outside the
  buffer (\<open>None\<close> in the model), and it recovers a serialised packet, timeout included, whatever
  bytes follow it.
\<close>

theorem signaling_packet_roundtrip:
  assumes "length (sp_inviteID p) < 2 ^ 32" "length (sp_data p) < 2 ^ 32"
  shows "ParsePacket uninit (Some (SerializePacket p @ rest)) = Some p \<and> (\<exists>q. ParsePacket uninit data = Some q)"
  using ParsePacket_Serialize_append [OF assms] ParsePacket_defined by blast

theorem signaling_packet_roundtrip_witness:
  "ParsePacket 0 (Some (SerializePacket \<lparr>sp_type = SIGNALING_INVITE, sp_inviteID = ''i1'', sp_data = ''hi'', sp_timeout = 30\<rparr> @ [9])) =
     Some \<lparr>sp_type = SIGNALING_INVITE, sp_inviteID = ''i1'', sp_data = ''hi'', sp_timeout = 30\<rparr>"
  by (rule signaling_packet_roundtrip [THEN conjunct1]) simp_all

section \<open>Hexadecimal text\<close>

lemma strtol_on_hex:
  assumes "list_all isxdigit s" "length s = 2 * n"
  shows "tox_hex_to_bytes s n = Unhex s n" "hex_string_to_bin (Some s) n = Unhex s n"
  using assms by (simp_all add: tox_hex_to_bytes_def hex_string_to_bin_def Unhex_def strtol_loop_hex mult.commute)

text \<open>
  The four hexadecimal decoders of the code base agree with the strict one: on a text of
  hexadecimal digits of the right length all give the same bytes; the address decoder agrees on
  every text, and both encoders are inverted by it.
\<close>

theorem hex_decoders_agree:
  assumes "list_all isxdigit s" "length s = 2 * n"
  shows "tox_hex_to_bytes s n = Unhex s n \<and> hex_string_to_bin (Some s) n = Unhex s n \<and> Unhex s n \<noteq> None \<and>
    tox_address_string_to_bytes (Some t) = Unhex t 32 \<and>
    Unhex (Hex bs) (length bs) = Some bs \<and> Unhex (tox_bytes_to_hex bs) (length bs) = Some bs"
proof -
  have "Unhex s n \<noteq> None" using unhex_loop_Some_hex [of s] assms by (simp add: Unhex_def mult.commute)
  then show ?thesis
    using strtol_on_hex [OF assms]
    by (simp add: tox_address_string_to_bytes_def address_loop_unhex Unhex_def TOX_PUBLIC_KEY_SIZE_def
        unhex_loop_Hex unhex_loop_upper mult.commute)
qed

theorem hex_decoders_agree_witness: "tox_hex_to_bytes ''aF09'' 2 = Unhex ''aF09'' 2"
  by (rule hex_decoders_agree [where s = "''aF09''" and n = 2, THEN conjunct1]) code_simp+



section \<open>Long texts\<close>

text \<open>
  C33. Fragmenting a text always succeeds on valid input and loses nothing: with room for one
  UTF-8 character beyond the reserved 50 bytes, the fragments of a valid text concatenate to it,
  none is empty, none is longer than the payload limit, and each is valid UTF-8 on its own (no
  character is cut). Invalid input (empty, with a NUL, or not UTF-8) is refused.
\<close>

theorem fragments_correct:
  assumes "54 \<le> tox_max"
  shows "if IsValidInput s
         then \<exists>fs. FragmentMessage tox_max s = Some fs \<and> concat fs = s \<and> fs \<noteq> [] \<and>
           list_all (\<lambda>f. f \<noteq> [] \<and> length f \<le> tox_max - 50 \<and> IsValidUtf8 f) fs
         else FragmentMessage tox_max s = None"
  using FragmentMessage_fragmentation [OF assms, of s]
  by (auto simp: fragmentation_def kMessagePayloadLimit_def IsValidInput_def list_all_iff)

theorem fragments_correct_witness:
  "\<exists>fs. FragmentMessage 54 ''hello world'' = Some fs \<and> concat fs = ''hello world'' \<and> fs \<noteq> [] \<and>
     list_all (\<lambda>f. f \<noteq> [] \<and> length f \<le> 54 - 50 \<and> IsValidUtf8 f) fs"
proof -
  have "IsValidInput ''hello world''" by code_simp
  then show ?thesis using fragments_correct [of 54 "''hello world''"] by simp
qed

section \<open>Message bodies\<close>

text \<open>
  A revoke notification survives the wire: when no field ends in the end marker or in the
  name of a later key, the parser recovers the message id, the revoker and the reason from the
  message that was built from them, escapes included.
\<close>

theorem revoke_roundtrip:
  assumes "\<not> shadows ''revoker'' msgID" "\<not> shadows ''reason'' msgID" "\<not> shadows ''reason'' revoker"
    and "\<not> sublist REVOKE_END_MARKER (BuildRevokeJson now msgID revoker reason)"
  shows "ParseRevokeMessage (BuildRevokeMessage (BuildRevokeJson now msgID revoker reason)) =
    (msgID \<noteq> [] \<and> revoker \<noteq> [], Some (msgID, revoker, reason))"
  using ParseRevokeMessage_BuildRevokeMessage [OF assms(4)] revoke_fields [OF assms(1-3)] by (simp add: Let_def)

theorem revoke_roundtrip_witness:
  "ParseRevokeMessage (BuildRevokeMessage (BuildRevokeJson 17 ''m1'' ''al'' ''a b'')) =
    (True, Some (''m1'', ''al'', ''a b''))"
proof -
  have "\<not> sublist REVOKE_END_MARKER (BuildRevokeJson 17 ''m1'' ''al'' ''a b'')" by code_simp
  then show ?thesis using revoke_roundtrip [of "''m1''" "''al''" 17 "''a b''"] by (simp add: suffix_Cons)
qed

text \<open>
  A merged message keeps its contents: from the JSON of a merger the parser recovers the list
  of message ids and the list of abstracts, in order (each as the C string that was written),
  when no title or abstract ends in the name of the key searched for.
\<close>

theorem merger_roundtrip:
  assumes "\<And>x. x \<in> set (title # abstracts) \<Longrightarrow> \<not> shadows ''messageIDList'' (CString x)"
    and "\<not> shadows ''abstractList'' (CString title)"
  shows "ExtractMessageIDs (BuildMergerJson ids title abstracts) = map CString ids \<and>
    ExtractAbstractList (BuildMergerJson ids title abstracts) = map CString abstracts"
  using merger_ids [of title abstracts ids] merger_abstracts [of title ids abstracts] assms by blast

theorem merger_roundtrip_witness:
  "ExtractMessageIDs (BuildMergerJson [''m1'', ''m2''] ''t'' [''a'']) = map CString [''m1'', ''m2''] \<and>
    ExtractAbstractList (BuildMergerJson [''m1'', ''m2''] ''t'' [''a'']) = map CString [''a'']"
  by (rule merger_roundtrip) (auto simp: CString_def suffix_Cons)

text \<open>
  Replies: a reply reference put into a message body is recovered together with the text
  behind it (less its leading line ends), and a reference that is one balanced JSON object
  survives the cloud custom data.
\<close>

theorem reply_roundtrip:
  assumes "json \<noteq> []" "\<not> sublist REPLY_END_MARKER json" "depth_ok 0 body"
  shows "ParseMessageWithReply (BuildMessageWithReply json txt) =
      (True, json, dropWhile (\<lambda>c. c = nl \<or> c = cr) txt) \<and>
    ExtractReplyJsonFromCloudCustomData (BuildCloudCustomDataFromReplyJson (lbrace # body @ [rbrace])) =
      lbrace # body @ [rbrace]"
  using reply.parse_framed_build [OF assms(2)] assms(1) ExtractReply_BuildCloud [OF assms(3)]
  by (simp add: ParseMessageWithReply_def BuildMessageWithReply_def REPLY_START_MARKER_def)

theorem reply_roundtrip_witness:
  "ParseMessageWithReply (BuildMessageWithReply ''ref'' ''hello'') = (True, ''ref'', ''hello'')"
proof -
  have "\<not> sublist REPLY_END_MARKER ''ref''" by code_simp
  then show ?thesis using reply_roundtrip [of "''ref''" "[]" "''hello''"] by simp
qed

end
