(* ===== verification/RendezvousCodec.thy ===== *)
theory RendezvousCodec
  imports HexCodec
begin

text \<open>
  \<open>source/RendezvousGroupsCodec.cpp\<close>: the naming convention, the derivation of a chat id from a
  label and the event lines. toxcore's \<open>crypto_sha256\<close> and \<open>create_extended_keypair_from_seed\<close>
  (its signature half, \<open>None\<close> on failure) are the parameters \<open>sha256\<close> and \<open>keypair\<close>. \<open>Hex\<close> and
  \<open>Unhex\<close> are in \<open>HexCodec\<close>.
\<close>

definition kGeohashAlphabet :: string where
  "kGeohashAlphabet = ''0123456789bcdefghjkmnpqrstuvwxyz''"

definition kMaxLabelLength :: nat where "kMaxLabelLength = 12"
definition kNickLength :: nat where "kNickLength = 8"

record convention =
  name_prefix :: string
  seed_prefix :: string

definition default_convention :: convention where
  "default_convention = \<lparr>name_prefix = ''toxee-nearby/v1/'', seed_prefix = ''toxee/nearby/v1|''\<rparr>"

definition IsValidLabel :: "string \<Rightarrow> bool" where
  "IsValidLabel label =
     (if label = [] \<or> length label > kMaxLabelLength then False
      else list_all (\<lambda>c. \<not> (c = CHR 0x00 \<or> c \<notin> set kGeohashAlphabet)) label)"

definition IsValidNick :: "string \<Rightarrow> bool" where
  "IsValidNick nick =
     (if length nick \<noteq> kNickLength then False
      else list_all (\<lambda>c. in_range CHR ''0'' CHR ''9'' c \<or> in_range CHR ''a'' CHR ''f'' c) nick)"

definition ParseLabel :: "convention \<Rightarrow> string \<Rightarrow> string option" where
  "ParseLabel conv name =
     (let p = name_prefix conv in
      if p = [] \<or> length name \<le> length p \<or> take (length p) name \<noteq> p then None
      else let candidate = drop (length p) name in
           if \<not> IsValidLabel candidate then None else Some candidate)"

definition DeriveSeed :: "(bytes \<Rightarrow> bytes) \<Rightarrow> convention \<Rightarrow> string \<Rightarrow> bytes" where
  "DeriveSeed sha256 conv label = sha256 (map byte_of (seed_prefix conv @ label))"

definition DeriveChatId :: "(bytes \<Rightarrow> bytes option) \<Rightarrow> bytes \<Rightarrow> bytes option" where
  "DeriveChatId keypair seed = keypair seed"

definition IsRendezvousGroup ::
  "(bytes \<Rightarrow> bytes) \<Rightarrow> (bytes \<Rightarrow> bytes option) \<Rightarrow> convention \<Rightarrow> string \<Rightarrow> bytes option \<Rightarrow> bool" where
  "IsRendezvousGroup sha256 keypair conv name chat_id =
     (case chat_id of None \<Rightarrow> False
      | Some cid \<Rightarrow>
          (case ParseLabel conv name of None \<Rightarrow> False
           | Some label \<Rightarrow>
               (case DeriveChatId keypair (DeriveSeed sha256 conv label) of None \<Rightarrow> False
                | Some derived \<Rightarrow> derived = cid)))"

definition JoinedLine :: "string \<Rightarrow> bool \<Rightarrow> string" where
  "JoinedLine cid founded = ''rendezvous_joined:'' @ cid @ '':'' @ (if founded then ''1'' else ''0'')"

definition LeftLine :: "string \<Rightarrow> string \<Rightarrow> string" where
  "LeftLine cid reason = ''rendezvous_left:'' @ cid @ '':'' @ reason"

definition PeerLine :: "string \<Rightarrow> string \<Rightarrow> bool \<Rightarrow> string" where
  "PeerLine cid pk joined =
     ''rendezvous_peer:'' @ cid @ '':'' @ pk @ '':'' @ (if joined then ''join'' else ''exit'')"

definition PeersChangedLine :: "string \<Rightarrow> nat \<Rightarrow> string" where
  "PeersChangedLine cid n = ''rendezvous_peers_changed:'' @ cid @ '':'' @ dec_nat n"

definition FullLine :: "string \<Rightarrow> string" where
  "FullLine cid = ''rendezvous_full:'' @ cid"

definition PacketLine :: "string \<Rightarrow> string \<Rightarrow> bool \<Rightarrow> bytes \<Rightarrow> string" where
  "PacketLine cid pk is_private payload =
     ''rendezvous_packet:'' @ cid @ '':'' @ pk @ '':'' @ (if is_private then ''p'' else ''b'') @ '':'' @ Hex payload"

section \<open>Lemmas\<close>

lemma ParseLabel_Some:
  "ParseLabel conv name = Some label \<longleftrightarrow>
     name_prefix conv \<noteq> [] \<and> name = name_prefix conv @ label \<and> IsValidLabel label"
proof
  assume "ParseLabel conv name = Some label"
  then show "name_prefix conv \<noteq> [] \<and> name = name_prefix conv @ label \<and> IsValidLabel label"
    by (auto simp: ParseLabel_def Let_def split: if_splits) (metis append_take_drop_id)
next
  assume "name_prefix conv \<noteq> [] \<and> name = name_prefix conv @ label \<and> IsValidLabel label"
  then show "ParseLabel conv name = Some label"
    by (auto simp: ParseLabel_def Let_def IsValidLabel_def split: if_splits)
qed

text \<open>Fields without the separator can be read back from a line.\<close>

lemma colon_split:
  assumes "a @ '':'' @ s = b @ '':'' @ t" "CHR '':'' \<notin> set a" "CHR '':'' \<notin> set b"
  shows "a = b \<and> s = t"
  using assms
proof (induction a arbitrary: b)
  case Nil
  then show ?case by (cases b) auto
next
  case (Cons c a)
  then show ?case by (cases b) auto
qed

lemma colon_free_Hex: "CHR '':'' \<notin> set (Hex bs)"
  using set_Hex [of bs] by (auto simp: kDigits_def)

text \<open>
  The restore rule: a group found in savedata is a rendezvous group exactly when its name
  is the prefix followed by a valid label and its chat id is the one that label derives.
\<close>

theorem restore_rule:
  "IsRendezvousGroup sha256 keypair conv name (Some cid) \<longleftrightarrow>
     name_prefix conv \<noteq> [] \<and>
     (\<exists>label. IsValidLabel label \<and> name = name_prefix conv @ label \<and>
        DeriveChatId keypair (DeriveSeed sha256 conv label) = Some cid)"
  by (auto simp: IsRendezvousGroup_def ParseLabel_Some split: option.splits)
    (metis ParseLabel_Some option.distinct(1))

text \<open>
  A packet line carries its chat id, sender, channel and payload without ambiguity: two
  equal lines come from equal data.
\<close>

theorem PacketLine_inject:
  "PacketLine (Hex c) (Hex k) p d = PacketLine (Hex c') (Hex k') p' d' \<longleftrightarrow>
     c = c' \<and> k = k' \<and> p = p' \<and> d = d'"
proof
  assume "PacketLine (Hex c) (Hex k) p d = PacketLine (Hex c') (Hex k') p' d'"
  then have eq: "Hex c @ '':'' @ Hex k @ '':'' @ (if p then ''p'' else ''b'') @ '':'' @ Hex d =
      Hex c' @ '':'' @ Hex k' @ '':'' @ (if p' then ''p'' else ''b'') @ '':'' @ Hex d'"
    by (simp add: PacketLine_def)
  from colon_split [OF eq colon_free_Hex colon_free_Hex] have c: "c = c'" and
    eq2: "Hex k @ '':'' @ (if p then ''p'' else ''b'') @ '':'' @ Hex d =
      Hex k' @ '':'' @ (if p' then ''p'' else ''b'') @ '':'' @ Hex d'" by simp_all
  from colon_split [OF eq2 colon_free_Hex colon_free_Hex]
  show "c = c' \<and> k = k' \<and> p = p' \<and> d = d'" using c by (auto split: if_splits)
qed simp

end
