(* ===== verification/RendezvousGroups.thy ===== *)
theory RendezvousGroups
  imports RendezvousCodec
begin

text \<open>
  The rendezvous registry: \<open>source/RendezvousGroups.{h,cpp}\<close> and
  \<open>source/RendezvousGroupsEvents.cpp\<close>, every operation of the class.

  \<^item> The class is one mutex around its members, so each method is one function on the record
    \<open>registry\<close>; methods with a result return the new registry and the result.
  \<^item> Time stamps, generations and attempts are 64-bit words, group numbers 32-bit words:
    \<open>now - since\<close> wraps as the source's \<open>uint64_t\<close> does. \<open>UINT32_MAX\<close> is "no group".
  \<^item> \<open>cells\<close>, \<open>zombies\<close>, \<open>retiring_orphans\<close>, the peers and the packet budgets are unordered
    maps. A \<open>Cell*\<close> is the pair of its key and its value, and a write through the pointer puts
    the new value back under that key.
  \<^item> The published snapshot of owned group numbers is the field \<open>owned\<close>, replaced only by
    \<open>PublishOwnedLocked\<close>.
  \<^item> \<open>keypair\<close> is toxcore's seeded key derivation, see \<open>RendezvousCodec\<close>.
\<close>

section \<open>Constants and data\<close>

definition kMaxFrameBytes :: nat where "kMaxFrameBytes = 1200"
definition kHeaderBytes :: nat where "kHeaderBytes = 6"
definition kMaxPayloadBytes :: nat where "kMaxPayloadBytes = kMaxFrameBytes - kHeaderBytes"

definition kJoinToFoundMs :: u64 where "kJoinToFoundMs = 30000"
definition kStaleMs :: u64 where "kStaleMs = 90000"
definition kBackoffMs :: u64 where "kBackoffMs = 15000"
definition kLeaveRetryMs :: u64 where "kLeaveRetryMs = 5000"
definition kRetryWindowMs :: u64 where "kRetryWindowMs = 600000"
definition kUnavailableMs :: u64 where "kUnavailableMs = 600000"
definition kMaxRetriesPerWindow :: nat where "kMaxRetriesPerWindow = 3"

definition kBudgetWindowMs :: u64 where "kBudgetWindowMs = 10000"
definition kPeerPacketsPerWindow :: u32 where "kPeerPacketsPerWindow = 6"
definition kPeerBytesPerWindow :: u64 where "kPeerBytesPerWindow = 6 * 1024"
definition kPeerEventsPerWindow :: u32 where "kPeerEventsPerWindow = 60"
definition kMaxBufferedLines :: nat where "kMaxBufferedLines = 64"

datatype cell_state = kJoining | kJoined | kBackoff | kUnavailable | kRetiring

datatype action_kind = kJoin | kFound | kLeave

record action =
  a_kind :: action_kind
  a_chat_id_hex :: string
  a_seed :: bytes
  a_chat_id :: bytes
  a_name :: string
  a_nick :: string
  a_group_number :: u32
  a_reason :: string
  a_generation :: u64
  a_attempt :: u64

datatype packet_verdict = kEmit | kDropBudget | kDropUnknownPeer | kDropTooLarge

record budget =
  window_start_ms :: u64
  packets :: u32
  nbytes :: u64

definition new_budget :: budget where
  "new_budget = \<lparr>window_start_ms = 0, packets = 0, nbytes = 0\<rparr>"

record cell =
  seed :: bytes
  chat_id :: bytes
  chat_id_hex :: string
  cell_name :: string
  nick :: string
  state :: cell_state
  state_since_ms :: u64
  group_number :: u32
  pending_join :: bool
  pending_found :: bool
  pending_leave :: bool
  leave_not_before_ms :: u64
  leave_reason :: string
  leave_forgets :: bool
  rejoin_after_retire :: bool
  retire_reason :: string
  state_before_retire :: cell_state
  attempt :: u64
  founded :: bool
  self_joined :: bool
  announced :: bool
  had_peers :: bool
  empty_since_ms :: u64
  peers :: "(u32, string) umap"
  packet_budget :: "(string, budget) umap"
  event_budget :: budget
  coalescing :: bool
  retries :: nat
  retry_window_start_ms :: u64

definition new_cell :: cell where
  "new_cell =
     \<lparr>seed = replicate 32 0, chat_id = replicate 32 0, chat_id_hex = [], cell_name = [], nick = [],
      state = kJoining, state_since_ms = 0, group_number = UINT32_MAX, pending_join = True,
      pending_found = False, pending_leave = False, leave_not_before_ms = 0, leave_reason = [],
      leave_forgets = False, rejoin_after_retire = False, retire_reason = [],
      state_before_retire = kJoining, attempt = 0, founded = False, self_joined = False,
      announced = False, had_peers = False, empty_since_ms = 0, peers = [], packet_budget = [],
      event_budget = new_budget, coalescing = False, retries = 0, retry_window_start_ms = 0\<rparr>"

record registry =
  conv :: convention
  accepting :: bool
  generation :: u64
  next_attempt :: u64
  inflight :: u32
  drops :: u64
  cells :: "(string, cell) umap"
  zombies :: "(u32, string) umap"
  retiring_orphans :: "(u32, string) umap"
  buffered_lines :: "string list"
  owned :: "u32 set"

definition new_registry :: registry where
  "new_registry =
     \<lparr>conv = default_convention, accepting = False, generation = 1, next_attempt = 1, inflight = 0,
      drops = 0, cells = [], zombies = [], retiring_orphans = [], buffered_lines = [], owned = {}\<rparr>"

section \<open>Owned snapshot and admission\<close>

definition owned_numbers :: "registry \<Rightarrow> u32 set" where
  "owned_numbers r =
     set (filter (\<lambda>n. n \<noteq> UINT32_MAX) (map (\<lambda>(k, c). group_number c) (cells r))) \<union>
     set (map fst (zombies r)) \<union> set (map fst (retiring_orphans r))"

definition PublishOwnedLocked :: "registry \<Rightarrow> registry" where
  "PublishOwnedLocked r = r\<lparr>owned := owned_numbers r\<rparr>"

definition Owns :: "registry \<Rightarrow> u32 \<Rightarrow> bool" where
  "Owns r gn \<longleftrightarrow> gn \<in> owned r"

definition SetConvention :: "convention \<Rightarrow> registry \<Rightarrow> registry" where
  "SetConvention c r = r\<lparr>conv := c\<rparr>"

definition SetAccepting :: "bool \<Rightarrow> registry \<Rightarrow> registry" where
  "SetAccepting b r = r\<lparr>accepting := b\<rparr>"

definition BumpGeneration :: "registry \<Rightarrow> registry" where
  "BumpGeneration r = r\<lparr>generation := generation r + 1\<rparr>"

definition BeginInflight :: "registry \<Rightarrow> registry" where
  "BeginInflight r = r\<lparr>inflight := inflight r + 1\<rparr>"

definition EndInflight :: "registry \<Rightarrow> registry" where
  "EndInflight r = (if inflight r > 0 then r\<lparr>inflight := inflight r - 1\<rparr> else r)"

definition Clear :: "registry \<Rightarrow> registry" where
  "Clear r =
     PublishOwnedLocked
       (r\<lparr>cells := [], zombies := [], retiring_orphans := [], buffered_lines := [], accepting := False\<rparr>)"

section \<open>Client requests\<close>

definition put_cell :: "string \<Rightarrow> cell \<Rightarrow> registry \<Rightarrow> registry" where
  "put_cell k c r = r\<lparr>cells := um_put k c (cells r)\<rparr>"

definition erase_cell :: "string \<Rightarrow> registry \<Rightarrow> registry" where
  "erase_cell k r = r\<lparr>cells := um_erase k (cells r)\<rparr>"

definition RequestJoin ::
  "(bytes \<Rightarrow> bytes option) \<Rightarrow> bytes \<Rightarrow> string \<Rightarrow> string \<Rightarrow> u64 \<Rightarrow> registry \<Rightarrow> registry \<times> int" where
  "RequestJoin keypair sd name nk now r =
     (if name = [] \<or> \<not> IsValidNick nk then (r, 0)
      else case DeriveChatId keypair sd of
        None \<Rightarrow> (r, 0)
      | Some cid \<Rightarrow>
          let k = Hex cid in
          if \<not> accepting r then (r, 0)
          else case um_find (cells r) k of
            Some c \<Rightarrow>
              if state c \<noteq> kRetiring then (r, 2)
              else (put_cell k (c\<lparr>rejoin_after_retire := True, leave_forgets := False\<rparr>) r, 1)
          | None \<Rightarrow>
              let c = new_cell\<lparr>attempt := next_attempt r, seed := sd, chat_id := cid, chat_id_hex := k,
                        cell_name := name, nick := nk, state := kJoining, state_since_ms := now,
                        pending_join := True, retry_window_start_ms := now\<rparr> in
              (put_cell k c (r\<lparr>next_attempt := next_attempt r + 1\<rparr>), 1))"

definition RequestLeave :: "string \<Rightarrow> u64 \<Rightarrow> registry \<Rightarrow> registry \<times> bool" where
  "RequestLeave k now r =
     (case um_find (cells r) k of
        None \<Rightarrow> (r, False)
      | Some c0 \<Rightarrow>
          let c1 = c0\<lparr>pending_join := False, pending_found := False, leave_forgets := True,
                      rejoin_after_retire := False\<rparr> in
          if state c1 = kRetiring then (put_cell k c1 r, True)
          else
            let c2 = c1\<lparr>leave_reason := ''left'', leave_not_before_ms := 0, state_since_ms := now\<rparr> in
            if group_number c2 = UINT32_MAX then (PublishOwnedLocked (erase_cell k r), True)
            else (put_cell k (c2\<lparr>pending_leave := True\<rparr>) r, True))"

fun leave_ids :: "string list \<Rightarrow> u64 \<Rightarrow> registry \<Rightarrow> registry \<times> nat" where
  "leave_ids [] now r = (r, 0)"
| "leave_ids (k # ks) now r =
     (case RequestLeave k now r of (r1, ok) \<Rightarrow>
        (case leave_ids ks now r1 of (r2, n) \<Rightarrow> (r2, if ok then Suc n else n)))"

text \<open>The ids are collected under one lock and left one by one, as the source does.\<close>

definition RequestLeaveAll :: "u64 \<Rightarrow> registry \<Rightarrow> registry \<times> nat" where
  "RequestLeaveAll now r = leave_ids (map fst (cells r)) now r"

section \<open>Planner\<close>

definition EnterBackoffLocked :: "u64 \<Rightarrow> cell \<Rightarrow> cell" where
  "EnterBackoffLocked now c =
     (let c1 = (if now - retry_window_start_ms c > kRetryWindowMs
                then c\<lparr>retry_window_start_ms := now, retries := 0\<rparr> else c);
          c2 = c1\<lparr>retries := retries c1 + 1, self_joined := False, announced := False,
                  founded := False, had_peers := False, peers := [], packet_budget := []\<rparr> in
      c2\<lparr>state := (if retries c2 > kMaxRetriesPerWindow then kUnavailable else kBackoff),
         state_since_ms := now\<rparr>)"

definition plan_timers :: "u64 \<Rightarrow> cell \<Rightarrow> cell" where
  "plan_timers now c =
     (if \<not> pending_leave c \<and> \<not> pending_join c \<and> \<not> pending_found c then
        (case state c of
           kJoining \<Rightarrow>
             if group_number c \<noteq> UINT32_MAX \<and> \<not> self_joined c \<and> peers c = [] \<and>
                now - state_since_ms c \<ge> kJoinToFoundMs
             then c\<lparr>pending_leave := True, leave_reason := ''refound'', state_since_ms := now\<rparr> else c
         | kJoined \<Rightarrow>
             if had_peers c \<and> peers c = [] \<and> now - empty_since_ms c \<ge> kStaleMs
             then EnterBackoffLocked now (c\<lparr>pending_leave := True, leave_reason := ''stale''\<rparr>) else c
         | kBackoff \<Rightarrow>
             if now - state_since_ms c \<ge> kBackoffMs then c\<lparr>pending_join := True\<rparr> else c
         | kUnavailable \<Rightarrow>
             if now - state_since_ms c \<ge> kUnavailableMs
             then c\<lparr>retries := 0, retry_window_start_ms := now, pending_join := True\<rparr> else c
         | kRetiring \<Rightarrow> c)
      else c)"

definition leave_action :: "u64 \<Rightarrow> cell \<Rightarrow> action" where
  "leave_action gen c =
     \<lparr>a_kind = kLeave, a_chat_id_hex = chat_id_hex c, a_seed = replicate 32 0,
      a_chat_id = replicate 32 0, a_name = [], a_nick = [], a_group_number = group_number c,
      a_reason = (if leave_reason c = [] then ''left'' else leave_reason c),
      a_generation = gen, a_attempt = attempt c\<rparr>"

definition start_action :: "u64 \<Rightarrow> cell \<Rightarrow> action" where
  "start_action gen c =
     \<lparr>a_kind = (if pending_join c then kJoin else kFound), a_chat_id_hex = chat_id_hex c,
      a_seed = seed c, a_chat_id = chat_id c, a_name = cell_name c, a_nick = nick c,
      a_group_number = UINT32_MAX, a_reason = [], a_generation = gen, a_attempt = attempt c\<rparr>"

definition plan_emit :: "bool \<Rightarrow> u64 \<Rightarrow> string set \<Rightarrow> u64 \<Rightarrow> cell \<Rightarrow> cell \<times> action option" where
  "plan_emit acc gen blocked now c =
     (if pending_leave c then
        if now < leave_not_before_ms c then (c, None)
        else (c\<lparr>leave_not_before_ms := 0, pending_leave := False\<rparr>, Some (leave_action gen c))
      else if \<not> acc then (c, None)
      else if chat_id_hex c \<in> blocked then (c, None)
      else if pending_join c \<or> pending_found c then
        (c\<lparr>state := (if pending_join c then kJoining else state c), pending_join := False,
           pending_found := False, state_since_ms := now\<rparr>, Some (start_action gen c))
      else (c, None))"

definition plan_cell :: "bool \<Rightarrow> u64 \<Rightarrow> string set \<Rightarrow> u64 \<Rightarrow> cell \<Rightarrow> cell \<times> action option" where
  "plan_cell acc gen blocked now c =
     (if state c = kRetiring then (c, None) else plan_emit acc gen blocked now (plan_timers now c))"

definition Plan :: "u64 \<Rightarrow> registry \<Rightarrow> registry \<times> action list" where
  "Plan now r =
     (let blocked = set (map snd (retiring_orphans r));
          planned = map (\<lambda>(k, c). (k, plan_cell (accepting r) (generation r) blocked now c)) (cells r) in
      (r\<lparr>cells := map (\<lambda>(k, c, a). (k, c)) planned\<rparr>,
       List.map_filter (\<lambda>(k, c, a). a) planned))"

section \<open>Outcomes of the Tox calls\<close>

definition OnJoinIssued ::
  "string \<Rightarrow> u32 \<Rightarrow> bool \<Rightarrow> u64 \<Rightarrow> u64 \<Rightarrow> u64 \<Rightarrow> registry \<Rightarrow> registry \<times> bool" where
  "OnJoinIssued k gn ok now gen att r =
     (case um_find (cells r) k of
        None \<Rightarrow> (r, False)
      | Some c \<Rightarrow>
          if generation r \<noteq> gen \<or> attempt c \<noteq> att then (r, False)
          else if state c = kRetiring then (r, False)
          else
            let c' = (if ok \<and> gn \<noteq> UINT32_MAX
                      then c\<lparr>group_number := gn, state := kJoining, state_since_ms := now,
                             founded := False, announced := False, self_joined := False\<rparr>
                      else EnterBackoffLocked now (c\<lparr>group_number := UINT32_MAX\<rparr>)) in
            (PublishOwnedLocked (put_cell k c' r), True))"

definition OnFoundIssued ::
  "string \<Rightarrow> u32 \<Rightarrow> bool \<Rightarrow> u64 \<Rightarrow> u64 \<Rightarrow> u64 \<Rightarrow> registry \<Rightarrow> registry \<times> bool" where
  "OnFoundIssued k gn ok now gen att r =
     (case um_find (cells r) k of
        None \<Rightarrow> (r, False)
      | Some c \<Rightarrow>
          if generation r \<noteq> gen \<or> attempt c \<noteq> att then (r, False)
          else if pending_leave c \<or> state c = kRetiring then (r, False)
          else
            let c' = (if ok \<and> gn \<noteq> UINT32_MAX
                      then c\<lparr>group_number := gn, state := kJoined, state_since_ms := now,
                             founded := True, self_joined := True, announced := True\<rparr>
                      else EnterBackoffLocked now (c\<lparr>group_number := UINT32_MAX\<rparr>)) in
            (PublishOwnedLocked (put_cell k c' r), True))"

text \<open>\<open>c\<close> is the cell under \<open>k\<close>, as the iterator of the source.\<close>

definition FinishRetireLocked :: "string \<Rightarrow> cell \<Rightarrow> u64 \<Rightarrow> registry \<Rightarrow> registry" where
  "FinishRetireLocked k c now r =
     (let reason = retire_reason c;
          before = state_before_retire c;
          c1 = c\<lparr>group_number := UINT32_MAX, retire_reason := []\<rparr> in
      if rejoin_after_retire c1 then
        put_cell k (c1\<lparr>rejoin_after_retire := False, leave_forgets := False, state := kJoining,
                      pending_join := True, attempt := next_attempt r, retries := 0,
                      retry_window_start_ms := now, state_since_ms := now\<rparr>)
          (r\<lparr>next_attempt := next_attempt r + 1\<rparr>)
      else if leave_forgets c1 \<or> reason = ''left'' then erase_cell k r
      else if reason = ''refound'' then
        put_cell k (c1\<lparr>state := kJoining, pending_found := True, attempt := next_attempt r,
                      state_since_ms := now\<rparr>)
          (r\<lparr>next_attempt := next_attempt r + 1\<rparr>)
      else if before = kBackoff \<or> before = kUnavailable then
        put_cell k (c1\<lparr>state := before, state_since_ms := now\<rparr>) r
      else put_cell k (EnterBackoffLocked now c1) r)"

definition OnLeaveIssued :: "string \<Rightarrow> string \<Rightarrow> u64 \<Rightarrow> u32 \<Rightarrow> registry \<Rightarrow> registry" where
  "OnLeaveIssued k reason now gn r =
     (case um_find (cells r) k of
        None \<Rightarrow> r
      | Some c \<Rightarrow>
          if group_number c \<noteq> gn then r
          else
            let c1 = c\<lparr>peers := [], packet_budget := [], self_joined := False, announced := False,
                       pending_leave := False, pending_join := False, pending_found := False,
                       retire_reason := reason, state_before_retire := state c, state_since_ms := now\<rparr> in
            if group_number c1 = UINT32_MAX then PublishOwnedLocked (FinishRetireLocked k c1 now r)
            else PublishOwnedLocked (put_cell k (c1\<lparr>state := kRetiring\<rparr>) r))"

definition NoteRetiringOrphan :: "u32 \<Rightarrow> string \<Rightarrow> registry \<Rightarrow> registry" where
  "NoteRetiringOrphan gn k r =
     PublishOwnedLocked (r\<lparr>retiring_orphans := um_put gn k (retiring_orphans r)\<rparr>)"

definition Retiring :: "registry \<Rightarrow> (u32 \<times> string) list" where
  "Retiring r =
     map (\<lambda>(k, c). (group_number c, k)) (filter (\<lambda>(k, c). state c = kRetiring) (cells r)) @
     retiring_orphans r"

definition OnRetired :: "string \<Rightarrow> u32 \<Rightarrow> u64 \<Rightarrow> registry \<Rightarrow> registry" where
  "OnRetired k gn now r =
     (let r1 = (if um_find (retiring_orphans r) gn = Some k
                then r\<lparr>retiring_orphans := um_erase gn (retiring_orphans r)\<rparr> else r) in
      PublishOwnedLocked
        (case um_find (cells r1) k of
           None \<Rightarrow> r1
         | Some c \<Rightarrow> if state c = kRetiring \<and> group_number c = gn then FinishRetireLocked k c now r1 else r1))"

definition OnLeaveFailed :: "string \<Rightarrow> u64 \<Rightarrow> registry \<Rightarrow> registry" where
  "OnLeaveFailed k now r =
     (case um_find (cells r) k of
        None \<Rightarrow> r
      | Some c \<Rightarrow> put_cell k (c\<lparr>pending_leave := True, leave_not_before_ms := now + kLeaveRetryMs\<rparr>) r)"

definition NoteZombie :: "u32 \<Rightarrow> string \<Rightarrow> registry \<Rightarrow> registry" where
  "NoteZombie gn k r = PublishOwnedLocked (r\<lparr>zombies := um_put gn k (zombies r)\<rparr>)"

definition IsZombie :: "registry \<Rightarrow> u32 \<Rightarrow> bool" where
  "IsZombie r gn \<longleftrightarrow> um_find (zombies r) gn \<noteq> None"

definition HasZombies :: "registry \<Rightarrow> bool" where
  "HasZombies r \<longleftrightarrow> zombies r \<noteq> []"

definition ForgetZombie :: "u32 \<Rightarrow> registry \<Rightarrow> registry" where
  "ForgetZombie gn r = PublishOwnedLocked (r\<lparr>zombies := um_erase gn (zombies r)\<rparr>)"

definition TakeZombies :: "registry \<Rightarrow> registry \<times> (u32 \<times> string) list" where
  "TakeZombies r = (PublishOwnedLocked (r\<lparr>zombies := []\<rparr>), zombies r)"

section \<open>Queries\<close>

text \<open>The first cell of the iteration that holds the group, with its key.\<close>

definition FindByGroupLocked :: "registry \<Rightarrow> u32 \<Rightarrow> (string \<times> cell) option" where
  "FindByGroupLocked r gn =
     (if gn = UINT32_MAX then None else List.find (\<lambda>(k, c). group_number c = gn) (cells r))"

definition RetiringChatIdOf :: "registry \<Rightarrow> u32 \<Rightarrow> string option" where
  "RetiringChatIdOf r gn =
     (case um_find (retiring_orphans r) gn of
        Some k \<Rightarrow> Some k
      | None \<Rightarrow>
          (case FindByGroupLocked r gn of
             None \<Rightarrow> None
           | Some (k, c) \<Rightarrow> if state c = kRetiring then Some (chat_id_hex c) else None))"

definition AttemptOf :: "registry \<Rightarrow> string \<Rightarrow> u64 option" where
  "AttemptOf r k = map_option attempt (um_find (cells r) k)"

definition HasCell :: "registry \<Rightarrow> string \<Rightarrow> bool" where
  "HasCell r k \<longleftrightarrow> um_find (cells r) k \<noteq> None"

definition GroupNumberFor :: "registry \<Rightarrow> string \<Rightarrow> u32 option" where
  "GroupNumberFor r k =
     (case um_find (cells r) k of
        None \<Rightarrow> None
      | Some c \<Rightarrow> if group_number c = UINT32_MAX then None else Some (group_number c))"

definition PeerIdFor :: "registry \<Rightarrow> string \<Rightarrow> string \<Rightarrow> (u32 \<times> u32) option" where
  "PeerIdFor r k pk =
     (case um_find (cells r) k of
        None \<Rightarrow> None
      | Some c \<Rightarrow>
          if group_number c = UINT32_MAX then None
          else map_option (\<lambda>(i, p). (group_number c, i)) (List.find (\<lambda>(i, p). p = pk) (peers c)))"

definition PeerPkFor :: "registry \<Rightarrow> u32 \<Rightarrow> u32 \<Rightarrow> string" where
  "PeerPkFor r gn pid =
     (case FindByGroupLocked r gn of
        None \<Rightarrow> []
      | Some (k, c) \<Rightarrow> (case um_find (peers c) pid of None \<Rightarrow> [] | Some pk \<Rightarrow> pk))"

definition ChatIdHexFor :: "registry \<Rightarrow> u32 \<Rightarrow> string" where
  "ChatIdHexFor r gn = (case FindByGroupLocked r gn of None \<Rightarrow> [] | Some (k, c) \<Rightarrow> chat_id_hex c)"

definition PeerCount :: "registry \<Rightarrow> string \<Rightarrow> int" where
  "PeerCount r k = (case um_find (cells r) k of None \<Rightarrow> -1 | Some c \<Rightarrow> int (length (peers c)))"

definition CellCount :: "registry \<Rightarrow> nat" where
  "CellCount r = length (cells r)"

definition StateOf :: "registry \<Rightarrow> string \<Rightarrow> cell_state option" where
  "StateOf r k = map_option state (um_find (cells r) k)"

section \<open>toxcore callbacks\<close>

definition OnSelfJoin :: "u32 \<Rightarrow> u64 \<Rightarrow> registry \<Rightarrow> registry \<times> string option" where
  "OnSelfJoin gn now r =
     (case FindByGroupLocked r gn of
        None \<Rightarrow> (r, None)
      | Some (k, c) \<Rightarrow>
          if state c = kRetiring then (r, None)
          else
            let c1 = c\<lparr>self_joined := True, state := kJoined, state_since_ms := now, retries := 0\<rparr> in
            if announced c1 then (put_cell k c1 r, None)
            else (put_cell k (c1\<lparr>announced := True\<rparr>) r, Some (JoinedLine (chat_id_hex c1) (founded c1))))"

definition ConsumeBudget :: "budget \<Rightarrow> u64 \<Rightarrow> u32 \<Rightarrow> u64 \<Rightarrow> u64 \<Rightarrow> budget \<times> bool" where
  "ConsumeBudget b now max_count max_bytes n =
     (let b1 = (if now - window_start_ms b \<ge> kBudgetWindowMs
                then b\<lparr>window_start_ms := now, packets := 0, nbytes := 0\<rparr> else b) in
      if packets b1 + 1 > max_count \<or> nbytes b1 + n > max_bytes then (b1, False)
      else (b1\<lparr>packets := packets b1 + 1, nbytes := nbytes b1 + n\<rparr>, True))"

definition PeerEventLocked :: "cell \<Rightarrow> string \<Rightarrow> bool \<Rightarrow> u64 \<Rightarrow> cell \<times> string option" where
  "PeerEventLocked c pk joined now =
     (case ConsumeBudget (event_budget c) now kPeerEventsPerWindow 0xFFFFFFFFFFFFFFFF 0 of
        (b, ok) \<Rightarrow>
          let c1 = c\<lparr>event_budget := b\<rparr> in
          if ok then (c1\<lparr>coalescing := False\<rparr>, Some (PeerLine (chat_id_hex c1) pk joined))
          else if coalescing c1 then (c1, None)
          else (c1\<lparr>coalescing := True\<rparr>, Some (PeersChangedLine (chat_id_hex c1) (length (peers c1)))))"

text \<open>The bodies of the peer callbacks and of \<open>OnPacket\<close>, on the cell they found.\<close>

definition peer_join_cell :: "u32 \<Rightarrow> string \<Rightarrow> u64 \<Rightarrow> cell \<Rightarrow> cell \<times> string list" where
  "peer_join_cell pid pk now c =
     (let c1 = c\<lparr>peers := um_put pid pk (peers c), had_peers := True\<rparr>;
          c2 = (if state c1 = kJoining
                then c1\<lparr>state := kJoined, state_since_ms := now, retries := 0\<rparr> else c1);
          joined_lines = (if announced c2 then [] else [JoinedLine (chat_id_hex c2) (founded c2)]);
          c3 = c2\<lparr>announced := True\<rparr> in
      case PeerEventLocked c3 pk True now of
        (c4, line) \<Rightarrow> (c4, joined_lines @ (case line of None \<Rightarrow> [] | Some l \<Rightarrow> [l])))"

definition OnPeerJoin :: "u32 \<Rightarrow> u32 \<Rightarrow> string \<Rightarrow> u64 \<Rightarrow> registry \<Rightarrow> registry \<times> string list" where
  "OnPeerJoin gn pid pk now r =
     (case FindByGroupLocked r gn of
        None \<Rightarrow> (r, [])
      | Some (k, c) \<Rightarrow>
          if state c = kRetiring \<or> pk = [] then (r, [])
          else case peer_join_cell pid pk now c of (c', lines) \<Rightarrow> (put_cell k c' r, lines))"

definition peer_exit_cell :: "u32 \<Rightarrow> string \<Rightarrow> bool \<Rightarrow> u64 \<Rightarrow> cell \<Rightarrow> cell \<times> string option" where
  "peer_exit_cell pid pk self_disconnected now c =
     (let c1 = c\<lparr>peers := um_erase pid (peers c)\<rparr>;
          c2 = (if peers c1 = [] then c1\<lparr>empty_since_ms := now\<rparr> else c1) in
      if self_disconnected then (c2, None) else PeerEventLocked c2 pk False now)"

definition OnPeerExit :: "u32 \<Rightarrow> u32 \<Rightarrow> bool \<Rightarrow> u64 \<Rightarrow> registry \<Rightarrow> registry \<times> string option" where
  "OnPeerExit gn pid self_disconnected now r =
     (case FindByGroupLocked r gn of
        None \<Rightarrow> (r, None)
      | Some (k, c) \<Rightarrow>
          if state c = kRetiring then (r, None)
          else case um_find (peers c) pid of
            None \<Rightarrow> (r, None)
          | Some pk \<Rightarrow>
              (case peer_exit_cell pid pk self_disconnected now c of
                 (c', line) \<Rightarrow> (put_cell k c' r, line)))"

definition OnJoinFail :: "u32 \<Rightarrow> bool \<Rightarrow> u64 \<Rightarrow> registry \<Rightarrow> registry \<times> string option" where
  "OnJoinFail gn peer_limit now r =
     (case FindByGroupLocked r gn of
        None \<Rightarrow> (r, None)
      | Some (k, c) \<Rightarrow>
          if state c = kRetiring then (r, None)
          else
            let c1 = EnterBackoffLocked now
                       (c\<lparr>pending_leave := True,
                          leave_reason := (if peer_limit then ''full'' else ''failed''),
                          pending_join := False, pending_found := False\<rparr>) in
            (put_cell k c1 r, if peer_limit then Some (FullLine (chat_id_hex c1)) else None))"

definition OnKickedSelf :: "u32 \<Rightarrow> u64 \<Rightarrow> registry \<Rightarrow> registry \<times> string option" where
  "OnKickedSelf gn now r =
     (case FindByGroupLocked r gn of
        None \<Rightarrow> (r, None)
      | Some (k, c) \<Rightarrow>
          if state c = kRetiring then (r, None)
          else
            (put_cell k (EnterBackoffLocked now
               (c\<lparr>pending_leave := True, leave_reason := ''kicked'', pending_join := False,
                  pending_found := False\<rparr>)) r, None))"

definition count_drop :: "registry \<Rightarrow> registry" where
  "count_drop r = r\<lparr>drops := drops r + 1\<rparr>"

definition packet_cell ::
  "u32 \<Rightarrow> string \<Rightarrow> bool \<Rightarrow> bytes \<Rightarrow> u64 \<Rightarrow> cell \<Rightarrow> cell \<times> packet_verdict \<times> string option" where
  "packet_cell pid peer_pk is_private payload now c =
     (let pk = (if peer_pk = [] then (case um_find (peers c) pid of Some p \<Rightarrow> p | None \<Rightarrow> []) else peer_pk);
          c1 = (if peer_pk \<noteq> [] \<and> um_find (peers c) pid = None
                then c\<lparr>peers := um_put pid pk (peers c)\<rparr> else c) in
      if pk = [] then (c1, kDropUnknownPeer, None)
      else
        let b = (case um_find (packet_budget c1) pk of Some b \<Rightarrow> b | None \<Rightarrow> new_budget) in
        case ConsumeBudget b now kPeerPacketsPerWindow kPeerBytesPerWindow (word_of_nat (length payload)) of
          (b', ok) \<Rightarrow>
            let c2 = c1\<lparr>packet_budget := um_put pk b' (packet_budget c1)\<rparr> in
            if \<not> ok then (c2, kDropBudget, None)
            else (c2, kEmit, Some (PacketLine (chat_id_hex c2) pk is_private payload)))"

text \<open>
  The third component is what is written to the \<open>line\<close> out-parameter. Every verdict but
  \<open>kEmit\<close> counts a drop.
\<close>

definition OnPacket ::
  "u32 \<Rightarrow> u32 \<Rightarrow> string \<Rightarrow> bool \<Rightarrow> bytes \<Rightarrow> u64 \<Rightarrow> registry \<Rightarrow> registry \<times> packet_verdict \<times> string option" where
  "OnPacket gn pid peer_pk is_private payload now r =
     (case FindByGroupLocked r gn of
        None \<Rightarrow> (count_drop r, kDropUnknownPeer, None)
      | Some (k, c) \<Rightarrow>
          if state c = kRetiring then (count_drop r, kDropUnknownPeer, None)
          else if length payload > kMaxPayloadBytes then (count_drop r, kDropTooLarge, None)
          else case packet_cell pid peer_pk is_private payload now c of
            (c', verdict, line) \<Rightarrow>
              (if verdict = kEmit then put_cell k c' r else count_drop (put_cell k c' r), verdict, line))"

definition DropCount :: "registry \<Rightarrow> u64" where
  "DropCount r = drops r"

definition BufferLine :: "string \<Rightarrow> registry \<Rightarrow> registry \<times> bool" where
  "BufferLine line r =
     (if length (buffered_lines r) \<ge> kMaxBufferedLines then (count_drop r, False)
      else (r\<lparr>buffered_lines := buffered_lines r @ [line]\<rparr>, True))"

definition TakeBufferedLines :: "registry \<Rightarrow> registry \<times> string list" where
  "TakeBufferedLines r = (r\<lparr>buffered_lines := []\<rparr>, buffered_lines r)"

section \<open>Every call as a step\<close>

text \<open>
  The operations with their arguments. A run of the program, whatever its threads do, is a
  sequence of them, because each runs under the mutex. \<open>RequestLeaveAll\<close> takes the lock once
  per id and is the sequence of its \<open>RequestLeave\<close> calls; calls of other threads may come
  between them.
\<close>

datatype rop =
  ROSetConvention convention | ROSetAccepting bool | ROBumpGeneration | ROBeginInflight | ROEndInflight
  | ROClear | RORequestJoin bytes string string u64 | RORequestLeave string u64 | ROPlan u64
  | ROJoinIssued string u32 bool u64 u64 u64 | ROFoundIssued string u32 bool u64 u64 u64
  | ROLeaveIssued string string u64 u32 | RONoteRetiringOrphan u32 string | RORetired string u32 u64
  | ROLeaveFailed string u64 | RONoteZombie u32 string | ROForgetZombie u32 | ROTakeZombies
  | ROSelfJoin u32 u64 | ROPeerJoin u32 u32 string u64 | ROPeerExit u32 u32 bool u64
  | ROJoinFail u32 bool u64 | ROKickedSelf u32 u64 | ROPacket u32 u32 string bool bytes u64
  | ROBufferLine string | ROTakeBufferedLines

fun rapply :: "(bytes \<Rightarrow> bytes option) \<Rightarrow> rop \<Rightarrow> registry \<Rightarrow> registry" where
  "rapply kp (ROSetConvention c) r = SetConvention c r"
| "rapply kp (ROSetAccepting b) r = SetAccepting b r"
| "rapply kp ROBumpGeneration r = BumpGeneration r"
| "rapply kp ROBeginInflight r = BeginInflight r"
| "rapply kp ROEndInflight r = EndInflight r"
| "rapply kp ROClear r = Clear r"
| "rapply kp (RORequestJoin sd name nk now) r = fst (RequestJoin kp sd name nk now r)"
| "rapply kp (RORequestLeave k now) r = fst (RequestLeave k now r)"
| "rapply kp (ROPlan now) r = fst (Plan now r)"
| "rapply kp (ROJoinIssued k gn ok now gen att) r = fst (OnJoinIssued k gn ok now gen att r)"
| "rapply kp (ROFoundIssued k gn ok now gen att) r = fst (OnFoundIssued k gn ok now gen att r)"
| "rapply kp (ROLeaveIssued k reason now gn) r = OnLeaveIssued k reason now gn r"
| "rapply kp (RONoteRetiringOrphan gn k) r = NoteRetiringOrphan gn k r"
| "rapply kp (RORetired k gn now) r = OnRetired k gn now r"
| "rapply kp (ROLeaveFailed k now) r = OnLeaveFailed k now r"
| "rapply kp (RONoteZombie gn k) r = NoteZombie gn k r"
| "rapply kp (ROForgetZombie gn) r = ForgetZombie gn r"
| "rapply kp ROTakeZombies r = fst (TakeZombies r)"
| "rapply kp (ROSelfJoin gn now) r = fst (OnSelfJoin gn now r)"
| "rapply kp (ROPeerJoin gn pid pk now) r = fst (OnPeerJoin gn pid pk now r)"
| "rapply kp (ROPeerExit gn pid sd now) r = fst (OnPeerExit gn pid sd now r)"
| "rapply kp (ROJoinFail gn lim now) r = fst (OnJoinFail gn lim now r)"
| "rapply kp (ROKickedSelf gn now) r = fst (OnKickedSelf gn now r)"
| "rapply kp (ROPacket gn pid pk pr pl now) r = fst (OnPacket gn pid pk pr pl now r)"
| "rapply kp (ROBufferLine l) r = fst (BufferLine l r)"
| "rapply kp ROTakeBufferedLines r = fst (TakeBufferedLines r)"

end
