(* ===== verification/RendezvousInvariants.thy ===== *)
theory RendezvousInvariants
  imports RendezvousGroups
begin

text \<open>
  What every reachable state of the rendezvous registry satisfies.

  \<open>cell_ok\<close> is the invariant of one cell under its key: key, chat id and seed belong together,
  a retiring cell holds a group and has nothing pending but a repeated leave, the budgets are
  within their limits. \<open>rinv\<close> adds that the maps have distinct keys, the line buffer is within
  its cap and the published snapshot of owned group numbers is exact. The proofs go operation by
  operation over three facts about storing a cell (\<open>rinv_put_same\<close>, \<open>rinv_publish\<close>,
  \<open>rbase_put\<close>).
\<close>

section \<open>The invariant\<close>

definition budget_ok :: "u32 \<Rightarrow> u64 \<Rightarrow> budget \<Rightarrow> bool" where
  "budget_ok max_count max_bytes b \<longleftrightarrow> packets b \<le> max_count \<and> nbytes b \<le> max_bytes"

definition cell_ok :: "(bytes \<Rightarrow> bytes option) \<Rightarrow> string \<Rightarrow> cell \<Rightarrow> bool" where
  "cell_ok kp k c \<longleftrightarrow>
     chat_id_hex c = k \<and> Hex (chat_id c) = k \<and> kp (seed c) = Some (chat_id c) \<and>
     IsValidNick (nick c) \<and> cell_name c \<noteq> [] \<and>
     (state c = kRetiring \<longrightarrow> \<not> pending_join c \<and> \<not> pending_found c \<and> group_number c \<noteq> UINT32_MAX) \<and>
     um_ok (peers c) \<and> um_ok (packet_budget c) \<and>
     (\<forall>pk b. um_find (packet_budget c) pk = Some b \<longrightarrow> budget_ok kPeerPacketsPerWindow kPeerBytesPerWindow b) \<and>
     packets (event_budget c) \<le> kPeerEventsPerWindow"

definition rbase :: "(bytes \<Rightarrow> bytes option) \<Rightarrow> registry \<Rightarrow> bool" where
  "rbase kp r \<longleftrightarrow>
     um_ok (cells r) \<and> um_ok (zombies r) \<and> um_ok (retiring_orphans r) \<and>
     (\<forall>k c. um_find (cells r) k = Some c \<longrightarrow> cell_ok kp k c) \<and>
     length (buffered_lines r) \<le> kMaxBufferedLines"

definition rinv :: "(bytes \<Rightarrow> bytes option) \<Rightarrow> registry \<Rightarrow> bool" where
  "rinv kp r \<longleftrightarrow> rbase kp r \<and> owned r = owned_numbers r"

section \<open>Owned numbers\<close>

lemma owned_numbers_iff:
  "um_ok (cells r) \<Longrightarrow> n \<in> owned_numbers r \<longleftrightarrow>
     (n \<noteq> UINT32_MAX \<and> (\<exists>k c. um_find (cells r) k = Some c \<and> group_number c = n)) \<or>
     n \<in> fst ` set (zombies r) \<or> n \<in> fst ` set (retiring_orphans r)"
  by (fastforce simp: owned_numbers_def um_in_set_iff [symmetric] image_iff)

lemma put_cell_simps [simp]:
  "cells (put_cell k c r) = um_put k c (cells r)" "zombies (put_cell k c r) = zombies r"
  "retiring_orphans (put_cell k c r) = retiring_orphans r" "owned (put_cell k c r) = owned r"
  "buffered_lines (put_cell k c r) = buffered_lines r" "generation (put_cell k c r) = generation r"
  "next_attempt (put_cell k c r) = next_attempt r" "accepting (put_cell k c r) = accepting r"
  "drops (put_cell k c r) = drops r"
  by (simp_all add: put_cell_def)

lemma erase_cell_simps [simp]:
  "cells (erase_cell k r) = um_erase k (cells r)" "zombies (erase_cell k r) = zombies r"
  "retiring_orphans (erase_cell k r) = retiring_orphans r" "owned (erase_cell k r) = owned r"
  "buffered_lines (erase_cell k r) = buffered_lines r" "generation (erase_cell k r) = generation r"
  "next_attempt (erase_cell k r) = next_attempt r" "accepting (erase_cell k r) = accepting r"
  by (simp_all add: erase_cell_def)

lemma publish_simps [simp]:
  "cells (PublishOwnedLocked r) = cells r" "zombies (PublishOwnedLocked r) = zombies r"
  "retiring_orphans (PublishOwnedLocked r) = retiring_orphans r"
  "buffered_lines (PublishOwnedLocked r) = buffered_lines r"
  "generation (PublishOwnedLocked r) = generation r" "accepting (PublishOwnedLocked r) = accepting r"
  "next_attempt (PublishOwnedLocked r) = next_attempt r"
  "owned (PublishOwnedLocked r) = owned_numbers r"
  by (simp_all add: PublishOwnedLocked_def)

lemma put_owned: "group_number c \<noteq> UINT32_MAX \<Longrightarrow> group_number c \<in> owned_numbers (put_cell k c r)"
  using um_put_mem [of k c "cells r"] by (force simp: owned_numbers_def)

lemma put_owned_eq: "group_number c = gn \<Longrightarrow> gn \<noteq> UINT32_MAX \<Longrightarrow> gn \<in> owned_numbers (put_cell k c r)"
  using put_owned by blast

lemma owned_numbers_cong:
  "cells r = cells s \<Longrightarrow> zombies r = zombies s \<Longrightarrow> retiring_orphans r = retiring_orphans s \<Longrightarrow>
     owned_numbers r = owned_numbers s"
  by (simp add: owned_numbers_def)

lemma rbase_cong:
  "cells r = cells s \<Longrightarrow> zombies r = zombies s \<Longrightarrow> retiring_orphans r = retiring_orphans s \<Longrightarrow>
     buffered_lines r = buffered_lines s \<Longrightarrow> rbase kp r = rbase kp s"
  by (simp add: rbase_def)

lemma rinv_publish: "rbase kp r \<Longrightarrow> rinv kp (PublishOwnedLocked r)"
  by (auto simp: rinv_def rbase_def owned_numbers_def)

lemma rbase_put: "rbase kp r \<Longrightarrow> cell_ok kp k c \<Longrightarrow> rbase kp (put_cell k c r)"
  by (auto simp: rbase_def umap_simps)

lemma rinv_publish_put: "rinv kp r \<Longrightarrow> cell_ok kp k c \<Longrightarrow> rinv kp (PublishOwnedLocked (put_cell k c r))"
  by (auto simp: rinv_def [of kp r] intro!: rinv_publish rbase_put)

lemma rbase_erase: "rbase kp r \<Longrightarrow> rbase kp (erase_cell k r)"
  by (auto simp: rbase_def umap_simps)

lemma owned_numbers_put_same:
  assumes "um_ok (cells r)"
    and "group_number c' = (case um_find (cells r) k of Some c \<Rightarrow> group_number c | None \<Rightarrow> UINT32_MAX)"
  shows "owned_numbers (put_cell k c' r) = owned_numbers r"
proof (rule set_eqI)
  fix n
  have "n \<noteq> UINT32_MAX \<Longrightarrow> (\<exists>j c. um_find (um_put k c' (cells r)) j = Some c \<and> group_number c = n) \<longleftrightarrow>
      (\<exists>j c. um_find (cells r) j = Some c \<and> group_number c = n)"
    (is "_ \<Longrightarrow> ?L \<longleftrightarrow> ?R")
  proof
    show "?L \<Longrightarrow> ?R" if "n \<noteq> UINT32_MAX"
      using that assms(2) by (auto simp: umap_simps split: if_splits option.splits)
    show "?R \<Longrightarrow> ?L" if "n \<noteq> UINT32_MAX"
    proof -
      assume ?R
      then obtain j c where j: "um_find (cells r) j = Some c" "group_number c = n" by blast
      show ?L
      proof (cases "j = k")
        case True
        then have "um_find (um_put k c' (cells r)) j = Some c'" "group_number c' = n"
          using j assms(2) by (simp_all add: umap_simps)
        then show ?L by blast
      next
        case False
        then have "um_find (um_put k c' (cells r)) j = Some c" using j by (simp add: umap_simps)
        then show ?L using j by blast
      qed
    qed
  qed
  then show "n \<in> owned_numbers (put_cell k c' r) \<longleftrightarrow> n \<in> owned_numbers r"
    using assms(1) by (auto simp: owned_numbers_iff)
qed

lemma rinv_put_same:
  assumes "rinv kp r" "cell_ok kp k c'"
    and "group_number c' = (case um_find (cells r) k of Some c \<Rightarrow> group_number c | None \<Rightarrow> UINT32_MAX)"
  shows "rinv kp (put_cell k c' r)"
proof -
  have r: "rbase kp r" "owned r = owned_numbers r" using assms(1) by (simp_all add: rinv_def)
  then have "owned_numbers (put_cell k c' r) = owned_numbers r"
    using assms(3) by (intro owned_numbers_put_same) (simp_all add: rbase_def)
  then show ?thesis using r assms(2) by (simp add: rinv_def rbase_put)
qed

lemma FindByGroup_Some:
  assumes "um_ok (cells r)" "FindByGroupLocked r gn = Some (k, c)"
  shows "um_find (cells r) k = Some c" "group_number c = gn" "gn \<noteq> UINT32_MAX"
  using assms by (auto simp: FindByGroupLocked_def find_Some_iff um_in_set_iff [symmetric] split: if_splits)
    (metis nth_mem)

lemma cell_okD: "rinv kp r \<Longrightarrow> um_find (cells r) k = Some c \<Longrightarrow> cell_ok kp k c"
  by (simp add: rinv_def rbase_def)

lemma rinv_ok: "rinv kp r \<Longrightarrow> um_ok (cells r)"
  by (simp add: rinv_def rbase_def)

section \<open>Cells\<close>

lemma EnterBackoff_fields [simp]:
  "chat_id_hex (EnterBackoffLocked now c) = chat_id_hex c" "chat_id (EnterBackoffLocked now c) = chat_id c"
  "seed (EnterBackoffLocked now c) = seed c" "nick (EnterBackoffLocked now c) = nick c"
  "cell_name (EnterBackoffLocked now c) = cell_name c"
  "group_number (EnterBackoffLocked now c) = group_number c" "attempt (EnterBackoffLocked now c) = attempt c"
  "state (EnterBackoffLocked now c) \<noteq> kRetiring" "peers (EnterBackoffLocked now c) = []"
  "packet_budget (EnterBackoffLocked now c) = []" "event_budget (EnterBackoffLocked now c) = event_budget c"
  "pending_leave (EnterBackoffLocked now c) = pending_leave c"
  "pending_join (EnterBackoffLocked now c) = pending_join c"
  "pending_found (EnterBackoffLocked now c) = pending_found c"
  "state (EnterBackoffLocked now c) \<noteq> kJoined" "state (EnterBackoffLocked now c) \<noteq> kJoining"
  "announced (EnterBackoffLocked now c) = False"
  by (simp_all add: EnterBackoffLocked_def Let_def)

lemma cell_ok_backoff:
  "cell_ok kp k (c\<lparr>state := kJoining, peers := [], packet_budget := []\<rparr>) \<Longrightarrow> cell_ok kp k (EnterBackoffLocked now c)"
  by (simp add: cell_ok_def)

lemma plan_timers_fields [simp]:
  "chat_id_hex (plan_timers now c) = chat_id_hex c" "chat_id (plan_timers now c) = chat_id c"
  "seed (plan_timers now c) = seed c" "nick (plan_timers now c) = nick c"
  "cell_name (plan_timers now c) = cell_name c" "attempt (plan_timers now c) = attempt c"
  "group_number (plan_timers now c) = group_number c" "event_budget (plan_timers now c) = event_budget c"
  by (simp_all add: plan_timers_def split: cell_state.split)

lemma plan_timers_ok:
  assumes "cell_ok kp k c" "state c \<noteq> kRetiring"
  shows "cell_ok kp k (plan_timers now c)" "state (plan_timers now c) \<noteq> kRetiring"
proof -
  show "state (plan_timers now c) \<noteq> kRetiring"
    using assms(2) by (simp add: plan_timers_def split: cell_state.split)
  show "cell_ok kp k (plan_timers now c)"
    using assms by (auto simp: plan_timers_def cell_ok_def split: cell_state.split)
qed

lemma plan_cell_ok:
  assumes "cell_ok kp k c"
  shows "cell_ok kp k (fst (plan_cell acc gen blocked now c))"
    and "group_number (fst (plan_cell acc gen blocked now c)) = group_number c"
    and "attempt (fst (plan_cell acc gen blocked now c)) = attempt c"
proof -
  show "group_number (fst (plan_cell acc gen blocked now c)) = group_number c"
    "attempt (fst (plan_cell acc gen blocked now c)) = attempt c"
    by (simp_all add: plan_cell_def plan_emit_def)
  show "cell_ok kp k (fst (plan_cell acc gen blocked now c))"
  proof (cases "state c = kRetiring")
    case True
    then show ?thesis using assms by (simp add: plan_cell_def)
  next
    case False
    then show ?thesis
      using plan_timers_ok [OF assms False, of now] by (auto simp: plan_cell_def plan_emit_def cell_ok_def)
  qed
qed

section \<open>Budgets\<close>

lemma ConsumeBudget_ok:
  assumes "budget_ok max_count max_bytes b"
  shows "budget_ok max_count max_bytes (fst (ConsumeBudget b now max_count max_bytes n))"
  using assms by (auto simp: ConsumeBudget_def Let_def budget_ok_def not_less)

lemma new_budget_ok: "budget_ok max_count max_bytes new_budget"
  by (simp add: budget_ok_def new_budget_def)

lemma ConsumeBudget_packets:
  "packets b \<le> max_count \<Longrightarrow> packets (fst (ConsumeBudget b now max_count max_bytes n)) \<le> max_count"
  by (auto simp: ConsumeBudget_def Let_def not_less)

lemma PeerEvent_fields:
  assumes "PeerEventLocked c pk j now = (c', line)"
  shows "chat_id_hex c' = chat_id_hex c" "group_number c' = group_number c" "attempt c' = attempt c"
    "state c' = state c" "announced c' = announced c"
  using assms by (auto simp: PeerEventLocked_def Let_def split: prod.splits if_splits)

lemma PeerEvent_ok:
  assumes "cell_ok kp k c" "PeerEventLocked c pk j now = (c', line)"
  shows "cell_ok kp k c'"
proof -
  obtain b ok where b: "ConsumeBudget (event_budget c) now kPeerEventsPerWindow 0xFFFFFFFFFFFFFFFF 0 = (b, ok)"
    by (cases "ConsumeBudget (event_budget c) now kPeerEventsPerWindow 0xFFFFFFFFFFFFFFFF 0")
  have "packets b \<le> kPeerEventsPerWindow"
    using ConsumeBudget_packets [of "event_budget c" kPeerEventsPerWindow now] assms(1) b
    by (metis cell_ok_def fst_conv)
  then show ?thesis using assms b by (auto simp: PeerEventLocked_def Let_def cell_ok_def split: if_splits)
qed

section \<open>Operations keep the invariant\<close>

lemma rinv_RequestJoin: "rinv kp r \<Longrightarrow> rinv kp (fst (RequestJoin kp sd name nk now r))"
proof -
  assume r: "rinv kp r"
  show ?thesis
  proof (cases "name = [] \<or> \<not> IsValidNick nk \<or> kp sd = None \<or> \<not> accepting r")
    case True
    then show ?thesis using r by (auto simp: RequestJoin_def DeriveChatId_def Let_def split: option.splits)
  next
    case False
    then obtain cid where cid: "kp sd = Some cid" by auto
    show ?thesis
    proof (cases "um_find (cells r) (Hex cid)")
      case None
      let ?r = "r\<lparr>next_attempt := next_attempt r + 1\<rparr>"
      have "rinv kp ?r" using r by (simp add: rinv_def rbase_def owned_numbers_def)
      then show ?thesis using False None cid
        by (auto simp: RequestJoin_def DeriveChatId_def Let_def new_cell_def new_budget_def cell_ok_def intro!: rinv_put_same)
    next
      case (Some c)
      then show ?thesis using False cid r cell_okD [OF r Some]
        by (auto simp: RequestJoin_def DeriveChatId_def Let_def cell_ok_def intro!: rinv_put_same)
    qed
  qed
qed

lemma rinv_RequestLeave: "rinv kp r \<Longrightarrow> rinv kp (fst (RequestLeave k now r))"
proof -
  assume r: "rinv kp r"
  show ?thesis
  proof (cases "um_find (cells r) k")
    case None
    then show ?thesis using r by (simp add: RequestLeave_def)
  next
    case (Some c)
    have "rbase kp (erase_cell k r)" using r by (simp add: rinv_def rbase_erase)
    then show ?thesis using Some r cell_okD [OF r Some]
      by (auto simp: RequestLeave_def Let_def cell_ok_def intro!: rinv_put_same rinv_publish)
  qed
qed

lemma map_of_planned:
  "um_find (map (\<lambda>(k, c). (k, f c)) m) k = map_option f (um_find m k)"
  by (induction m) auto

lemma um_ok_map: "um_ok (map (\<lambda>(k, c). (k, f c)) m) = um_ok m"
  by (simp add: um_ok_def comp_def case_prod_beta)

lemma Plan_cells:
  "cells (fst (Plan now r)) =
     map (\<lambda>(k, c). (k, fst (plan_cell (accepting r) (generation r) (set (map snd (retiring_orphans r))) now c))) (cells r)"
  by (simp add: Plan_def Let_def comp_def case_prod_beta)

lemma Plan_frame [simp]:
  "zombies (fst (Plan now r)) = zombies r" "retiring_orphans (fst (Plan now r)) = retiring_orphans r"
  "owned (fst (Plan now r)) = owned r" "buffered_lines (fst (Plan now r)) = buffered_lines r"
  "generation (fst (Plan now r)) = generation r" "next_attempt (fst (Plan now r)) = next_attempt r"
  "accepting (fst (Plan now r)) = accepting r"
  by (simp_all add: Plan_def Let_def)

lemma plan_cell_group [simp]: "group_number (fst (plan_cell acc gen bl now c)) = group_number c"
  by (simp add: plan_cell_def plan_emit_def)

lemma rinv_Plan: "rinv kp r \<Longrightarrow> rinv kp (fst (Plan now r))"
proof -
  assume r: "rinv kp r"
  have "owned_numbers (fst (Plan now r)) = owned_numbers r"
    by (simp add: owned_numbers_def Plan_cells comp_def case_prod_beta)
  moreover have "rbase kp (fst (Plan now r))"
    using r by (auto simp: rinv_def rbase_def Plan_cells map_of_planned um_ok_map intro: plan_cell_ok(1))
  ultimately show ?thesis using r by (simp add: rinv_def)
qed

lemma rinv_OnJoinIssued: "rinv kp r \<Longrightarrow> rinv kp (fst (OnJoinIssued k gn ok now gen att r))"
proof -
  assume r: "rinv kp r"
  have "cell_ok kp k c" if "um_find (cells r) k = Some c" for c using cell_okD [OF r that] .
  then show ?thesis using r
    by (auto simp: OnJoinIssued_def Let_def cell_ok_def split: option.splits intro!: rinv_publish_put)
qed

lemma rinv_OnFoundIssued: "rinv kp r \<Longrightarrow> rinv kp (fst (OnFoundIssued k gn ok now gen att r))"
proof -
  assume r: "rinv kp r"
  have "cell_ok kp k c" if "um_find (cells r) k = Some c" for c using cell_okD [OF r that] .
  then show ?thesis using r
    by (auto simp: OnFoundIssued_def Let_def cell_ok_def split: option.splits intro!: rinv_publish_put)
qed

lemma rbase_FinishRetire:
  assumes r: "rbase kp r" and c: "cell_ok kp k c" "\<not> pending_join c" "\<not> pending_found c"
  shows "rbase kp (FinishRetireLocked k c now r)"
proof -
  have "rbase kp (r\<lparr>next_attempt := n\<rparr>)" for n using r by (simp add: rbase_def)
  then show ?thesis using r c
    by (auto simp: FinishRetireLocked_def Let_def cell_ok_def intro!: rbase_put rbase_erase)
qed

lemma rinv_OnLeaveIssued: "rinv kp r \<Longrightarrow> rinv kp (OnLeaveIssued k reason now gn r)"
proof -
  assume r: "rinv kp r"
  then have b: "rbase kp r" by (simp add: rinv_def)
  show ?thesis
  proof (cases "um_find (cells r) k")
    case None
    then show ?thesis using r by (simp add: OnLeaveIssued_def)
  next
    case (Some c)
    let ?c = "c\<lparr>peers := [], packet_budget := [], self_joined := False, announced := False,
       pending_leave := False, pending_join := False, pending_found := False,
       retire_reason := reason, state_before_retire := state c, state_since_ms := now\<rparr>"
    have c: "cell_ok kp k ?c" "group_number c \<noteq> UINT32_MAX \<Longrightarrow> cell_ok kp k (?c\<lparr>state := kRetiring\<rparr>)"
      using cell_okD [OF r Some] by (auto simp: cell_ok_def)
    show ?thesis using r Some rinv_publish [OF rbase_FinishRetire [OF b c(1)]] rinv_publish [OF rbase_put [OF b c(2)]]
      by (simp add: OnLeaveIssued_def Let_def)
  qed
qed

lemma rinv_OnRetired: "rinv kp r \<Longrightarrow> rinv kp (OnRetired k gn now r)"
proof -
  assume r: "rinv kp r"
  let ?r1 = "if um_find (retiring_orphans r) gn = Some k
    then r\<lparr>retiring_orphans := um_erase gn (retiring_orphans r)\<rparr> else r"
  have r1: "rbase kp ?r1" "cells ?r1 = cells r" using r by (auto simp: rinv_def rbase_def)
  show ?thesis
  proof (cases "um_find (cells r) k")
    case None
    then show ?thesis using rinv_publish [OF r1(1)] r1(2) by (simp add: OnRetired_def Let_def)
  next
    case (Some c)
    have c: "cell_ok kp k c" using cell_okD [OF r Some] .
    then have "state c = kRetiring \<Longrightarrow> \<not> pending_join c \<and> \<not> pending_found c" by (simp add: cell_ok_def)
    then have "rbase kp (if state c = kRetiring \<and> group_number c = gn then FinishRetireLocked k c now ?r1 else ?r1)"
      using r1 rbase_FinishRetire [OF r1(1) c] by simp
    then show ?thesis using rinv_publish r1(2) Some by (simp only: OnRetired_def Let_def option.case)
  qed
qed

lemma rinv_OnLeaveFailed: "rinv kp r \<Longrightarrow> rinv kp (OnLeaveFailed k now r)"
  using cell_okD [of kp r k]
  by (auto simp: OnLeaveFailed_def cell_ok_def split: option.splits intro!: rinv_put_same)

lemma rinv_frame:
  "rinv kp r \<Longrightarrow> cells s = cells r \<Longrightarrow> zombies s = zombies r \<Longrightarrow> retiring_orphans s = retiring_orphans r \<Longrightarrow>
     owned s = owned r \<Longrightarrow> length (buffered_lines s) \<le> kMaxBufferedLines \<Longrightarrow> rinv kp s"
  by (auto simp: rinv_def rbase_def owned_numbers_def)

lemma rinv_lines: "rinv kp r \<Longrightarrow> length (buffered_lines r) \<le> kMaxBufferedLines"
  by (simp add: rinv_def rbase_def)

lemma rinv_count_drop: "rinv kp r \<Longrightarrow> rinv kp (count_drop r)"
  by (rule rinv_frame) (simp_all add: count_drop_def rinv_lines)

text \<open>A callback finds its cell by group number; what it writes keeps that number.\<close>

lemma rinv_put_found:
  assumes "rinv kp r" "FindByGroupLocked r gn = Some (k, c)" "group_number c' = gn" "cell_ok kp k c'"
  shows "rinv kp (put_cell k c' r)"
  using assms FindByGroup_Some [OF rinv_ok [OF assms(1)] assms(2)] by (intro rinv_put_same) simp_all

lemma cell_ok_found: "rinv kp r \<Longrightarrow> FindByGroupLocked r gn = Some (k, c) \<Longrightarrow> cell_ok kp k c \<and> group_number c = gn"
  using FindByGroup_Some [OF rinv_ok] cell_okD by blast

lemma found_cases:
  assumes "rinv kp r"
  obtains "FindByGroupLocked r gn = None"
  | k c where "FindByGroupLocked r gn = Some (k, c)" "cell_ok kp k c" "group_number c = gn"
      "\<And>c'. cell_ok kp k c' \<Longrightarrow> group_number c' = gn \<Longrightarrow> rinv kp (put_cell k c' r)"
  using rinv_put_found [OF assms, of gn] cell_ok_found [OF assms, of gn]
  by (cases "FindByGroupLocked r gn") auto

lemma rinv_OnSelfJoin: "rinv kp r \<Longrightarrow> rinv kp (fst (OnSelfJoin gn now r))"
  by (cases rule: found_cases [of kp r gn]) (auto simp: OnSelfJoin_def Let_def cell_ok_def)

lemma peer_join_cell_ok:
  assumes "cell_ok kp k c" "state c \<noteq> kRetiring" "peer_join_cell pid pk now c = (c', ls)"
  shows "cell_ok kp k c'" "group_number c' = group_number c" "attempt c' = attempt c"
proof -
  define c3 where "c3 = (if state c = kJoining
    then c\<lparr>peers := um_put pid pk (peers c), had_peers := True, state := kJoined, state_since_ms := now, retries := 0\<rparr>
    else c\<lparr>peers := um_put pid pk (peers c), had_peers := True\<rparr>)\<lparr>announced := True\<rparr>"
  obtain l where e: "PeerEventLocked c3 pk True now = (c', l)"
    using assms(3) by (auto simp: peer_join_cell_def Let_def c3_def split: prod.splits if_splits)
  have "cell_ok kp k c3" "group_number c3 = group_number c" "attempt c3 = attempt c"
    using assms(1,2) by (auto simp: c3_def cell_ok_def)
  then show "cell_ok kp k c'" "group_number c' = group_number c" "attempt c' = attempt c"
    using PeerEvent_ok [OF _ e] PeerEvent_fields [OF e] by simp_all
qed

lemma peer_exit_cell_ok:
  assumes "cell_ok kp k c" "peer_exit_cell pid pk sd now c = (c', l)"
  shows "cell_ok kp k c'" "group_number c' = group_number c" "attempt c' = attempt c"
proof -
  define c2 where "c2 = (let d = c\<lparr>peers := um_erase pid (peers c)\<rparr> in
    if peers d = [] then d\<lparr>empty_since_ms := now\<rparr> else d)"
  have c2: "cell_ok kp k c2" "group_number c2 = group_number c" "attempt c2 = attempt c"
    using assms(1) by (auto simp: c2_def cell_ok_def Let_def)
  have "(if sd then (c2, None) else PeerEventLocked c2 pk False now) = (c', l)"
    using assms(2) by (simp only: peer_exit_cell_def c2_def Let_def)
  then show "cell_ok kp k c'" "group_number c' = group_number c" "attempt c' = attempt c"
    using c2 PeerEvent_ok [OF c2(1)] PeerEvent_fields [of c2 pk False now c' l] by (auto split: if_splits)
qed

lemma packet_cell_ok:
  assumes "cell_ok kp k c" "packet_cell pid ppk pr pl now c = (c', v, l)"
  shows "cell_ok kp k c'" "group_number c' = group_number c" "attempt c' = attempt c"
proof -
  define pk where "pk = (if ppk = [] then (case um_find (peers c) pid of Some p \<Rightarrow> p | None \<Rightarrow> []) else ppk)"
  define c1 where "c1 = (if ppk \<noteq> [] \<and> um_find (peers c) pid = None
    then c\<lparr>peers := um_put pid pk (peers c)\<rparr> else c)"
  define b where "b = (case um_find (packet_budget c1) pk of Some b \<Rightarrow> b | None \<Rightarrow> new_budget)"
  define b' where "b' = fst (ConsumeBudget b now kPeerPacketsPerWindow kPeerBytesPerWindow (word_of_nat (length pl)))"
  have c1: "cell_ok kp k c1" "group_number c1 = group_number c" "attempt c1 = attempt c"
    using assms(1) by (auto simp: c1_def cell_ok_def)
  have "budget_ok kPeerPacketsPerWindow kPeerBytesPerWindow b"
    using c1(1) new_budget_ok by (auto simp: b_def cell_ok_def split: option.splits)
  then have "budget_ok kPeerPacketsPerWindow kPeerBytesPerWindow b'"
    unfolding b'_def by (rule ConsumeBudget_ok)
  then have c2: "cell_ok kp k (c1\<lparr>packet_budget := um_put pk b' (packet_budget c1)\<rparr>)"
    using c1(1) by (auto simp: cell_ok_def umap_simps)
  have "c' = (if pk = [] then c1 else c1\<lparr>packet_budget := um_put pk b' (packet_budget c1)\<rparr>)"
    using assms(2) unfolding packet_cell_def pk_def [symmetric] Let_def c1_def [symmetric] b_def [symmetric]
    by (auto simp: b'_def case_prod_beta split: if_splits)
  then show "cell_ok kp k c'" "group_number c' = group_number c" "attempt c' = attempt c"
    using c1 c2 by simp_all
qed

lemma rinv_OnPeerJoin: "rinv kp r \<Longrightarrow> rinv kp (fst (OnPeerJoin gn pid pk now r))"
proof -
  assume r: "rinv kp r"
  then show ?thesis
  proof (cases rule: found_cases [of kp r gn])
    case (2 k c)
    obtain c' ls where e: "peer_join_cell pid pk now c = (c', ls)" by (cases "peer_join_cell pid pk now c")
    show ?thesis using 2 r e peer_join_cell_ok [OF 2(2) _ e] by (simp add: OnPeerJoin_def)
  qed (simp add: OnPeerJoin_def r)
qed

lemma rinv_OnPeerExit: "rinv kp r \<Longrightarrow> rinv kp (fst (OnPeerExit gn pid sd now r))"
proof -
  assume r: "rinv kp r"
  then show ?thesis
  proof (cases rule: found_cases [of kp r gn])
    case (2 k c)
    have "rinv kp (put_cell k (fst (peer_exit_cell pid pk sd now c)) r)" for pk
      using 2 peer_exit_cell_ok [OF 2(2), of pid pk sd now "fst (peer_exit_cell pid pk sd now c)"
          "snd (peer_exit_cell pid pk sd now c)"] by simp
    then show ?thesis using 2 r by (simp add: OnPeerExit_def case_prod_beta split: option.split)
  qed (simp add: OnPeerExit_def r)
qed

lemma rinv_OnPacket: "rinv kp r \<Longrightarrow> rinv kp (fst (OnPacket gn pid pk pr pl now r))"
proof -
  assume r: "rinv kp r"
  then show ?thesis
  proof (cases rule: found_cases [of kp r gn])
    case (2 k c)
    obtain c' v l where e: "packet_cell pid pk pr pl now c = (c', v, l)" by (cases "packet_cell pid pk pr pl now c")
    have "rinv kp (put_cell k c' r)" using 2 packet_cell_ok [OF 2(2) e] by simp
    then show ?thesis using 2 r e by (simp add: OnPacket_def rinv_count_drop)
  qed (simp add: OnPacket_def r rinv_count_drop)
qed

lemma rinv_OnJoinFail: "rinv kp r \<Longrightarrow> rinv kp (fst (OnJoinFail gn lim now r))"
  by (cases rule: found_cases [of kp r gn]) (auto simp: OnJoinFail_def Let_def cell_ok_def)

lemma rinv_OnKickedSelf: "rinv kp r \<Longrightarrow> rinv kp (fst (OnKickedSelf gn now r))"
  by (cases rule: found_cases [of kp r gn]) (auto simp: OnKickedSelf_def Let_def cell_ok_def)

lemma rinv_zombies_orphans:
  assumes "rinv kp r"
  shows "rinv kp (NoteZombie gn k r)" "rinv kp (ForgetZombie gn r)" "rinv kp (NoteRetiringOrphan gn k r)"
    "rinv kp (fst (TakeZombies r))" "rinv kp (Clear r)"
  using assms
  by (auto simp: NoteZombie_def ForgetZombie_def NoteRetiringOrphan_def TakeZombies_def Clear_def rinv_def [of kp r]
      rbase_def intro!: rinv_publish)

lemma rinv_admission:
  assumes "rinv kp r"
  shows "rinv kp (SetConvention c r)" "rinv kp (SetAccepting b r)" "rinv kp (BumpGeneration r)"
    "rinv kp (BeginInflight r)" "rinv kp (EndInflight r)" "rinv kp (fst (TakeBufferedLines r))"
    "rinv kp (fst (BufferLine l r))"
  using assms rinv_lines [OF assms]
  by (auto simp: SetConvention_def SetAccepting_def BumpGeneration_def BeginInflight_def EndInflight_def
      TakeBufferedLines_def BufferLine_def count_drop_def intro!: rinv_frame [OF assms])

lemmas rinv_ops = rinv_RequestJoin rinv_RequestLeave rinv_Plan rinv_OnJoinIssued rinv_OnFoundIssued
  rinv_OnLeaveIssued rinv_OnRetired rinv_OnLeaveFailed rinv_OnSelfJoin rinv_OnPeerJoin rinv_OnPeerExit
  rinv_OnJoinFail rinv_OnKickedSelf rinv_OnPacket rinv_zombies_orphans rinv_admission

lemma rinv_rapply: "rinv kp r \<Longrightarrow> rinv kp (rapply kp op r)"
  by (cases op) (simp_all add: rinv_ops)

lemma rinv_new: "rinv kp new_registry"
  by (simp add: rinv_def rbase_def new_registry_def owned_numbers_def)

interpretation rendezvous: state_system "\<lambda>r. r = new_registry" "\<lambda>r s. \<exists>op. s = rapply kp op r" "rinv kp" for kp
proof unfold_locales
  show "r = new_registry \<Longrightarrow> rinv kp r" for r by (simp add: rinv_new)
qed (auto simp: rinv_rapply)

lemma rinv_run: "rinv kp r \<Longrightarrow> rinv kp (fold (rapply kp) ops r)"
  by (induction ops arbitrary: r) (simp_all add: rinv_rapply)

lemma run_path: "(\<lambda>r s. \<exists>op. s = rapply kp op r)\<^sup>*\<^sup>* r (fold (rapply kp) ops r)"
proof (induction ops arbitrary: r)
  case (Cons op ops)
  have "(\<lambda>r s. \<exists>op. s = rapply kp op r) r (rapply kp op r)" by blast
  then show ?case using Cons by (auto intro: converse_rtranclp_into_rtranclp)
qed simp

end
