(* ===== verification/RendezvousAttempts.thy ===== *)
theory RendezvousAttempts
  imports RendezvousInvariants
begin

text \<open>
  Attempt numbers of the rendezvous registry. Every fresh attempt of a cell (a new cell, a
  rejoin, a refound) takes the next value of one 64-bit counter. \<open>att_step\<close> says of every
  operation that it keeps or drops the attempts of the cells, or gives one cell the counter's
  value and counts up. While the counter has not wrapped, attempts of different cells differ,
  no cell has an attempt the counter has not passed, and an attempt, once gone, never returns.
\<close>

text \<open>The attempts after a step, against those before.\<close>

definition att_ext :: "registry \<Rightarrow> registry \<Rightarrow> bool" where
  "att_ext r s \<longleftrightarrow>
     (next_attempt s = next_attempt r \<and> AttemptOf s \<subseteq>\<^sub>m AttemptOf r) \<or>
     (next_attempt s = next_attempt r + 1 \<and> (\<exists>k. AttemptOf s \<subseteq>\<^sub>m (AttemptOf r)(k \<mapsto> next_attempt r)))"

lemma AttemptOf_put [simp]: "AttemptOf (put_cell k c r) = (AttemptOf r)(k \<mapsto> attempt c)"
  by (simp add: AttemptOf_def fun_eq_iff umap_simps)

lemma AttemptOf_erase [simp]: "AttemptOf (erase_cell k r) = (AttemptOf r)(k := None)"
  by (simp add: AttemptOf_def fun_eq_iff umap_simps)

lemma AttemptOf_publish [simp]: "AttemptOf (PublishOwnedLocked r) = AttemptOf r"
  by (simp add: AttemptOf_def fun_eq_iff)

lemma AttemptOf_cong: "cells s = cells r \<Longrightarrow> AttemptOf s = AttemptOf r"
  by (simp add: AttemptOf_def fun_eq_iff)

lemma att_ext_refl [simp]: "att_ext r r"
  by (simp add: att_ext_def)

lemma att_ext_same: "cells s = cells r \<Longrightarrow> next_attempt s = next_attempt r \<Longrightarrow> att_ext r s"
  using AttemptOf_cong [of s r] by (simp add: att_ext_def)

lemma att_ext_fewer: "cells s = [] \<Longrightarrow> next_attempt s = next_attempt r \<Longrightarrow> att_ext r s"
  by (simp add: att_ext_def AttemptOf_def map_le_def dom_def)

lemma att_ext_put: "um_find (cells r) k = Some c \<Longrightarrow> attempt c' = attempt c \<Longrightarrow> att_ext r (put_cell k c' r)"
  by (auto simp: att_ext_def map_le_def) (auto simp: AttemptOf_def)

lemma att_ext_erase: "att_ext r (erase_cell k r)"
  by (auto simp: att_ext_def map_le_def)

lemma att_ext_fresh:
  "attempt c = next_attempt r \<Longrightarrow> att_ext r (put_cell k c (r\<lparr>next_attempt := next_attempt r + 1\<rparr>))"
  by (auto simp: att_ext_def map_le_def) (auto simp: AttemptOf_def)

lemma att_ext_publish [simp]: "att_ext r (PublishOwnedLocked s) = att_ext r s"
  by (simp add: att_ext_def)

lemma att_ext_drop [simp]: "att_ext r (count_drop s) = att_ext r s"
  using AttemptOf_cong [of "count_drop s" s] by (simp add: att_ext_def count_drop_def)

lemma att_ext_Plan: "att_ext r (fst (Plan now r))"
proof -
  have "attempt (fst (plan_cell acc gen bl now c)) = attempt c" for acc gen bl c
    by (simp add: plan_cell_def plan_emit_def)
  then have "AttemptOf (fst (Plan now r)) = AttemptOf r"
    by (simp add: AttemptOf_def fun_eq_iff Plan_cells map_of_planned option.map_comp comp_def)
  then show ?thesis by (simp add: att_ext_def)
qed

lemma att_ext_FinishRetire:
  assumes "um_find (cells r) k = Some d" "attempt c = attempt d"
  shows "att_ext r (FinishRetireLocked k c now r)"
  using assms
  by (auto simp: FinishRetireLocked_def Let_def intro!: att_ext_fresh att_ext_erase intro: att_ext_put [of r k d])

lemma att_ext_found:
  assumes "rinv kp r" "FindByGroupLocked r gn = Some (k, c)" "attempt c' = attempt c"
  shows "att_ext r (put_cell k c' r)"
  using FindByGroup_Some [OF rinv_ok [OF assms(1)] assms(2)] assms(3) by (auto intro: att_ext_put)

lemma att_ext_requests:
  "att_ext r (fst (RequestJoin kp sd name nk now r))" "att_ext r (fst (RequestLeave k now r))"
  "att_ext r (fst (OnJoinIssued k gn ok now gen att r))" "att_ext r (fst (OnFoundIssued k gn ok now gen att r))"
  "att_ext r (OnLeaveFailed k now r)"
  by (auto simp: RequestJoin_def RequestLeave_def OnJoinIssued_def OnFoundIssued_def OnLeaveFailed_def Let_def
      split: option.splits intro: att_ext_put att_ext_fresh att_ext_erase)

lemma att_ext_OnLeaveIssued: "att_ext r (OnLeaveIssued k reason now gn r)"
  by (auto simp: OnLeaveIssued_def Let_def split: option.splits intro: att_ext_put att_ext_FinishRetire)

lemma att_ext_OnRetired: "att_ext r (OnRetired k gn now r)"
proof -
  let ?r1 = "if um_find (retiring_orphans r) gn = Some k
    then r\<lparr>retiring_orphans := um_erase gn (retiring_orphans r)\<rparr> else r"
  have "cells ?r1 = cells r" "next_attempt ?r1 = next_attempt r" by simp_all
  then have ext: "att_ext ?r1 s \<Longrightarrow> att_ext r s" for s
    using AttemptOf_cong [of ?r1 r] by (simp only: att_ext_def)
  show ?thesis unfolding OnRetired_def Let_def att_ext_publish
    by (rule ext) (auto split: option.splits intro: att_ext_FinishRetire)
qed

lemma att_ext_callbacks:
  assumes r: "rinv kp r"
  shows "att_ext r (fst (OnSelfJoin gn now r))" "att_ext r (fst (OnPeerJoin gn pid pk now r))"
    "att_ext r (fst (OnPeerExit gn pid sd now r))" "att_ext r (fst (OnJoinFail gn lim now r))"
    "att_ext r (fst (OnKickedSelf gn now r))" "att_ext r (fst (OnPacket gn pid pk pr pl now r))"
proof -
  note att_ext_found [OF r, intro]
  show "att_ext r (fst (OnSelfJoin gn now r))" "att_ext r (fst (OnJoinFail gn lim now r))"
    "att_ext r (fst (OnKickedSelf gn now r))"
    by (auto simp: OnSelfJoin_def OnJoinFail_def OnKickedSelf_def Let_def split: option.splits)
  show "att_ext r (fst (OnPeerJoin gn pid pk now r))"
    using cell_ok_found [OF r, of gn]
    by (auto simp: OnPeerJoin_def split: option.splits prod.splits dest: peer_join_cell_ok(3) [rotated 2])
  show "att_ext r (fst (OnPeerExit gn pid sd now r))"
    using cell_ok_found [OF r, of gn]
    by (auto simp: OnPeerExit_def split: option.splits prod.splits dest: peer_exit_cell_ok(3) [rotated])
  show "att_ext r (fst (OnPacket gn pid pk pr pl now r))"
    using cell_ok_found [OF r, of gn]
    by (auto simp: OnPacket_def split: option.splits prod.splits dest: packet_cell_ok(3) [rotated])
qed

lemma att_ext_bookkeeping:
  "att_ext r (SetConvention c r)" "att_ext r (SetAccepting b r)" "att_ext r (BumpGeneration r)"
  "att_ext r (BeginInflight r)" "att_ext r (EndInflight r)" "att_ext r (fst (TakeBufferedLines r))"
  "att_ext r (fst (BufferLine l r))" "att_ext r (NoteZombie gn k r)" "att_ext r (ForgetZombie gn r)"
  "att_ext r (NoteRetiringOrphan gn k r)" "att_ext r (fst (TakeZombies r))" "att_ext r (Clear r)"
  by (auto simp: SetConvention_def SetAccepting_def BumpGeneration_def BeginInflight_def EndInflight_def
      TakeBufferedLines_def BufferLine_def NoteZombie_def ForgetZombie_def NoteRetiringOrphan_def
      TakeZombies_def Clear_def intro: att_ext_same att_ext_fewer)

lemma att_step: "rinv kp r \<Longrightarrow> att_ext r (rapply kp op r)"
  by (cases op) (simp_all add: att_ext_Plan att_ext_requests att_ext_OnLeaveIssued att_ext_OnRetired
      att_ext_callbacks att_ext_bookkeeping)

section \<open>Freshness\<close>

definition att_ok :: "registry \<Rightarrow> bool" where
  "att_ok r \<longleftrightarrow> (\<forall>k a. AttemptOf r k = Some a \<longrightarrow> a < next_attempt r) \<and> inj_on (AttemptOf r) (dom (AttemptOf r))"

lemma less_next: "n \<noteq> - 1 \<Longrightarrow> (a :: u64) \<le> n \<Longrightarrow> a < n + 1"
proof -
  assume n: "n \<noteq> - 1" and a: "a \<le> n"
  have "1 + n \<noteq> 0" using n by (simp add: add_eq_0_iff)
  then have "unat (n + 1) = unat n + 1" by (simp add: unatSuc add.commute)
  then show ?thesis using a by (simp add: word_less_nat_alt word_le_nat_alt)
qed

lemma next_attempt_le:
  "att_ext r s \<Longrightarrow> next_attempt r \<noteq> - 1 \<Longrightarrow> next_attempt r \<le> next_attempt s"
  using less_next [of "next_attempt r" "next_attempt r"] by (auto simp: att_ext_def)

lemma att_ok_ext:
  assumes r: "att_ok r" and ext: "att_ext r s" and n: "next_attempt r \<noteq> - 1"
  shows "att_ok s"
proof -
  obtain m where m: "AttemptOf s \<subseteq>\<^sub>m m" "inj_on m (dom m)" "\<And>k a. m k = Some a \<Longrightarrow> a < next_attempt s"
  proof (cases "next_attempt s = next_attempt r \<and> AttemptOf s \<subseteq>\<^sub>m AttemptOf r")
    case True
    then show ?thesis using r that [of "AttemptOf r"] by (auto simp: att_ok_def)
  next
    case False
    then obtain k where k: "next_attempt s = next_attempt r + 1" "AttemptOf s \<subseteq>\<^sub>m (AttemptOf r)(k \<mapsto> next_attempt r)"
      using ext by (auto simp: att_ext_def)
    have lt: "AttemptOf r j = Some a \<Longrightarrow> a < next_attempt r" for j a using r by (simp add: att_ok_def)
    have "inj_on ((AttemptOf r)(k \<mapsto> next_attempt r)) (dom ((AttemptOf r)(k \<mapsto> next_attempt r)))"
      using r lt by (fastforce simp: inj_on_def att_ok_def dom_def)
    moreover have "((AttemptOf r)(k \<mapsto> next_attempt r)) j = Some a \<Longrightarrow> a < next_attempt s" for j a
      using lt [of j a] less_next [OF n, of a] k(1) by (auto split: if_splits)
    ultimately show ?thesis using that k(2) by blast
  qed
  have eq: "AttemptOf s k = Some a \<Longrightarrow> m k = Some a" for k a
    using m(1) by (auto simp: map_le_def dom_def)
  have "inj_on (AttemptOf s) (dom (AttemptOf s))"
  proof (rule inj_onI)
    fix j k assume jk: "j \<in> dom (AttemptOf s)" "k \<in> dom (AttemptOf s)" "AttemptOf s j = AttemptOf s k"
    then obtain a where "AttemptOf s j = Some a" "AttemptOf s k = Some a" by auto
    then have "m j = Some a" "m k = Some a" by (simp_all add: eq)
    then show "j = k" using inj_onD [OF m(2), of j k] by (simp add: domI)
  qed
  then show ?thesis using m(3) eq unfolding att_ok_def by blast
qed

definition att_inv :: "(bytes \<Rightarrow> bytes option) \<Rightarrow> registry \<Rightarrow> bool" where
  "att_inv kp r \<longleftrightarrow> rinv kp r \<and> att_ok r"

text \<open>A step before which the counter still has room.\<close>

definition att_rstep :: "(bytes \<Rightarrow> bytes option) \<Rightarrow> registry \<Rightarrow> registry \<Rightarrow> bool" where
  "att_rstep kp r s \<longleftrightarrow> next_attempt r \<noteq> - 1 \<and> (\<exists>op. s = rapply kp op r)"

interpretation attempts: state_system "\<lambda>r. r = new_registry" "att_rstep kp" "att_inv kp" for kp
proof unfold_locales
  show "r = new_registry \<Longrightarrow> att_inv kp r" for r
    using rinv_new [of kp] by (simp add: att_inv_def att_ok_def AttemptOf_def new_registry_def dom_def)
  show "att_rstep kp r s \<Longrightarrow> att_inv kp r \<Longrightarrow> att_inv kp s" for r s
    by (auto simp: att_rstep_def att_inv_def rinv_rapply intro: att_ok_ext att_step)
qed

lemma att_path_le:
  assumes "(att_rstep kp)\<^sup>*\<^sup>* r s" "att_inv kp r"
  shows "next_attempt r \<le> next_attempt s"
  using assms
proof (induction rule: rtranclp_induct)
  case (step s t)
  then have "att_inv kp s" by (blast intro: attempts.inv_path)
  then have "next_attempt s \<le> next_attempt t"
    using step.hyps(2) by (auto simp: att_rstep_def att_inv_def intro: next_attempt_le att_step)
  then show ?case using step by simp
qed simp

text \<open>An attempt the counter has passed and the cell does not have is gone for good.\<close>

lemma attempt_gone:
  assumes "(att_rstep kp)\<^sup>*\<^sup>* s t" "att_inv kp s" "AttemptOf s k \<noteq> Some a" "a < next_attempt s"
  shows "AttemptOf t k \<noteq> Some a \<and> a < next_attempt t"
  using assms
proof (induction rule: rtranclp_induct)
  case (step t u)
  then have t: "att_inv kp t" "AttemptOf t k \<noteq> Some a" "a < next_attempt t"
    by (auto intro: attempts.inv_path)
  have n: "next_attempt t \<noteq> - 1" and ext: "att_ext t u"
    using step.hyps(2) t(1) by (auto simp: att_rstep_def att_inv_def intro: att_step)
  have "AttemptOf u k = Some b \<Longrightarrow> AttemptOf t k = Some b \<or> b = next_attempt t" for b
    using ext by (auto simp: att_ext_def map_le_def dom_def split: if_splits) (metis option.distinct(1) option.inject)
  then have "AttemptOf u k \<noteq> Some a" using t by auto
  then show ?case using t(3) next_attempt_le [OF ext n] by simp
qed simp

lemma Plan_actions:
  assumes "a \<in> set (snd (Plan now r))"
  obtains k c where "(k, c) \<in> set (cells r)"
    "snd (plan_cell (accepting r) (generation r) (set (map snd (retiring_orphans r))) now c) = Some a"
  using assms by (auto simp: Plan_def Let_def set_map_filter case_prod_beta)

lemma plan_cell_action:
  assumes "snd (plan_cell acc gen blocked now c) = Some a"
  shows "state c \<noteq> kRetiring" "a_generation a = gen" "a_attempt a = attempt c" "a_chat_id_hex a = chat_id_hex c"
    "a_kind a = kLeave \<Longrightarrow> a_group_number a = group_number c"
    "a_kind a \<noteq> kLeave \<Longrightarrow> acc \<and> chat_id_hex c \<notin> blocked \<and> a_chat_id a = chat_id c \<and> a_seed a = seed c \<and>
       a_name a = cell_name c \<and> a_nick a = nick c"
  using assms by (auto simp: plan_cell_def plan_emit_def leave_action_def start_action_def split: if_splits)

end
