(* ===== verification/RendezvousProperties.thy ===== *)
theory RendezvousProperties
  imports RendezvousAttempts
begin

text \<open>
  What the rendezvous registry promises its driver and its client: the exact ownership
  snapshot, a planner that starts nothing it must not start, results that are recorded only
  for the attempt they belong to, rate limits, and the leave and retire life cycle. A reachable
  registry is \<open>fold (rapply kp) ops new_registry\<close>, for any sequence of calls.
\<close>

section \<open>Ownership and identity\<close>

lemma rinv_reachable: "rinv kp (fold (rapply kp) ops new_registry)"
  by (rule rendezvous.inv_reachable [OF refl run_path])


text \<open>
  Identity of cells: in every reachable registry a cell is stored under the hexadecimal
  chat id that its own seed derives, a retiring cell holds a group number and has no join or
  found pending, and the packet budgets are within their limits.
\<close>

theorem cell_identity:
  assumes "um_find (cells (fold (rapply kp) ops new_registry)) k = Some c"
  shows "kp (seed c) = Some (chat_id c) \<and> k = Hex (chat_id c) \<and> chat_id_hex c = k \<and>
    (state c = kRetiring \<longrightarrow> \<not> pending_join c \<and> \<not> pending_found c \<and> group_number c \<noteq> UINT32_MAX) \<and>
    (\<forall>pk b. um_find (packet_budget c) pk = Some b \<longrightarrow>
       packets b \<le> kPeerPacketsPerWindow \<and> nbytes b \<le> kPeerBytesPerWindow)"
  using cell_okD [OF rinv_reachable assms] by (auto simp: cell_ok_def budget_ok_def)

section \<open>Planner\<close>

text \<open>
  Planner: every action stands for a cell that is not retiring and carries the cell's
  attempt and the current generation; a leave names the group the cell holds; a join or found
  is planned only while the registry accepts work and no retiring orphan still holds the chat
  id, and carries the cell's own seed and chat id.
\<close>

theorem plan_sound:
  assumes "a \<in> set (snd (Plan now (fold (rapply kp) ops new_registry)))"
  shows "\<exists>c. um_find (cells (fold (rapply kp) ops new_registry)) (a_chat_id_hex a) = Some c \<and>
     state c \<noteq> kRetiring \<and> a_attempt a = attempt c \<and>
     a_generation a = generation (fold (rapply kp) ops new_registry) \<and>
     (if a_kind a = kLeave then a_group_number a = group_number c
      else accepting (fold (rapply kp) ops new_registry) \<and>
           a_chat_id_hex a \<notin> snd ` set (retiring_orphans (fold (rapply kp) ops new_registry)) \<and>
           a_chat_id a = chat_id c \<and> kp (a_seed a) = Some (a_chat_id a) \<and> a_chat_id_hex a = Hex (a_chat_id a))"
proof -
  let ?r = "fold (rapply kp) ops new_registry"
  obtain k c where kc: "(k, c) \<in> set (cells ?r)"
    and p: "snd (plan_cell (accepting ?r) (generation ?r) (set (map snd (retiring_orphans ?r))) now c) = Some a"
    using Plan_actions [OF assms] by blast
  then have f: "um_find (cells ?r) k = Some c"
    using rinv_reachable [of kp ops] by (simp add: rinv_def rbase_def um_in_set_iff)
  then have c: "cell_ok kp k c" by (rule cell_okD [OF rinv_reachable])
  show ?thesis using f c plan_cell_action [OF p] by (auto simp: cell_ok_def)
qed

lemma Plan_ids:
  "map a_chat_id_hex (snd (Plan now r)) =
     map (chat_id_hex \<circ> snd) (filter (\<lambda>(k, c).
        snd (plan_cell (accepting r) (generation r) (set (map snd (retiring_orphans r))) now c) \<noteq> None) (cells r))"
proof -
  have "map a_chat_id_hex (List.map_filter (\<lambda>(k, c, a). a)
      (map (\<lambda>(k, c). (k, plan_cell acc gen bl now c)) m)) =
    map (chat_id_hex \<circ> snd) (filter (\<lambda>(k, c). snd (plan_cell acc gen bl now c) \<noteq> None) m)" for acc gen bl m
    by (induction m) (auto simp: plan_cell_action(4) case_prod_beta split: option.splits)
  then show ?thesis by (simp add: Plan_def Let_def)
qed

text \<open>
  A cell appears at most once in a plan: no two actions of one batch concern the same chat
  id, so a leave is never followed by a join or found of its cell before toxcore deleted the
  group.
\<close>

theorem plan_once_per_cell:
  "distinct (map a_chat_id_hex (snd (Plan now (fold (rapply kp) ops new_registry))))"
proof -
  let ?r = "fold (rapply kp) ops new_registry"
  have ok: "um_ok (cells ?r)" "\<And>k c. (k, c) \<in> set (cells ?r) \<Longrightarrow> chat_id_hex c = k"
    using rinv_reachable [of kp ops] by (auto simp: rinv_def rbase_def um_in_set_iff cell_ok_def)
  then have "map (chat_id_hex \<circ> snd) (filter P (cells ?r)) = map fst (filter P (cells ?r))" for P
    by auto
  moreover have "distinct (map fst (filter P (cells ?r)))" for P
    using ok(1) by (simp add: um_ok_def distinct_map_filter)
  ultimately show ?thesis unfolding Plan_ids by metis
qed

section \<open>Recording results\<close>

text \<open>
  Join results: \<open>OnJoinIssued\<close> records exactly when the cell is there, the generation and
  the attempt are the ones the action was planned with and the cell is not retiring. A recorded
  success makes the cell hold the group and the group owned; anything else leaves the registry
  as it was.
\<close>

theorem join_record_outcome:
  "case OnJoinIssued k gn ok now gen att r of (s, recorded) \<Rightarrow>
     recorded = (AttemptOf r k = Some att \<and> generation r = gen \<and> StateOf r k \<noteq> Some kRetiring) \<and>
     (\<not> recorded \<longrightarrow> s = r) \<and>
     (recorded \<and> ok \<and> gn \<noteq> UINT32_MAX \<longrightarrow>
        Owns s gn \<and> GroupNumberFor s k = Some gn \<and> StateOf s k = Some kJoining) \<and>
     (recorded \<and> \<not> (ok \<and> gn \<noteq> UINT32_MAX) \<longrightarrow>
        GroupNumberFor s k = None \<and> StateOf s k \<in> {Some kBackoff, Some kUnavailable})"
proof (cases "um_find (cells r) k")
  case (Some c)
  let ?c = "c\<lparr>group_number := gn, state := kJoining, state_since_ms := now, founded := False,
    announced := False, self_joined := False\<rparr>"
  show ?thesis using Some put_owned [of ?c k r]
    by (auto simp: OnJoinIssued_def Let_def GroupNumberFor_def StateOf_def AttemptOf_def Owns_def umap_simps
        EnterBackoffLocked_def)
qed (simp add: OnJoinIssued_def AttemptOf_def)

text \<open>
  Found results: as for joins, and a found is refused as well while a leave of the cell is
  owed. A recorded success is announced: the cell is joined, founded and owned.
\<close>

theorem found_record_outcome:
  "case OnFoundIssued k gn ok now gen att r of (s, recorded) \<Rightarrow>
     recorded = (\<exists>c. um_find (cells r) k = Some c \<and> attempt c = att \<and> generation r = gen \<and>
                   \<not> pending_leave c \<and> state c \<noteq> kRetiring) \<and>
     (\<not> recorded \<longrightarrow> s = r) \<and>
     (recorded \<and> ok \<and> gn \<noteq> UINT32_MAX \<longrightarrow>
        Owns s gn \<and> GroupNumberFor s k = Some gn \<and> StateOf s k = Some kJoined \<and>
        map_option announced (um_find (cells s) k) = Some True)"
proof (cases "um_find (cells r) k")
  case (Some c)
  let ?c = "c\<lparr>group_number := gn, state := kJoined, state_since_ms := now, founded := True,
    self_joined := True, announced := True\<rparr>"
  show ?thesis using Some put_owned [of ?c k r]
    by (auto simp: OnFoundIssued_def Let_def GroupNumberFor_def StateOf_def Owns_def umap_simps)
qed (simp add: OnFoundIssued_def)

text \<open>
  C4. Late results: once the cell an action was planned for has moved on to another attempt (or
  is gone), the result of that action is never recorded again, whatever calls follow, as long
  as the 64-bit attempt counter has not wrapped. A leave and rejoin while the Tox call is in
  flight cannot put the old group on the new cell.
\<close>

theorem late_result_refused:
  assumes "(att_rstep kp)\<^sup>*\<^sup>* new_registry r" "a \<in> set (snd (Plan now r))"
    and "(att_rstep kp)\<^sup>*\<^sup>* r s" "AttemptOf s (a_chat_id_hex a) \<noteq> Some (a_attempt a)"
    and "(att_rstep kp)\<^sup>*\<^sup>* s t"
  shows "OnJoinIssued (a_chat_id_hex a) gn ok now' (a_generation a) (a_attempt a) t = (t, False) \<and>
    OnFoundIssued (a_chat_id_hex a) gn ok now' (a_generation a) (a_attempt a) t = (t, False)"
proof -
  have r: "att_inv kp r" by (rule attempts.inv_reachable [OF refl assms(1)])
  obtain k c where kc: "(k, c) \<in> set (cells r)" "attempt c = a_attempt a"
    using Plan_actions [OF assms(2)] plan_cell_action(3) by metis
  then have "AttemptOf r k = Some (a_attempt a)"
    using r by (simp add: att_inv_def rinv_def rbase_def um_in_set_iff AttemptOf_def)
  then have "a_attempt a < next_attempt r" using r by (simp add: att_inv_def att_ok_def)
  then have lt: "a_attempt a < next_attempt s" using att_path_le [OF assms(3) r] by simp
  have "att_inv kp s" by (rule attempts.inv_path [OF assms(3) r])
  then have "AttemptOf t (a_chat_id_hex a) \<noteq> Some (a_attempt a)"
    using attempt_gone [OF assms(5) _ assms(4) lt] by blast
  then show ?thesis
    by (auto simp: OnJoinIssued_def OnFoundIssued_def AttemptOf_def split: option.splits)
qed

section \<open>Rate limits\<close>

fun consume_run :: "u32 \<Rightarrow> u64 \<Rightarrow> budget \<Rightarrow> (u64 \<times> u64) list \<Rightarrow> bool list" where
  "consume_run mc mb b [] = []"
| "consume_run mc mb b ((now, n) # ps) =
     (case ConsumeBudget b now mc mb n of (b', ok) \<Rightarrow> ok # consume_run mc mb b' ps)"

abbreviation accepted :: "bool list \<Rightarrow> nat" where
  "accepted bs \<equiv> length (filter (\<lambda>b. b) bs)"

lemma packets_inc: "\<not> packets b + 1 > mc \<Longrightarrow> mc \<noteq> - 1 \<Longrightarrow> packets b \<le> mc \<Longrightarrow>
    unat (packets b + 1) = unat (packets b) + 1 \<and> unat (packets b) < unat mc"
proof -
  assume a: "\<not> packets b + 1 > mc" "mc \<noteq> - 1" "packets b \<le> mc"
  have "1 + packets b \<noteq> 0"
  proof
    assume "1 + packets b = 0"
    then have "packets b = - 1" by (simp add: add_eq_0_iff)
    with a(2,3) show False by (simp add: word_order.extremum_unique)
  qed
  then have "unat (packets b + 1) = unat (packets b) + 1" by (simp add: unatSuc add.commute)
  with a(1) show ?thesis by (simp add: word_less_nat_alt)
qed

lemma consume_no_reset:
  assumes "\<forall>(now, n) \<in> set ps. now - window_start_ms b < kBudgetWindowMs" "packets b \<le> mc" "mc \<noteq> - 1"
  shows "accepted (consume_run mc mb b ps) \<le> unat mc - unat (packets b)"
  using assms
proof (induction ps arbitrary: b)
  case (Cons p ps)
  obtain now n where p: "p = (now, n)" by (cases p)
  have nr: "\<not> now - window_start_ms b \<ge> kBudgetWindowMs" using Cons.prems(1) p by (simp add: not_le)
  show ?case
  proof (cases "packets b + 1 > mc \<or> nbytes b + n > mb")
    case True
    then have "ConsumeBudget b now mc mb n = (b, False)" using nr by (simp add: ConsumeBudget_def Let_def)
    then show ?thesis using Cons p by simp
  next
    case False
    let ?b = "b\<lparr>packets := packets b + 1, nbytes := nbytes b + n\<rparr>"
    have inc: "unat (packets b + 1) = unat (packets b) + 1" "unat (packets b) < unat mc"
      using packets_inc [of mc b] False Cons.prems by auto
    have "ConsumeBudget b now mc mb n = (?b, True)" using False nr by (simp add: ConsumeBudget_def Let_def)
    moreover have "accepted (consume_run mc mb ?b ps) \<le> unat mc - unat (packets ?b)"
      using Cons False p by (intro Cons.IH) (auto simp: not_less)
    ultimately show ?thesis using inc p by simp
  qed
qed simp

text \<open>
  Sliding-window limit: whatever the state of a budget and however calls are spread, any run
  of calls less than one window (10 s) apart accepts at most twice the limit. For packets of
  one sender that is 12, with the limit of 6.
\<close>

theorem budget_sliding_window:
  assumes "sorted_wrt (\<lambda>x y. fst y - fst x < kBudgetWindowMs) ps" "packets b \<le> mc" "mc \<noteq> - 1"
  shows "accepted (consume_run mc mb b ps) \<le> 2 * unat mc"
proof -
  have "accepted (consume_run mc mb b ps) \<le> (unat mc - unat (packets b)) + unat mc"
    using assms
  proof (induction ps arbitrary: b)
    case (Cons p ps)
    obtain now n where p: "p = (now, n)" by (cases p)
    show ?case
    proof (cases "now - window_start_ms b \<ge> kBudgetWindowMs")
      case True
      let ?b = "b\<lparr>window_start_ms := now, packets := 0, nbytes := 0\<rparr>"
      have "kBudgetWindowMs > 0" by (simp add: kBudgetWindowMs_def)
      then have "\<forall>(t, m) \<in> set (p # ps). t - window_start_ms ?b < kBudgetWindowMs"
        using Cons.prems(1) p by auto
      then have "accepted (consume_run mc mb ?b (p # ps)) \<le> unat mc - unat (packets ?b)"
        by (rule consume_no_reset) (use Cons.prems in simp_all)
      moreover have "ConsumeBudget b now mc mb n = ConsumeBudget ?b now mc mb n"
        using True by (simp add: ConsumeBudget_def Let_def)
      ultimately show ?thesis using p by simp
    next
      case nr: False
      show ?thesis
      proof (cases "packets b + 1 > mc \<or> nbytes b + n > mb")
        case True
        then have "ConsumeBudget b now mc mb n = (b, False)" using nr by (simp add: ConsumeBudget_def Let_def)
        then show ?thesis using Cons p by simp
      next
        case False
        let ?b = "b\<lparr>packets := packets b + 1, nbytes := nbytes b + n\<rparr>"
        have inc: "unat (packets b + 1) = unat (packets b) + 1" "unat (packets b) < unat mc"
          using packets_inc [of mc b] False Cons.prems by auto
        have "ConsumeBudget b now mc mb n = (?b, True)" using False nr by (simp add: ConsumeBudget_def Let_def)
        moreover have "accepted (consume_run mc mb ?b ps) \<le> (unat mc - unat (packets ?b)) + unat mc"
          using Cons False p by (intro Cons.IH) (auto simp: not_less)
        ultimately show ?thesis using inc p by simp
      qed
    qed
  qed simp
  then show ?thesis by simp
qed

theorem budget_sliding_window_witness:
  "accepted (consume_run 1 100 new_budget [(5000, 10), (9999, 10), (10500, 10), (11000, 10)]) \<le> 2 * unat (1 :: u32)"
  by (rule budget_sliding_window) (simp_all add: kBudgetWindowMs_def new_budget_def)

section \<open>Line buffer\<close>

definition buffer_push :: "string \<Rightarrow> string list \<Rightarrow> string list" where
  "buffer_push l q = (if length q \<ge> kMaxBufferedLines then q else q @ [l])"

interpretation line_buffer: bounded_log buffer_push kMaxBufferedLines
  by unfold_locales (auto simp: buffer_push_def intro: list_emb_append2)

lemma BufferLine_push: "buffered_lines (fst (BufferLine l r)) = buffer_push l (buffered_lines r)"
  by (simp add: BufferLine_def buffer_push_def count_drop_def)

lemma fold_BufferLine:
  "buffered_lines (fold (\<lambda>l r. fst (BufferLine l r)) ls r) = fold buffer_push ls (buffered_lines r)"
  by (induction ls arbitrary: r) (simp_all add: BufferLine_push)

lemma fold_buffer_push:
  "length q \<le> kMaxBufferedLines \<Longrightarrow> fold buffer_push ls q = take kMaxBufferedLines (q @ ls)"
proof (induction ls arbitrary: q)
  case (Cons l ls)
  then show ?case
    using Cons.IH [of "buffer_push l q"] line_buffer.push_bound [OF Cons.prems, of l]
    by (cases "length q = kMaxBufferedLines") (auto simp: buffer_push_def take_Cons')
qed simp

lemma fold_BufferLine_drops:
  assumes "length (buffered_lines r) \<le> kMaxBufferedLines"
  shows "drops (fold (\<lambda>l r. fst (BufferLine l r)) ls r) =
    drops r + word_of_nat (length (buffered_lines r) + length ls - kMaxBufferedLines)"
  using assms
proof (induction ls arbitrary: r)
  case (Cons l ls)
  have "length (buffered_lines (fst (BufferLine l r))) \<le> kMaxBufferedLines"
    using line_buffer.push_bound [OF Cons.prems] by (simp add: BufferLine_push)
  from Cons.IH [OF this] show ?case using Cons.prems
    by (auto simp: BufferLine_def count_drop_def Suc_diff_le)
qed simp

text \<open>
  Before an event sink is installed, the buffer keeps the first 64 lines in order and counts
  every further one as dropped; taking the lines empties it.
\<close>

theorem buffer_keeps_first:
  assumes "buffered_lines r = []"
  shows "case TakeBufferedLines (fold (\<lambda>l r. fst (BufferLine l r)) ls r) of (s, out) \<Rightarrow>
    out = take kMaxBufferedLines ls \<and> buffered_lines s = [] \<and>
    drops s = drops r + word_of_nat (length ls - kMaxBufferedLines)"
  using assms fold_BufferLine_drops [of r ls]
  by (simp add: TakeBufferedLines_def fold_BufferLine fold_buffer_push)

theorem buffer_keeps_first_witness:
  "case TakeBufferedLines (fold (\<lambda>l r. fst (BufferLine l r)) [''a'', ''b''] new_registry) of (s, out) \<Rightarrow>
    out = take kMaxBufferedLines [''a'', ''b''] \<and> buffered_lines s = [] \<and>
    drops s = drops new_registry + word_of_nat (length [''a'', ''b''] - kMaxBufferedLines)"
  by (rule buffer_keeps_first) (simp add: new_registry_def)

section \<open>Retries\<close>

lemma EnterBackoff_in_window:
  assumes "t - retry_window_start_ms c \<le> kRetryWindowMs"
  shows "retries (EnterBackoffLocked t c) = Suc (retries c)"
    "retry_window_start_ms (EnterBackoffLocked t c) = retry_window_start_ms c"
    "state (EnterBackoffLocked t c) = (if Suc (retries c) > kMaxRetriesPerWindow then kUnavailable else kBackoff)"
  using leD [OF assms] by (simp_all add: EnterBackoffLocked_def Let_def)

text \<open>
  Retry escalation: consecutive failures inside one retry window (10 min) back the cell off
  three times and make it unavailable from the fourth on.
\<close>

theorem retry_escalation:
  assumes "ts \<noteq> []" "\<forall>t \<in> set ts. t - retry_window_start_ms c \<le> kRetryWindowMs"
  shows "state (fold EnterBackoffLocked ts c) =
    (if retries c + length ts > kMaxRetriesPerWindow then kUnavailable else kBackoff)"
proof -
  have run: "retries (fold EnterBackoffLocked ts c) = retries c + length ts \<and>
      retry_window_start_ms (fold EnterBackoffLocked ts c) = retry_window_start_ms c"
    if "\<forall>t \<in> set ts. t - retry_window_start_ms c \<le> kRetryWindowMs" for ts c
    using that by (induction ts arbitrary: c) (simp_all add: EnterBackoff_in_window)
  obtain us t where ts: "ts = us @ [t]" using assms(1) by (metis append_butlast_last_id)
  show ?thesis using run [of us c] assms(2) by (simp add: ts EnterBackoff_in_window)
qed

theorem retry_escalation_witness:
  "state (fold EnterBackoffLocked [1000, 2000, 3000, 4000] new_cell) =
    (if retries new_cell + length [1000 :: u64, 2000, 3000, 4000] > kMaxRetriesPerWindow then kUnavailable else kBackoff)"
  by (rule retry_escalation) (simp_all add: new_cell_def kRetryWindowMs_def)

section \<open>Leaving\<close>

text \<open>What a client leave makes of a cell; \<open>None\<close> when nothing is left to leave in toxcore.\<close>

definition leave_cell :: "u64 \<Rightarrow> cell \<Rightarrow> cell option" where
  "leave_cell now c =
     (let c1 = c\<lparr>pending_join := False, pending_found := False, leave_forgets := True,
                 rejoin_after_retire := False\<rparr> in
      if state c = kRetiring then Some c1
      else if group_number c = UINT32_MAX then None
      else Some (c1\<lparr>leave_reason := ''left'', leave_not_before_ms := 0, state_since_ms := now,
                    pending_leave := True\<rparr>))"

lemma RequestLeave_cells:
  "um_find (cells (fst (RequestLeave k now r))) j =
     (if j = k then Option.bind (um_find (cells r) k) (leave_cell now) else um_find (cells r) j)"
  by (auto simp: RequestLeave_def leave_cell_def Let_def umap_simps split: option.splits)

lemma RequestLeave_frame [simp]:
  "generation (fst (RequestLeave k now r)) = generation r" "accepting (fst (RequestLeave k now r)) = accepting r"
  "retiring_orphans (fst (RequestLeave k now r)) = retiring_orphans r"
  "snd (RequestLeave k now r) = HasCell r k"
  by (auto simp: RequestLeave_def HasCell_def Let_def split: option.splits)

lemma leave_ids_cells:
  assumes "distinct ks"
  shows "um_find (cells (fst (leave_ids ks now r))) j =
     (if j \<in> set ks then Option.bind (um_find (cells r) j) (leave_cell now) else um_find (cells r) j)"
  using assms
  by (induction ks arbitrary: r) (auto simp: RequestLeave_cells case_prod_beta)

lemma leave_ids_count:
  assumes "distinct ks" "\<forall>k \<in> set ks. HasCell r k"
  shows "snd (leave_ids ks now r) = length ks"
  using assms
proof (induction ks arbitrary: r)
  case (Cons k ks)
  have "\<forall>j \<in> set ks. HasCell (fst (RequestLeave k now r)) j"
    using Cons.prems by (auto simp: HasCell_def RequestLeave_cells)
  then show ?case using Cons by (simp add: case_prod_beta)
qed simp

lemma RequestLeaveAll_cells:
  assumes "um_ok (cells r)"
  shows "um_find (cells (fst (RequestLeaveAll now r))) j = Option.bind (um_find (cells r) j) (leave_cell now)"
proof -
  have "j \<notin> set (map fst (cells r)) \<Longrightarrow> um_find (cells r) j = None"
    by (metis map_of_eq_None_iff list.set_map)
  then show ?thesis
    using leave_ids_cells [of "map fst (cells r)" now r j] assms
    by (auto simp: RequestLeaveAll_def um_ok_def simp del: set_map)
qed

lemma plan_leave_cell:
  assumes "leave_cell now c = Some d" "state d \<noteq> kRetiring"
  shows "snd (plan_cell acc gen bl now' d) = Some (leave_action gen d)" "group_number d = group_number c"
    "leave_reason d = ''left''" "leave_forgets d"
proof -
  have d: "d = c\<lparr>pending_join := False, pending_found := False, leave_forgets := True, rejoin_after_retire := False,
      leave_reason := ''left'', leave_not_before_ms := 0, state_since_ms := now, pending_leave := True\<rparr>"
    using assms by (auto simp: leave_cell_def Let_def split: if_splits)
  then show "group_number d = group_number c" "leave_reason d = ''left''" "leave_forgets d" by simp_all
  have "pending_leave d" "leave_not_before_ms d = 0" using d by simp_all
  then show "snd (plan_cell acc gen bl now' d) = Some (leave_action gen d)"
    using assms(2) by (simp add: plan_cell_def plan_timers_def plan_emit_def)
qed

lemma rinv_leave_ids: "rinv kp r \<Longrightarrow> rinv kp (fst (leave_ids ks now r))"
  by (induction ks arbitrary: r) (simp_all add: case_prod_beta rinv_RequestLeave)

lemma rinv_RequestLeaveAll: "rinv kp r \<Longrightarrow> rinv kp (fst (RequestLeaveAll now r))"
  by (simp add: RequestLeaveAll_def rinv_leave_ids)

lemma RequestLeaveAll_count:
  assumes "um_ok (cells r)"
  shows "snd (RequestLeaveAll now r) = CellCount r"
proof -
  have "\<forall>k \<in> set (map fst (cells r)). HasCell r k"
    using assms by (auto simp: HasCell_def um_in_set_iff)
  then show ?thesis using assms leave_ids_count [of "map fst (cells r)" r now]
    by (simp add: RequestLeaveAll_def CellCount_def um_ok_def)
qed

lemma left_cell:
  assumes r: "rinv kp r" and c: "um_find (cells (fst (RequestLeaveAll now r))) k = Some c"
  shows "leave_forgets c" "group_number c \<noteq> UINT32_MAX" "state c \<noteq> kRetiring \<Longrightarrow> leave_reason c = ''left''"
    "snd (plan_cell acc gen bl now' c) = (if state c = kRetiring then None else Some (leave_action gen c))"
proof -
  obtain d where d: "um_find (cells r) k = Some d" "leave_cell now d = Some c"
    using c by (auto simp: RequestLeaveAll_cells [OF rinv_ok [OF r]] bind_eq_Some_conv)
  show "leave_forgets c" using d(2) by (auto simp: leave_cell_def Let_def split: if_splits)
  show "group_number c \<noteq> UINT32_MAX"
    using d(2) cell_okD [OF r d(1)] by (auto simp: leave_cell_def cell_ok_def Let_def split: if_splits)
  show "state c \<noteq> kRetiring \<Longrightarrow> leave_reason c = ''left''" by (rule plan_leave_cell(3) [OF d(2)])
  show "snd (plan_cell acc gen bl now' c) = (if state c = kRetiring then None else Some (leave_action gen c))"
    using plan_leave_cell(1) [OF d(2)] by (simp add: plan_cell_def)
qed

lemma Plan_action_iff:
  assumes "um_ok (cells r)"
  shows "a \<in> set (snd (Plan now r)) \<longleftrightarrow> (\<exists>k c. um_find (cells r) k = Some c \<and>
    snd (plan_cell (accepting r) (generation r) (set (map snd (retiring_orphans r))) now c) = Some a)"
  by (force simp: Plan_def Let_def set_map_filter case_prod_beta um_in_set_iff [OF assms, symmetric])


text \<open>A small run the witnesses evaluate: one cell, requested and then joined as group 3.\<close>

definition kp0 :: "bytes \<Rightarrow> bytes option" where
  "kp0 sd = Some sd"

definition ops0 :: "rop list" where
  "ops0 = [ROSetAccepting True, RORequestJoin [7] ''cell'' ''0123abcd'' 5, ROPlan 6, ROJoinIssued ''07'' 3 True 7 1 1]"

definition r0 :: registry where
  "r0 = fold (rapply kp0) ops0 new_registry"

lemma r0_inv: "rinv kp0 r0"
  unfolding r0_def by (rule rinv_reachable)

definition c0 :: cell where
  "c0 = new_cell\<lparr>attempt := 1, seed := [7], chat_id := [7], chat_id_hex := ''07'', cell_name := ''cell'',
     nick := ''0123abcd'', state_since_ms := 7, pending_join := False, retry_window_start_ms := 5,
     group_number := 3\<rparr>"

lemma r0_cell: "um_find (cells r0) ''07'' = Some c0"
proof -
  have "map_option (\<lambda>c. c = c0) (um_find (cells r0) ''07'') = Some True" by code_simp
  then show ?thesis by auto
qed

lemma r0_count: "CellCount r0 = 1"
  by code_simp


theorem cell_identity_witness:
  "kp0 (seed c0) = Some (chat_id c0) \<and> ''07'' = Hex (chat_id c0) \<and> chat_id_hex c0 = ''07''"
  using cell_identity [of kp0 ops0 "''07''" c0] r0_cell by (simp add: r0_def)

fun att_safe :: "(bytes \<Rightarrow> bytes option) \<Rightarrow> rop list \<Rightarrow> registry \<Rightarrow> bool" where
  "att_safe kp [] r = True"
| "att_safe kp (op # ops) r = (next_attempt r \<noteq> - 1 \<and> att_safe kp ops (rapply kp op r))"

lemma att_safe_path: "att_safe kp ops r \<Longrightarrow> (att_rstep kp)\<^sup>*\<^sup>* r (fold (rapply kp) ops r)"
proof (induction ops arbitrary: r)
  case (Cons op ops)
  have "att_rstep kp r (rapply kp op r)" using Cons.prems by (auto simp: att_rstep_def)
  then show ?case using Cons by (auto intro: converse_rtranclp_into_rtranclp)
qed simp

text \<open>The cell is requested and planned, left before the join reports back, and requested again.\<close>

definition r1 :: registry where
  "r1 = fold (rapply kp0) [ROSetAccepting True, RORequestJoin [7] ''cell'' ''0123abcd'' 5] new_registry"

definition s1 :: registry where
  "s1 = fold (rapply kp0) [ROPlan 6, RORequestLeave ''07'' 8] r1"

definition t1 :: registry where
  "t1 = fold (rapply kp0) [RORequestJoin [7] ''cell'' ''0123abcd'' 9] s1"

definition a1 :: action where
  "a1 = start_action 1 (new_cell\<lparr>attempt := 1, seed := [7], chat_id := [7], chat_id_hex := ''07'',
     cell_name := ''cell'', nick := ''0123abcd''\<rparr>)"

lemma a1_planned: "a1 \<in> set (snd (Plan 6 r1))"
  by code_simp

lemma a1_stamps: "a_chat_id_hex a1 = ''07''" "a_generation a1 = 1" "a_attempt a1 = 1" "a_kind a1 = kJoin"
  by code_simp+

theorem late_result_refused_witness:
  "OnJoinIssued ''07'' 9 True 20 1 1 t1 = (t1, False) \<and> OnFoundIssued ''07'' 9 True 20 1 1 t1 = (t1, False) \<and>
   HasCell t1 ''07''"
proof -
  have "(att_rstep kp0)\<^sup>*\<^sup>* new_registry r1" unfolding r1_def by (rule att_safe_path) code_simp
  moreover have "(att_rstep kp0)\<^sup>*\<^sup>* r1 s1" unfolding s1_def by (rule att_safe_path) code_simp
  moreover have "(att_rstep kp0)\<^sup>*\<^sup>* s1 t1" unfolding t1_def by (rule att_safe_path) code_simp
  moreover have "AttemptOf s1 (a_chat_id_hex a1) \<noteq> Some (a_attempt a1)" by code_simp
  moreover have "HasCell t1 ''07''" by code_simp
  ultimately show ?thesis
    using late_result_refused [OF _ a1_planned, of kp0 s1 t1 9 True 20] by (simp add: a1_stamps)
qed

theorem plan_sound_witness:
  "\<exists>c. um_find (cells (fold (rapply kp0) [ROSetAccepting True, RORequestJoin [7] ''cell'' ''0123abcd'' 5] new_registry))
      (a_chat_id_hex a1) = Some c \<and> state c \<noteq> kRetiring \<and> a_attempt a1 = attempt c"
  using plan_sound [OF a1_planned [unfolded r1_def]] by blast

theorem join_record_outcome_witness:
  "case OnJoinIssued ''07'' 3 True 7 1 1 (fst (Plan 6 r1)) of (s, recorded) \<Rightarrow>
     recorded \<and> Owns s 3 \<and> GroupNumberFor s ''07'' = Some 3 \<and> StateOf s ''07'' = Some kJoining"
proof -
  have "snd (OnJoinIssued ''07'' 3 True 7 1 1 (fst (Plan 6 r1)))" by code_simp
  then show ?thesis
    using join_record_outcome [where k = "''07''" and gn = 3 and ok = True and now = 7 and gen = 1 and att = 1 and
        r = "fst (Plan 6 r1)"] by (simp add: case_prod_beta)
qed

theorem found_record_outcome_witness:
  "case OnFoundIssued ''07'' 3 True 7 1 1 (fst (Plan 6 r1)) of (s, recorded) \<Rightarrow>
     recorded \<and> Owns s 3 \<and> GroupNumberFor s ''07'' = Some 3 \<and> StateOf s ''07'' = Some kJoined"
proof -
  have "snd (OnFoundIssued ''07'' 3 True 7 1 1 (fst (Plan 6 r1)))" by code_simp
  then show ?thesis
    using found_record_outcome [where k = "''07''" and gn = 3 and ok = True and now = 7 and gen = 1 and att = 1 and
        r = "fst (Plan 6 r1)"] by (simp add: case_prod_beta)
qed

section \<open>Retirement\<close>

text \<open>
  Outcome of a leave, once toxcore has deleted the group: a rejoin asked for meanwhile gives a
  fresh attempt that is to be joined; otherwise a client leave forgets the cell; a refound
  gives a fresh attempt that is to be founded; any other leave backs the cell off. In every
  case the cell no longer holds the group.
\<close>

theorem retire_outcome:
  assumes c: "um_find (cells r) k = Some c" and ret: "state c = kRetiring" and g: "group_number c = gn"
  shows "GroupNumberFor (OnRetired k gn now r) k = None \<and>
    (case um_find (cells (OnRetired k gn now r)) k of
       None \<Rightarrow> \<not> rejoin_after_retire c \<and> (leave_forgets c \<or> retire_reason c = ''left'')
     | Some d \<Rightarrow>
         if rejoin_after_retire c
         then state d = kJoining \<and> pending_join d \<and> attempt d = next_attempt r \<and> \<not> leave_forgets d
         else \<not> leave_forgets c \<and> retire_reason c \<noteq> ''left'' \<and>
              (if retire_reason c = ''refound'' then state d = kJoining \<and> pending_found d \<and> attempt d = next_attempt r
               else state d \<in> {kBackoff, kUnavailable} \<and> attempt d = attempt c))"
proof -
  define q where "q = (if um_find (retiring_orphans r) gn = Some k
    then r\<lparr>retiring_orphans := um_erase gn (retiring_orphans r)\<rparr> else r)"
  have q: "cells q = cells r" "next_attempt q = next_attempt r" by (simp_all add: q_def)
  have "cells (OnRetired k gn now r) = cells (FinishRetireLocked k c now q)"
    using c ret g by (simp add: OnRetired_def q_def Let_def)
  then show ?thesis
    using q by (auto simp: GroupNumberFor_def FinishRetireLocked_def Let_def umap_simps EnterBackoffLocked_def)
qed

text \<open>The cell of \<open>r0\<close> is left, and the leave issued: retiring, and still owned.\<close>

definition r2 :: registry where
  "r2 = fold (rapply kp0) [RORequestLeave ''07'' 9, ROPlan 10, ROLeaveIssued ''07'' ''left'' 11 3] r0"

theorem retire_outcome_witness:
  "Owns r2 3 \<and> GroupNumberFor (OnRetired ''07'' 3 12 r2) ''07'' = None \<and> \<not> HasCell (OnRetired ''07'' 3 12 r2) ''07''"
proof -
  have "HasCell r2 ''07''" by code_simp
  then obtain c where c: "um_find (cells r2) ''07'' = Some c" by (auto simp: HasCell_def)
  have "map_option (\<lambda>c. (state c, group_number c)) (um_find (cells r2) ''07'') = Some (kRetiring, 3)" by code_simp
  then have "state c = kRetiring" "group_number c = 3" using c by simp_all
  moreover have "Owns r2 3" "\<not> HasCell (OnRetired ''07'' 3 12 r2) ''07''" by code_simp+
  ultimately show ?thesis using retire_outcome [OF c, of 3 12] by simp
qed

text \<open>
  While a left group still exists in toxcore it stays owned: a cell that was left is
  retiring, holds its group number and blocks nothing else, and no plan mentions it.
\<close>

theorem left_group_stays_owned:
  assumes "um_find (cells r) k = Some c" "group_number c = gn" "gn \<noteq> UINT32_MAX"
  shows "case OnLeaveIssued k reason now gn r of s \<Rightarrow>
    Owns s gn \<and> StateOf s k = Some kRetiring \<and> GroupNumberFor s k = Some gn"
  using assms
  by (auto simp: OnLeaveIssued_def Let_def Owns_def StateOf_def GroupNumberFor_def umap_simps intro: put_owned_eq)

theorem left_group_stays_owned_witness:
  "case OnLeaveIssued ''07'' ''left'' 11 3 r0 of s \<Rightarrow>
    Owns s 3 \<and> StateOf s ''07'' = Some kRetiring \<and> GroupNumberFor s ''07'' = Some 3"
  by (rule left_group_stays_owned [OF r0_cell]) (simp_all add: c0_def)

end
