(* ===== verification/RendezvousEvents.thy ===== *)
theory RendezvousEvents
  imports RendezvousProperties
begin

text \<open>
  The callback side of the registry (\<open>source/RendezvousGroupsEvents.cpp\<close>): what a packet is
  answered with, and that a cell is announced once.
\<close>

text \<open>
  Packet verdicts: a packet is emitted only for an active cell, from a known sender, with a
  payload within 1194 bytes, and then as exactly its packet line; every other packet yields no
  line and counts one drop. The owned groups never change.
\<close>

theorem packet_admission:
  "case OnPacket gn pid pk pr pl now r of (s, v, line) \<Rightarrow>
     owned s = owned r \<and>
     (if v = kEmit
      then drops s = drops r \<and> length pl \<le> kMaxPayloadBytes \<and>
        (\<exists>k c pk'. FindByGroupLocked r gn = Some (k, c) \<and> state c \<noteq> kRetiring \<and> pk' \<noteq> [] \<and>
           pk' = (if pk = [] then PeerPkFor r gn pid else pk) \<and>
           line = Some (PacketLine (chat_id_hex c) pk' pr pl))
      else drops s = drops r + 1 \<and> line = None)"
  by (auto simp: OnPacket_def packet_cell_def count_drop_def put_cell_def PeerPkFor_def Let_def
      split: option.splits prod.splits if_splits)

section \<open>Announcing\<close>

datatype group_cb = SelfJoin u64 | PeerJoin u32 string u64 | PeerExit u32 bool u64

fun run_cb :: "u32 \<Rightarrow> group_cb \<Rightarrow> registry \<Rightarrow> registry \<times> string list" where
  "run_cb gn (SelfJoin now) r =
     (case OnSelfJoin gn now r of (s, l) \<Rightarrow> (s, case l of None \<Rightarrow> [] | Some x \<Rightarrow> [x]))"
| "run_cb gn (PeerJoin pid pk now) r = OnPeerJoin gn pid pk now r"
| "run_cb gn (PeerExit pid sd now) r =
     (case OnPeerExit gn pid sd now r of (s, l) \<Rightarrow> (s, case l of None \<Rightarrow> [] | Some x \<Rightarrow> [x]))"

fun run_cbs :: "u32 \<Rightarrow> group_cb list \<Rightarrow> registry \<Rightarrow> string list" where
  "run_cbs gn [] r = []"
| "run_cbs gn (cb # cbs) r = (case run_cb gn cb r of (s, ls) \<Rightarrow> ls @ run_cbs gn cbs s)"

text \<open>Callbacks that make a join real: \<open>self_join\<close>, or a peer with a key.\<close>

fun confirms :: "group_cb \<Rightarrow> bool" where
  "confirms (SelfJoin now) = True"
| "confirms (PeerJoin pid pk now) = (pk \<noteq> [])"
| "confirms (PeerExit pid sd now) = False"

definition joined_count :: "string list \<Rightarrow> nat" where
  "joined_count ls = length (filter (\<lambda>l. prefix ''rendezvous_joined:'' l) ls)"

lemma joined_count_simps [simp]:
  "joined_count [] = 0" "joined_count (ls @ ms) = joined_count ls + joined_count ms"
  "joined_count (JoinedLine k f # ls) = Suc (joined_count ls)"
  "joined_count (PeerLine k pk j # ls) = joined_count ls"
  "joined_count (PeersChangedLine k n # ls) = joined_count ls"
  by (simp_all add: joined_count_def JoinedLine_def PeerLine_def PeersChangedLine_def)

lemma PeerEvent_not_joined:
  "PeerEventLocked c pk j now = (c', Some l) \<Longrightarrow> joined_count [l] = 0"
  by (auto simp: PeerEventLocked_def Let_def split: prod.splits if_splits)

lemma Find_put:
  assumes "um_ok (cells r)" "FindByGroupLocked r gn = Some (k, c)" "group_number c' = gn"
  shows "FindByGroupLocked (put_cell k c' r) gn = Some (k, c')"
  using assms find_in_place [of "cells r" "\<lambda>(k, c). group_number c = gn" k c c']
  by (simp add: FindByGroupLocked_def split: if_splits)

lemma peer_join_announce:
  assumes "peer_join_cell pid pk now c = (c', ls)" "state c \<noteq> kRetiring"
  shows "announced c'" "state c' \<noteq> kRetiring" "joined_count ls = (if announced c then 0 else 1)"
    "group_number c' = group_number c"
proof -
  define c3 where "c3 = (if state c = kJoining
    then c\<lparr>peers := um_put pid pk (peers c), had_peers := True, state := kJoined, state_since_ms := now, retries := 0\<rparr>
    else c\<lparr>peers := um_put pid pk (peers c), had_peers := True\<rparr>)\<lparr>announced := True\<rparr>"
  obtain l where e: "PeerEventLocked c3 pk True now = (c', l)"
    and ls: "ls = (if announced c then [] else [JoinedLine (chat_id_hex c) (founded c)]) @
      (case l of None \<Rightarrow> [] | Some x \<Rightarrow> [x])"
    using assms(1) by (auto simp: peer_join_cell_def Let_def c3_def split: prod.splits if_splits)
  have "announced c3" "state c3 \<noteq> kRetiring" "group_number c3 = group_number c"
    using assms(2) by (auto simp: c3_def)
  then show "announced c'" "state c' \<noteq> kRetiring" "group_number c' = group_number c"
    using PeerEvent_fields [OF e] by simp_all
  show "joined_count ls = (if announced c then 0 else 1)"
    using PeerEvent_not_joined [of c3 pk True now c'] e by (simp add: ls split: option.split)
qed

lemma peer_exit_announce:
  assumes "peer_exit_cell pid pk sd now c = (c', l)"
  shows "announced c' = announced c" "state c' = state c" "group_number c' = group_number c"
    "joined_count (case l of None \<Rightarrow> [] | Some x \<Rightarrow> [x]) = 0"
proof -
  define c2 where "c2 = (let d = c\<lparr>peers := um_erase pid (peers c)\<rparr> in
    if peers d = [] then d\<lparr>empty_since_ms := now\<rparr> else d)"
  have c2: "announced c2 = announced c" "state c2 = state c" "group_number c2 = group_number c"
    by (auto simp: c2_def Let_def)
  have e: "(if sd then (c2, None) else PeerEventLocked c2 pk False now) = (c', l)"
    using assms by (simp only: peer_exit_cell_def c2_def Let_def)
  show "announced c' = announced c" "state c' = state c" "group_number c' = group_number c"
    using e c2 PeerEvent_fields [of c2 pk False now c' l] by (auto split: if_splits)
  show "joined_count (case l of None \<Rightarrow> [] | Some x \<Rightarrow> [x]) = 0"
    using e PeerEvent_not_joined [of c2 pk False now c'] by (auto split: if_splits option.split)
qed

lemma run_cb_step:
  assumes r: "rinv kp r" and f: "FindByGroupLocked r gn = Some (k, c)" and nr: "state c \<noteq> kRetiring"
  shows "\<exists>c'. FindByGroupLocked (fst (run_cb gn cb r)) gn = Some (k, c') \<and> state c' \<noteq> kRetiring \<and>
     announced c' = (announced c \<or> confirms cb) \<and>
     joined_count (snd (run_cb gn cb r)) = (if confirms cb \<and> \<not> announced c then 1 else 0) \<and>
     rinv kp (fst (run_cb gn cb r))"
proof -
  have g: "group_number c = gn" and ok: "um_ok (cells r)"
    using FindByGroup_Some [OF rinv_ok [OF r] f] rinv_ok [OF r] by auto
  show ?thesis
  proof (cases cb)
    case (SelfJoin now)
    show ?thesis using SelfJoin f nr g rinv_OnSelfJoin [OF r, of gn now]
      by (auto simp: OnSelfJoin_def Let_def Find_put [OF ok f])
  next
    case (PeerJoin pid pk now)
    obtain c' ls where e: "peer_join_cell pid pk now c = (c', ls)" by (cases "peer_join_cell pid pk now c")
    show ?thesis using PeerJoin f nr g e peer_join_announce [OF e nr] rinv_OnPeerJoin [OF r, of gn pid pk now]
      by (auto simp: OnPeerJoin_def Find_put [OF ok f])
  next
    case (PeerExit pid sd now)
    show ?thesis
    proof (cases "um_find (peers c) pid")
      case None
      then show ?thesis using PeerExit f nr r by (simp add: OnPeerExit_def)
    next
      case (Some pk)
      obtain c' l where e: "peer_exit_cell pid pk sd now c = (c', l)" by (cases "peer_exit_cell pid pk sd now c")
      show ?thesis using PeerExit Some f nr g e peer_exit_announce [OF e] rinv_OnPeerExit [OF r, of gn pid sd now]
        by (simp add: OnPeerExit_def Find_put [OF ok f])
    qed
  qed
qed

text \<open>
  Announcing: over any sequence of self-join, peer-join and peer-exit callbacks of a group
  that is held and not retiring, the joined line is published exactly once when the cell was not
  announced and some callback confirms the join, and not at all otherwise.
\<close>

theorem joined_announced_once:
  assumes "rinv kp r" "FindByGroupLocked r gn = Some (k, c)" "state c \<noteq> kRetiring"
  shows "joined_count (run_cbs gn cbs r) = (if \<not> announced c \<and> (\<exists>cb \<in> set cbs. confirms cb) then 1 else 0)"
  using assms
proof (induction cbs arbitrary: r c)
  case (Cons cb cbs)
  obtain c' where c': "FindByGroupLocked (fst (run_cb gn cb r)) gn = Some (k, c')" "state c' \<noteq> kRetiring"
    "announced c' = (announced c \<or> confirms cb)"
    "joined_count (snd (run_cb gn cb r)) = (if confirms cb \<and> \<not> announced c then 1 else 0)"
    "rinv kp (fst (run_cb gn cb r))"
    using run_cb_step [OF Cons.prems, of cb] by blast
  show ?case using c' Cons.IH [OF c'(5,1,2)] by (auto simp: case_prod_beta)
qed simp

theorem joined_announced_once_witness:
  "joined_count (run_cbs 3 [PeerJoin 1 ''aa'' 10, SelfJoin 11, PeerJoin 2 ''bb'' 12] r0) = 1"
proof -
  have f: "FindByGroupLocked r0 3 = Some (''07'', c0)"
  proof -
    have "map_option (\<lambda>x. x = (''07'', c0)) (FindByGroupLocked r0 3) = Some True" by code_simp
    then show ?thesis by auto
  qed
  then show ?thesis
    using joined_announced_once [OF r0_inv f, of "[PeerJoin 1 ''aa'' 10, SelfJoin 11, PeerJoin 2 ''bb'' 12]"]
    by (simp add: c0_def new_cell_def)
qed

end
