(* ===== verification/RendezvousDriver.thy ===== *)
theory RendezvousDriver
  imports RendezvousEvents PacketCodec
begin

text \<open>
  \<open>source/V2TIMManagerImpl_Rendezvous.cpp\<close>: the half of the rendezvous feature that calls
  toxcore, every function of the file.

  \<^item> toxcore is the parameter \<open>api\<close>, a record of functions on its own state \<open>'t\<close> with the results
    the source looks at: an error code other than the ones it tests for is "not ok". The two
    cryptographic functions are as in \<open>RendezvousCodec\<close>.
  \<^item> \<open>world\<close> is the state of the manager object the file works on: the registry, whether a sink is
    installed and the lines it received, the number of ticks posted to the event thread,
    \<open>running_\<close>, whether a session can be pinned, its epoch, and toxcore.
  \<^item> A \<open>ToxSessionGuard\<close> is the epoch it captured; \<open>Expired()\<close> compares it with the current one.
  \<^item> Between the Tox call of an action and the recording of its result other threads run. That
    is the argument \<open>env\<close>, any function on the world; the theorems quantify over it.
  \<^item> The waits of the shutdown (polling \<open>Inflight()\<close> up to a deadline) have no effect on the state
    and are left out, as is logging.
\<close>

datatype leave_err = LEAVE_OK | LEAVE_GROUP_NOT_FOUND | LEAVE_TOO_LONG | LEAVE_FAIL_SEND

record 't tox_api =
  tox_group_leave :: "u32 \<Rightarrow> 't \<Rightarrow> 't \<times> bool \<times> leave_err"
  tox_group_join :: "bytes \<Rightarrow> string \<Rightarrow> 't \<Rightarrow> 't \<times> u32 \<times> bool"
  tox_group_new_with_seed :: "string \<Rightarrow> string \<Rightarrow> bytes \<Rightarrow> 't \<Rightarrow> 't \<times> u32 \<times> bool"
  tox_group_get_chat_id :: "'t \<Rightarrow> u32 \<Rightarrow> bytes option"
  tox_group_get_name :: "'t \<Rightarrow> u32 \<Rightarrow> string option"
  tox_group_peer_get_public_key :: "'t \<Rightarrow> u32 \<Rightarrow> u32 \<Rightarrow> bytes option"
  tox_group_self_get_peer_id :: "'t \<Rightarrow> u32 \<Rightarrow> u32 option"
  tox_group_send_custom_packet :: "u32 \<Rightarrow> bytes \<Rightarrow> 't \<Rightarrow> 't \<times> bool"
  tox_group_send_custom_private_packet :: "u32 \<Rightarrow> u32 \<Rightarrow> bytes \<Rightarrow> 't \<Rightarrow> 't \<times> bool \<times> bool"
  mono_time_get_ms :: "'t \<Rightarrow> u64"
  sha256 :: "bytes \<Rightarrow> bytes"
  keypair :: "bytes \<Rightarrow> bytes option"
  max_group_name :: nat

record 't world =
  reg :: registry
  sink :: bool
  emitted :: "string list"
  posted :: nat
  running :: bool
  live :: bool
  session_epoch :: int
  tox :: 't

definition with_reg :: "(registry \<Rightarrow> registry) \<Rightarrow> 't world \<Rightarrow> 't world" where
  "with_reg f w = w\<lparr>reg := f (reg w)\<rparr>"

definition PostTick :: "'t world \<Rightarrow> 't world" where
  "PostTick w = w\<lparr>posted := posted w + 1\<rparr>"

definition AcquireToxSession :: "'t world \<Rightarrow> int option" where
  "AcquireToxSession w = (if live w then Some (session_epoch w) else None)"

definition Expired :: "'t world \<Rightarrow> int \<Rightarrow> bool" where
  "Expired w epoch \<longleftrightarrow> epoch = 0 \<or> session_epoch w \<noteq> epoch"

definition RendezvousNowMs :: "'t tox_api \<Rightarrow> 't world \<Rightarrow> u64" where
  "RendezvousNowMs api w = mono_time_get_ms api (tox w)"

definition GroupNameOf :: "'t tox_api \<Rightarrow> 't world \<Rightarrow> u32 \<Rightarrow> string" where
  "GroupNameOf api w gn =
     (case tox_group_get_name api (tox w) gn of
        None \<Rightarrow> ''''
      | Some name \<Rightarrow> if length name = 0 \<or> length name > max_group_name api then '''' else name)"

definition LeaveGroup :: "'t tox_api \<Rightarrow> u32 \<Rightarrow> 't world \<Rightarrow> 't world \<times> bool" where
  "LeaveGroup api gn w =
     (case tox_group_leave api gn (tox w) of (t, ok, err) \<Rightarrow>
        (w\<lparr>tox := t\<rparr>, ok \<or> err = LEAVE_OK \<or> err = LEAVE_GROUP_NOT_FOUND \<or> err = LEAVE_FAIL_SEND))"

section \<open>Event sink\<close>

definition RendezvousEmit :: "string \<Rightarrow> 't world \<Rightarrow> 't world" where
  "RendezvousEmit line w =
     (if sink w then w\<lparr>emitted := emitted w @ [line]\<rparr> else with_reg (\<lambda>r. fst (BufferLine line r)) w)"

definition SetRendezvousEventSink :: "bool \<Rightarrow> 't world \<Rightarrow> 't world" where
  "SetRendezvousEventSink installed w =
     (let w1 = w\<lparr>sink := installed\<rparr> in
      if \<not> installed then w1
      else case TakeBufferedLines (reg w1) of (r, ls) \<Rightarrow> fold RendezvousEmit ls (w1\<lparr>reg := r\<rparr>))"

definition SetRendezvousConvention :: "string \<Rightarrow> string \<Rightarrow> 't world \<Rightarrow> 't world" where
  "SetRendezvousConvention np sp w =
     (let c = default_convention;
          c1 = (if np \<noteq> [] then c\<lparr>name_prefix := np\<rparr> else c);
          c2 = (if sp \<noteq> [] then c1\<lparr>seed_prefix := sp\<rparr> else c1) in
      with_reg (SetConvention c2) w)"

definition IsRendezvousGroupNumber :: "'t world \<Rightarrow> u32 \<Rightarrow> bool" where
  "IsRendezvousGroupNumber w gn = Owns (reg w) gn"

definition RendezvousInviteIsOurs :: "'t tox_api \<Rightarrow> 't world \<Rightarrow> bytes option \<Rightarrow> string \<Rightarrow> bool" where
  "RendezvousInviteIsOurs api w invite_data name =
     (case invite_data of
        None \<Rightarrow> False
      | Some d \<Rightarrow>
          if length d < 32 then False
          else if HasCell (reg w) (Hex (take 32 d)) then True
          else IsRendezvousGroup (sha256 api) (keypair api) (conv (reg w)) name (Some (take 32 d)))"

section \<open>Client requests\<close>

definition RendezvousJoin ::
  "'t tox_api \<Rightarrow> bytes option \<Rightarrow> string option \<Rightarrow> string option \<Rightarrow> 't world \<Rightarrow> 't world \<times> int" where
  "RendezvousJoin api sd name nk w =
     (case (sd, name, nk) of
        (Some s, Some nm, Some n) \<Rightarrow>
          if length s \<noteq> 32 \<or> nm = [] then (w, 0)
          else if length nm > max_group_name api then (w, 0)
          else if \<not> IsValidNick n then (w, 0)
          else if \<not> accepting (reg w) then (w, 0)
          else (case AcquireToxSession w of
                  None \<Rightarrow> (w, 0)
                | Some _ \<Rightarrow>
                    (case RequestJoin (keypair api) s nm n (RendezvousNowMs api w) (reg w) of (r, rc) \<Rightarrow>
                       let w1 = w\<lparr>reg := r\<rparr> in (if rc = 1 then PostTick w1 else w1, rc)))
      | _ \<Rightarrow> (w, 0))"

definition RendezvousLeave :: "'t tox_api \<Rightarrow> string option \<Rightarrow> 't world \<Rightarrow> 't world \<times> int" where
  "RendezvousLeave api cid w =
     (case cid of
        None \<Rightarrow> (w, 0)
      | Some k \<Rightarrow>
          if k = [] \<or> \<not> accepting (reg w) then (w, 0)
          else (case AcquireToxSession w of
                  None \<Rightarrow> (w, 0)
                | Some _ \<Rightarrow>
                    (case RequestLeave k (RendezvousNowMs api w) (reg w) of (r, ok) \<Rightarrow>
                       let w1 = w\<lparr>reg := r\<rparr> in (if ok then PostTick w1 else w1, if ok then 1 else 0))))"

definition RendezvousLeaveAll :: "'t tox_api \<Rightarrow> 't world \<Rightarrow> 't world \<times> int" where
  "RendezvousLeaveAll api w =
     (if \<not> accepting (reg w) then (w, -1)
      else (case AcquireToxSession w of
              None \<Rightarrow> (w, -1)
            | Some _ \<Rightarrow>
                (case RequestLeaveAll (RendezvousNowMs api w) (BumpGeneration (reg w)) of (r, n) \<Rightarrow>
                   let w1 = w\<lparr>reg := r\<rparr> in (if n > 0 then PostTick w1 else w1, int n))))"

definition RendezvousPeerCount :: "string option \<Rightarrow> 't world \<Rightarrow> int" where
  "RendezvousPeerCount cid w =
     (case cid of None \<Rightarrow> -1 | Some k \<Rightarrow> if \<not> accepting (reg w) then -1 else PeerCount (reg w) k)"

definition RendezvousDropCount :: "'t world \<Rightarrow> u64" where
  "RendezvousDropCount w = DropCount (reg w)"

text \<open>
  The body of \<open>RendezvousSend\<close> between admission and release. \<open>env1\<close> is what other threads do
  between the registry lookup and the pin, \<open>env2\<close> during the Tox call.
\<close>

definition send_admitted ::
  "'t tox_api \<Rightarrow> ('t world \<Rightarrow> 't world) \<Rightarrow> ('t world \<Rightarrow> 't world) \<Rightarrow> string \<Rightarrow> string option \<Rightarrow> bytes \<Rightarrow>
   't world \<Rightarrow> 't world \<times> int" where
  "send_admitted api env1 env2 k pk data w =
     (let gen = generation (reg w); epoch = session_epoch w in
      if epoch = 0 \<or> \<not> accepting (reg w) then (w, 0)
      else
        let is_private = (pk \<noteq> None \<and> pk \<noteq> Some []) in
        case (if is_private then map_option (\<lambda>(g, p). (g, Some p)) (PeerIdFor (reg w) k (the pk))
              else map_option (\<lambda>g. (g, None)) (GroupNumberFor (reg w) k)) of
          None \<Rightarrow> (w, if is_private \<and> GroupNumberFor (reg w) k \<noteq> None then -2 else -3)
        | Some (gn, peer) \<Rightarrow>
            let w1 = env1 w in
            case AcquireToxSession w1 of
              None \<Rightarrow> (w1, 0)
            | Some e \<Rightarrow>
                if e \<noteq> epoch \<or> Expired w1 e then (w1, 0)
                else
                  let frame = Wrap kRendezvous (Some data);
                      (t, sent, not_found) =
                        (case peer of
                           Some p \<Rightarrow> tox_group_send_custom_private_packet api gn p frame (tox w1)
                         | None \<Rightarrow> (case tox_group_send_custom_packet api gn frame (tox w1) of (t, s) \<Rightarrow> (t, s, False)));
                      w2 = env2 (w1\<lparr>tox := t\<rparr>) in
                  (w2, if sent then (if generation (reg w2) = gen then 1 else 0)
                       else if not_found then -2 else 0))"

definition RendezvousSend ::
  "'t tox_api \<Rightarrow> ('t world \<Rightarrow> 't world) \<Rightarrow> ('t world \<Rightarrow> 't world) \<Rightarrow> string option \<Rightarrow> string option \<Rightarrow>
   bytes option \<Rightarrow> int \<Rightarrow> 't world \<Rightarrow> 't world \<times> int" where
  "RendezvousSend api env1 env2 cid pk data len w =
     (case cid of
        None \<Rightarrow> (w, 0)
      | Some k \<Rightarrow>
          if len < 0 \<or> (len > 0 \<and> data = None) then (w, 0)
          else if nat len > kMaxPayloadBytes then (w, -1)
          else
            let payload = (case data of None \<Rightarrow> [] | Some d \<Rightarrow> take (nat len) d) in
            case send_admitted api env1 env2 k pk payload (with_reg BeginInflight w) of
              (w1, rc) \<Rightarrow> (with_reg EndInflight w1, rc))"

section \<open>Planner driver\<close>

definition RendezvousGroupIs :: "'t tox_api \<Rightarrow> 't world \<Rightarrow> u32 \<Rightarrow> string \<Rightarrow> bool" where
  "RendezvousGroupIs api w gn k =
     (case tox_group_get_chat_id api (tox w) gn of None \<Rightarrow> False | Some cid \<Rightarrow> Hex cid = k)"

definition leave_zombie :: "'t tox_api \<Rightarrow> u32 \<times> string \<Rightarrow> 't world \<Rightarrow> 't world" where
  "leave_zombie api z w =
     (case LeaveGroup api (fst z) w of (w1, gone) \<Rightarrow>
        if gone
        then RendezvousEmit (LeftLine (snd z) ''left'') (with_reg (NoteRetiringOrphan (fst z) (snd z)) w1)
        else with_reg (NoteZombie (fst z) (snd z)) w1)"

definition RendezvousLeaveZombies :: "'t tox_api \<Rightarrow> 't world \<Rightarrow> 't world" where
  "RendezvousLeaveZombies api w =
     (case TakeZombies (reg w) of (r, zs) \<Rightarrow> fold (leave_zombie api) zs (w\<lparr>reg := r\<rparr>))"

definition confirm_retired :: "'t tox_api \<Rightarrow> u64 \<Rightarrow> u32 \<times> string \<Rightarrow> 't world \<Rightarrow> 't world" where
  "confirm_retired api now e w =
     (if RendezvousGroupIs api w (fst e) (snd e) then w
      else with_reg (OnRetired (snd e) (fst e) now) w)"

definition RendezvousConfirmRetired :: "'t tox_api \<Rightarrow> u64 \<Rightarrow> 't world \<Rightarrow> 't world" where
  "RendezvousConfirmRetired api now w = fold (confirm_retired api now) (Retiring (reg w)) w"

definition RendezvousReleaseIfReused :: "'t tox_api \<Rightarrow> u32 \<Rightarrow> 't world \<Rightarrow> 't world \<times> bool" where
  "RendezvousReleaseIfReused api gn w =
     (case RetiringChatIdOf (reg w) gn of
        None \<Rightarrow> (w, False)
      | Some k \<Rightarrow>
          (case AcquireToxSession w of
             None \<Rightarrow> (w, False)
           | Some _ \<Rightarrow>
               if RendezvousGroupIs api w gn k then (w, False)
               else (with_reg (OnRetired k gn (RendezvousNowMs api w)) w, True)))"

text \<open>The lambda \<open>undo\<close> of \<open>RendezvousExecute\<close>.\<close>

definition undo_group :: "'t tox_api \<Rightarrow> int \<Rightarrow> string \<Rightarrow> u32 \<Rightarrow> 't world \<Rightarrow> 't world" where
  "undo_group api epoch k gn w =
     (if gn = UINT32_MAX then w
      else if Expired w epoch then w
      else case LeaveGroup api gn w of (w1, gone) \<Rightarrow>
        if gone then with_reg (NoteRetiringOrphan gn k) w1 else with_reg (NoteZombie gn k) w1)"

definition execute_join ::
  "'t tox_api \<Rightarrow> ('t world \<Rightarrow> 't world) \<Rightarrow> int \<Rightarrow> action \<Rightarrow> u64 \<Rightarrow> 't world \<Rightarrow> 't world" where
  "execute_join api env epoch a now w =
     (case tox_group_join api (a_chat_id a) (a_nick a) (tox w) of (t, gn, err_ok) \<Rightarrow>
        let ok = (err_ok \<and> gn \<noteq> UINT32_MAX); w1 = env (w\<lparr>tox := t\<rparr>) in
        case OnJoinIssued (a_chat_id_hex a) gn ok now (a_generation a) (a_attempt a) (reg w1) of (r, recorded) \<Rightarrow>
          let w2 = w1\<lparr>reg := r\<rparr> in
          if \<not> recorded then (if ok then undo_group api epoch (a_chat_id_hex a) gn w2 else w2)
          else if \<not> ok then RendezvousEmit (LeftLine (a_chat_id_hex a) ''failed'') w2 else w2)"

definition execute_found ::
  "'t tox_api \<Rightarrow> ('t world \<Rightarrow> 't world) \<Rightarrow> int \<Rightarrow> action \<Rightarrow> u64 \<Rightarrow> 't world \<Rightarrow> 't world" where
  "execute_found api env epoch a now w =
     (case tox_group_new_with_seed api (a_name a) (a_nick a) (a_seed a) (tox w) of (t, gn, err_ok) \<Rightarrow>
        let ok = (err_ok \<and> gn \<noteq> UINT32_MAX); w1 = env (w\<lparr>tox := t\<rparr>) in
        case OnFoundIssued (a_chat_id_hex a) gn ok now (a_generation a) (a_attempt a) (reg w1) of (r, recorded) \<Rightarrow>
          let w2 = w1\<lparr>reg := r\<rparr> in
          if \<not> recorded then (if ok then undo_group api epoch (a_chat_id_hex a) gn w2 else w2)
          else RendezvousEmit (if ok then JoinedLine (a_chat_id_hex a) True
                               else LeftLine (a_chat_id_hex a) ''failed'') w2)"

definition execute_leave ::
  "'t tox_api \<Rightarrow> ('t world \<Rightarrow> 't world) \<Rightarrow> int \<Rightarrow> action \<Rightarrow> u64 \<Rightarrow> 't world \<Rightarrow> 't world" where
  "execute_leave api env epoch a now w =
     (let ours = (a_group_number a \<noteq> UINT32_MAX \<and> RendezvousGroupIs api w (a_group_number a) (a_chat_id_hex a));
          (w1, gone) = (if ours then LeaveGroup api (a_group_number a) w else (w, True));
          w2 = env w1 in
      if \<not> gone then
        if generation (reg w2) = a_generation a then with_reg (OnLeaveFailed (a_chat_id_hex a) now) w2
        else if \<not> Expired w2 epoch then with_reg (NoteZombie (a_group_number a) (a_chat_id_hex a)) w2
        else w2
      else
        let w3 = with_reg (OnLeaveIssued (a_chat_id_hex a) (a_reason a) now (a_group_number a)) w2 in
        if a_reason a \<noteq> ''refound'' then RendezvousEmit (LeftLine (a_chat_id_hex a) (a_reason a)) w3 else w3)"

text \<open>\<open>epoch\<close> is the epoch of the guard; the admission counts the action in flight throughout.\<close>

definition RendezvousExecute ::
  "'t tox_api \<Rightarrow> ('t world \<Rightarrow> 't world) \<Rightarrow> int \<Rightarrow> action \<Rightarrow> u64 \<Rightarrow> 't world \<Rightarrow> 't world" where
  "RendezvousExecute api env epoch a now w0 =
     (let w = with_reg BeginInflight w0 in
      with_reg EndInflight
        (if a_kind a \<noteq> kLeave \<and> \<not> accepting (reg w) then w
         else if Expired w epoch then w
         else (case a_kind a of
                 kJoin \<Rightarrow> execute_join api env epoch a now w
               | kFound \<Rightarrow> execute_found api env epoch a now w
               | kLeave \<Rightarrow> execute_leave api env epoch a now w)))"

fun execute_all ::
  "'t tox_api \<Rightarrow> (nat \<Rightarrow> 't world \<Rightarrow> 't world) \<Rightarrow> int \<Rightarrow> action list \<Rightarrow> u64 \<Rightarrow> 't world \<Rightarrow> 't world" where
  "execute_all api env epoch [] now w = w"
| "execute_all api env epoch (a # as) now w =
     execute_all api (\<lambda>n. env (Suc n)) epoch as now (RendezvousExecute api (env 0) epoch a now w)"

text \<open>\<open>env n\<close> is the interference during the n-th action of the batch.\<close>

definition RendezvousTick :: "'t tox_api \<Rightarrow> (nat \<Rightarrow> 't world \<Rightarrow> 't world) \<Rightarrow> 't world \<Rightarrow> 't world" where
  "RendezvousTick api env w =
     (if \<not> running w then w
      else if CellCount (reg w) = 0 \<and> \<not> HasZombies (reg w) \<and> Retiring (reg w) = [] then w
      else case AcquireToxSession w of
        None \<Rightarrow> w
      | Some epoch \<Rightarrow>
          let now = RendezvousNowMs api w;
              w1 = RendezvousConfirmRetired api now (RendezvousLeaveZombies api w) in
          case Plan now (reg w1) of (r, actions) \<Rightarrow>
            execute_all api env epoch actions now (w1\<lparr>reg := r\<rparr>))"

section \<open>Life cycle\<close>

definition RendezvousStart :: "'t world \<Rightarrow> 't world" where
  "RendezvousStart w =
     (let w1 = with_reg (BumpGeneration \<circ> SetAccepting True) w in
      if HasZombies (reg w1) \<or> Retiring (reg w1) \<noteq> [] then PostTick w1 else w1)"

definition RendezvousLeaveAllNow :: "'t tox_api \<Rightarrow> (nat \<Rightarrow> 't world \<Rightarrow> 't world) \<Rightarrow> 't world \<Rightarrow> 't world" where
  "RendezvousLeaveAllNow api env w =
     (case AcquireToxSession w of
        None \<Rightarrow> w
      | Some epoch \<Rightarrow>
          let now = RendezvousNowMs api w;
              w1 = with_reg (\<lambda>r. fst (RequestLeaveAll now r)) (RendezvousLeaveZombies api w) in
          case Plan now (reg w1) of (r, actions) \<Rightarrow>
            with_reg (\<lambda>r. fst (TakeZombies r))
              (execute_all api env epoch (filter (\<lambda>a. a_kind a = kLeave) actions) now (w1\<lparr>reg := r\<rparr>)))"

definition RendezvousShutdown :: "'t tox_api \<Rightarrow> (nat \<Rightarrow> 't world \<Rightarrow> 't world) \<Rightarrow> 't world \<Rightarrow> 't world" where
  "RendezvousShutdown api env w =
     (let w1 = with_reg (BumpGeneration \<circ> SetAccepting False) w in
      if CellCount (reg w1) = 0 \<and> inflight (reg w1) = 0 \<and> \<not> HasZombies (reg w1) then w1
      else RendezvousLeaveAllNow api env w1)"

definition RendezvousRestoredZombie :: "'t tox_api \<Rightarrow> u32 \<Rightarrow> 't world \<Rightarrow> 't world \<times> bool" where
  "RendezvousRestoredZombie api gn w =
     (case tox_group_get_chat_id api (tox w) gn of
        None \<Rightarrow> (w, False)
      | Some cid \<Rightarrow>
          let name = GroupNameOf api w gn in
          if name = [] \<or> \<not> IsRendezvousGroup (sha256 api) (keypair api) (conv (reg w)) name (Some cid)
          then (w, False)
          else case LeaveGroup api gn w of (w1, gone) \<Rightarrow>
            (if gone then RendezvousEmit (LeftLine (Hex cid) ''left'') (with_reg (NoteRetiringOrphan gn (Hex cid)) w1)
             else with_reg (NoteZombie gn (Hex cid)) w1, True))"

section \<open>toxcore callbacks\<close>

definition emit_opt :: "string option \<Rightarrow> 't world \<Rightarrow> 't world" where
  "emit_opt line w = (case line of None \<Rightarrow> w | Some l \<Rightarrow> RendezvousEmit l w)"

definition RendezvousOnSelfJoin :: "'t tox_api \<Rightarrow> u32 \<Rightarrow> 't world \<Rightarrow> 't world" where
  "RendezvousOnSelfJoin api gn w =
     (if \<not> accepting (reg w) \<or> AcquireToxSession w = None then w
      else case OnSelfJoin gn (RendezvousNowMs api w) (reg w) of (r, line) \<Rightarrow> emit_opt line (w\<lparr>reg := r\<rparr>))"

definition RendezvousSelfJoinOfZombie :: "'t tox_api \<Rightarrow> u32 \<Rightarrow> 't world \<Rightarrow> 't world \<times> bool" where
  "RendezvousSelfJoinOfZombie api gn w =
     (if IsZombie (reg w) gn then (w, True)
      else if AcquireToxSession w = None then (w, False)
      else case tox_group_get_chat_id api (tox w) gn of
        None \<Rightarrow> (w, False)
      | Some cid \<Rightarrow>
          let name = GroupNameOf api w gn in
          if name = [] \<or> \<not> IsRendezvousGroup (sha256 api) (keypair api) (conv (reg w)) name (Some cid)
          then (w, False)
          else (PostTick (with_reg (NoteZombie gn (Hex cid)) w), True))"

definition RendezvousOnPeerJoin :: "'t tox_api \<Rightarrow> u32 \<Rightarrow> u32 \<Rightarrow> 't world \<Rightarrow> 't world" where
  "RendezvousOnPeerJoin api gn pid w =
     (if \<not> accepting (reg w) \<or> AcquireToxSession w = None then w
      else case tox_group_peer_get_public_key api (tox w) gn pid of
        None \<Rightarrow> w
      | Some pk \<Rightarrow>
          (case OnPeerJoin gn pid (Hex pk) (RendezvousNowMs api w) (reg w) of
             (r, ls) \<Rightarrow> fold RendezvousEmit ls (w\<lparr>reg := r\<rparr>)))"

definition RendezvousOnPeerExit :: "'t tox_api \<Rightarrow> u32 \<Rightarrow> u32 \<Rightarrow> bool \<Rightarrow> 't world \<Rightarrow> 't world" where
  "RendezvousOnPeerExit api gn pid self_disconnected w =
     (if \<not> accepting (reg w) \<or> AcquireToxSession w = None then w
      else case OnPeerExit gn pid self_disconnected (RendezvousNowMs api w) (reg w) of
        (r, line) \<Rightarrow> emit_opt line (w\<lparr>reg := r\<rparr>))"

definition RendezvousOnJoinFail :: "'t tox_api \<Rightarrow> u32 \<Rightarrow> bool \<Rightarrow> 't world \<Rightarrow> 't world" where
  "RendezvousOnJoinFail api gn peer_limit w =
     (if \<not> accepting (reg w) \<or> AcquireToxSession w = None then w
      else case OnJoinFail gn peer_limit (RendezvousNowMs api w) (reg w) of
        (r, line) \<Rightarrow> PostTick (emit_opt line (w\<lparr>reg := r\<rparr>)))"

definition RendezvousOnModeration :: "'t tox_api \<Rightarrow> u32 \<Rightarrow> u32 \<Rightarrow> bool \<Rightarrow> 't world \<Rightarrow> 't world" where
  "RendezvousOnModeration api gn target kick w =
     (if \<not> kick \<or> \<not> accepting (reg w) \<or> AcquireToxSession w = None then w
      else if tox_group_self_get_peer_id api (tox w) gn \<noteq> Some target then w
      else case OnKickedSelf gn (RendezvousNowMs api w) (reg w) of
        (r, line) \<Rightarrow> PostTick (emit_opt line (w\<lparr>reg := r\<rparr>)))"

definition RendezvousOnPacket :: "'t tox_api \<Rightarrow> u32 \<Rightarrow> u32 \<Rightarrow> bytes option \<Rightarrow> bool \<Rightarrow> 't world \<Rightarrow> 't world" where
  "RendezvousOnPacket api gn pid data is_private w =
     (if \<not> accepting (reg w) then w
      else case Unwrap kRendezvous data of
        None \<Rightarrow> w
      | Some payload \<Rightarrow>
          if AcquireToxSession w = None then w
          else
            let known = PeerPkFor (reg w) gn pid;
                pk = (if known = []
                      then (case tox_group_peer_get_public_key api (tox w) gn pid of None \<Rightarrow> [] | Some k \<Rightarrow> Hex k)
                      else known) in
            case OnPacket gn pid pk is_private payload (RendezvousNowMs api w) (reg w) of
              (r, verdict, line) \<Rightarrow>
                let w1 = w\<lparr>reg := r\<rparr> in
                if verdict = kEmit then RendezvousEmit (case line of None \<Rightarrow> [] | Some l \<Rightarrow> l) w1 else w1)"

end
