(* ===== verification/RendezvousDriverProps.thy ===== *)
theory RendezvousDriverProps
  imports RendezvousDriver
begin

text \<open>
  Properties of the rendezvous driver: groups created in toxcore stay owned, zombies are never
  lost, a retiring group is released only when toxcore has let go of it, oversized frames never
  reach toxcore, nothing is started after shutdown, and buffered lines come out in order.
  Everything rests on the registry's invariant, which each driver function keeps because it
  changes the registry only through the registry's operations.
\<close>

section \<open>Frames of the helpers\<close>

lemma with_reg_simps [simp]:
  "reg (with_reg f w) = f (reg w)" "tox (with_reg f w) = tox w" "sink (with_reg f w) = sink w"
  "session_epoch (with_reg f w) = session_epoch w" "live (with_reg f w) = live w"
  "emitted (with_reg f w) = emitted w"
  by (simp_all add: with_reg_def)

lemma inflight_frame [simp]:
  "owned (BeginInflight r) = owned r" "owned (EndInflight r) = owned r"
  "accepting (BeginInflight r) = accepting r" "generation (BeginInflight r) = generation r"
  "zombies (EndInflight r) = zombies r" "retiring_orphans (EndInflight r) = retiring_orphans r"
  by (simp_all add: BeginInflight_def EndInflight_def)

lemma Owns_EndInflight [simp]: "Owns (EndInflight r) n = Owns r n"
  by (simp add: Owns_def)

lemma Expired_with_reg [simp]: "Expired (with_reg f w) e = Expired w e"
  by (simp add: Expired_def)

lemma emit_reg:
  "cells (reg (RendezvousEmit l w)) = cells (reg w)" "zombies (reg (RendezvousEmit l w)) = zombies (reg w)"
  "retiring_orphans (reg (RendezvousEmit l w)) = retiring_orphans (reg w)"
  "owned (reg (RendezvousEmit l w)) = owned (reg w)" "accepting (reg (RendezvousEmit l w)) = accepting (reg w)"
  by (simp_all add: RendezvousEmit_def BufferLine_def count_drop_def)

lemma emit_tox [simp]: "tox (RendezvousEmit l w) = tox w"
  by (simp add: RendezvousEmit_def)

lemma LeaveGroup_reg: "reg (fst (LeaveGroup api gn w)) = reg w"
  by (simp add: LeaveGroup_def case_prod_beta)

lemma Note_owned: "gn \<in> owned (NoteRetiringOrphan gn k r)" "gn \<in> owned (NoteZombie gn k r)"
  by (simp_all add: NoteRetiringOrphan_def NoteZombie_def owned_numbers_def)

section \<open>Groups that were created\<close>

lemma undo_owned: "gn \<noteq> UINT32_MAX \<Longrightarrow> \<not> Expired w epoch \<Longrightarrow> gn \<in> owned (reg (undo_group api epoch k gn w))"
  by (simp add: undo_group_def Note_owned case_prod_beta)

lemma Expired_reg_upd [simp]: "Expired (w\<lparr>reg := r\<rparr>) e = Expired w e"
  by (simp add: Expired_def)

lemma issued_owned:
  "OnJoinIssued k gn True now gen att r = (s, True) \<Longrightarrow> gn \<noteq> UINT32_MAX \<Longrightarrow> gn \<in> owned s"
  "OnFoundIssued k gn True now gen att r = (s, True) \<Longrightarrow> gn \<noteq> UINT32_MAX \<Longrightarrow> gn \<in> owned s"
  by (auto simp: OnJoinIssued_def OnFoundIssued_def Let_def split: option.splits if_splits intro!: put_owned_eq)

lemma execute_join_owned:
  assumes call: "tox_group_join api (a_chat_id a) (a_nick a) (tox w) = (t, gn, True)" and gn: "gn \<noteq> UINT32_MAX"
    and cur: "\<not> Expired (env (w\<lparr>tox := t\<rparr>)) epoch"
  shows "gn \<in> owned (reg (execute_join api env epoch a now w))"
proof -
  let ?w = "env (w\<lparr>tox := t\<rparr>)"
  obtain r rc where o: "OnJoinIssued (a_chat_id_hex a) gn True now (a_generation a) (a_attempt a) (reg ?w) = (r, rc)"
    by (cases "OnJoinIssued (a_chat_id_hex a) gn True now (a_generation a) (a_attempt a) (reg ?w)")
  have "gn \<in> owned r" if rc
    using issued_owned(1) [of "a_chat_id_hex a" gn now "a_generation a" "a_attempt a" "reg ?w" r] o gn that by simp
  then show ?thesis
    using call gn o undo_owned [OF gn, of "?w\<lparr>reg := r\<rparr>"] cur
    by (simp add: execute_join_def Let_def)
qed

lemma execute_found_owned:
  assumes call: "tox_group_new_with_seed api (a_name a) (a_nick a) (a_seed a) (tox w) = (t, gn, True)"
    and gn: "gn \<noteq> UINT32_MAX" and cur: "\<not> Expired (env (w\<lparr>tox := t\<rparr>)) epoch"
  shows "gn \<in> owned (reg (execute_found api env epoch a now w))"
proof -
  let ?w = "env (w\<lparr>tox := t\<rparr>)"
  obtain r rc where o: "OnFoundIssued (a_chat_id_hex a) gn True now (a_generation a) (a_attempt a) (reg ?w) = (r, rc)"
    by (cases "OnFoundIssued (a_chat_id_hex a) gn True now (a_generation a) (a_attempt a) (reg ?w)")
  have "gn \<in> owned r" if rc
    using issued_owned(2) [of "a_chat_id_hex a" gn now "a_generation a" "a_attempt a" "reg ?w" r] o gn that by simp
  then show ?thesis
    using call gn o undo_owned [OF gn, of "?w\<lparr>reg := r\<rparr>"] cur
    by (simp add: execute_found_def Let_def emit_reg)
qed


section \<open>Zombies\<close>

definition held :: "registry \<Rightarrow> u32 set" where
  "held r = fst ` set (zombies r) \<union> fst ` set (retiring_orphans r)"

lemma held_owned: "rinv kp r \<Longrightarrow> n \<in> held r \<Longrightarrow> Owns r n"
  by (auto simp: rinv_def Owns_def owned_numbers_def held_def)

lemma leave_zombie_held: "held (reg (leave_zombie api z w)) = insert (fst z) (held (reg w))"
  using LeaveGroup_reg [of api "fst z" w]
  by (auto simp: leave_zombie_def case_prod_beta held_def emit_reg NoteRetiringOrphan_def NoteZombie_def)

lemma fold_leave_zombie_held: "held (reg (fold (leave_zombie api) zs w)) = fst ` set zs \<union> held (reg w)"
  by (induction zs arbitrary: w) (simp_all add: leave_zombie_held)

lemma emit_inv: "rinv kp (reg w) \<Longrightarrow> rinv kp (reg (RendezvousEmit l w))"
  by (simp add: RendezvousEmit_def rinv_admission)

lemma leave_zombie_inv: "rinv kp (reg w) \<Longrightarrow> rinv kp (reg (leave_zombie api z w))"
  using LeaveGroup_reg [of api "fst z" w]
  by (simp add: leave_zombie_def case_prod_beta emit_inv rinv_zombies_orphans)

lemma leave_zombies_inv: "rinv kp (reg w) \<Longrightarrow> rinv kp (reg (RendezvousLeaveZombies api w))"
proof -
  assume "rinv kp (reg w)"
  then have "rinv kp (reg (w\<lparr>reg := fst (TakeZombies (reg w))\<rparr>))" by (simp add: rinv_zombies_orphans)
  then have "rinv kp (reg (fold (leave_zombie api) zs (w\<lparr>reg := fst (TakeZombies (reg w))\<rparr>)))" for zs
    by (induction zs rule: rev_induct) (simp_all add: leave_zombie_inv)
  then show ?thesis by (simp add: RendezvousLeaveZombies_def case_prod_beta)
qed

text \<open>
  Zombies are never lost: after a round of leaving them, every group number that was a
  zombie or a retiring orphan is still owned, whatever toxcore answered.
\<close>

theorem zombies_never_lost:
  assumes "rinv kp (reg w)" "n \<in> held (reg w)"
  shows "Owns (reg (RendezvousLeaveZombies api w)) n"
proof -
  have "held (reg (RendezvousLeaveZombies api w)) = held (reg w)"
    unfolding RendezvousLeaveZombies_def TakeZombies_def prod.case fold_leave_zombie_held
    by (simp add: held_def)
  then show ?thesis using held_owned [OF leave_zombies_inv [OF assms(1)]] assms(2) by simp
qed

section \<open>Retiring groups\<close>

lemma Retiring_iff: "um_ok (cells r) \<Longrightarrow> um_ok (retiring_orphans r) \<Longrightarrow> (n, k) \<in> set (Retiring r) \<longleftrightarrow>
    (\<exists>c. um_find (cells r) k = Some c \<and> state c = kRetiring \<and> group_number c = n) \<or>
    um_find (retiring_orphans r) n = Some k"
  by (force simp: Retiring_def um_in_set_iff [symmetric])

lemma FinishRetire_frame:
  "retiring_orphans (FinishRetireLocked k' c now r) = retiring_orphans r"
  "k \<noteq> k' \<Longrightarrow> um_find (cells (FinishRetireLocked k' c now r)) k = um_find (cells r) k"
  by (simp_all add: FinishRetireLocked_def Let_def umap_simps)

lemma OnRetired_orphans:
  "retiring_orphans (OnRetired k' n' now r) =
     (if um_find (retiring_orphans r) n' = Some k' then um_erase n' (retiring_orphans r) else retiring_orphans r)"
  by (simp add: OnRetired_def Let_def FinishRetire_frame split: option.split)

lemma OnRetired_cell:
  assumes "(n, k) \<noteq> (n', k')" "um_find (cells r) k = Some c" "state c = kRetiring" "group_number c = n"
  shows "um_find (cells (OnRetired k' n' now r)) k = Some c"
proof (cases "k = k'")
  case True
  then show ?thesis using assms by (simp add: OnRetired_def Let_def)
next
  case False
  then show ?thesis using assms(2) by (simp add: OnRetired_def Let_def FinishRetire_frame split: option.split)
qed

lemma OnRetired_other:
  assumes "(n, k) \<noteq> (n', k')"
  shows "um_find (retiring_orphans (OnRetired k' n' now r)) n = Some k \<longleftrightarrow> um_find (retiring_orphans r) n = Some k"
  using assms by (auto simp: OnRetired_orphans umap_simps)

lemma confirm_keeps:
  assumes "rinv kp (reg w)" "(n, k) \<in> set (Retiring (reg w))" "RendezvousGroupIs api w n k"
  shows "(n, k) \<in> set (Retiring (reg (confirm_retired api now e w))) \<and> rinv kp (reg (confirm_retired api now e w)) \<and>
    tox (confirm_retired api now e w) = tox w"
proof (cases "RendezvousGroupIs api w (fst e) (snd e)")
  case True
  then show ?thesis using assms by (simp add: confirm_retired_def)
next
  case False
  then have ne: "(n, k) \<noteq> (fst e, snd e)" using assms(3) by auto
  let ?s = "OnRetired (snd e) (fst e) now (reg w)"
  have s: "rinv kp ?s" using assms(1) by (rule rinv_OnRetired)
  have ok: "um_ok (cells r)" "um_ok (retiring_orphans r)" if "rinv kp r" for r
    using that by (simp_all add: rinv_def rbase_def)
  have "(n, k) \<in> set (Retiring ?s)"
    using assms(2) OnRetired_other [OF ne] OnRetired_cell [OF ne]
    unfolding Retiring_iff [OF ok [OF s]] Retiring_iff [OF ok [OF assms(1)]] by blast
  then show ?thesis using s False by (simp add: confirm_retired_def)
qed

text \<open>
  A retiring group is released only after toxcore has let go of it: an entry whose number
  still holds its chat id in toxcore is still retiring, and still owned, after the check.
\<close>

theorem retiring_kept_while_present:
  assumes "rinv kp (reg w)" "(n, k) \<in> set (Retiring (reg w))" "RendezvousGroupIs api w n k"
  shows "(n, k) \<in> set (Retiring (reg (RendezvousConfirmRetired api now w)))"
proof -
  have "(n, k) \<in> set (Retiring (reg (fold (confirm_retired api now) es w)))" for es
    using assms
  proof (induction es arbitrary: w)
    case (Cons e es)
    have "RendezvousGroupIs api (confirm_retired api now e w) n k"
      using confirm_keeps [OF Cons.prems, of now e] Cons.prems(3) by (simp add: RendezvousGroupIs_def)
    then show ?case using Cons.IH confirm_keeps [OF Cons.prems, of now e] by simp
  qed simp
  then show ?thesis by (simp add: RendezvousConfirmRetired_def)
qed

section \<open>Frames that reach toxcore\<close>

lemma frame_bound: "length d \<le> kMaxPayloadBytes \<Longrightarrow> length (Wrap kRendezvous (Some d)) \<le> kMaxFrameBytes"
  by (simp add: Wrap_def group_kMagic_def kMaxPayloadBytes_def kMaxFrameBytes_def kHeaderBytes_def)

lemma send_admitted_cong:
  assumes "\<And>gn f t. length f \<le> kMaxFrameBytes \<Longrightarrow>
      tox_group_send_custom_packet api gn f t = tox_group_send_custom_packet api' gn f t"
    and "\<And>gn p f t. length f \<le> kMaxFrameBytes \<Longrightarrow>
      tox_group_send_custom_private_packet api gn p f t = tox_group_send_custom_private_packet api' gn p f t"
    and "length d \<le> kMaxPayloadBytes"
  shows "send_admitted api env1 env2 k pk d w = send_admitted api' env1 env2 k pk d w"
  by (simp only: send_admitted_def Let_def assms(1,2) [OF frame_bound [OF assms(3)]])

text \<open>
  Frame limit: two toxcores that agree on frames of at most 1200 bytes are indistinguishable
  to \<open>RendezvousSend\<close>. No longer frame is ever handed to toxcore, on either channel.
\<close>

theorem oversized_frames_never_sent:
  assumes "\<And>gn f t. length f \<le> kMaxFrameBytes \<Longrightarrow>
      tox_group_send_custom_packet api gn f t = tox_group_send_custom_packet api' gn f t"
    and "\<And>gn p f t. length f \<le> kMaxFrameBytes \<Longrightarrow>
      tox_group_send_custom_private_packet api gn p f t = tox_group_send_custom_private_packet api' gn p f t"
  shows "RendezvousSend api env1 env2 cid pk d len w = RendezvousSend api' env1 env2 cid pk d len w"
proof -
  have "nat len \<le> kMaxPayloadBytes \<Longrightarrow>
      send_admitted api env1 env2 k pk (case d of None \<Rightarrow> [] | Some b \<Rightarrow> take (nat len) b) w' =
      send_admitted api' env1 env2 k pk (case d of None \<Rightarrow> [] | Some b \<Rightarrow> take (nat len) b) w'" for k w'
    by (rule send_admitted_cong [OF assms]) (auto split: option.split)
  then show ?thesis
    by (cases cid; cases "nat len > kMaxPayloadBytes") (simp_all add: RendezvousSend_def Let_def)
qed

text \<open>
  Send results: too long a payload gives -1 without admission; otherwise the result is 1, 0,
  -2 (no such peer) or -3 (no such cell), and 1 only for a cell that was there when the
  call was admitted, in a live session that accepted work.
\<close>

theorem send_results:
  "case RendezvousSend api env1 env2 cid pk d len w of (w', rc) \<Rightarrow>
     rc \<in> {1, 0, -1, -2, -3} \<and>
     (if rc = -1 then w' = w \<and> nat len > kMaxPayloadBytes
      else if rc = 1 then \<exists>k gn. cid = Some k \<and> GroupNumberFor (reg w) k = Some gn \<and> accepting (reg w) \<and> session_epoch w \<noteq> 0
      else True)"
proof -
  have peer: "PeerIdFor r k p = Some (g, i) \<Longrightarrow> GroupNumberFor r k = Some g" for r k p g i
    by (auto simp: PeerIdFor_def GroupNumberFor_def split: option.splits if_splits)
  have reg: "GroupNumberFor (BeginInflight r) = GroupNumberFor r" for r
    by (simp add: GroupNumberFor_def BeginInflight_def fun_eq_iff)
  have adm: "case send_admitted api env1 env2 k pk b (with_reg BeginInflight w) of (w', rc) \<Rightarrow>
      rc \<in> {1, 0, -2, -3} \<and> (if rc = 1 then \<exists>gn. GroupNumberFor (reg w) k = Some gn \<and> accepting (reg w) \<and>
        session_epoch w \<noteq> 0 else True)" for k b
    by (auto simp: send_admitted_def Let_def reg split: option.splits prod.splits if_splits dest: peer)
  show ?thesis
  proof (cases cid)
    case (Some k)
    then show ?thesis using adm [of k "case d of None \<Rightarrow> [] | Some b \<Rightarrow> take (nat len) b"]
      by (auto simp: RendezvousSend_def Let_def split: prod.splits if_splits)
  qed (simp add: RendezvousSend_def)
qed

section \<open>Shutting down\<close>

lemma Plan_not_accepting:
  "\<not> accepting r \<Longrightarrow> a \<in> set (snd (Plan now r)) \<Longrightarrow> a_kind a = kLeave"
  by (elim Plan_actions) (auto dest: plan_cell_action(6))

lemma execute_all_leaves:
  assumes "\<forall>a \<in> set as. a_kind a = kLeave"
  shows "execute_all (api\<lparr>tox_group_join := f, tox_group_new_with_seed := g\<rparr>) env epoch as now w =
    execute_all api env epoch as now w"
  using assms
proof (induction as arbitrary: w env)
  case (Cons a as)
  have "RendezvousExecute (api\<lparr>tox_group_join := f, tox_group_new_with_seed := g\<rparr>) e epoch a now w =
      RendezvousExecute api e epoch a now w" for e
    using Cons.prems
    by (simp add: RendezvousExecute_def execute_leave_def LeaveGroup_def RendezvousGroupIs_def Let_def)
  then show ?case using Cons by simp
qed simp

lemma zombies_retired_accepting:
  "accepting (reg (RendezvousConfirmRetired api now (RendezvousLeaveZombies api w))) = accepting (reg w)"
proof -
  have z: "accepting (reg (leave_zombie api z w)) = accepting (reg w)" for z w
    using LeaveGroup_reg [of api "fst z" w]
    by (simp add: leave_zombie_def case_prod_beta emit_reg NoteRetiringOrphan_def NoteZombie_def)
  have zs: "accepting (reg (fold (leave_zombie api) zs w)) = accepting (reg w)" for zs w
    by (induction zs arbitrary: w) (simp_all add: z)
  have c: "accepting (reg (confirm_retired api now e w)) = accepting (reg w)" for e w
    by (simp add: confirm_retired_def OnRetired_def FinishRetireLocked_def Let_def split: option.split)
  have cs: "accepting (reg (fold (confirm_retired api now) es w)) = accepting (reg w)" for es w
    by (induction es arbitrary: w) (simp_all add: c)
  show ?thesis
    by (simp add: RendezvousConfirmRetired_def RendezvousLeaveZombies_def case_prod_beta cs zs TakeZombies_def)
qed

text \<open>
  Nothing new starts while the registry does not accept work (before the start and from the
  shutdown on): a tick behaves the same whatever toxcore's join and found functions are, so it
  never calls them, even if other threads interfere during its leaves.
\<close>

theorem no_start_when_closed:
  assumes "\<not> accepting (reg w)"
  shows "RendezvousTick (api\<lparr>tox_group_join := f, tox_group_new_with_seed := g\<rparr>) env w = RendezvousTick api env w"
proof -
  let ?api = "api\<lparr>tox_group_join := f, tox_group_new_with_seed := g\<rparr>"
  have lz: "leave_zombie ?api = leave_zombie api" by (simp add: leave_zombie_def LeaveGroup_def fun_eq_iff)
  have cr: "confirm_retired ?api = confirm_retired api"
    by (simp add: confirm_retired_def RendezvousGroupIs_def fun_eq_iff)
  have eq: "RendezvousLeaveZombies ?api w = RendezvousLeaveZombies api w"
    "RendezvousConfirmRetired ?api now v = RendezvousConfirmRetired api now v" for now v
    by (simp_all add: RendezvousLeaveZombies_def RendezvousConfirmRetired_def lz cr)
  define now where "now = RendezvousNowMs api w"
  define w1 where "w1 = RendezvousConfirmRetired api now (RendezvousLeaveZombies api w)"
  have now: "RendezvousNowMs ?api w = now" by (simp add: RendezvousNowMs_def now_def)
  have "\<not> accepting (reg w1)" using zombies_retired_accepting [of api now w] assms by (simp add: w1_def)
  then have acts: "\<forall>a \<in> set (snd (Plan now (reg w1))). a_kind a = kLeave" using Plan_not_accepting by blast
  show ?thesis
    unfolding RendezvousTick_def now eq now_def [symmetric] Let_def w1_def [symmetric] case_prod_beta
    by (simp add: execute_all_leaves [OF acts] split: option.split)
qed

section \<open>Event sink\<close>

lemma emit_sink: "sink w \<Longrightarrow> fold RendezvousEmit ls w = w\<lparr>emitted := emitted w @ ls\<rparr>"
  by (induction ls arbitrary: w) (simp_all add: RendezvousEmit_def)

text \<open>
  Installing a sink hands it everything that was buffered, in order and once, and empties
  the buffer; from then on a line goes straight to the sink.
\<close>

theorem sink_flush:
  "emitted (RendezvousEmit l (SetRendezvousEventSink True w)) = emitted w @ buffered_lines (reg w) @ [l] \<and>
   buffered_lines (reg (SetRendezvousEventSink True w)) = []"
  by (simp add: SetRendezvousEventSink_def TakeBufferedLines_def Let_def emit_sink RendezvousEmit_def)

section \<open>The registry invariant\<close>

lemma undo_inv: "rinv kp (reg w) \<Longrightarrow> rinv kp (reg (undo_group api epoch k gn w))"
  using LeaveGroup_reg [of api gn w] by (simp add: undo_group_def case_prod_beta rinv_zombies_orphans)

lemma execute_inv:
  assumes w: "rinv kp (reg w)" and env: "\<And>v. rinv kp (reg v) \<Longrightarrow> rinv kp (reg (env v))"
  shows "rinv kp (reg (execute_join api env epoch a now w))" "rinv kp (reg (execute_found api env epoch a now w))"
    "rinv kp (reg (execute_leave api env epoch a now w))"
proof -
  have e: "rinv kp (reg (env (w\<lparr>tox := t\<rparr>)))" for t using env [of "w\<lparr>tox := t\<rparr>"] w by simp
  show "rinv kp (reg (execute_join api env epoch a now w))"
    by (simp add: execute_join_def case_prod_beta Let_def undo_inv emit_inv rinv_OnJoinIssued e)
  show "rinv kp (reg (execute_found api env epoch a now w))"
    by (simp add: execute_found_def case_prod_beta Let_def undo_inv emit_inv rinv_OnFoundIssued e)
  have l: "rinv kp (reg (env (fst (LeaveGroup api gn w))))" "rinv kp (reg (env w))" for gn
    using env w LeaveGroup_reg [of api gn w] by simp_all
  show "rinv kp (reg (execute_leave api env epoch a now w))"
    by (simp add: execute_leave_def case_prod_beta Let_def l rinv_OnLeaveIssued rinv_OnLeaveFailed
        rinv_zombies_orphans emit_inv)
qed

lemma Execute_inv:
  assumes "rinv kp (reg w)" "\<And>v. rinv kp (reg v) \<Longrightarrow> rinv kp (reg (env v))"
  shows "rinv kp (reg (RendezvousExecute api env epoch a now w))"
proof -
  have "rinv kp (reg (with_reg BeginInflight w))" using assms(1) by (simp add: rinv_admission)
  then show ?thesis using execute_inv [OF _ assms(2)] rinv_admission(4,5)
    by (simp add: RendezvousExecute_def Let_def split: action_kind.split)
qed

lemma execute_all_inv:
  "rinv kp (reg w) \<Longrightarrow> (\<And>n v. rinv kp (reg v) \<Longrightarrow> rinv kp (reg (env n v))) \<Longrightarrow>
     rinv kp (reg (execute_all api env epoch as now w))"
  by (induction as arbitrary: w env) (simp_all add: Execute_inv)

lemma confirm_retired_inv:
  "rinv kp (reg w) \<Longrightarrow> rinv kp (reg (RendezvousConfirmRetired api now w))"
proof -
  have "rinv kp (reg v) \<Longrightarrow> rinv kp (reg (fold (confirm_retired api now) es v))" for es v
    by (induction es arbitrary: v) (simp_all add: confirm_retired_def rinv_OnRetired)
  then show "rinv kp (reg w) \<Longrightarrow> ?thesis" by (simp add: RendezvousConfirmRetired_def)
qed


section \<open>Witnesses\<close>

text \<open>A toxcore that hands out group 9 and refuses every leave; its clock stands at 50.\<close>

definition api0 :: "unit tox_api" where
  "api0 = \<lparr>tox_group_leave = \<lambda>g t. (t, False, LEAVE_TOO_LONG),
     tox_group_join = \<lambda>c n t. (t, 9, True), tox_group_new_with_seed = \<lambda>n k s t. (t, 9, True),
     tox_group_get_chat_id = \<lambda>t g. Some [7], tox_group_get_name = \<lambda>t g. None,
     tox_group_peer_get_public_key = \<lambda>t g p. None, tox_group_self_get_peer_id = \<lambda>t g. None,
     tox_group_send_custom_packet = \<lambda>g f t. (t, True),
     tox_group_send_custom_private_packet = \<lambda>g p f t. (t, True, False),
     mono_time_get_ms = \<lambda>t. 50, sha256 = \<lambda>b. b, keypair = kp0, max_group_name = 48\<rparr>"

definition w0 :: "registry \<Rightarrow> unit world" where
  "w0 r = \<lparr>reg = r, sink = True, emitted = [], posted = 0, running = True, live = True, session_epoch = 1, tox = ()\<rparr>"


theorem zombies_never_lost_witness:
  "Owns (reg (RendezvousLeaveZombies api0 (w0 (NoteZombie 4 ''ab'' r0)))) 4"
proof (rule zombies_never_lost [of kp0])
  show "rinv kp0 (reg (w0 (NoteZombie 4 ''ab'' r0)))" by (simp add: w0_def r0_inv rinv_zombies_orphans)
  show "4 \<in> held (reg (w0 (NoteZombie 4 ''ab'' r0)))" by (simp add: w0_def held_def NoteZombie_def)
qed

theorem retiring_kept_while_present_witness:
  "(3, ''07'') \<in> set (Retiring (reg (RendezvousConfirmRetired api0 12 (w0 r2))))"
proof (rule retiring_kept_while_present [of kp0])
  show "rinv kp0 (reg (w0 r2))" by (simp add: w0_def r2_def rinv_ops r0_inv)
  show "(3, ''07'') \<in> set (Retiring (reg (w0 r2)))" by code_simp
  show "RendezvousGroupIs api0 (w0 r2) 3 ''07''" by code_simp
qed

theorem oversized_frames_never_sent_witness:
  "RendezvousSend api0 id id (Some ''07'') None (Some [1, 2]) 2 (w0 r0) =
   RendezvousSend (api0\<lparr>tox_group_send_custom_packet := \<lambda>g f t. (t, length f \<le> kMaxFrameBytes)\<rparr>) id id
     (Some ''07'') None (Some [1, 2]) 2 (w0 r0)"
  by (rule oversized_frames_never_sent) (simp_all add: api0_def)

theorem no_start_when_closed_witness:
  "RendezvousTick (api0\<lparr>tox_group_join := \<lambda>c n t. (t, 1, False), tox_group_new_with_seed := \<lambda>n k s t. (t, 1, False)\<rparr>)
     (\<lambda>n. id) (w0 (SetAccepting False r0)) = RendezvousTick api0 (\<lambda>n. id) (w0 (SetAccepting False r0))"
  by (rule no_start_when_closed) (simp add: w0_def SetAccepting_def)


end
