(* ===== verification/Spec2Isabelle.thy ===== *)
theory Spec2Isabelle
  imports PendingDelivery ToxSessionProperties ProfileProperties IterateScope FileTransferProperties TextSessions ConversationProperties ReceiptText GroupWireReadiness AudioQueue Endpoints SignalingProperties IrcProperties MessageProperties RendezvousDriverProps RendezvousProperties
begin

text \<open>
  tim2tox implements the V2TIM instant-messaging SDK interface on top of the Tox protocol. The
  C++ core (\<open>source/\<close>) holds the managers behind that interface; \<open>ffi/\<close> exposes them to Dart. This
  library models the parts of the core that carry logic of their own and proves them correct.

  \<^bold>\<open>How the parts interact.\<close> \<open>V2TIMManagerImpl\<close> owns one Tox instance and an event thread that
  calls \<open>tox_iterate\<close>; toxcore calls back into the manager, which decodes packets and hands them to
  the sub-managers (signalling, conversations, messages), to the rendezvous registry, to the
  group identity protocol and to the delivery tracker. Outgoing texts pass the fragmenter and
  the packet codecs. Every event for Dart becomes a line in the bounded text queue, which Dart
  polls. The IRC bridge runs a thread per channel and feeds messages of a channel into a group.

  \<^bold>\<open>Conventions.\<close> Each mutex-protected operation is one function on a \<open>record\<close>; interleavings
  are sequences of such operations, and where a handler releases its lock between two critical
  sections, other threads act in between (\<open>GroupIdentity\<close>, \<open>RendezvousDriver\<close>). Integers have the
  source's width where they wrap (\<open>u32\<close>, \<open>u64\<close>); \<open>size_t\<close> counters are \<open>nat\<close>, with the invariant
  that no decrement passes zero. Unordered maps are association lists, so every iteration order
  is covered. Errors are \<open>option\<close> or sum values. toxcore, cryptography, DNS, TLS, the clock, the file
  system and random bytes are parameters, with the documented behaviour a theorem needs as a
  named hypothesis that its witness instantiates. Loops are structural or have a termination
  proof; there is no fuel except where the source itself counts attempts.

  \<^bold>\<open>Library.\<close> \<open>Prelude\<close>: words, byte casts, \<open>std::string\<close> search, decimal printing, unordered
  maps, and the interfaces \<open>keyed_store\<close>, \<open>wire_codec\<close>, \<open>strict_wire_codec\<close>, \<open>state_system\<close>,
  \<open>data_refinement\<close> and \<open>bounded_log\<close>. Components interpret them on their own definitions.

  \<^bold>\<open>Wire formats and texts.\<close>
  \<^item> \<open>PacketCodec\<close> (\<open>Tim2ToxControlPacket\<close>, \<open>Tim2ToxGroupPacket\<close>), \<open>SignalingPacket\<close> (\<open>V2TIMUtils\<close>),
    \<open>HexCodec\<close> (\<open>ToxUtil.h\<close>, \<open>V2TIMUtils\<close>, \<open>RendezvousGroupsCodec\<close>), \<open>MessageUtils\<close> (reply, merger and
    revoke bodies), \<open>QToxFragmenter\<close>; their properties are in \<open>MessageProperties\<close>: exact round trips,
    strict decoders, fragments that are valid UTF-8, within the size limit and concatenate to
    the text.
  \<^item> \<open>GroupReceipts\<close> with \<open>ReceiptText\<close>: the strict JSON receipt parser accepts what the writer
    writes, and the two UTF-8 validators of the program agree.
  \<^item> \<open>Endpoints\<close>: NAT64 host candidates, profile paths, instance ids in event lines, the
    completion gate of the send contract.

  \<^bold>\<open>Rendezvous.\<close> \<open>RendezvousCodec\<close>, \<open>RendezvousGroups\<close> (\<open>RendezvousGroups.cpp\<close>, the registry),
  \<open>RendezvousEvents\<close> (\<open>RendezvousGroupsEvents.cpp\<close>), \<open>RendezvousDriver\<close>
  (\<open>V2TIMManagerImpl_Rendezvous.cpp\<close>). \<open>RendezvousInvariants\<close> and \<open>RendezvousAttempts\<close> hold the
  invariants over every sequence of calls; \<open>RendezvousProperties\<close> and \<open>RendezvousDriverProps\<close> show
  that a group created in toxcore is always owned by a cell or a zombie, that the owned
  snapshot is exact, that late results are refused, and that leaving terminates.

  \<^bold>\<open>Group identity (MM-6).\<close> \<open>IdentityState\<close>, \<open>GroupIdentity\<close> model hints, challenges and proofs with
  their budgets, caches and gaps; \<open>IdentityInvariants\<close> is the interleaving semantics with the
  locale \<open>identity_invariant\<close>, interpreted for the table bounds (\<open>IdentityBounds\<close>) and for
  authenticity (\<open>IdentityProperties\<close>). \<open>IdentityHandshake\<close>: an honest proof is accepted and an
  accepted one is authentic. \<open>IdentityMeters\<close>: rate windows and replay filters.

  \<^bold>\<open>Other managers.\<close>
  \<^item> \<open>PendingDelivery\<close>: the receipts of the fragments of one text give exactly one delivery.
  \<^item> \<open>SignalingManager\<close>, \<open>SignalingProperties\<close>: call invitations between two instances, deadlines.
  \<^item> \<open>ConversationManager\<close>, \<open>ConversationProperties\<close>: the conversation cache, pins, deletions,
    drafts and receive options.
  \<^item> \<open>GroupWireReadiness\<close>, \<open>AudioQueue\<close>: two small state machines against their contracts.
  \<^item> \<open>IrcParser\<close>, \<open>IrcText\<close>, \<open>IrcClient\<close>, \<open>IrcProperties\<close>: the IRC bridge.

  \<^bold>\<open>Text event queue\<close> (\<open>ffi/tim2tox_ffi.cpp\<close>). \<open>TextQueue\<close> is the deque with tombstones, eviction
  indexes and counters; \<open>TextQueueInvariant\<close> its representation invariant;
  \<open>TextQueueRefinement\<close> the refinement to a plain list; \<open>TextQueueProperties\<close> bounds, eviction policy,
  accounting and delivery; \<open>TextSessions\<close> the isolation of accounts that reuse an instance.

  \<^bold>\<open>Session and profile\<close> (\<open>ToxManager.cpp\<close>, the start of \<open>InitSDK\<close>). \<open>ToxSession\<close> is the pin gate, the
  saver, the iterate and the shutdown as steps of concurrent threads, one step per critical
  section; \<open>ToxSessionInvariant\<close> the invariant (locks, pins, instances, reading);
  \<open>ToxSessionProperties\<close>: the profile is read atomically, an instance is killed once and never
  used after, closed admission is final, nothing deadlocks. \<open>IterateScope\<close> is the deferral out of
  callbacks; its fuel is bounded by the calls deferred. \<open>ProfileFile\<close> is saving, re-keying, loading
  and the recovery of \<open>InitSDK\<close> over a file system with every answer of the system calls;
  \<open>ProfileProperties\<close>: atomic and durable replacement, no plaintext on disk under a passphrase,
  round trip, all-or-nothing re-key, encrypted profiles are never touched.

  \<^bold>\<open>File transfers\<close> (\<open>ffi/tim2tox_ffi.cpp\<close>, \<open>ffi/file_io_compat.cpp\<close>). \<open>FileNames\<close>: stored names, markers and
  write ranges; a hostile name stays in the directory. \<open>FileTransfer\<close>: the send and receive contexts
  and every callback and call on them. \<open>FileTransferProperties\<close>: a file arrives as sent for any
  chunking, a receive is all or nothing, chunks stay inside their file and its size, the sweep
  removes exactly what is unfinished.

  \<^bold>\<open>Not modelled.\<close> The rest of the manager core, of the group, friendship and message managers and of the toxcore and audio/video wrappers
  moves data between the SDK structures and toxcore calls. The Dart compatibility layer and the
  C bindings convert structures to JSON and forward. Logging, the SDK value types and the public
  headers hold no decisions; tests, examples, patches and the Dart package are not part of the
  core.
\<close>

end
